(* ===== verification/Prelude.thy ===== *)
theory Prelude
  imports Main "HOL-Library.Word" "HOL-Library.List_Lexorder" "HOL-Library.Char_ord"
begin

text \<open>
  The vocabulary every component of the development shares: the result type of a fallible Rust
  function (with panics and non-termination as values), Rust strings as UTF-8 byte strings,
  saturating and wrapping 64-bit arithmetic, the decimal printing of counters, the standard
  library's ordered map as a strictly sorted association list, in-place updates of vector
  elements, and the \<open>while let\<close> loop that follows a chain of parent links.
\<close>

named_theorems result_simps \<open>equations and equivalences of the result monad\<close>
named_theorems op_defs \<open>definitions of the modelled operations\<close>
named_theorems frame \<open>fields an operation leaves alone\<close>

unbundle bit_operations_syntax

section \<open>Results\<close>

text \<open>
  \<open>Ok\<close> and \<open>Err\<close> are the variants of \<^verbatim>\<open>Result\<close>. \<open>Panic\<close> is a failed \<^verbatim>\<open>expect\<close>, \<open>Diverge\<close> a
  loop that never returns. The operator \<^verbatim>\<open>?\<close> is \<open>and_then\<close>: everything but \<open>Ok\<close> ends the function.
\<close>

datatype ('a, 'e) result = Ok 'a | Err 'e | Panic | Diverge

fun and_then :: "('a, 'e) result \<Rightarrow> ('a \<Rightarrow> ('b, 'e) result) \<Rightarrow> ('b, 'e) result" where
  "and_then (Ok x) f = f x"
| "and_then (Err e) f = Err e"
| "and_then Panic f = Panic"
| "and_then Diverge f = Diverge"

fun ok_or :: "'a option \<Rightarrow> 'e \<Rightarrow> ('a, 'e) result" where
  "ok_or None e = Err e"
| "ok_or (Some x) e = Ok x"

fun expect :: "'a option \<Rightarrow> ('a, 'e) result" where
  "expect None = Panic"
| "expect (Some x) = Ok x"

fun returned :: "'a option \<Rightarrow> ('a, 'e) result" where
  "returned None = Diverge"
| "returned (Some x) = Ok x"

fun is_ok :: "('a, 'e) result \<Rightarrow> bool" where
  "is_ok (Ok _) = True"
| "is_ok _ = False"

text \<open>Bool-valued views of a result, which evaluate without comparing error values.\<close>

fun ok_value :: "('a, 'e) result \<Rightarrow> 'a option" where
  "ok_value (Ok x) = Some x"
| "ok_value _ = None"

fun panics :: "('a, 'e) result \<Rightarrow> bool" where
  "panics Panic = True"
| "panics _ = False"

fun diverges :: "('a, 'e) result \<Rightarrow> bool" where
  "diverges Diverge = True"
| "diverges _ = False"

fun err_value :: "('a, 'e) result \<Rightarrow> 'e option" where
  "err_value (Err e) = Some e"
| "err_value _ = None"

text \<open>A \<^verbatim>\<open>for\<close> loop whose body may leave the function with \<^verbatim>\<open>?\<close>.\<close>

fun for_each :: "('a \<Rightarrow> (unit, 'e) result) \<Rightarrow> 'a list \<Rightarrow> (unit, 'e) result" where
  "for_each f [] = Ok ()"
| "for_each f (x # xs) = and_then (f x) (\<lambda>_. for_each f xs)"

fun fold_res :: "('s \<Rightarrow> 'a \<Rightarrow> ('s, 'e) result) \<Rightarrow> 's \<Rightarrow> 'a list \<Rightarrow> ('s, 'e) result" where
  "fold_res f s [] = Ok s"
| "fold_res f s (x # xs) = and_then (f s x) (\<lambda>s'. fold_res f s' xs)"

lemma and_then_Ok_iff [result_simps]:
  "and_then r f = Ok y \<longleftrightarrow> (\<exists>x. r = Ok x \<and> f x = Ok y)"
  by (cases r) auto

lemma and_then_Panic_iff [result_simps]:
  "and_then r f = Panic \<longleftrightarrow> r = Panic \<or> (\<exists>x. r = Ok x \<and> f x = Panic)"
  by (cases r) auto

lemma and_then_Diverge_iff [result_simps]:
  "and_then r f = Diverge \<longleftrightarrow> r = Diverge \<or> (\<exists>x. r = Ok x \<and> f x = Diverge)"
  by (cases r) auto

lemma and_then_Err_iff [result_simps]:
  "and_then r f = Err e \<longleftrightarrow> r = Err e \<or> (\<exists>x. r = Ok x \<and> f x = Err e)"
  by (cases r) auto

lemma and_then_cong [fundef_cong]:
  "r = r' \<Longrightarrow> (\<And>x. r' = Ok x \<Longrightarrow> f x = g x) \<Longrightarrow> and_then r f = and_then r' g"
  by (cases r') auto

lemma ok_or_simps [result_simps]:
  "ok_or m e = Ok x \<longleftrightarrow> m = Some x"
  "ok_or m e = Err d \<longleftrightarrow> m = None \<and> d = e"
  "ok_or m e \<noteq> Panic" "ok_or m e \<noteq> Diverge"
  by (cases m; auto)+

lemma expect_simps [result_simps]:
  "expect m = Ok x \<longleftrightarrow> m = Some x"
  "expect m = Panic \<longleftrightarrow> m = None"
  "expect m \<noteq> Err d" "expect m \<noteq> Diverge"
  by (cases m; auto)+

lemma returned_simps [result_simps]:
  "returned m = Ok x \<longleftrightarrow> m = Some x"
  "returned m = Diverge \<longleftrightarrow> m = None"
  "returned m \<noteq> Err d" "returned m \<noteq> Panic"
  by (cases m; auto)+

lemma is_ok_iff: "is_ok r \<longleftrightarrow> (\<exists>x. r = Ok x)"
  by (cases r) auto

lemma is_ok_unit: "is_ok r \<longleftrightarrow> r = Ok ()"
  by (cases r) auto

lemma ok_value_iff: "ok_value r = Some x \<longleftrightarrow> r = Ok x"
  by (cases r) auto

lemma err_value_iff: "err_value r = Some e \<longleftrightarrow> r = Err e"
  by (cases r) auto

lemma panics_iff: "panics r \<longleftrightarrow> r = Panic"
  by (cases r) auto

lemma diverges_iff: "diverges r \<longleftrightarrow> r = Diverge"
  by (cases r) auto

lemma for_each_Ok_iff [result_simps]:
  "for_each f xs = Ok () \<longleftrightarrow> (\<forall>x\<in>set xs. f x = Ok ())"
  by (induction xs) (auto simp: result_simps)

lemma for_each_Ok_unit [result_simps]:
  "for_each f xs = Ok u \<longleftrightarrow> (\<forall>x\<in>set xs. f x = Ok ())"
  by (cases u) (simp add: for_each_Ok_iff)

lemma for_each_PanicD: "for_each f xs = Panic \<Longrightarrow> \<exists>x\<in>set xs. f x = Panic"
  by (induction xs) (auto simp: result_simps)

lemma for_each_DivergeD: "for_each f xs = Diverge \<Longrightarrow> \<exists>x\<in>set xs. f x = Diverge"
  by (induction xs) (auto simp: result_simps)

lemma for_each_ErrD: "for_each f xs = Err e \<Longrightarrow> \<exists>x\<in>set xs. f x = Err e"
  by (induction xs) (auto simp: result_simps)

lemma for_each_cong [fundef_cong]:
  "xs = ys \<Longrightarrow> (\<And>x. x \<in> set ys \<Longrightarrow> f x = g x) \<Longrightarrow> for_each f xs = for_each g ys"
proof (induction xs arbitrary: ys)
  case (Cons x xs)
  then show ?case by (cases ys) (auto intro!: and_then_cong)
qed simp

lemma fold_res_cong [fundef_cong]:
  "s = t \<Longrightarrow> xs = ys \<Longrightarrow> (\<And>s x. x \<in> set ys \<Longrightarrow> f s x = g s x) \<Longrightarrow> fold_res f s xs = fold_res g t ys"
proof (induction xs arbitrary: ys s t)
  case (Cons x xs)
  then show ?case by (cases ys) (auto intro!: and_then_cong)
qed simp

lemma fold_res_append:
  "fold_res f s (xs @ ys) = and_then (fold_res f s xs) (\<lambda>s'. fold_res f s' ys)"
proof (induction xs arbitrary: s)
  case (Cons x xs)
  then show ?case by (cases "f s x") auto
qed simp

text \<open>An invariant of the loop body is an invariant of the loop.\<close>

lemma fold_res_inv:
  assumes "fold_res f s xs = Ok t" and "I s"
    and "\<And>s x t. x \<in> set xs \<Longrightarrow> I s \<Longrightarrow> f s x = Ok t \<Longrightarrow> I t"
  shows "I t"
  using assms by (induction xs arbitrary: s) (auto simp: result_simps)

lemma fold_res_no_panic:
  assumes "I s" and "\<And>s x. x \<in> set xs \<Longrightarrow> I s \<Longrightarrow> f s x \<noteq> Panic"
    and "\<And>s x t. x \<in> set xs \<Longrightarrow> I s \<Longrightarrow> f s x = Ok t \<Longrightarrow> I t"
  shows "fold_res f s xs \<noteq> Panic"
  using assms
proof (induction xs arbitrary: s)
  case (Cons x xs)
  have "fold_res f t xs \<noteq> Panic" if "f s x = Ok t" for t
  proof (rule Cons.IH)
    show "I t" using Cons.prems(1) that by (rule Cons.prems(3) [rotated 1]) simp
  qed (use Cons.prems in \<open>auto intro: Cons.prems(3)\<close>)
  with Cons.prems(1,2) show ?case by (auto simp: result_simps)
qed simp

lemma fold_res_no_diverge:
  assumes "I s" and "\<And>s x. x \<in> set xs \<Longrightarrow> I s \<Longrightarrow> f s x \<noteq> Diverge"
    and "\<And>s x t. x \<in> set xs \<Longrightarrow> I s \<Longrightarrow> f s x = Ok t \<Longrightarrow> I t"
  shows "fold_res f s xs \<noteq> Diverge"
  using assms
proof (induction xs arbitrary: s)
  case (Cons x xs)
  have "fold_res f t xs \<noteq> Diverge" if "f s x = Ok t" for t
  proof (rule Cons.IH)
    show "I t" using Cons.prems(1) that by (rule Cons.prems(3) [rotated 1]) simp
  qed (use Cons.prems in \<open>auto intro: Cons.prems(3)\<close>)
  with Cons.prems(1,2) show ?case by (auto simp: result_simps)
qed simp

lemma fold_res_returns:
  assumes "I s" and "\<And>s x. x \<in> set xs \<Longrightarrow> I s \<Longrightarrow> f s x \<notin> {Panic, Diverge}"
    and "\<And>s x t. x \<in> set xs \<Longrightarrow> I s \<Longrightarrow> f s x = Ok t \<Longrightarrow> I t"
  shows "fold_res f s xs \<notin> {Panic, Diverge}"
  using fold_res_no_panic [of I s xs f] fold_res_no_diverge [of I s xs f] assms by auto

lemma for_each_returns:
  "(\<And>x. x \<in> set xs \<Longrightarrow> f x \<notin> {Panic, Diverge}) \<Longrightarrow> for_each f xs \<notin> {Panic, Diverge}"
  by (auto dest!: for_each_PanicD for_each_DivergeD)

lemma and_then_returns:
  "r \<notin> {Panic, Diverge} \<Longrightarrow> (\<And>x. r = Ok x \<Longrightarrow> f x \<notin> {Panic, Diverge}) \<Longrightarrow>
     and_then r f \<notin> {Panic, Diverge}"
  by (cases r) auto

section \<open>Strings\<close>

text \<open>
  A \<^verbatim>\<open>String\<close> is its UTF-8 bytes, so \<^verbatim>\<open>len()\<close> is \<open>length\<close> and the derived order is the byte order.
  \<open>str_chars\<close> is \<^verbatim>\<open>chars()\<close>: the code points the bytes encode. Rust only ever holds well-formed
  UTF-8; on other byte sequences \<open>str_chars\<close> falls back to one code point per byte.
\<close>

abbreviation byte_of :: "char \<Rightarrow> int" where
  "byte_of c \<equiv> of_char c"

fun str_chars :: "string \<Rightarrow> int list" where
  "str_chars [] = []"
| "str_chars (a # bs) =
     (let x = byte_of a in
      if x < 192 then x # str_chars bs
      else if x < 224 then
        (case bs of
           b # bs' \<Rightarrow> ((x - 192) * 64 + (byte_of b - 128)) # str_chars bs'
         | _ \<Rightarrow> x # str_chars bs)
      else if x < 240 then
        (case bs of
           b # c # bs' \<Rightarrow>
             ((x - 224) * 4096 + (byte_of b - 128) * 64 + (byte_of c - 128)) # str_chars bs'
         | _ \<Rightarrow> x # str_chars bs)
      else
        (case bs of
           b # c # d # bs' \<Rightarrow>
             ((x - 240) * 262144 + (byte_of b - 128) * 4096 + (byte_of c - 128) * 64
               + (byte_of d - 128)) # str_chars bs'
         | _ \<Rightarrow> x # str_chars bs))"

text \<open>The Unicode property \<^verbatim>\<open>White_Space\<close> (\<^verbatim>\<open>char::is_whitespace\<close>) and category \<^verbatim>\<open>Cc\<close>
  (\<^verbatim>\<open>char::is_control\<close>).\<close>

definition is_whitespace :: "int \<Rightarrow> bool" where
  "is_whitespace c \<longleftrightarrow>
     (9 \<le> c \<and> c \<le> 13) \<or> c = 32 \<or> c = 133 \<or> c = 160 \<or> c = 5760 \<or> (8192 \<le> c \<and> c \<le> 8202)
     \<or> c = 8232 \<or> c = 8233 \<or> c = 8239 \<or> c = 8287 \<or> c = 12288"

definition is_control :: "int \<Rightarrow> bool" where
  "is_control c \<longleftrightarrow> c \<le> 31 \<or> (127 \<le> c \<and> c \<le> 159)"

text \<open>\<^verbatim>\<open>value.trim().is_empty()\<close>: nothing but white space.\<close>

definition is_blank :: "string \<Rightarrow> bool" where
  "is_blank s \<longleftrightarrow> list_all is_whitespace (str_chars s)"

lemma is_blank_Nil [simp]: "is_blank []"
  by (simp add: is_blank_def)

text \<open>\<^verbatim>\<open>slice::join\<close> of strings.\<close>

fun join_strings :: "string \<Rightarrow> string list \<Rightarrow> string" where
  "join_strings sep [] = []"
| "join_strings sep [s] = s"
| "join_strings sep (s # t # ss) = s @ sep @ join_strings sep (t # ss)"

section \<open>Machine integers\<close>

type_synonym u16 = "16 word"
type_synonym u64 = "64 word"

definition saturating_add :: "u64 \<Rightarrow> u64 \<Rightarrow> u64" where
  "saturating_add a b = (if uint a + uint b < 2 ^ 64 then a + b else - 1)"

definition saturating_sub :: "u64 \<Rightarrow> u64 \<Rightarrow> u64" where
  "saturating_sub a b = (if b \<le> a then a - b else 0)"

lemma unat_saturating_add:
  "unat (saturating_add a b) = min (unat a + unat b) (2 ^ 64 - 1)"
proof -
  have "unat (- 1 :: u64) = 2 ^ 64 - 1"
    by (simp add: unsigned_minus_1_eq_mask mask_eq_exp_minus_1)
  moreover have "uint a + uint b < 2 ^ 64 \<longleftrightarrow> unat a + unat b < 2 ^ 64"
    unfolding uint_nat by (metis of_nat_add of_nat_less_numeral_power_cancel_iff)
  ultimately show ?thesis
    by (auto simp: saturating_add_def unat_word_ariths)
qed

lemma saturating_add_ge: "a \<le> saturating_add a b"
  unfolding word_le_nat_alt unat_saturating_add
  using unsigned_less [where 'a = nat, of a] by simp

lemma unat_saturating_sub: "unat (saturating_sub a b) = unat a - unat b"
  by (auto simp: saturating_sub_def unat_sub word_le_nat_alt not_le)

text \<open>The decimal digits of a counter, as \<^verbatim>\<open>format!("{}", n)\<close> prints them.\<close>

definition digit_char :: "nat \<Rightarrow> char" where
  "digit_char d = char_of (48 + d)"

fun show_nat :: "nat \<Rightarrow> string" where
  "show_nat n =
     (if n < 10 then [digit_char n] else show_nat (n div 10) @ [digit_char (n mod 10)])"

declare show_nat.simps [simp del]

definition show_u64 :: "u64 \<Rightarrow> string" where
  "show_u64 w = show_nat (unat w)"

lemma digit_char_inj: "d < 10 \<Longrightarrow> e < 10 \<Longrightarrow> digit_char d = digit_char e \<Longrightarrow> d = e"
proof -
  assume "d < 10" "e < 10" "digit_char d = digit_char e"
  then have "(48 + d) mod 256 = (48 + e) mod 256"
    unfolding digit_char_def by (metis of_char_of)
  with \<open>d < 10\<close> \<open>e < 10\<close> show ?thesis by simp
qed

lemma show_nat_not_Nil [simp]: "show_nat n \<noteq> []"
  by (subst show_nat.simps) simp

lemma show_nat_inj: "show_nat m = show_nat n \<Longrightarrow> m = n"
proof (induction m arbitrary: n rule: show_nat.induct)
  case (1 m)
  show ?case
  proof (cases "m < 10")
    case True
    then have m: "show_nat m = [digit_char m]"
      by (subst show_nat.simps) simp
    have "n < 10"
    proof (rule ccontr)
      assume "\<not> n < 10"
      then have "show_nat n = show_nat (n div 10) @ [digit_char (n mod 10)]"
        by (subst show_nat.simps) simp
      with "1.prems" m show False by (cases "show_nat (n div 10)") auto
    qed
    then have "show_nat n = [digit_char n]"
      by (subst show_nat.simps) simp
    with "1.prems" m True \<open>n < 10\<close> show ?thesis by (auto dest: digit_char_inj)
  next
    case False
    then have m: "show_nat m = show_nat (m div 10) @ [digit_char (m mod 10)]"
      by (subst show_nat.simps) simp
    have "\<not> n < 10"
    proof
      assume "n < 10"
      then have "show_nat n = [digit_char n]"
        by (subst show_nat.simps) simp
      with "1.prems" m show False by (cases "show_nat (m div 10)") auto
    qed
    then have "show_nat n = show_nat (n div 10) @ [digit_char (n mod 10)]"
      by (subst show_nat.simps) simp
    with "1.prems" m have "show_nat (m div 10) = show_nat (n div 10)"
      and "digit_char (m mod 10) = digit_char (n mod 10)" by auto
    then have "m div 10 = n div 10" and "m mod 10 = n mod 10"
      using "1.IH" [OF False] digit_char_inj [of "m mod 10" "n mod 10"] by auto
    then show ?thesis by (metis div_mult_mod_eq)
  qed
qed

lemma show_u64_inj: "show_u64 a = show_u64 b \<longleftrightarrow> a = b"
  by (auto simp: show_u64_def word_unat_eq_iff dest: show_nat_inj)


section \<open>Ordered maps\<close>

text \<open>
  What the code relies on in \<^verbatim>\<open>BTreeMap\<close>: lookups after inserts and removals, and keys in
  ascending order. A client lemma proved here holds for every implementation.
\<close>

locale ordered_map =
  fixes empty_map :: "'m"
    and insert_map :: "'k::linorder \<Rightarrow> 'v \<Rightarrow> 'm \<Rightarrow> 'm"
    and remove_map :: "'k \<Rightarrow> 'm \<Rightarrow> 'm"
    and get_map :: "'m \<Rightarrow> 'k \<Rightarrow> 'v option"
    and keys_map :: "'m \<Rightarrow> 'k list"
    and wf_map :: "'m \<Rightarrow> bool"
  assumes get_empty: "get_map empty_map = Map.empty"
    and get_insert: "wf_map m \<Longrightarrow> get_map (insert_map k v m) = (get_map m)(k \<mapsto> v)"
    and get_remove: "wf_map m \<Longrightarrow> get_map (remove_map k m) = (get_map m)(k := None)"
    and set_keys: "wf_map m \<Longrightarrow> set (keys_map m) = dom (get_map m)"
    and keys_ascending: "wf_map m \<Longrightarrow> sorted_wrt (<) (keys_map m)"
    and wf_empty: "wf_map empty_map"
    and wf_insert: "wf_map m \<Longrightarrow> wf_map (insert_map k v m)"
    and wf_remove: "wf_map m \<Longrightarrow> wf_map (remove_map k m)"
begin

lemmas laws = get_empty get_insert get_remove set_keys keys_ascending wf_empty wf_insert wf_remove

lemma foldl_insert_wf:
  "wf_map m \<Longrightarrow> wf_map (foldl (\<lambda>m (k, v). insert_map k v m) m kvs)"
  by (induction kvs arbitrary: m) (auto simp: wf_insert)

lemma foldl_insert_get:
  "wf_map m \<Longrightarrow>
     get_map (foldl (\<lambda>m (k, v). insert_map k v m) m kvs) = get_map m ++ map_of (rev kvs)"
proof (induction kvs arbitrary: m)
  case (Cons kv kvs)
  then show ?case
    by (cases kv) (simp add: wf_insert get_insert fun_eq_iff map_add_def split: option.split)
qed simp

lemma foldl_insert_distinct:
  assumes "wf_map m" and "distinct (map fst kvs)"
  shows "get_map (foldl (\<lambda>m (k, v). insert_map k v m) m kvs) = get_map m ++ map_of kvs"
proof -
  have "map_of (rev kvs) = map_of kvs"
    using assms(2) by (intro map_of_eqI ballI) (auto simp: map_of_eq_Some_iff rev_map [symmetric])
  then show ?thesis by (simp add: foldl_insert_get assms(1))
qed

lemma foldl_remove_wf: "wf_map m \<Longrightarrow> wf_map (foldl (\<lambda>m k. remove_map k m) m ks)"
  by (induction ks arbitrary: m) (auto simp: wf_remove)

lemma foldl_remove_get:
  "wf_map m \<Longrightarrow>
     get_map (foldl (\<lambda>m k. remove_map k m) m ks) = (\<lambda>k. if k \<in> set ks then None else get_map m k)"
  by (induction ks arbitrary: m) (auto simp: wf_remove get_remove fun_eq_iff)

lemma insert_present_dom:
  "wf_map m \<Longrightarrow> get_map m k = Some v \<Longrightarrow> dom (get_map (insert_map k w m)) = dom (get_map m)"
  by (auto simp: get_insert)

lemma keys_distinct: "wf_map m \<Longrightarrow> distinct (keys_map m)"
  using keys_ascending strict_sorted_iff by blast

end

text \<open>The model's \<^verbatim>\<open>BTreeMap\<close>: an association list with strictly ascending keys.\<close>

type_synonym ('k, 'v) btree_map = "('k \<times> 'v) list"

fun bt_insert :: "'k::linorder \<Rightarrow> 'v \<Rightarrow> ('k, 'v) btree_map \<Rightarrow> ('k, 'v) btree_map" where
  "bt_insert k v [] = [(k, v)]"
| "bt_insert k v ((k', v') # m) =
     (if k < k' then (k, v) # (k', v') # m
      else if k = k' then (k, v) # m
      else (k', v') # bt_insert k v m)"

definition bt_remove :: "'k \<Rightarrow> ('k, 'v) btree_map \<Rightarrow> ('k, 'v) btree_map" where
  "bt_remove k m = filter (\<lambda>(k', _). k' \<noteq> k) m"

abbreviation bt_get :: "('k, 'v) btree_map \<Rightarrow> 'k \<Rightarrow> 'v option" where
  "bt_get \<equiv> map_of"

abbreviation bt_keys :: "('k, 'v) btree_map \<Rightarrow> 'k list" where
  "bt_keys \<equiv> map fst"

abbreviation bt_values :: "('k, 'v) btree_map \<Rightarrow> 'v list" where
  "bt_values \<equiv> map snd"

definition bt_extend :: "('k::linorder, 'v) btree_map \<Rightarrow> ('k \<times> 'v) list \<Rightarrow> ('k, 'v) btree_map" where
  "bt_extend m kvs = foldl (\<lambda>m (k, v). bt_insert k v m) m kvs"

definition bt_remove_all :: "('k, 'v) btree_map \<Rightarrow> 'k list \<Rightarrow> ('k, 'v) btree_map" where
  "bt_remove_all m ks = foldl (\<lambda>m k. bt_remove k m) m ks"

definition bt_wf :: "('k::linorder, 'v) btree_map \<Rightarrow> bool" where
  "bt_wf m \<longleftrightarrow> sorted_wrt (<) (map fst m)"

lemma keys_bt_insert: "set (map fst (bt_insert k v m)) = insert k (set (map fst m))"
  by (induction k v m rule: bt_insert.induct) (simp_all add: insert_commute insert_absorb2)

lemma get_bt_insert: "bt_wf m \<Longrightarrow> bt_get (bt_insert k v m) = (bt_get m)(k \<mapsto> v)"
  by (induction m) (auto simp: bt_wf_def fun_eq_iff)

lemma bt_wf_insert: "bt_wf m \<Longrightarrow> bt_wf (bt_insert k v m)"
proof (induction m)
  case (Cons kv m)
  then show ?case
    using keys_bt_insert [of k v m] by (cases kv) (auto simp: bt_wf_def)
qed (simp add: bt_wf_def)

lemma get_bt_remove: "bt_get (bt_remove k m) = (bt_get m)(k := None)"
  by (induction m) (auto simp: bt_remove_def fun_eq_iff)

lemma bt_wf_remove: "bt_wf m \<Longrightarrow> bt_wf (bt_remove k m)"
  by (induction m) (auto simp: bt_wf_def bt_remove_def)

interpretation bt: ordered_map "[]" bt_insert bt_remove bt_get bt_keys bt_wf
  by unfold_locales
    (auto simp: get_bt_insert get_bt_remove bt_wf_insert bt_wf_remove dom_map_of_conv_image_fst,
      auto simp: bt_wf_def)

lemma bt_wf_distinct: "bt_wf m \<Longrightarrow> distinct (map fst m)"
  by (rule bt.keys_distinct)

lemma bt_get_iff: "bt_wf m \<Longrightarrow> bt_get m k = Some v \<longleftrightarrow> (k, v) \<in> set m"
  by (simp add: bt_wf_distinct)

lemma bt_eqI:
  assumes "bt_wf m" and "bt_wf m'" and "bt_get m = bt_get m'"
  shows "m = m'"
proof -
  have "set (map fst m) = set (map fst m')"
    using assms(3) by (metis dom_map_of_conv_image_fst list.set_map)
  then have keys: "map fst m = map fst m'"
    using assms(1,2) by (auto simp: bt_wf_def intro!: strict_sorted_equal)
  have "x = map (\<lambda>k. (k, the (bt_get x k))) (map fst x)" if "bt_wf x" for x :: "('a, 'b) btree_map"
    using that by (auto simp: bt_get_iff [symmetric] intro!: map_idI [symmetric])
  from this [OF assms(1)] this [OF assms(2)] keys assms(3) show ?thesis by metis
qed

lemma bt_wf_Nil [simp]: "bt_wf []"
  by (rule bt.wf_empty)

lemma bt_wf_extend: "bt_wf m \<Longrightarrow> bt_wf (bt_extend m kvs)"
  unfolding bt_extend_def by (rule bt.foldl_insert_wf)

lemma get_bt_extend:
  "bt_wf m \<Longrightarrow> distinct (map fst kvs) \<Longrightarrow> bt_get (bt_extend m kvs) = bt_get m ++ map_of kvs"
  unfolding bt_extend_def by (rule bt.foldl_insert_distinct)

lemma bt_wf_remove_all: "bt_wf m \<Longrightarrow> bt_wf (bt_remove_all m ks)"
  unfolding bt_remove_all_def by (rule bt.foldl_remove_wf)

lemma get_bt_remove_all:
  "bt_wf m \<Longrightarrow> bt_get (bt_remove_all m ks) = (\<lambda>k. if k \<in> set ks then None else bt_get m k)"
  unfolding bt_remove_all_def by (rule bt.foldl_remove_get)

text \<open>\<^verbatim>\<open>BTreeSet\<close>: a strictly ascending list; inserting is the library's \<open>insort_insert\<close>.\<close>

definition bs_collect :: "'a::linorder list \<Rightarrow> 'a list" where
  "bs_collect xs = sort (remdups xs)"

lemma set_bs_collect [simp]: "set (bs_collect xs) = set xs"
  by (simp add: bs_collect_def)

lemma distinct_bs_collect [simp]: "distinct (bs_collect xs)"
  by (simp add: bs_collect_def)

section \<open>Vectors\<close>

text \<open>\<^verbatim>\<open>iter_mut().find(p)\<close> followed by an assignment through the reference, and \<^verbatim>\<open>position\<close>.\<close>

fun update_first :: "('a \<Rightarrow> bool) \<Rightarrow> ('a \<Rightarrow> 'a) \<Rightarrow> 'a list \<Rightarrow> 'a list" where
  "update_first p f [] = []"
| "update_first p f (x # xs) = (if p x then f x # xs else x # update_first p f xs)"

fun position :: "('a \<Rightarrow> bool) \<Rightarrow> 'a list \<Rightarrow> nat option" where
  "position p [] = None"
| "position p (x # xs) = (if p x then Some 0 else map_option Suc (position p xs))"

lemma length_update_first [simp]: "length (update_first p f xs) = length xs"
  by (induction xs) auto

lemma map_update_first [simp]:
  "(\<And>x. p x \<Longrightarrow> g (f x) = g x) \<Longrightarrow> map g (update_first p f xs) = map g xs"
  by (induction xs) auto

lemma set_update_first: "set (update_first p f xs) \<subseteq> set xs \<union> f ` {x \<in> set xs. p x}"
  by (induction xs) auto

lemma update_first_absent: "\<not> (\<exists>x\<in>set xs. p x) \<Longrightarrow> update_first p f xs = xs"
  by (induction xs) auto

lemma position_Some_iff:
  "position p xs = Some i \<longleftrightarrow> i < length xs \<and> p (xs ! i) \<and> (\<forall>j<i. \<not> p (xs ! j))"
proof (induction xs arbitrary: i)
  case (Cons x xs)
  show ?case
  proof (cases i)
    case 0
    then show ?thesis by auto
  next
    case (Suc k)
    have "(\<forall>j<Suc k. \<not> p ((x # xs) ! j)) \<longleftrightarrow> \<not> p x \<and> (\<forall>j<k. \<not> p (xs ! j))"
      by (auto simp: less_Suc_eq_0_disj)
    then show ?thesis using Suc Cons.IH [of k] by auto
  qed
qed simp

lemma position_None_iff: "position p xs = None \<longleftrightarrow> (\<forall>x\<in>set xs. \<not> p x)"
  by (induction xs) auto

lemma find_None_iff_set: "List.find p xs = None \<longleftrightarrow> (\<forall>x\<in>set xs. \<not> p x)"
  by (auto simp: find_None_iff)

lemma find_SomeD: "List.find p xs = Some x \<Longrightarrow> x \<in> set xs \<and> p x"
  by (induction xs) (auto split: if_splits)

lemma find_by_key:
  "distinct (map k xs) \<Longrightarrow> x \<in> set xs \<Longrightarrow> List.find (\<lambda>y. k y = k x) xs = Some x"
  by (induction xs) (auto simp: image_iff)

lemma map_of_by_key: "map_of (map (\<lambda>x. (k x, x)) xs) key = List.find (\<lambda>x. k x = key) xs"
  by (induction xs) auto

section \<open>Following links\<close>

text \<open>
  \<^verbatim>\<open>while let Some(x) = cursor { ...; cursor = f(x) }\<close>, with the visited elements as its result.
  \<open>None\<close> says that the fuel ran out. A chain that ends never visits an element twice, so one
  more step than there are elements with a successor is always enough
  (\<open>chase_enough\<close>): running out of that much fuel is running forever.
\<close>

fun chase :: "('a \<Rightarrow> 'a option) \<Rightarrow> nat \<Rightarrow> 'a option \<Rightarrow> 'a list option" where
  "chase f n None = Some []"
| "chase f 0 (Some x) = None"
| "chase f (Suc n) (Some x) = map_option ((#) x) (chase f n (f x))"

lemma chase_mono: "chase f n c = Some xs \<Longrightarrow> n \<le> m \<Longrightarrow> chase f m c = Some xs"
proof (induction f n c arbitrary: xs m rule: chase.induct)
  case (3 f n x)
  from "3.prems" obtain k ys where m: "m = Suc k" and ys: "xs = x # ys" "chase f n (f x) = Some ys"
    by (cases m) auto
  with "3.prems" have "chase f k (f x) = Some ys" by (auto intro: "3.IH" [OF ys(2)])
  with m ys show ?case by simp
qed auto

lemma chase_unique: "chase f n c = Some xs \<Longrightarrow> chase f m c = Some ys \<Longrightarrow> xs = ys"
  using chase_mono [of f n c xs "max n m"] chase_mono [of f m c ys "max n m"] by simp

lemma chase_length: "chase f n c = Some xs \<Longrightarrow> length xs \<le> n"
  by (induction f n c arbitrary: xs rule: chase.induct) auto

lemma chase_suffix:
  "chase f n c = Some (as @ y # bs) \<Longrightarrow> \<exists>m. chase f m (Some y) = Some (y # bs)"
proof (induction as arbitrary: n c)
  case Nil
  then have "c = Some y" by (cases c; cases n) auto
  with Nil show ?case by auto
next
  case (Cons a as)
  then show ?case by (cases c; cases n) auto
qed

lemma chase_distinct: "chase f n c = Some xs \<Longrightarrow> distinct xs"
proof (induction f n c arbitrary: xs rule: chase.induct)
  case (3 f n x)
  then obtain ys where ys: "chase f n (f x) = Some ys" "xs = x # ys" by auto
  have "x \<notin> set ys"
  proof
    assume "x \<in> set ys"
    then obtain as bs where "ys = as @ x # bs" by (auto dest: split_list)
    with ys(1) obtain m where "chase f m (Some x) = Some (x # bs)"
      using chase_suffix by metis
    with "3.prems" ys(2) have "x # ys = x # bs" using chase_unique by metis
    with \<open>ys = as @ x # bs\<close> show False by simp
  qed
  with ys "3.IH" show ?case by auto
qed auto

lemma chase_successors:
  "chase f n c = Some xs \<Longrightarrow> x \<in> set (butlast xs) \<Longrightarrow> f x \<noteq> None"
proof (induction f n c arbitrary: xs rule: chase.induct)
  case (3 f n y)
  then show ?case by (cases "f y") (auto split: if_splits)
qed auto

lemma chase_bound:
  assumes "chase f n c = Some xs" and "finite S" and "\<And>x. f x \<noteq> None \<Longrightarrow> x \<in> S"
  shows "length xs \<le> Suc (card S)"
proof -
  have "distinct (butlast xs)" using assms(1) chase_distinct distinct_butlast by blast
  then have "length (butlast xs) = card (set (butlast xs))" by (simp add: distinct_card)
  also have "\<dots> \<le> card S"
    using assms by (intro card_mono) (auto dest: chase_successors)
  finally show ?thesis by simp
qed

lemma chase_exact: "chase f n c = Some xs \<Longrightarrow> length xs \<le> m \<Longrightarrow> chase f m c = Some xs"
proof (induction f n c arbitrary: xs m rule: chase.induct)
  case (3 f n x)
  from "3.prems" obtain k ys where m: "m = Suc k" and ys: "xs = x # ys" "chase f n (f x) = Some ys"
    by (cases m) auto
  with "3.prems" have "chase f k (f x) = Some ys" by (auto intro: "3.IH" [OF ys(2)])
  with m ys show ?case by simp
qed auto

lemma chase_enough:
  assumes "finite S" and "\<And>x. f x \<noteq> None \<Longrightarrow> x \<in> S" and "Suc (card S) \<le> m"
  shows "chase f m c = None \<longleftrightarrow> (\<forall>n. chase f n c = None)"
proof -
  have "chase f m c \<noteq> None" if xs: "chase f n c = Some xs" for n xs
  proof -
    have "length xs \<le> m" using chase_bound [OF xs assms(1,2)] assms(3) by simp
    with xs chase_exact show ?thesis by (metis option.distinct(1))
  qed
  then have "chase f m c = None \<Longrightarrow> chase f n c = None" for n by (cases "chase f n c") auto
  then show ?thesis by blast
qed

lemma chase_step:
  "chase f n (Some x) = Some xs \<Longrightarrow> \<exists>ys. xs = x # ys \<and> chase f n (f x) = Some ys"
  by (cases n) (auto dest: chase_mono [OF _ le_SucI [OF order_refl]])

text \<open>The links as a relation: the chain visits exactly what is reachable, and a node from which a
  chain ends lies on no cycle.\<close>

definition link_rel :: "('a \<Rightarrow> 'a option) \<Rightarrow> ('a \<times> 'a) set" where
  "link_rel f = {(a, b). f a = Some b}"

lemma link_rel_iff [simp]: "(a, b) \<in> link_rel f \<longleftrightarrow> f a = Some b"
  by (simp add: link_rel_def)

lemma chase_reaches:
  "chase f n c = Some xs \<Longrightarrow> set xs = {y. \<exists>x. c = Some x \<and> (x, y) \<in> (link_rel f)\<^sup>*}"
proof (induction f n c arbitrary: xs rule: chase.induct)
  case (3 f n x)
  then obtain ys where ys: "xs = x # ys" "chase f n (f x) = Some ys" by auto
  then have "set ys = {y. \<exists>z. f x = Some z \<and> (z, y) \<in> (link_rel f)\<^sup>*}" by (intro "3.IH")
  moreover have "(x, y) \<in> (link_rel f)\<^sup>* \<longleftrightarrow>
      y = x \<or> (\<exists>z. f x = Some z \<and> (z, y) \<in> (link_rel f)\<^sup>*)" for y
    by (metis converse_rtranclE converse_rtrancl_into_rtrancl link_rel_iff rtrancl.rtrancl_refl)
  ultimately show ?case using ys by auto
qed auto

lemma chase_to_end:
  assumes "(x, r) \<in> (link_rel f)\<^sup>*" and "f r = None"
  shows "\<exists>n xs. chase f n (Some x) = Some xs"
  using assms(1)
proof (induction rule: converse_rtrancl_induct)
  case base
  have "chase f 1 (Some r) = Some [r]" using assms(2) by simp
  then show ?case by blast
next
  case (step x y)
  then obtain n xs where "chase f n (Some y) = Some xs" by blast
  with step have "chase f (Suc n) (Some x) = Some (x # xs)" by simp
  then show ?case by blast
qed

lemma no_cycle_above_end:
  assumes "(x, r) \<in> (link_rel f)\<^sup>*" and "f r = None"
  shows "(x, x) \<notin> (link_rel f)\<^sup>+"
  using assms(1)
proof (induction rule: converse_rtrancl_induct)
  case base
  then show ?case using assms(2) by (auto dest: tranclD)
next
  case (step x y)
  show ?case
  proof
    assume "(x, x) \<in> (link_rel f)\<^sup>+"
    then obtain z where "f x = Some z" "(z, x) \<in> (link_rel f)\<^sup>*" by (auto dest: tranclD)
    with step(1) have "(y, y) \<in> (link_rel f)\<^sup>+" by (auto intro: rtrancl_into_trancl1)
    with step.IH show False ..
  qed
qed

end
