(* ===== verification/Plan_Types.thy ===== *)
theory Plan_Types
  imports Prelude
begin

text \<open>
  The data model of the plan subsystem: the public snapshots of
  \<^verbatim>\<open>crates/merry-core/src/plan.rs\<close>, the request types of
  \<^verbatim>\<open>crates/merry-runtime/src/plan/protocol.rs\<close>, the error type of
  \<^verbatim>\<open>plan/domain/error.rs\<close> and the runtime state \<open>PlanState\<close> of \<^verbatim>\<open>plan/domain.rs\<close>. Enums keep
  the constructor names of the source; where two enums share a name the type qualifies it, as
  in Rust. Record fields carry a two-letter prefix of their record.
\<close>

section \<open>Identifiers\<close>

text \<open>
  Identifiers that are keys of ordered collections are newtypes with the derived order; the
  others are plain strings.
\<close>

datatype PlanNodeId = PlanNodeId (node_id_str: string)
datatype PlanDirectiveId = PlanDirectiveId (directive_id_str: string)

type_synonym PlanId = string
type_synonym PlanAttemptId = string
type_synonym PlanLeaseId = string
type_synonym PlanBindingId = string
type_synonym PlanApprovalRequirementId = string
type_synonym SessionId = string
type_synonym SubagentId = string
type_synonym SubagentTaskId = string
type_synonym SkillId = string
type_synonym ArtifactId = string
type_synonym ToolName = string

instantiation PlanNodeId :: linorder
begin

definition less_eq_PlanNodeId :: "PlanNodeId \<Rightarrow> PlanNodeId \<Rightarrow> bool" where
  "less_eq_PlanNodeId a b \<longleftrightarrow> node_id_str a \<le> node_id_str b"

definition less_PlanNodeId :: "PlanNodeId \<Rightarrow> PlanNodeId \<Rightarrow> bool" where
  "less_PlanNodeId a b \<longleftrightarrow> node_id_str a < node_id_str b"

instance
  by intro_classes
    (auto simp: less_eq_PlanNodeId_def less_PlanNodeId_def intro: PlanNodeId.expand)

end

instantiation PlanDirectiveId :: linorder
begin

definition less_eq_PlanDirectiveId :: "PlanDirectiveId \<Rightarrow> PlanDirectiveId \<Rightarrow> bool" where
  "less_eq_PlanDirectiveId a b \<longleftrightarrow> directive_id_str a \<le> directive_id_str b"

definition less_PlanDirectiveId :: "PlanDirectiveId \<Rightarrow> PlanDirectiveId \<Rightarrow> bool" where
  "less_PlanDirectiveId a b \<longleftrightarrow> directive_id_str a < directive_id_str b"

instance
  by intro_classes
    (auto simp: less_eq_PlanDirectiveId_def less_PlanDirectiveId_def intro: PlanDirectiveId.expand)

end

section \<open>Lifecycle vocabulary\<close>

datatype PlanPhase = Planning | AwaitingApproval | Executing | Completed | Blocked | Cancelled

datatype PlanNodeStatus =
  Pending | InProgress | Expanded | Verifying | Completed | Blocked | Failed | Superseded

datatype PlanLinkStatus = Active | Completed | Failed | Cancelled | Blocked | Superseded

datatype PlanExecutorPolicy = Local | Delegate | Auto

datatype PlanSchedulerStatus = Active | Paused | Draining

datatype PlanAttemptOutcome =
  Completed | Decomposed | Blocked | SemanticFailure | TransientFailure | Yielded | Cancelled
| Interrupted

datatype PlanLeaseStatus = Live | Resolved | Cancelled | Expired

datatype PlanDirectiveKind =
  RequestStatus | Steer | Converge | CheckpointAndContinue | CheckpointAndYield | CancelAtSafePoint

datatype PlanDirectiveStatus =
  Queued | Delivered | Acknowledged | Applied | Superseded | Expired

datatype PlanActivationSource =
  Coordinator string "SkillId option"
| User

datatype PlanApprovalRequirementKind =
  UserReviewRequested
| SkillReviewRequested SkillId
| RootObjectiveChange
| RootAcceptanceChange
| CapabilityOrPermissionExpansion
| DestructiveExternalAuthority
| RequiredExternalInput string

datatype PlanApprovalRequirementStatus = Pending | Resolved | Rejected

section \<open>Snapshots\<close>

datatype ArtifactKind = Text | Json | Binary | Image | Other

record ArtifactRef =
  ar_id :: ArtifactId
  ar_kind :: ArtifactKind
  ar_label :: "string option"

datatype EvidenceLocator =
  WholeArtifact | LineRange u64 u64 | ByteRange u64 u64 | JsonPointer string | NamedSection string

record EvidenceRef =
  ev_artifact_id :: ArtifactId
  ev_locator :: EvidenceLocator

record ErrorInfo =
  ei_code :: string
  ei_message :: string

record PlanExecutionSummary =
  es_active :: "32 word"
  es_completed :: "32 word"
  es_failed :: "32 word"
  es_cancelled :: "32 word"
  es_blocked :: "32 word"

record PlanLinkSnapshot =
  lk_plan_id :: PlanId
  lk_node_id :: PlanNodeId
  lk_binding_id :: PlanBindingId
  lk_subagent_id :: SubagentId
  lk_task_id :: SubagentTaskId
  lk_status :: PlanLinkStatus
  lk_linked_at_ms :: u64
  lk_terminal_at_ms :: "u64 option"
  lk_superseded_by :: "PlanBindingId option"

record PlanApprovalRequirementSnapshot =
  rq_requirement_id :: PlanApprovalRequirementId
  rq_kind :: PlanApprovalRequirementKind
  rq_status :: PlanApprovalRequirementStatus
  rq_created_revision :: u64
  rq_resolution_ref :: "string option"

record PlanHarnessSnapshot =
  ha_model_role :: "string option"
  ha_reasoning_effort :: "string option"
  ha_checkpoint_turn_interval :: "32 word option"
  ha_provider_request_timeout_ms :: "u64 option"
  ha_tool_timeout_ms :: "u64 option"
  ha_allowed_tools :: "ToolName list"
  ha_read_scope :: "string list"
  ha_write_scope :: "string list"
  ha_forbidden_paths :: "string list"

record PlanRecoveryPolicySnapshot =
  rp_max_transient_attempts :: "8 word"
  rp_retry_backoff_ms :: u64
  rp_retry_only_before_observable_side_effects :: bool

record PlanResourcePolicySnapshot =
  rs_max_concurrency :: u64
  rs_subagent_heartbeat_interval_ms :: u64
  rs_subagent_heartbeat_ttl_ms :: u64
  rs_provider_request_timeout_ms :: "u64 option"
  rs_tool_timeout_ms :: "u64 option"
  rs_checkpoint_turn_interval :: "32 word"
  rs_no_durable_progress_review_window_ms :: u64
  rs_repeated_failure_limit :: "8 word"

record PlanCapabilityEnvelopeSnapshot =
  ce_allowed_tools :: "ToolName list"
  ce_read_scope :: "string list"
  ce_write_scope :: "string list"
  ce_forbidden_paths :: "string list"
  ce_destructive_external_authority :: bool

record PlanNodeResult =
  nr_conclusion :: string
  nr_evidence_refs :: "EvidenceRef list"
  nr_artifact_refs :: "ArtifactRef list"
  nr_changed_paths :: "string list"
  nr_verification :: "string list"
  nr_open_questions :: "string list"

record PlanNodeSnapshot =
  pn_id :: PlanNodeId
  pn_client_key :: "string option"
  pn_parent_id :: "PlanNodeId option"
  pn_sibling_order :: u16
  pn_objective :: string
  pn_acceptance :: "string list"
  pn_status :: PlanNodeStatus
  pn_executor_policy :: PlanExecutorPolicy
  pn_harness :: PlanHarnessSnapshot
  pn_recovery_policy :: PlanRecoveryPolicySnapshot
  pn_depends_on :: "PlanNodeId list"
  pn_result :: "PlanNodeResult option"
  pn_created_revision :: u64
  pn_updated_revision :: u64
  pn_declared_status :: PlanNodeStatus
  pn_execution_summary :: PlanExecutionSummary
  pn_links :: "PlanLinkSnapshot list"

record PlanAttemptSnapshot =
  at_attempt_id :: PlanAttemptId
  at_node_id :: PlanNodeId
  at_node_revision :: u64
  at_lease_id :: "PlanLeaseId option"
  at_executor_session_id :: SessionId
  at_harness_fingerprint :: string
  at_started_at_ms :: u64
  at_finished_at_ms :: "u64 option"
  at_outcome :: "PlanAttemptOutcome option"
  at_result :: "PlanNodeResult option"
  at_diagnostic :: "ErrorInfo option"
  at_latest_checkpoint_ref :: "string option"
  at_last_applied_directive_sequence :: u64

record PlanLeaseSnapshot =
  le_lease_id :: PlanLeaseId
  le_attempt_id :: PlanAttemptId
  le_node_id :: PlanNodeId
  le_node_revision :: u64
  le_executor_session_id :: SessionId
  le_started_at_ms :: u64
  le_last_heartbeat_at_ms :: u64
  le_lease_expires_at_ms :: u64
  le_status :: PlanLeaseStatus

record ModelUsage =
  mu_input_tokens :: u64
  mu_cached_input_tokens :: "u64 option"
  mu_output_tokens :: u64
  mu_reasoning_output_tokens :: "u64 option"
  mu_total_tokens :: u64

datatype ContextWindowSource = ExplicitConfig | ProviderCapabilities | BundledCatalog | Fallback

record UsageContextWindow =
  uw_resolved_model_window_tokens :: u64
  uw_effective_window_tokens :: u64
  uw_source :: ContextWindowSource

record CompactionUsageWindow =
  cw_auto_compaction_enabled :: bool
  cw_dynamic_body_estimated_tokens :: "u64 option"
  cw_body_budget_tokens :: u64
  cw_soft_water_tokens :: u64
  cw_hard_water_tokens :: u64

record SessionUsage =
  su_total :: ModelUsage
  su_last :: ModelUsage
  su_context :: "UsageContextWindow option"
  su_compaction :: "CompactionUsageWindow option"

record PlanAttemptProgressSnapshot =
  pr_attempt_id :: PlanAttemptId
  pr_node_id :: PlanNodeId
  pr_elapsed_ms :: u64
  pr_model_turns :: "32 word"
  pr_reported_usage :: "SessionUsage option"
  pr_last_subagent_heartbeat_at_ms :: "u64 option"
  pr_last_runtime_activity_at_ms :: u64
  pr_last_durable_progress_at_ms :: "u64 option"
  pr_provider_request_in_flight :: bool
  pr_tool_call_in_flight :: bool
  pr_observable_side_effects :: u64
  pr_artifacts_created :: u64
  pr_artifact_refs :: "ArtifactRef list"
  pr_changed_paths :: "string list"
  pr_acceptance_evidence :: "EvidenceRef list"
  pr_repeated_failure_fingerprint :: "string option"
  pr_summary :: "string option"
  pr_next_action :: "string option"
  pr_request_coordinator_review :: bool

record PlanDirectiveConstraints =
  dc_allow_decomposition :: bool
  dc_require_terminal_report :: bool
  dc_preserve_partial_result :: bool

record CoordinatorDirectiveSnapshot =
  di_directive_id :: PlanDirectiveId
  di_sequence :: u64
  di_plan_id :: PlanId
  di_node_id :: PlanNodeId
  di_node_revision :: u64
  di_attempt_id :: PlanAttemptId
  di_lease_id :: PlanLeaseId
  di_kind :: PlanDirectiveKind
  di_reason :: string
  di_instruction :: "string option"
  di_constraints :: PlanDirectiveConstraints
  di_requested_output :: "string list"
  di_issued_at_ms :: u64
  di_status :: PlanDirectiveStatus
  di_delivered_at_ms :: "u64 option"
  di_acknowledged_at_ms :: "u64 option"
  di_applied_at_ms :: "u64 option"

record PlanRevisionSummary =
  sm_revision :: u64
  sm_summary :: string

record PlanSnapshot =
  ps_plan_id :: PlanId
  ps_revision :: u64
  ps_phase :: PlanPhase
  ps_activation_source :: PlanActivationSource
  ps_root_node_id :: "PlanNodeId option"
  ps_coordinator_node_id :: "PlanNodeId option"
  ps_execution_contract_fingerprint :: "string option"
  ps_execution_authorization_refs :: "string list"
  ps_authorized_capability_envelope :: "PlanCapabilityEnvelopeSnapshot option"
  ps_approval_requirements :: "PlanApprovalRequirementSnapshot list"
  ps_nodes :: "PlanNodeSnapshot list"
  ps_attempts :: "PlanAttemptSnapshot list"
  ps_leases :: "PlanLeaseSnapshot list"
  ps_attempt_progress :: "PlanAttemptProgressSnapshot list"
  ps_directives :: "CoordinatorDirectiveSnapshot list"
  ps_resource_policy_snapshot :: PlanResourcePolicySnapshot
  ps_max_concurrency_hint :: "u64 option"
  ps_scheduler_status :: PlanSchedulerStatus
  ps_revision_summaries :: "PlanRevisionSummary list"

section \<open>Defaults\<close>

definition default_summary :: PlanExecutionSummary where
  "default_summary =
     \<lparr>es_active = 0, es_completed = 0, es_failed = 0, es_cancelled = 0, es_blocked = 0\<rparr>"

definition default_harness :: PlanHarnessSnapshot where
  "default_harness =
     \<lparr>ha_model_role = None, ha_reasoning_effort = None, ha_checkpoint_turn_interval = None,
      ha_provider_request_timeout_ms = None, ha_tool_timeout_ms = None, ha_allowed_tools = [],
      ha_read_scope = [], ha_write_scope = [], ha_forbidden_paths = []\<rparr>"

definition default_recovery_policy :: PlanRecoveryPolicySnapshot where
  "default_recovery_policy =
     \<lparr>rp_max_transient_attempts = 2, rp_retry_backoff_ms = 0,
      rp_retry_only_before_observable_side_effects = True\<rparr>"

definition default_resource_policy :: PlanResourcePolicySnapshot where
  "default_resource_policy =
     \<lparr>rs_max_concurrency = 6, rs_subagent_heartbeat_interval_ms = 10000,
      rs_subagent_heartbeat_ttl_ms = 300000, rs_provider_request_timeout_ms = None,
      rs_tool_timeout_ms = None, rs_checkpoint_turn_interval = 8,
      rs_no_durable_progress_review_window_ms = 900000, rs_repeated_failure_limit = 3\<rparr>"

definition default_constraints :: PlanDirectiveConstraints where
  "default_constraints =
     \<lparr>dc_allow_decomposition = True, dc_require_terminal_report = True,
      dc_preserve_partial_result = True\<rparr>"

section \<open>Requests\<close>

datatype PlanNodeReferenceInput = RefId PlanNodeId | RefClientKey string

datatype PlanNodeInput = PlanNodeInput
  (ni_id: "PlanNodeId option")
  (ni_client_key: "string option")
  (ni_objective: string)
  (ni_acceptance: "string list")
  (ni_status: "PlanNodeStatus option")
  (ni_executor_policy: PlanExecutorPolicy)
  (ni_harness: PlanHarnessSnapshot)
  (ni_recovery_policy: PlanRecoveryPolicySnapshot)
  (ni_depends_on: "PlanNodeReferenceInput list")
  (ni_children: "PlanNodeInput list")

datatype PlanExecutionIntent = ContinuePlanning | ExecuteIfAuthorized | RequestUserReview

datatype PlanChangeInput =
  DefinePlan u64 PlanNodeInput
| ReplaceSubtree PlanNodeId u64 PlanNodeInput
| UseCurrentPlan u64

record UpdatePlanInput =
  up_reason :: string
  up_execution_intent :: PlanExecutionIntent
  up_coordinator_node_id :: "PlanNodeId option"
  up_max_concurrency_hint :: "u64 option"
  up_change :: PlanChangeInput

datatype SubagentPlanChangeInput =
  DefineChildren u64 "PlanNodeInput list"
| SubagentReplaceSubtree PlanNodeId u64 PlanNodeInput

record SubagentPlanUpdateInput =
  sp_reason :: string
  sp_change :: SubagentPlanChangeInput

record PlanApprovalInput =
  ap_plan_id :: PlanId
  ap_expected_plan_revision :: u64
  ap_review_resolution_ref :: string
  ap_capability_envelope :: "PlanCapabilityEnvelopeSnapshot option"
  ap_authorization_refs :: "string list"
  ap_requirement_resolution_refs :: "(PlanApprovalRequirementId, string) btree_map"

record ControlPlanAttemptInput =
  cp_attempt_id :: PlanAttemptId
  cp_kind :: PlanDirectiveKind
  cp_reason :: string
  cp_instruction :: "string option"
  cp_constraints :: "PlanDirectiveConstraints option"
  cp_requested_output :: "string list"

record ReportPlanProgressInput =
  gp_summary :: string
  gp_evidence_refs :: "EvidenceRef list"
  gp_artifact_refs :: "ArtifactRef list"
  gp_next_action :: "string option"
  gp_checkpoint_ref :: "string option"
  gp_acknowledged_directive_ids :: "PlanDirectiveId list"
  gp_applied_directive_ids :: "PlanDirectiveId list"
  gp_request_coordinator_review :: "bool option"

record PlanDecompositionInput =
  dn_reason :: string
  dn_children :: "PlanNodeInput list"

record ReportPlanAttemptInput =
  ra_outcome :: PlanAttemptOutcome
  ra_result :: "PlanNodeResult option"
  ra_diagnostic :: "ErrorInfo option"
  ra_decomposition :: "PlanDecompositionInput option"
  ra_acknowledged_directive_ids :: "PlanDirectiveId list"
  ra_applied_directive_ids :: "PlanDirectiveId list"

section \<open>Errors\<close>

datatype (plugins only: size) PlanError =
  InvalidAuthoredNodeStatus PlanNodeStatus
| SubagentScopeViolation string
| InvalidText string string
| WrongPhase PlanPhase string
| StalePlanRevision u64 u64
| StalePlanIdentity PlanId PlanId
| StaleNodeRevision PlanNodeId u64 u64
| RootMissing
| RootHasParent
| NodeMissingParent PlanNodeId
| UnknownParent PlanNodeId PlanNodeId
| UnreachableNode PlanNodeId
| ParentCycle
| DependencyCycle
| SelfDependency PlanNodeId
| DependsOnDescendant PlanNodeId PlanNodeId
| UnknownNode PlanNodeId
| UnknownDependency PlanNodeId
| UnknownClientKey string
| DuplicateClientKey string
| DuplicateNodeId PlanNodeId
| InvalidNewNodeIdentity
| InvalidExistingNodeIdentity
| TooManyNodes nat nat
| TooManyChildren PlanNodeId nat nat
| PlanTooDeep nat nat
| TooManyDependencies nat nat
| TooManyAcceptanceItems nat nat
| TooManyPayloadItems string nat nat
| TooManyTransientAttempts "8 word" "8 word"
| TooManyActiveDirectives PlanAttemptId nat nat
| SnapshotTooLarge nat nat
| DuplicateSiblingOrder "PlanNodeId option" u16
| InvalidScopePath PlanNodeId string
| CapabilityEnvelopeExceeded PlanNodeId
| NodeNotMutable PlanNodeId PlanNodeStatus
| ActiveSubagentOwnsSubtree PlanNodeId
| ReplacementRootIdentity PlanNodeId
| IncomingDependencyWouldDangle PlanNodeId
| InvalidConcurrencyHint u64
| InvalidPersistedCounters
| EmptyPlan
| UnresolvedApprovalRequirement PlanApprovalRequirementId
| ActiveAttemptsPreventControl string
| NodeNotReady PlanNodeId
| LiveLeaseExists PlanNodeId
| InterruptedRetryUnavailable PlanNodeId
| UnknownLease PlanLeaseId
| LeaseNotLive PlanLeaseId
| UnknownAttempt PlanAttemptId
| NoActiveAttemptForExecutor SessionId
| ActiveAttemptExistsForExecutor SessionId
| MultipleActiveAttemptsForExecutor SessionId
| AttemptOwnershipMismatch PlanAttemptId
| AttemptAlreadyResolved PlanAttemptId
| AttemptNodeRevisionMismatch u64 u64
| InvalidAttemptOutcome PlanAttemptOutcome
| EmptyDecomposition
| NestedDecomposition
| NestedPlanInput
| UnknownDirective PlanDirectiveId
| InvalidDirectiveTransition PlanDirectiveId PlanDirectiveStatus string
| StaleDirectiveTarget
| MissingArtifactRef ArtifactId
| InvalidEvidenceRef ArtifactId
| ArtifactPromotionConflict ArtifactId

type_synonym 'a plan_result = "('a, PlanError) result"

section \<open>The runtime state and the code it calls outside the sources\<close>

record PlanState =
  st_snapshot :: PlanSnapshot
  st_next_node_sequence :: u64
  st_next_approval_sequence :: u64
  st_next_attempt_sequence :: u64
  st_next_lease_sequence :: u64
  st_next_directive_sequence :: u64

text \<open>
  JSON encoding is a third-party crate (\<^verbatim>\<open>serde_json\<close>): its three uses are a parameter of the
  model. \<open>en_snapshot_json\<close> is \<^verbatim>\<open>serde_json::to_vec(snapshot)\<close>, \<open>None\<close> when it fails;
  \<open>en_harness_json\<close> and \<open>en_contract_json\<close> are the byte strings the two fingerprints hash.
\<close>

record plan_env =
  en_snapshot_json :: "PlanSnapshot \<Rightarrow> 8 word list option"
  en_harness_json :: "PlanHarnessSnapshot \<Rightarrow> 8 word list"
  en_contract_json ::
    "string option \<Rightarrow> string list option \<Rightarrow> PlanCapabilityEnvelopeSnapshot option \<Rightarrow> 8 word list"

text \<open>\<open>BTreeMap\<close> keyed by node id, and the map every operation collects from the node vector.\<close>

type_synonym node_map = "(PlanNodeId, PlanNodeSnapshot) btree_map"

definition collect_nodes :: "PlanNodeSnapshot list \<Rightarrow> node_map" where
  "collect_nodes ns = bt_extend [] (map (\<lambda>n. (pn_id n, n)) ns)"

definition node_map :: "PlanState \<Rightarrow> node_map" where
  "node_map st = collect_nodes (ps_nodes (st_snapshot st))"

definition node :: "PlanState \<Rightarrow> PlanNodeId \<Rightarrow> PlanNodeSnapshot option" where
  "node st i = List.find (\<lambda>n. pn_id n = i) (ps_nodes (st_snapshot st))"

text \<open>Live nodes: everything that has not been superseded.\<close>

definition is_live :: "PlanNodeSnapshot \<Rightarrow> bool" where
  "is_live n \<longleftrightarrow> pn_status n \<noteq> PlanNodeStatus.Superseded"

text \<open>A node map is well formed when its keys ascend and every node is stored under its own id.\<close>

definition nodes_wf :: "node_map \<Rightarrow> bool" where
  "nodes_wf m \<longleftrightarrow> bt_wf m \<and> (\<forall>(k, n) \<in> set m. pn_id n = k)"

lemma nodes_wf_get: "nodes_wf m \<Longrightarrow> bt_get m i = Some n \<Longrightarrow> pn_id n = i"
  by (auto simp: nodes_wf_def bt_get_iff)

lemma nodes_wf_value: "nodes_wf m \<Longrightarrow> n \<in> snd ` set m \<longleftrightarrow> bt_get m (pn_id n) = Some n"
  by (force simp: nodes_wf_def bt_get_iff)

lemma nodes_wf_ids:
  assumes "nodes_wf m"
  shows "distinct (map pn_id (bt_values m))"
proof -
  have "map pn_id (bt_values m) = map fst m" using assms by (auto simp: nodes_wf_def)
  then show ?thesis using assms by (simp only: nodes_wf_def bt_wf_distinct)
qed

lemma nodes_wf_insert: "nodes_wf m \<Longrightarrow> pn_id n = k \<Longrightarrow> nodes_wf (bt_insert k n m)"
proof -
  assume m: "nodes_wf m" "pn_id n = k"
  then have wf: "bt_wf (bt_insert k n m)" by (simp add: nodes_wf_def bt_wf_insert)
  have "pn_id x = i" if "(i, x) \<in> set (bt_insert k n m)" for i x
    using that m wf nodes_wf_get [OF m(1)]
    by (auto simp: bt_get_iff [symmetric] nodes_wf_def get_bt_insert split: if_splits)
  with wf show ?thesis by (auto simp: nodes_wf_def)
qed

lemma nodes_wf_extend:
  "nodes_wf m \<Longrightarrow> (\<forall>(k, n)\<in>set kvs. pn_id n = k) \<Longrightarrow> nodes_wf (bt_extend m kvs)"
  by (induction kvs arbitrary: m) (auto simp: bt_extend_def intro: nodes_wf_insert)

lemma nodes_wf_Nil [simp]: "nodes_wf []"
  by (simp add: nodes_wf_def)

lemma nodes_wf_collect [simp]: "nodes_wf (collect_nodes ns)"
  unfolding collect_nodes_def by (rule nodes_wf_extend) auto

lemma nodes_wf_node_map [simp]: "nodes_wf (node_map st)"
  by (simp add: node_map_def)

lemma nodes_wf_remove_all: "nodes_wf m \<Longrightarrow> nodes_wf (bt_remove_all m ks)"
proof -
  assume m: "nodes_wf m"
  then have wf: "bt_wf (bt_remove_all m ks)" by (simp add: nodes_wf_def bt_wf_remove_all)
  have "pn_id x = i" if "(i, x) \<in> set (bt_remove_all m ks)" for i x
    using that m wf nodes_wf_get [OF m]
    by (auto simp: bt_get_iff [symmetric] nodes_wf_def get_bt_remove_all split: if_splits)
  with wf show ?thesis by (auto simp: nodes_wf_def)
qed

text \<open>With distinct ids the collected map is the vector looked up by id.\<close>

lemma get_collect_nodes:
  "distinct (map pn_id ns) \<Longrightarrow> bt_get (collect_nodes ns) i = List.find (\<lambda>n. pn_id n = i) ns"
  by (simp add: collect_nodes_def get_bt_extend map_of_by_key comp_def)

lemma values_collect_nodes:
  assumes "distinct (map pn_id ns)"
  shows "snd ` set (collect_nodes ns) = set ns"
proof -
  have "n \<in> snd ` set (collect_nodes ns) \<longleftrightarrow> n \<in> set ns" for n
    using find_by_key [OF assms, of n]
    by (auto simp: nodes_wf_value get_collect_nodes assms dest: find_SomeD)
  then show ?thesis by blast
qed

lemma node_Some: "node st i = Some n \<Longrightarrow> n \<in> set (ps_nodes (st_snapshot st)) \<and> pn_id n = i"
  by (auto simp: node_def dest: find_SomeD)

end
