(* ===== verification/Workspace_Scope.thy ===== *)
theory Workspace_Scope
  imports Prelude
begin

text \<open>
  Workspace scopes (\<^verbatim>\<open>crates/merry-runtime/src/workspace_scope.rs\<close>): which relative paths are
  valid scopes and when one scope contains or overlaps another. \<^verbatim>\<open>std::path::Path\<close> compares
  paths component by component, so the standard library's \<^verbatim>\<open>components()\<close> on a Unix path is
  modelled too. Containment is a preorder; the locale \<open>containment\<close> states that contract and
  lifts it to lists of scopes, which is what the capability checks of the plan rely on.
\<close>

section \<open>Paths\<close>

datatype Component = RootDir | CurDir | ParentDir | Normal string

fun split_on :: "char \<Rightarrow> string \<Rightarrow> string list" where
  "split_on c [] = [[]]"
| "split_on c (x # xs) =
     (if x = c then [] # split_on c xs
      else (x # hd (split_on c xs)) # tl (split_on c xs))"

fun segment_component :: "string \<Rightarrow> Component option" where
  "segment_component s =
     (if s = '''' \<or> s = ''.'' then None
      else if s = ''..'' then Some ParentDir
      else Some (Normal s))"

definition components :: "string \<Rightarrow> Component list" where
  "components p =
     (let segs = split_on (CHR ''/'') p
      in (if p \<noteq> [] \<and> hd p = CHR ''/'' then [RootDir]
          else if hd segs = ''.'' then [CurDir] else [])
         @ List.map_filter segment_component segs)"

definition path_eq :: "string \<Rightarrow> string \<Rightarrow> bool" where
  "path_eq a b \<longleftrightarrow> components a = components b"

fun is_prefix :: "'a list \<Rightarrow> 'a list \<Rightarrow> bool" where
  "is_prefix [] ys = True"
| "is_prefix (x # xs) [] = False"
| "is_prefix (x # xs) (y # ys) = (x = y \<and> is_prefix xs ys)"

definition path_starts_with :: "string \<Rightarrow> string \<Rightarrow> bool" where
  "path_starts_with p base \<longleftrightarrow> is_prefix (components base) (components p)"

definition path_is_absolute :: "string \<Rightarrow> bool" where
  "path_is_absolute p \<longleftrightarrow> p \<noteq> [] \<and> hd p = CHR ''/''"

section \<open>Scopes\<close>

definition WORKSPACE_ROOT_SCOPE :: string where
  "WORKSPACE_ROOT_SCOPE = ''.''"

definition is_valid_workspace_scope :: "string \<Rightarrow> bool" where
  "is_valid_workspace_scope text =
     (if text = WORKSPACE_ROOT_SCOPE then True
      else if text = [] \<or> path_is_absolute text \<or> CHR 0x5C \<in> set text
          \<or> list_ex is_control (str_chars text)
          \<or> list_ex (\<lambda>segment. segment \<in> {'''', ''.'', ''..''}) (split_on (CHR ''/'') text)
        then False
      else list_all (\<lambda>c. case c of Normal _ \<Rightarrow> True | _ \<Rightarrow> False) (components text))"

definition workspace_scope_contains :: "string \<Rightarrow> string \<Rightarrow> bool" where
  "workspace_scope_contains parent child \<longleftrightarrow>
     path_eq parent WORKSPACE_ROOT_SCOPE
     \<or> path_eq parent child
     \<or> (\<not> path_eq child WORKSPACE_ROOT_SCOPE \<and> path_starts_with child parent)"

definition workspace_scopes_overlap :: "string \<Rightarrow> string \<Rightarrow> bool" where
  "workspace_scopes_overlap left right \<longleftrightarrow>
     path_eq left WORKSPACE_ROOT_SCOPE
     \<or> path_eq right WORKSPACE_ROOT_SCOPE
     \<or> path_eq left right
     \<or> path_starts_with left right
     \<or> path_starts_with right left"

section \<open>Containment as an interface\<close>

locale containment =
  fixes contains :: "'a \<Rightarrow> 'a \<Rightarrow> bool"
  assumes contains_refl: "contains a a"
    and contains_trans: "contains a b \<Longrightarrow> contains b c \<Longrightarrow> contains a c"
begin

definition within :: "'a list \<Rightarrow> 'a list \<Rightarrow> bool" where
  "within child parent \<longleftrightarrow> list_all (\<lambda>c. list_ex (\<lambda>p. contains p c) parent) child"

definition covers :: "'a list \<Rightarrow> 'a \<Rightarrow> bool" where
  "covers scopes x \<longleftrightarrow> (\<exists>s\<in>set scopes. contains s x)"

lemma within_refl: "within xs xs"
  unfolding within_def list_all_iff list_ex_iff using contains_refl by blast

lemma within_Nil: "within [] xs"
  by (simp add: within_def)

lemma within_trans: "within xs ys \<Longrightarrow> within ys zs \<Longrightarrow> within xs zs"
  unfolding within_def list_all_iff list_ex_iff by (meson contains_trans)

lemma within_iff_covers: "within xs ys \<longleftrightarrow> (\<forall>x. covers xs x \<longrightarrow> covers ys x)"
  unfolding within_def covers_def list_all_iff list_ex_iff
  by (meson contains_refl contains_trans)

end

lemma is_prefix_iff: "is_prefix xs ys \<longleftrightarrow> (\<exists>zs. ys = xs @ zs)"
  by (induction xs ys rule: is_prefix.induct) auto

lemma components_root: "components WORKSPACE_ROOT_SCOPE = [CurDir]"
  by (simp add: components_def WORKSPACE_ROOT_SCOPE_def List.map_filter_def)

lemma scope_contains_refl: "workspace_scope_contains a a"
  by (simp add: workspace_scope_contains_def path_eq_def)

lemma scope_contains_trans:
  assumes "workspace_scope_contains a b" and "workspace_scope_contains b c"
  shows "workspace_scope_contains a c"
  using assms unfolding workspace_scope_contains_def path_eq_def path_starts_with_def
    components_root is_prefix_iff by auto

interpretation scope: containment workspace_scope_contains
  by unfold_locales (rule scope_contains_refl, rule scope_contains_trans)

section \<open>What the checks guarantee\<close>

lemma split_on_not_Nil [simp]: "split_on c s \<noteq> []"
  by (cases s) auto

text \<open>A valid scope other than the root is a plain list of named components: it is neither
  absolute nor able to step out of the workspace.\<close>

lemma map_filter_all_Normal:
  "\<forall>s\<in>set segs. s \<noteq> '''' \<and> s \<noteq> ''.'' \<and> s \<noteq> ''..'' \<Longrightarrow>
     List.map_filter segment_component segs = map Normal segs"
  by (induction segs) (auto simp: List.map_filter_def)

lemma valid_scope_components:
  assumes "is_valid_workspace_scope p" and "p \<noteq> WORKSPACE_ROOT_SCOPE"
  shows "components p = map Normal (split_on (CHR ''/'') p)"
proof -
  from assms have segs: "\<forall>s\<in>set (split_on (CHR ''/'') p). s \<noteq> '''' \<and> s \<noteq> ''.'' \<and> s \<noteq> ''..''"
    and "\<not> path_is_absolute p" and "p \<noteq> []"
    by (auto simp: is_valid_workspace_scope_def list_ex_iff split: if_splits)
  moreover have "hd (split_on (CHR ''/'') p) \<noteq> ''.''"
    using segs by (meson hd_in_set split_on_not_Nil)
  ultimately show ?thesis
    by (simp add: components_def path_is_absolute_def map_filter_all_Normal)
qed

lemma valid_scope_no_escape:
  "is_valid_workspace_scope p \<Longrightarrow> ParentDir \<notin> set (components p) \<and> RootDir \<notin> set (components p)"
  by (cases "p = WORKSPACE_ROOT_SCOPE") (auto simp: components_root valid_scope_components)

lemma overlap_sym: "workspace_scopes_overlap a b \<longleftrightarrow> workspace_scopes_overlap b a"
  by (auto simp: workspace_scopes_overlap_def path_eq_def)

text \<open>On valid scopes, overlapping is exactly sharing a covered path.\<close>

lemma overlap_iff_contains:
  assumes "is_valid_workspace_scope a" and "is_valid_workspace_scope b"
  shows "workspace_scopes_overlap a b \<longleftrightarrow>
    workspace_scope_contains a b \<or> workspace_scope_contains b a"
proof -
  have "\<not> path_eq x WORKSPACE_ROOT_SCOPE"
    if "is_valid_workspace_scope x" "x \<noteq> WORKSPACE_ROOT_SCOPE" for x
    using that by (auto simp: path_eq_def components_root valid_scope_components)
  then show ?thesis
    using assms unfolding workspace_scopes_overlap_def workspace_scope_contains_def
    by (auto simp: path_eq_def)
qed

end
