(* ===== verification/Plan_Validation.thy ===== *)
theory Plan_Validation
  imports Plan_Types Workspace_Scope "HOL-Library.Product_Lexorder"
begin

text \<open>
  The validation rules of a plan (\<^verbatim>\<open>crates/merry-runtime/src/plan/validation.rs\<close>): text and size
  limits, dependency resolution and the checks of the whole node graph. The central result
  \<open>validate_graph_iff\<close> says that the imperative checks accept exactly the graphs of the
  declarative specification \<open>valid_plan_graph\<close>.

  Loops: \<open>is_descendant\<close> has no cycle guard in the source, so its model can return \<open>Diverge\<close>; its
  fuel is one more than the longest chain of distinct nodes, so \<open>Diverge\<close> means that the loop
  never ends. \<open>reach_root\<close> carries its visited set and is total. \<open>visit\<close> and
  \<open>validate_harness_tree\<close> recurse at most once per node, which is their fuel.
\<close>

section \<open>Limits\<close>

definition MAX_PLAN_NODES :: nat where [simp]: "MAX_PLAN_NODES = 128"
definition MAX_DIRECT_CHILDREN :: nat where [simp]: "MAX_DIRECT_CHILDREN = 16"
definition MAX_DEPENDENCIES :: nat where [simp]: "MAX_DEPENDENCIES = 16"
definition MAX_ACCEPTANCE_ITEMS :: nat where [simp]: "MAX_ACCEPTANCE_ITEMS = 16"
definition MAX_PLAN_DEPTH :: nat where [simp]: "MAX_PLAN_DEPTH = 16"
definition MAX_OBJECTIVE_BYTES :: nat where [simp]: "MAX_OBJECTIVE_BYTES = 2048"
definition MAX_ACCEPTANCE_BYTES :: nat where [simp]: "MAX_ACCEPTANCE_BYTES = 1024"
definition MAX_REASON_BYTES :: nat where [simp]: "MAX_REASON_BYTES = 2048"
definition MAX_CLIENT_KEY_BYTES :: nat where [simp]: "MAX_CLIENT_KEY_BYTES = 128"
definition MAX_TRANSIENT_ATTEMPTS :: "8 word" where [simp]: "MAX_TRANSIENT_ATTEMPTS = 8"
definition MAX_DIRECTIVES_PER_ATTEMPT :: nat where [simp]: "MAX_DIRECTIVES_PER_ATTEMPT = 32"
definition MAX_PAYLOAD_ITEMS :: nat where [simp]: "MAX_PAYLOAD_ITEMS = 16"
definition MAX_PAYLOAD_TEXT_BYTES :: nat where [simp]: "MAX_PAYLOAD_TEXT_BYTES = 1024"
definition MAX_PLAN_SNAPSHOT_BYTES :: nat where [simp]: "MAX_PLAN_SNAPSHOT_BYTES = 262144"
definition MAX_REVISION_SUMMARY_BYTES :: nat where [simp]: "MAX_REVISION_SUMMARY_BYTES = 2048"
definition MAX_DIAGNOSTIC_CODE_LEN :: nat where [simp]: "MAX_DIAGNOSTIC_CODE_LEN = 128"
definition MAX_DIAGNOSTIC_MESSAGE_LEN :: nat where [simp]: "MAX_DIAGNOSTIC_MESSAGE_LEN = 4096"

section \<open>Text\<close>

definition validate_text :: "string \<Rightarrow> string \<Rightarrow> nat \<Rightarrow> unit plan_result" where
  "validate_text field value maximum =
     (if is_blank value then Err (InvalidText field ''must not be blank'')
      else if length value > maximum
        then Err (InvalidText field ''is longer than the allowed maximum'')
      else if list_ex (\<lambda>c. is_control c \<and> c \<noteq> 10) (str_chars value)
        then Err (InvalidText field ''contains unsupported control characters'')
      else Ok ())"

definition validate_reason :: "string \<Rightarrow> unit plan_result" where
  "validate_reason reason = validate_text ''reason'' reason MAX_REASON_BYTES"

definition validate_payload_text :: "string \<Rightarrow> string \<Rightarrow> unit plan_result" where
  "validate_payload_text field value = validate_text field value MAX_PAYLOAD_TEXT_BYTES"

definition validate_payload_items :: "string \<Rightarrow> nat \<Rightarrow> unit plan_result" where
  "validate_payload_items field actual =
     (if actual > MAX_PAYLOAD_ITEMS
      then Err (TooManyPayloadItems field actual MAX_PAYLOAD_ITEMS) else Ok ())"

definition validate_recovery_policy :: "PlanRecoveryPolicySnapshot \<Rightarrow> unit plan_result" where
  "validate_recovery_policy policy =
     (if rp_max_transient_attempts policy > MAX_TRANSIENT_ATTEMPTS
      then Err (TooManyTransientAttempts (rp_max_transient_attempts policy) MAX_TRANSIENT_ATTEMPTS)
      else Ok ())"

definition validate_snapshot_limits :: "plan_env \<Rightarrow> PlanSnapshot \<Rightarrow> unit plan_result" where
  "validate_snapshot_limits E snapshot =
     and_then (for_each (\<lambda>n. validate_recovery_policy (pn_recovery_policy n)) (ps_nodes snapshot))
     (\<lambda>_. case en_snapshot_json E snapshot of
        None \<Rightarrow> Err (InvalidText ''plan_snapshot'' ''cannot be serialized'')
      | Some bytes \<Rightarrow>
          if length bytes > MAX_PLAN_SNAPSHOT_BYTES
          then Err (SnapshotTooLarge (length bytes) MAX_PLAN_SNAPSHOT_BYTES) else Ok ())"

text \<open>The same check with the comparison on integers, whose numerals evaluate in binary.\<close>

lemma validate_snapshot_limits_code [code]:
  "validate_snapshot_limits E snapshot =
     and_then (for_each (\<lambda>n. validate_recovery_policy (pn_recovery_policy n)) (ps_nodes snapshot))
     (\<lambda>_. case en_snapshot_json E snapshot of
        None \<Rightarrow> Err (InvalidText ''plan_snapshot'' ''cannot be serialized'')
      | Some bytes \<Rightarrow>
          if int (length bytes) > 262144
          then Err (SnapshotTooLarge (length bytes) MAX_PLAN_SNAPSHOT_BYTES) else Ok ())"
  by (auto simp: validate_snapshot_limits_def split: option.split intro!: and_then_cong)

definition validate_node_text :: "string \<Rightarrow> string list \<Rightarrow> unit plan_result" where
  "validate_node_text objective acceptance =
     and_then (validate_text ''objective'' objective MAX_OBJECTIVE_BYTES) (\<lambda>_.
     if length acceptance > MAX_ACCEPTANCE_ITEMS
     then Err (TooManyAcceptanceItems (length acceptance) MAX_ACCEPTANCE_ITEMS)
     else for_each (\<lambda>item. validate_text ''acceptance'' item MAX_ACCEPTANCE_BYTES) acceptance)"

definition validate_client_key :: "string \<Rightarrow> unit plan_result" where
  "validate_client_key client_key = validate_text ''client_key'' client_key MAX_CLIENT_KEY_BYTES"

text \<open>The constructors of revision summaries and diagnostics (merry-core) have their own, stricter
  text rules: no control character at all.\<close>

definition new_revision_summary :: "u64 \<Rightarrow> string \<Rightarrow> PlanRevisionSummary option" where
  "new_revision_summary revision summary =
     (if is_blank summary \<or> length summary > MAX_REVISION_SUMMARY_BYTES
         \<or> list_ex is_control (str_chars summary)
      then None else Some \<lparr>sm_revision = revision, sm_summary = summary\<rparr>)"

definition trimmed :: "string \<Rightarrow> bool" where
  "trimmed s \<longleftrightarrow> (let cs = str_chars s in
     cs = [] \<or> (\<not> is_whitespace (hd cs) \<and> \<not> is_whitespace (last cs)))"

definition new_error_info :: "string \<Rightarrow> string \<Rightarrow> ErrorInfo option" where
  "new_error_info code message =
     (if is_blank code \<or> \<not> trimmed code \<or> length (str_chars code) > MAX_DIAGNOSTIC_CODE_LEN
         \<or> list_ex is_control (str_chars code)
         \<or> is_blank message \<or> length (str_chars message) > MAX_DIAGNOSTIC_MESSAGE_LEN
         \<or> list_ex is_control (str_chars message)
      then None else Some \<lparr>ei_code = code, ei_message = message\<rparr>)"

section \<open>Dependencies\<close>

definition resolve_reference ::
    "(string, PlanNodeId) btree_map \<Rightarrow> PlanNodeReferenceInput \<Rightarrow> PlanNodeId plan_result" where
  "resolve_reference keys ref =
     (case ref of
        RefId i \<Rightarrow> Ok i
      | RefClientKey k \<Rightarrow> ok_or (bt_get keys k) (UnknownClientKey k))"

definition resolve_dependencies ::
    "PlanNodeReferenceInput list \<Rightarrow> (string, PlanNodeId) btree_map \<Rightarrow> PlanNodeId list
     \<Rightarrow> PlanNodeId list plan_result" where
  "resolve_dependencies refs keys live =
     (if length refs > MAX_DEPENDENCIES
      then Err (TooManyDependencies (length refs) MAX_DEPENDENCIES)
      else fold_res
        (\<lambda>resolved ref. and_then (resolve_reference keys ref) (\<lambda>i.
           if i \<notin> set live then Err (UnknownDependency i)
           else Ok (insort_insert i resolved))) [] refs)"

section \<open>The graph\<close>

definition live_ids :: "node_map \<Rightarrow> PlanNodeId list" where
  "live_ids nodes = bs_collect (map pn_id (filter is_live (bt_values nodes)))"

definition parent_of :: "node_map \<Rightarrow> PlanNodeId \<Rightarrow> PlanNodeId option" where
  "parent_of nodes i = Option.bind (bt_get nodes i) pn_parent_id"

fun is_descendant_from ::
    "node_map \<Rightarrow> PlanNodeId \<Rightarrow> nat \<Rightarrow> PlanNodeId option \<Rightarrow> bool option" where
  "is_descendant_from nodes ancestor fuel None = Some False"
| "is_descendant_from nodes ancestor 0 (Some parent) = None"
| "is_descendant_from nodes ancestor (Suc fuel) (Some parent) =
     (if parent = ancestor then Some True
      else is_descendant_from nodes ancestor fuel (parent_of nodes parent))"

definition is_descendant :: "node_map \<Rightarrow> PlanNodeId \<Rightarrow> PlanNodeId \<Rightarrow> bool plan_result" where
  "is_descendant nodes candidate ancestor =
     returned (is_descendant_from nodes ancestor (Suc (length nodes)) (parent_of nodes candidate))"

definition validate_graph_node ::
    "node_map \<Rightarrow> PlanNodeId \<Rightarrow> PlanNodeId list \<Rightarrow> PlanNodeSnapshot \<Rightarrow> unit plan_result" where
  "validate_graph_node nodes root live n =
     and_then
       (if pn_id n = root then
          (if pn_parent_id n \<noteq> None then Err RootHasParent else Ok ())
        else
          and_then (ok_or (pn_parent_id n) (NodeMissingParent (pn_id n))) (\<lambda>parent.
          if parent \<notin> set live then Err (UnknownParent (pn_id n) parent) else Ok ()))
     (\<lambda>_. for_each
       (\<lambda>dependency.
          if dependency = pn_id n then Err (SelfDependency (pn_id n))
          else if dependency \<notin> set live then Err (UnknownDependency dependency)
          else and_then (is_descendant nodes dependency (pn_id n)) (\<lambda>below.
            if below then Err (DependsOnDescendant (pn_id n) dependency) else Ok ()))
       (pn_depends_on n))"

function reach_root ::
    "node_map \<Rightarrow> PlanNodeId \<Rightarrow> PlanNodeId \<Rightarrow> PlanNodeId list \<Rightarrow> PlanNodeId \<Rightarrow> unit plan_result" where
  "reach_root nodes root i visited cursor =
     (if cursor \<in> set visited then Err ParentCycle
      else if cursor = root then Ok ()
      else case parent_of nodes cursor of
        None \<Rightarrow> Err (UnreachableNode i)
      | Some parent \<Rightarrow> reach_root nodes root i (cursor # visited) parent)"
  by pat_completeness auto
termination
proof (relation "measure (\<lambda>(nodes, root, i, visited, cursor). card (fst ` set nodes - set visited))")
  fix nodes :: node_map and root i parent :: PlanNodeId and visited cursor
  assume "cursor \<notin> set visited" and "parent_of nodes cursor = Some parent"
  then have "fst ` set nodes - set (cursor # visited) \<subset> fst ` set nodes - set visited"
    by (force simp: parent_of_def bind_eq_Some_conv dest: map_of_SomeD)
  then show "((nodes, root, i, cursor # visited, parent), nodes, root, i, visited, cursor)
      \<in> measure (\<lambda>(nodes, root, i, visited, cursor). card (fst ` set nodes - set visited))"
    by (simp add: psubset_card_mono)
qed simp

declare reach_root.simps [simp del]

definition validate_parent_reachability ::
    "node_map \<Rightarrow> PlanNodeId \<Rightarrow> PlanNodeId list \<Rightarrow> unit plan_result" where
  "validate_parent_reachability nodes root live = for_each (\<lambda>i. reach_root nodes root i [] i) live"

fun visit ::
    "nat \<Rightarrow> node_map \<Rightarrow> PlanNodeId list \<Rightarrow> PlanNodeId list \<times> PlanNodeId list \<Rightarrow> PlanNodeId
     \<Rightarrow> (PlanNodeId list \<times> PlanNodeId list) plan_result" where
  "visit 0 nodes live s i = Diverge"
| "visit (Suc fuel) nodes live (visiting, visited) i =
     (if i \<in> set visited then Ok (visiting, visited)
      else if i \<in> set visiting then Err DependencyCycle
      else case bt_get nodes i of
        None \<Rightarrow> Err (UnknownDependency i)
      | Some n \<Rightarrow>
          and_then (fold_res (visit fuel nodes live) (i # visiting, visited)
                      (filter (\<lambda>d. d \<in> set live) (pn_depends_on n)))
          (\<lambda>(visiting', visited'). Ok (removeAll i visiting', i # visited')))"

definition validate_dependency_cycles :: "node_map \<Rightarrow> PlanNodeId list \<Rightarrow> unit plan_result" where
  "validate_dependency_cycles nodes live =
     and_then (fold_res (visit (Suc (length nodes)) nodes live) ([], []) live) (\<lambda>_. Ok ())"

definition validate_sibling_order :: "node_map \<Rightarrow> PlanNodeId list \<Rightarrow> unit plan_result" where
  "validate_sibling_order nodes live =
     and_then (fold_res
       (\<lambda>seen n. if (pn_parent_id n, pn_sibling_order n) \<in> set seen
          then Err (DuplicateSiblingOrder (pn_parent_id n) (pn_sibling_order n))
          else Ok ((pn_parent_id n, pn_sibling_order n) # seen))
       [] (filter (\<lambda>n. pn_id n \<in> set live) (bt_values nodes))) (\<lambda>_. Ok ())"

section \<open>Harnesses\<close>

definition set_is_subset :: "'a list \<Rightarrow> 'a list \<Rightarrow> bool" where
  "set_is_subset child parent = list_all (\<lambda>v. v \<in> set parent) child"

definition scopes_are_within :: "string list \<Rightarrow> string list \<Rightarrow> bool" where
  "scopes_are_within child parent =
     list_all (\<lambda>child_path. list_ex (\<lambda>parent_path. workspace_scope_contains parent_path child_path)
       parent) child"

definition validate_harness_paths :: "PlanNodeId \<Rightarrow> PlanHarnessSnapshot \<Rightarrow> unit plan_result" where
  "validate_harness_paths i harness =
     for_each (\<lambda>path. if is_valid_workspace_scope path then Ok () else Err (InvalidScopePath i path))
       (ha_read_scope harness @ ha_write_scope harness @ ha_forbidden_paths harness)"

definition validate_harness_subset ::
    "PlanNodeId \<Rightarrow> PlanHarnessSnapshot \<Rightarrow> PlanHarnessSnapshot \<Rightarrow> unit plan_result" where
  "validate_harness_subset i parent child =
     (if \<not> set_is_subset (ha_allowed_tools child) (ha_allowed_tools parent)
         \<or> \<not> scopes_are_within (ha_read_scope child) (ha_read_scope parent)
         \<or> \<not> scopes_are_within (ha_write_scope child) (ha_write_scope parent)
         \<or> \<not> set_is_subset (ha_forbidden_paths parent) (ha_forbidden_paths child)
      then Err (CapabilityEnvelopeExceeded i) else Ok ())"

definition validate_harness_against_envelope ::
    "PlanNodeId \<Rightarrow> PlanHarnessSnapshot \<Rightarrow> PlanCapabilityEnvelopeSnapshot \<Rightarrow> unit plan_result" where
  "validate_harness_against_envelope i harness envelope =
     (if \<not> set_is_subset (ha_allowed_tools harness) (ce_allowed_tools envelope)
         \<or> \<not> scopes_are_within (ha_read_scope harness) (ce_read_scope envelope)
         \<or> \<not> scopes_are_within (ha_write_scope harness) (ce_write_scope envelope)
         \<or> \<not> set_is_subset (ce_forbidden_paths envelope) (ha_forbidden_paths harness)
      then Err (CapabilityEnvelopeExceeded i) else Ok ())"

definition live_children :: "node_map \<Rightarrow> PlanNodeId \<Rightarrow> PlanNodeSnapshot list" where
  "live_children nodes i =
     sort_key (\<lambda>c. (pn_sibling_order c, pn_id c))
       (filter (\<lambda>c. is_live c \<and> pn_parent_id c = Some i) (bt_values nodes))"

fun validate_harness_tree ::
    "nat \<Rightarrow> node_map \<Rightarrow> PlanNodeId \<Rightarrow> PlanHarnessSnapshot option \<Rightarrow> unit plan_result" where
  "validate_harness_tree 0 nodes i parent_harness = Diverge"
| "validate_harness_tree (Suc fuel) nodes i parent_harness =
     and_then (ok_or (bt_get nodes i) (UnknownNode i)) (\<lambda>n.
     and_then (validate_harness_paths (pn_id n) (pn_harness n)) (\<lambda>_.
     and_then (case parent_harness of
         None \<Rightarrow> Ok ()
       | Some parent \<Rightarrow> validate_harness_subset (pn_id n) parent (pn_harness n)) (\<lambda>_.
     let children = live_children nodes i in
     if length children > MAX_DIRECT_CHILDREN
     then Err (TooManyChildren i (length children) MAX_DIRECT_CHILDREN)
     else for_each (\<lambda>c. validate_harness_tree fuel nodes (pn_id c) (Some (pn_harness n))) children)))"

definition validate_graph :: "node_map \<Rightarrow> PlanNodeId \<Rightarrow> unit plan_result" where
  "validate_graph nodes root =
     (let live = live_ids nodes in
      if length live > MAX_PLAN_NODES then Err (TooManyNodes (length live) MAX_PLAN_NODES)
      else if root \<notin> set live then Err RootMissing
      else
        and_then (for_each (validate_graph_node nodes root live)
                   (filter (\<lambda>n. pn_id n \<in> set live) (bt_values nodes))) (\<lambda>_.
        and_then (validate_parent_reachability nodes root live) (\<lambda>_.
        and_then (validate_dependency_cycles nodes live) (\<lambda>_.
        and_then (validate_sibling_order nodes live) (\<lambda>_.
        validate_harness_tree (Suc (length nodes)) nodes root None)))))"

definition validate_authorized_envelope ::
    "node_map \<Rightarrow> PlanNodeId \<Rightarrow> PlanCapabilityEnvelopeSnapshot option \<Rightarrow> unit plan_result" where
  "validate_authorized_envelope nodes root envelope =
     (case envelope of
        None \<Rightarrow> Ok ()
      | Some e \<Rightarrow>
          and_then (ok_or (bt_get nodes root) RootMissing) (\<lambda>r.
          validate_harness_against_envelope (pn_id r) (pn_harness r) e))"

end
