(* ===== verification/Plan_Graph.thy ===== *)
theory Plan_Graph
  imports Plan_Validation
begin

text \<open>
  What \<open>validate_graph\<close> promises: a declarative specification of a valid plan graph and the proof
  that the checks accept exactly those graphs. The parts are separate equivalences: parent
  chains (\<open>reach_root\<close>, \<open>is_descendant\<close>), the depth-first search for dependency cycles, sibling
  positions, and the descent through the harness tree.
\<close>

section \<open>Specification\<close>

definition live_node :: "node_map \<Rightarrow> PlanNodeId \<Rightarrow> PlanNodeSnapshot \<Rightarrow> bool" where
  "live_node nodes i n \<longleftrightarrow> bt_get nodes i = Some n \<and> is_live n"

definition live_set :: "node_map \<Rightarrow> PlanNodeId set" where
  "live_set nodes = {i. \<exists>n. live_node nodes i n}"

definition parent_rel :: "node_map \<Rightarrow> (PlanNodeId \<times> PlanNodeId) set" where
  "parent_rel nodes = link_rel (parent_of nodes)"

definition dep_rel :: "node_map \<Rightarrow> (PlanNodeId \<times> PlanNodeId) set" where
  "dep_rel nodes = {(i, d). \<exists>n. live_node nodes i n \<and> d \<in> set (pn_depends_on n) \<and> d \<in> live_set nodes}"

definition valid_paths :: "PlanHarnessSnapshot \<Rightarrow> bool" where
  "valid_paths h \<longleftrightarrow>
     (\<forall>p\<in>set (ha_read_scope h) \<union> set (ha_write_scope h) \<union> set (ha_forbidden_paths h).
        is_valid_workspace_scope p)"

text \<open>\<open>capability_le c p\<close>: harness \<open>c\<close> grants nothing that \<open>p\<close> does not, and forbids at least as much.\<close>

definition capability_le :: "PlanHarnessSnapshot \<Rightarrow> PlanHarnessSnapshot \<Rightarrow> bool" where
  "capability_le c p \<longleftrightarrow>
     set (ha_allowed_tools c) \<subseteq> set (ha_allowed_tools p)
     \<and> scope.within (ha_read_scope c) (ha_read_scope p)
     \<and> scope.within (ha_write_scope c) (ha_write_scope p)
     \<and> set (ha_forbidden_paths p) \<subseteq> set (ha_forbidden_paths c)"

definition within_envelope :: "PlanHarnessSnapshot \<Rightarrow> PlanCapabilityEnvelopeSnapshot \<Rightarrow> bool" where
  "within_envelope h e \<longleftrightarrow>
     set (ha_allowed_tools h) \<subseteq> set (ce_allowed_tools e)
     \<and> scope.within (ha_read_scope h) (ce_read_scope e)
     \<and> scope.within (ha_write_scope h) (ce_write_scope e)
     \<and> set (ce_forbidden_paths e) \<subseteq> set (ha_forbidden_paths h)"

definition child_set :: "node_map \<Rightarrow> PlanNodeId \<Rightarrow> PlanNodeId set" where
  "child_set nodes i = {c. \<exists>n. live_node nodes c n \<and> pn_parent_id n = Some i}"

definition links_ok :: "node_map \<Rightarrow> PlanNodeId \<Rightarrow> bool" where
  "links_ok nodes root \<longleftrightarrow>
     (\<forall>i n. live_node nodes i n \<longrightarrow>
        (if i = root then pn_parent_id n = None
         else (\<exists>p\<in>live_set nodes. pn_parent_id n = Some p))
        \<and> (\<forall>d\<in>set (pn_depends_on n).
             d \<in> live_set nodes \<and> d \<noteq> i \<and> (d, i) \<notin> (parent_rel nodes)\<^sup>+))"

definition siblings_ok :: "node_map \<Rightarrow> bool" where
  "siblings_ok nodes \<longleftrightarrow>
     (\<forall>i j m n. live_node nodes i m \<longrightarrow> live_node nodes j n \<longrightarrow>
        pn_parent_id m = pn_parent_id n \<longrightarrow> pn_sibling_order m = pn_sibling_order n \<longrightarrow> i = j)"

definition harness_ok :: "node_map \<Rightarrow> PlanNodeId \<Rightarrow> bool" where
  "harness_ok nodes i \<longleftrightarrow>
     (\<forall>n. live_node nodes i n \<longrightarrow>
        valid_paths (pn_harness n)
        \<and> card (child_set nodes i) \<le> MAX_DIRECT_CHILDREN
        \<and> (\<forall>c m. live_node nodes c m \<longrightarrow> pn_parent_id m = Some i \<longrightarrow>
             capability_le (pn_harness m) (pn_harness n)))"

definition valid_plan_graph :: "node_map \<Rightarrow> PlanNodeId \<Rightarrow> bool" where
  "valid_plan_graph nodes root \<longleftrightarrow>
     card (live_set nodes) \<le> MAX_PLAN_NODES
     \<and> root \<in> live_set nodes
     \<and> links_ok nodes root
     \<and> (\<forall>i\<in>live_set nodes. (i, root) \<in> (parent_rel nodes)\<^sup>*)
     \<and> acyclic (dep_rel nodes)
     \<and> siblings_ok nodes
     \<and> (\<forall>i\<in>live_set nodes. harness_ok nodes i)"

section \<open>Capabilities\<close>

lemma set_is_subset_iff: "set_is_subset c p \<longleftrightarrow> set c \<subseteq> set p"
  by (auto simp: set_is_subset_def list_all_iff)

lemma scopes_are_within_eq: "scopes_are_within = scope.within"
  by (simp add: fun_eq_iff scopes_are_within_def scope.within_def)

lemma validate_harness_subset_iff: "validate_harness_subset i p c = Ok () \<longleftrightarrow> capability_le c p"
  by (auto simp: validate_harness_subset_def capability_le_def set_is_subset_iff scopes_are_within_eq)

lemma validate_harness_against_envelope_iff:
  "validate_harness_against_envelope i h e = Ok () \<longleftrightarrow> within_envelope h e"
  by (auto simp: validate_harness_against_envelope_def within_envelope_def set_is_subset_iff
      scopes_are_within_eq)

lemma validate_harness_paths_iff: "validate_harness_paths i h = Ok () \<longleftrightarrow> valid_paths h"
  by (auto simp: validate_harness_paths_def valid_paths_def result_simps)

interpretation capability: containment "\<lambda>p c. capability_le c p"
  by unfold_locales
    (auto simp: capability_le_def scope.within_refl intro: scope.within_trans)

lemma capability_within_envelope:
  "capability_le c p \<Longrightarrow> within_envelope p e \<Longrightarrow> within_envelope c e"
  by (auto simp: capability_le_def within_envelope_def intro: scope.within_trans)

section \<open>Live nodes\<close>

lemma live_set_subset_keys: "live_set nodes \<subseteq> fst ` set nodes"
  by (auto simp: live_set_def live_node_def dest: map_of_SomeD intro: rev_image_eqI)

lemma finite_live_set [simp]: "finite (live_set nodes)"
  using live_set_subset_keys by (rule finite_subset) simp

lemma live_node_unique: "live_node nodes i m \<Longrightarrow> live_node nodes i n \<Longrightarrow> m = n"
  by (simp add: live_node_def)

lemma live_node_id: "nodes_wf nodes \<Longrightarrow> live_node nodes i n \<Longrightarrow> pn_id n = i"
  by (auto simp: live_node_def nodes_wf_get)

lemma set_live_ids: "nodes_wf nodes \<Longrightarrow> set (live_ids nodes) = live_set nodes"
  by (force simp: live_ids_def live_set_def live_node_def nodes_wf_value nodes_wf_def bt_get_iff)

lemma length_live_ids: "nodes_wf nodes \<Longrightarrow> length (live_ids nodes) = card (live_set nodes)"
  using set_live_ids [of nodes] distinct_card [of "live_ids nodes"]
  by (simp add: live_ids_def)

lemma live_values:
  assumes "nodes_wf nodes"
  shows "set (filter (\<lambda>n. pn_id n \<in> set (live_ids nodes)) (bt_values nodes))
    = {n. live_node nodes (pn_id n) n}"
  using assms by (auto simp: set_live_ids live_set_def live_node_def nodes_wf_value)

lemma for_live_nodes:
  assumes "nodes_wf nodes"
  shows "(\<forall>n\<in>{n. live_node nodes (pn_id n) n}. P (pn_id n) n) \<longleftrightarrow> (\<forall>i n. live_node nodes i n \<longrightarrow> P i n)"
  using live_node_id [OF assms] by blast

section \<open>Parent chains\<close>

lemma parent_of_live: "live_node nodes i n \<Longrightarrow> parent_of nodes i = pn_parent_id n"
  by (simp add: live_node_def parent_of_def)

lemma is_descendant_from_chase:
  "chase (parent_of nodes) f c = Some xs \<Longrightarrow> is_descendant_from nodes a f c = Some (a \<in> set xs)"
proof (induction nodes a f c arbitrary: xs rule: is_descendant_from.induct)
  case (3 nodes a fuel p)
  then show ?case by auto
qed auto

lemma is_descendant_from_True:
  "is_descendant_from nodes a f c = Some True \<Longrightarrow> \<exists>p. c = Some p \<and> (p, a) \<in> (parent_rel nodes)\<^sup>*"
proof (induction nodes a f c rule: is_descendant_from.induct)
  case (3 nodes a fuel p)
  then show ?case
    by (auto simp: parent_rel_def split: if_splits intro: converse_rtrancl_into_rtrancl)
qed auto

lemma is_descendant_from_False:
  "is_descendant_from nodes a f c = Some False \<Longrightarrow> \<exists>xs. chase (parent_of nodes) f c = Some xs"
proof (induction nodes a f c rule: is_descendant_from.induct)
  case (3 nodes a fuel p)
  then show ?case by (auto split: if_splits)
qed auto

lemma above_iff:
  "(i, a) \<in> (parent_rel nodes)\<^sup>+ \<longleftrightarrow>
     (\<exists>p. parent_of nodes i = Some p \<and> (p, a) \<in> (parent_rel nodes)\<^sup>*)"
  by (auto simp: trancl_unfold_left parent_rel_def)

lemma is_descendant_sound:
  "is_descendant nodes i a = Ok b \<Longrightarrow> b \<longleftrightarrow> (i, a) \<in> (parent_rel nodes)\<^sup>+"
proof (cases b)
  case True
  assume "is_descendant nodes i a = Ok b"
  with True show ?thesis
    by (auto simp: is_descendant_def result_simps above_iff dest: is_descendant_from_True)
next
  case False
  assume Ok: "is_descendant nodes i a = Ok b"
  with False have f: "is_descendant_from nodes a (Suc (length nodes)) (parent_of nodes i) = Some False"
    by (simp add: is_descendant_def result_simps)
  then obtain xs where xs: "chase (parent_of nodes) (Suc (length nodes)) (parent_of nodes i) = Some xs"
    using is_descendant_from_False by blast
  with f have "a \<notin> set xs" using is_descendant_from_chase by fastforce
  with chase_reaches [OF xs] have "(i, a) \<notin> (parent_rel nodes)\<^sup>+"
    unfolding above_iff by (simp add: parent_rel_def)
  with False show ?thesis by simp
qed

lemma finite_parent_domain: "finite (fst ` set nodes)" by simp

lemma parent_domain: "parent_of nodes x \<noteq> None \<Longrightarrow> x \<in> fst ` set nodes"
  by (auto simp: parent_of_def bind_eq_None_conv dest: map_of_SomeD intro: rev_image_eqI)

lemma card_keys_le: "card (fst ` set nodes) \<le> length (nodes :: node_map)"
  by (metis card_length length_map set_map)

text \<open>Out of fuel is never: the loop of \<open>is_descendant\<close> ends exactly when the parent chain does or
  the ancestor is found on it.\<close>

lemma chase_parent_fuel:
  "chase (parent_of nodes) (Suc (length nodes)) c = None \<longleftrightarrow>
     (\<forall>n. chase (parent_of nodes) n c = None)"
  by (rule chase_enough [OF finite_parent_domain [of nodes]])
    (auto intro: parent_domain card_keys_le)

lemma is_descendant_returns:
  assumes "(i, r) \<in> (parent_rel nodes)\<^sup>*" and "parent_of nodes r = None"
  shows "is_descendant nodes i a = Ok ((i, a) \<in> (parent_rel nodes)\<^sup>+)"
proof -
  obtain n xs where "chase (parent_of nodes) n (Some i) = Some xs"
    using chase_to_end assms unfolding parent_rel_def by metis
  then obtain ys where "chase (parent_of nodes) n (parent_of nodes i) = Some ys"
    using chase_step by metis
  then obtain zs where "chase (parent_of nodes) (Suc (length nodes)) (parent_of nodes i) = Some zs"
    using chase_parent_fuel by (metis not_None_eq)
  then have "is_descendant nodes i a = Ok (a \<in> set zs)"
    using is_descendant_from_chase [of nodes "Suc (length nodes)" "parent_of nodes i" zs a]
    by (simp add: is_descendant_def result_simps)
  with is_descendant_sound [OF this] show ?thesis by simp
qed

lemma is_descendant_from_mono:
  "is_descendant_from nodes a f c = Some b \<Longrightarrow> f \<le> g \<Longrightarrow> is_descendant_from nodes a g c = Some b"
proof (induction nodes a f c arbitrary: g rule: is_descendant_from.induct)
  case (3 nodes a fuel p)
  from "3.prems" obtain k where g: "g = Suc k" "fuel \<le> k" by (cases g) auto
  show ?case
  proof (cases "p = a")
    case True
    with g "3.prems" show ?thesis by simp
  next
    case False
    with "3.prems" have "is_descendant_from nodes a fuel (parent_of nodes p) = Some b" by simp
    with "3.IH" [OF False this g(2)] False g(1) show ?thesis by simp
  qed
qed auto

section \<open>Reaching the root\<close>

lemma closed_avoids:
  assumes "(x, r) \<in> R\<^sup>*" and "x \<in> V" and "\<And>a b. a \<in> V \<Longrightarrow> (a, b) \<in> R \<Longrightarrow> b \<in> V"
  shows "r \<in> V"
  using assms by (induction rule: rtrancl_induct) auto

lemma reach_root_correct:
  assumes "root \<notin> set visited"
    and "\<And>v. v \<in> set visited \<Longrightarrow> \<exists>p. parent_of nodes v = Some p \<and> p \<in> insert cursor (set visited)"
  shows "reach_root nodes root i visited cursor = Ok () \<longleftrightarrow> (cursor, root) \<in> (parent_rel nodes)\<^sup>*"
  using assms
proof (induction nodes root i visited cursor rule: reach_root.induct)
  case (1 nodes root i visited cursor)
  consider (cycle) "cursor \<in> set visited" | (root) "cursor = root"
    | (stuck) "cursor \<notin> set visited" "cursor \<noteq> root" "parent_of nodes cursor = None"
    | (up) p where "cursor \<notin> set visited" "cursor \<noteq> root" "parent_of nodes cursor = Some p"
    by (cases "parent_of nodes cursor") auto
  then show ?case
  proof cases
    case cycle
    then have "(cursor, root) \<notin> (parent_rel nodes)\<^sup>*"
      using "1.prems" closed_avoids [of cursor root "parent_rel nodes" "set visited"]
      by (fastforce simp: parent_rel_def)
    with cycle show ?thesis by (simp add: reach_root.simps)
  next
    case root
    with "1.prems" show ?thesis by (simp add: reach_root.simps)
  next
    case stuck
    then have "(cursor, root) \<notin> (parent_rel nodes)\<^sup>*"
      by (auto simp: parent_rel_def elim: converse_rtranclE)
    with stuck show ?thesis by (simp add: reach_root.simps)
  next
    case (up p)
    have "reach_root nodes root i (cursor # visited) p = Ok () \<longleftrightarrow> (p, root) \<in> (parent_rel nodes)\<^sup>*"
      using up "1.prems" by (intro "1.IH") auto
    moreover have "(cursor, root) \<in> (parent_rel nodes)\<^sup>* \<longleftrightarrow> (p, root) \<in> (parent_rel nodes)\<^sup>*"
      using up unfolding parent_rel_def
      by (metis converse_rtranclE converse_rtrancl_into_rtrancl link_rel_iff option.inject)
    ultimately show ?thesis using up by (simp add: reach_root.simps [of nodes root i visited cursor])
  qed
qed

lemma validate_parent_reachability_iff:
  "validate_parent_reachability nodes root live = Ok () \<longleftrightarrow>
     (\<forall>i\<in>set live. (i, root) \<in> (parent_rel nodes)\<^sup>*)"
proof -
  have "reach_root nodes root i [] i = Ok () \<longleftrightarrow> (i, root) \<in> (parent_rel nodes)\<^sup>*" for i
    by (rule reach_root_correct) auto
  then show ?thesis by (simp add: validate_parent_reachability_def result_simps)
qed

lemma reach_root_total: "reach_root nodes root i visited cursor \<notin> {Panic, Diverge}"
proof (induction nodes root i visited cursor rule: reach_root.induct)
  case (1 nodes root i visited cursor)
  then show ?case by (subst reach_root.simps) (auto split: option.splits)
qed

section \<open>Dependency cycles\<close>

text \<open>
  The depth-first search keeps its finished nodes in the order they finish, which is a topological
  order: every successor of a node stands behind it. Such a list exists only for an acyclic
  relation; conversely the nodes on the search stack all lead to the current one, so on an acyclic
  relation the search meets no node twice and its recursion depth is bounded by the live nodes.
\<close>

definition live_deps :: "node_map \<Rightarrow> PlanNodeId list \<Rightarrow> PlanNodeId \<Rightarrow> PlanNodeId list" where
  "live_deps nodes live i =
     (case bt_get nodes i of
        None \<Rightarrow> []
      | Some n \<Rightarrow> filter (\<lambda>d. d \<in> set live) (pn_depends_on n))"

definition dep_edges :: "node_map \<Rightarrow> PlanNodeId list \<Rightarrow> (PlanNodeId \<times> PlanNodeId) set" where
  "dep_edges nodes live = {(i, d). d \<in> set (live_deps nodes live i)}"

fun topo :: "('a \<Rightarrow> 'a list) \<Rightarrow> 'a list \<Rightarrow> bool" where
  "topo succs [] \<longleftrightarrow> True"
| "topo succs (x # xs) \<longleftrightarrow> x \<notin> set xs \<and> set (succs x) \<subseteq> set xs \<and> topo succs xs"

lemma topo_trancl:
  assumes "topo succs xs" and "x \<in> set xs" and "(x, y) \<in> {(a, b). b \<in> set (succs a)}\<^sup>+"
  shows "y \<in> set xs \<and> x \<noteq> y"
  using assms
proof (induction xs arbitrary: x)
  case (Cons a xs)
  show ?case
  proof (cases "x \<in> set xs")
    case True
    with Cons show ?thesis by auto
  next
    case False
    with Cons.prems(2) have x: "x = a" by simp
    obtain d where d: "d \<in> set (succs x)" "(d, y) \<in> {(a, b). b \<in> set (succs a)}\<^sup>*"
      using tranclD [OF Cons.prems(3)] by blast
    with x Cons.prems(1) have "d \<in> set xs" by auto
    with d(2) Cons.IH [of d] Cons.prems(1) have "y \<in> set xs" by (auto simp: rtrancl_eq_or_trancl)
    with Cons.prems(1) x show ?thesis by auto
  qed
qed simp

lemma visit_Suc:
  "visit (Suc fuel) nodes live (visiting, visited) i =
     (if i \<in> set visited then Ok (visiting, visited)
      else if i \<in> set visiting then Err DependencyCycle
      else and_then (ok_or (bt_get nodes i) (UnknownDependency i)) (\<lambda>_.
        and_then (fold_res (visit fuel nodes live) (i # visiting, visited) (live_deps nodes live i))
        (\<lambda>(visiting', visited'). Ok (removeAll i visiting', i # visited'))))"
  by (simp add: live_deps_def split: option.split)

definition dfs_post where
  "dfs_post succs visiting visited ids s \<longleftrightarrow>
     (\<exists>fin. s = (visiting, fin) \<and> topo succs fin \<and> set visited \<union> set ids \<subseteq> set fin
        \<and> set visiting \<inter> set fin = {})"

lemma fold_dfs_post:
  assumes "fold_res f (visiting, visited) ids = Ok s"
    and "topo succs visited" and "set visiting \<inter> set visited = {}"
    and "\<And>visited i s. f (visiting, visited) i = Ok s \<Longrightarrow> topo succs visited \<Longrightarrow>
           set visiting \<inter> set visited = {} \<Longrightarrow> dfs_post succs visiting visited [i] s"
  shows "dfs_post succs visiting visited ids s"
  using assms(1-3)
proof (induction ids arbitrary: visited)
  case (Cons i ids)
  then obtain t where t: "f (visiting, visited) i = Ok t" "fold_res f t ids = Ok s"
    by (auto simp: result_simps)
  then have "dfs_post succs visiting visited [i] t" using Cons.prems assms(4) by blast
  then obtain fin where fin: "t = (visiting, fin)" "topo succs fin" "set visiting \<inter> set fin = {}"
      and sub: "set visited \<union> {i} \<subseteq> set fin"
    by (auto simp: dfs_post_def)
  with t have "dfs_post succs visiting fin ids s" by (intro Cons.IH) auto
  with sub show ?case by (auto simp: dfs_post_def)
qed (auto simp: dfs_post_def)

lemma visit_post:
  "visit fuel nodes live (visiting, visited) i = Ok s \<Longrightarrow> topo (live_deps nodes live) visited \<Longrightarrow>
     set visiting \<inter> set visited = {} \<Longrightarrow> dfs_post (live_deps nodes live) visiting visited [i] s"
proof (induction fuel arbitrary: visiting visited i s)
  case (Suc fuel)
  show ?case
  proof (cases "i \<in> set visited")
    case True
    with Suc.prems show ?thesis by (auto simp: dfs_post_def)
  next
    case False
    with Suc.prems(1) obtain vg vd where
      new: "i \<notin> set visiting" and
      sub: "fold_res (visit fuel nodes live) (i # visiting, visited) (live_deps nodes live i) = Ok (vg, vd)"
      and s: "s = (removeAll i vg, i # vd)"
      unfolding visit_Suc by (auto simp: result_simps split: if_splits)
    have "dfs_post (live_deps nodes live) (i # visiting) visited (live_deps nodes live i) (vg, vd)"
      using sub by (rule fold_dfs_post) (use Suc False in auto)
    with s new show ?thesis by (auto simp: dfs_post_def)
  qed
qed simp

lemma visit_complete:
  assumes "acyclic (dep_edges nodes live)" and "set live \<subseteq> fst ` set nodes"
    and "i \<in> set live" and "distinct visiting" and "set visiting \<subseteq> set live"
    and "\<forall>v\<in>set visiting. (v, i) \<in> (dep_edges nodes live)\<^sup>+"
    and "card (set live) < length visiting + fuel"
  shows "\<exists>visited'. visit fuel nodes live (visiting, visited) i = Ok (visiting, visited')"
  using assms(3-7)
proof (induction fuel arbitrary: visiting visited i)
  case 0
  then have "length visiting \<le> card (set live)"
    by (metis card_mono distinct_card List.finite_set)
  with 0 show ?case by simp
next
  case (Suc fuel)
  have new: "i \<notin> set visiting" using Suc.prems(4) assms(1) by (auto simp: acyclic_def)
  obtain n where n: "bt_get nodes i = Some n"
    using Suc.prems(1) assms(2) by (metis map_of_eq_None_iff not_Some_eq subsetD)
  have step: "\<exists>w. visit fuel nodes live (i # visiting, v) d = Ok (i # visiting, w)"
    if d: "d \<in> set (live_deps nodes live i)" for d v
  proof (rule Suc.IH)
    have e: "(i, d) \<in> dep_edges nodes live" using d by (simp add: dep_edges_def)
    then show "\<forall>v\<in>set (i # visiting). (v, d) \<in> (dep_edges nodes live)\<^sup>+"
      using Suc.prems(4) by (auto intro: trancl_into_trancl)
    show "d \<in> set live" using d by (auto simp: live_deps_def split: option.splits)
  qed (use Suc.prems new in auto)
  have "\<exists>w. fold_res (visit fuel nodes live) (i # visiting, v) ds = Ok (i # visiting, w)"
    if "set ds \<subseteq> set (live_deps nodes live i)" for ds v
    using that
  proof (induction ds arbitrary: v)
    case (Cons d ds)
    with step [of d v] obtain w where "visit fuel nodes live (i # visiting, v) d = Ok (i # visiting, w)"
      by auto
    with Cons show ?case by simp
  qed simp
  then obtain w where
    "fold_res (visit fuel nodes live) (i # visiting, visited) (live_deps nodes live i) = Ok (i # visiting, w)"
    by blast
  with n new show ?case unfolding visit_Suc by simp
qed

lemma validate_dependency_cycles_iff:
  assumes "set live \<subseteq> fst ` set nodes"
  shows "validate_dependency_cycles nodes live = Ok () \<longleftrightarrow> acyclic (dep_edges nodes live)"
proof
  assume "validate_dependency_cycles nodes live = Ok ()"
  then obtain s where "fold_res (visit (Suc (length nodes)) nodes live) ([], []) live = Ok s"
    by (auto simp: validate_dependency_cycles_def result_simps)
  then have "dfs_post (live_deps nodes live) [] [] live s"
    by (rule fold_dfs_post) (simp, simp, rule visit_post)
  then obtain fin where fin: "topo (live_deps nodes live) fin" "set live \<subseteq> set fin"
    by (auto simp: dfs_post_def)
  show "acyclic (dep_edges nodes live)"
  proof (unfold acyclic_def, intro allI notI)
    fix x assume x: "(x, x) \<in> (dep_edges nodes live)\<^sup>+"
    then obtain w where "x \<in> set (live_deps nodes live w)"
      by (auto simp: dep_edges_def elim: tranclE)
    then have "x \<in> set fin"
      using fin(2) by (auto simp: live_deps_def split: option.splits)
    with topo_trancl [OF fin(1) this, of x] x show False by (simp add: dep_edges_def)
  qed
next
  assume ac: "acyclic (dep_edges nodes live)"
  have "card (set live) \<le> length nodes"
    using assms card_mono [of "fst ` set nodes" "set live"] card_keys_le [of nodes] by auto
  then have one: "\<exists>w. visit (Suc (length nodes)) nodes live ([], v) i = Ok ([], w)"
    if "i \<in> set live" for i v
    using that ac assms by (intro visit_complete) auto
  have "\<exists>w. fold_res (visit (Suc (length nodes)) nodes live) ([], v) ids = Ok ([], w)"
    if "set ids \<subseteq> set live" for ids v
    using that
  proof (induction ids arbitrary: v)
    case (Cons d ds)
    with one [of d v] obtain w where "visit (Suc (length nodes)) nodes live ([], v) d = Ok ([], w)"
      by auto
    with Cons show ?case by simp
  qed simp
  then obtain w where "fold_res (visit (Suc (length nodes)) nodes live) ([], []) live = Ok ([], w)"
    by blast
  then show "validate_dependency_cycles nodes live = Ok ()"
    by (simp add: validate_dependency_cycles_def)
qed

lemma dep_edges_live:
  assumes "nodes_wf nodes"
  shows "acyclic (dep_edges nodes (live_ids nodes)) \<longleftrightarrow> acyclic (dep_rel nodes)"
proof -
  have sub: "dep_rel nodes \<subseteq> dep_edges nodes (live_ids nodes)"
    using assms
    by (auto simp: dep_rel_def dep_edges_def live_deps_def set_live_ids live_node_def)
  have "(x, y) \<in> (dep_rel nodes)\<^sup>+"
    if "(x, y) \<in> (dep_edges nodes (live_ids nodes))\<^sup>+" and "x \<in> live_set nodes" for x y
  proof -
    have "(x, y) \<in> (dep_rel nodes)\<^sup>+ \<and> y \<in> live_set nodes"
      using that
    proof (induction rule: trancl_induct)
      case (base y)
      then have "(x, y) \<in> dep_rel nodes"
        using assms by (auto simp: dep_rel_def dep_edges_def live_deps_def set_live_ids live_set_def
            live_node_def split: option.splits)
      then show ?case by (auto simp: dep_rel_def)
    next
      case (step y z)
      then have "(y, z) \<in> dep_rel nodes"
        using assms by (auto simp: dep_rel_def dep_edges_def live_deps_def set_live_ids live_set_def
            live_node_def split: option.splits)
      with step show ?case by (auto simp: dep_rel_def intro: trancl_into_trancl)
    qed
    then show ?thesis ..
  qed
  moreover have "x \<in> live_set nodes" if "(x, x) \<in> (dep_edges nodes (live_ids nodes))\<^sup>+" for x
    using that assms
    by (auto simp: dep_edges_def live_deps_def set_live_ids elim!: tranclE split: option.splits)
  ultimately show ?thesis
    unfolding acyclic_def using trancl_mono [OF _ sub] by blast
qed

section \<open>Sibling positions\<close>

lemma fold_fresh_iff:
  "(\<exists>s. fold_res (\<lambda>seen n. if k n \<in> set seen then Err (e n) else Ok (k n # seen)) seen xs = Ok s)
     \<longleftrightarrow> distinct (map k xs) \<and> set (map k xs) \<inter> set seen = {}"
  by (induction xs arbitrary: seen) auto

lemma validate_sibling_order_iff:
  assumes "nodes_wf nodes"
  shows "validate_sibling_order nodes (live_ids nodes) = Ok () \<longleftrightarrow> siblings_ok nodes"
proof -
  let ?k = "\<lambda>n. (pn_parent_id n, pn_sibling_order n)"
  let ?xs = "filter (\<lambda>n. pn_id n \<in> set (live_ids nodes)) (bt_values nodes)"
  have "distinct ?xs" using nodes_wf_ids [OF assms] by (metis distinct_filter distinct_map)
  then have "distinct (map ?k ?xs) \<longleftrightarrow> inj_on ?k (set ?xs)" by (simp add: distinct_map)
  also have "\<dots> \<longleftrightarrow> siblings_ok nodes"
  proof -
    have "inj_on ?k {n. live_node nodes (pn_id n) n} \<longleftrightarrow> siblings_ok nodes"
    proof
      assume inj: "inj_on ?k {n. live_node nodes (pn_id n) n}"
      show "siblings_ok nodes"
        unfolding siblings_ok_def
      proof (intro allI impI)
        fix i j m n
        assume m: "live_node nodes i m" and n: "live_node nodes j n"
          and "pn_parent_id m = pn_parent_id n" "pn_sibling_order m = pn_sibling_order n"
        then have "m = n"
          using live_node_id [OF assms m] live_node_id [OF assms n] by (auto intro: inj_onD [OF inj])
        then show "i = j" using live_node_id [OF assms m] live_node_id [OF assms n] by simp
      qed
    next
      assume "siblings_ok nodes"
      then show "inj_on ?k {n. live_node nodes (pn_id n) n}"
        unfolding siblings_ok_def inj_on_def by (metis Pair_inject live_node_unique mem_Collect_eq)
    qed
    then show ?thesis by (simp only: live_values [OF assms])
  qed
  finally show ?thesis
    using fold_fresh_iff [of ?k "\<lambda>n. DuplicateSiblingOrder (pn_parent_id n) (pn_sibling_order n)" "[]" ?xs]
    by (simp add: validate_sibling_order_def result_simps)
qed

section \<open>The harness tree\<close>

definition child_rel :: "node_map \<Rightarrow> (PlanNodeId \<times> PlanNodeId) set" where
  "child_rel nodes = {(c, p). c \<in> child_set nodes p}"

lemma child_rel_parent: "child_rel nodes \<subseteq> parent_rel nodes"
  by (auto simp: child_rel_def child_set_def parent_rel_def parent_of_live)

lemma child_set_live: "child_set nodes i \<subseteq> live_set nodes"
  by (auto simp: child_set_def live_set_def)

lemma set_live_children:
  assumes "nodes_wf nodes"
  shows "c \<in> set (live_children nodes i) \<longleftrightarrow> live_node nodes (pn_id c) c \<and> pn_parent_id c = Some i"
  using assms by (auto simp: live_children_def live_node_def nodes_wf_value)

lemma map_id_live_children:
  assumes "nodes_wf nodes"
  shows "set (map pn_id (live_children nodes i)) = child_set nodes i"
proof (rule set_eqI)
  fix c
  show "c \<in> set (map pn_id (live_children nodes i)) \<longleftrightarrow> c \<in> child_set nodes i"
    unfolding set_map image_iff child_set_def mem_Collect_eq Bex_def set_live_children [OF assms]
    using live_node_id [OF assms, of c] by metis
qed

lemma length_live_children:
  assumes "nodes_wf nodes"
  shows "length (live_children nodes i) = card (child_set nodes i)"
proof -
  have "distinct (map pn_id (filter (\<lambda>c. is_live c \<and> pn_parent_id c = Some i) (bt_values nodes)))"
    using nodes_wf_ids [OF assms] by (metis distinct_map_filter)
  then have "inj_on pn_id (set (live_children nodes i))" "distinct (live_children nodes i)"
    by (auto simp: live_children_def distinct_map)
  then have "distinct (map pn_id (live_children nodes i))" by (simp add: distinct_map)
  from distinct_card [OF this] show ?thesis by (simp add: map_id_live_children [OF assms] flip: set_map)
qed

text \<open>\<open>below nodes i\<close>: the live subtree of \<open>i\<close>, with \<open>i\<close> itself.\<close>

definition below :: "node_map \<Rightarrow> PlanNodeId \<Rightarrow> PlanNodeId set" where
  "below nodes i = {j. (j, i) \<in> (child_rel nodes)\<^sup>*}"

lemma below_unfold: "below nodes i = insert i (\<Union>c\<in>child_set nodes i. below nodes c)"
  by (auto simp: below_def child_rel_def elim: rtranclE intro: rtrancl_into_rtrancl)

lemma below_live: "below nodes i \<subseteq> insert i (live_set nodes)"
proof
  fix j assume "j \<in> below nodes i"
  then have "j = i \<or> (\<exists>p. j \<in> child_set nodes p)"
    unfolding below_def child_rel_def by (blast elim: converse_rtranclE)
  with child_set_live show "j \<in> insert i (live_set nodes)" by blast
qed

lemma finite_below [simp]: "finite (below nodes i)"
  using below_live by (rule finite_subset) simp

lemma below_child:
  assumes "acyclic (child_rel nodes)" and "c \<in> child_set nodes i"
  shows "below nodes c \<subset> below nodes i"
proof -
  have "(c, i) \<in> child_rel nodes" using assms(2) by (simp add: child_rel_def)
  then have "i \<notin> below nodes c"
    using assms(1) unfolding below_def acyclic_def
    by (metis mem_Collect_eq rtrancl_into_trancl1)
  moreover have "below nodes c \<subseteq> below nodes i" using assms(2) below_unfold [of nodes i] by auto
  moreover have "i \<in> below nodes i" by (simp add: below_def)
  ultimately show ?thesis by auto
qed

lemma harness_tree_sound:
  assumes "nodes_wf nodes"
  shows "validate_harness_tree fuel nodes i ph = Ok () \<Longrightarrow>
     (\<forall>j\<in>below nodes i. harness_ok nodes j)
     \<and> (\<forall>p n. ph = Some p \<longrightarrow> bt_get nodes i = Some n \<longrightarrow> capability_le (pn_harness n) p)"
proof (induction fuel arbitrary: i ph)
  case (Suc fuel)
  from Suc.prems obtain n where n: "bt_get nodes i = Some n" "valid_paths (pn_harness n)"
    and ph: "\<forall>p. ph = Some p \<longrightarrow> capability_le (pn_harness n) p"
    and len: "card (child_set nodes i) \<le> MAX_DIRECT_CHILDREN"
    and rec: "\<And>c. c \<in> set (live_children nodes i) \<Longrightarrow>
        validate_harness_tree fuel nodes (pn_id c) (Some (pn_harness n)) = Ok ()"
    by (auto simp: result_simps Let_def validate_harness_paths_iff validate_harness_subset_iff
        length_live_children [OF assms] split: if_splits option.splits)
  have child: "(\<forall>j\<in>below nodes c. harness_ok nodes j) \<and> capability_le (pn_harness m) (pn_harness n)"
    if "live_node nodes c m" "pn_parent_id m = Some i" for c m
  proof -
    have "m \<in> set (live_children nodes i)"
      using that live_node_id [OF assms that(1)] by (simp add: set_live_children [OF assms])
    from Suc.IH [OF rec [OF this]] show ?thesis
      using that live_node_id [OF assms that(1)] by (auto simp: live_node_def)
  qed
  have "harness_ok nodes i"
    using n len child by (auto simp: harness_ok_def live_node_def)
  moreover have "harness_ok nodes j" if "c \<in> child_set nodes i" "j \<in> below nodes c" for j c
    using that child by (auto simp: child_set_def)
  ultimately show ?case using ph n below_unfold [of nodes i] by auto
qed simp

lemma harness_tree_complete:
  assumes "nodes_wf nodes" and "acyclic (child_rel nodes)"
    and "\<forall>j\<in>below nodes i. harness_ok nodes j" and "live_node nodes i n"
    and "\<forall>p. ph = Some p \<longrightarrow> capability_le (pn_harness n) p"
    and "card (below nodes i) \<le> fuel"
  shows "validate_harness_tree fuel nodes i ph = Ok ()"
  using assms(3-6)
proof (induction fuel arbitrary: i n ph)
  case 0
  then have "below nodes i = {}" by simp
  moreover have "i \<in> below nodes i" by (simp add: below_def)
  ultimately show ?case by simp
next
  case (Suc fuel)
  have i: "harness_ok nodes i" using Suc.prems(1) by (simp add: below_def)
  have "validate_harness_tree fuel nodes (pn_id c) (Some (pn_harness n)) = Ok ()"
    if "c \<in> set (live_children nodes i)" for c
  proof (rule Suc.IH)
    have c: "live_node nodes (pn_id c) c" "pn_parent_id c = Some i"
      using that by (auto simp: set_live_children [OF assms(1)])
    then have ch: "pn_id c \<in> child_set nodes i" by (auto simp: child_set_def)
    show "live_node nodes (pn_id c) c" by (rule c)
    show "\<forall>p. Some (pn_harness n) = Some p \<longrightarrow> capability_le (pn_harness c) p"
      using i c Suc.prems(2) by (auto simp: harness_ok_def)
    note sub = below_child [OF assms(2) ch]
    with Suc.prems(1) show "\<forall>j\<in>below nodes (pn_id c). harness_ok nodes j" by blast
    show "card (below nodes (pn_id c)) \<le> fuel"
      using Suc.prems(4) psubset_card_mono [OF finite_below sub] by simp
  qed
  moreover have "card (child_set nodes i) \<le> MAX_DIRECT_CHILDREN" "valid_paths (pn_harness n)"
    using i Suc.prems(2) by (auto simp: harness_ok_def)
  ultimately show ?case
    using Suc.prems(2,3)
    by (auto simp: live_node_def Let_def length_live_children [OF assms(1)] result_simps
        validate_harness_paths_iff validate_harness_subset_iff split: option.split)
qed

section \<open>The whole graph\<close>

lemma validate_graph_node_sound:
  assumes "validate_graph_node nodes root live n = Ok ()"
  shows "(if pn_id n = root then pn_parent_id n = None
          else (\<exists>p\<in>set live. pn_parent_id n = Some p))
    \<and> (\<forall>d\<in>set (pn_depends_on n).
         d \<in> set live \<and> d \<noteq> pn_id n \<and> (d, pn_id n) \<notin> (parent_rel nodes)\<^sup>+)"
  using assms
  by (auto simp: validate_graph_node_def result_simps split: if_splits dest!: is_descendant_sound)

lemma validate_graph_node_complete:
  assumes "if pn_id n = root then pn_parent_id n = None
          else (\<exists>p\<in>set live. pn_parent_id n = Some p)"
    and "\<forall>d\<in>set (pn_depends_on n).
         d \<in> set live \<and> d \<noteq> pn_id n \<and> (d, pn_id n) \<notin> (parent_rel nodes)\<^sup>+"
    and "\<forall>d\<in>set live. (d, root) \<in> (parent_rel nodes)\<^sup>*" and "parent_of nodes root = None"
  shows "validate_graph_node nodes root live n = Ok ()"
  using assms is_descendant_returns [of _ root nodes "pn_id n"]
  by (auto simp: validate_graph_node_def result_simps)

lemma acyclic_child_rel:
  assumes "\<forall>i\<in>live_set nodes. (i, root) \<in> (parent_rel nodes)\<^sup>*" and "parent_of nodes root = None"
  shows "acyclic (child_rel nodes)"
proof (unfold acyclic_def, intro allI notI)
  fix x assume x: "(x, x) \<in> (child_rel nodes)\<^sup>+"
  then have "x \<in> live_set nodes"
    using child_set_live by (auto simp: child_rel_def dest!: tranclD)
  with assms have "(x, x) \<notin> (parent_rel nodes)\<^sup>+"
    unfolding parent_rel_def by (intro no_cycle_above_end) auto
  with x show False using trancl_mono [OF _ child_rel_parent] by blast
qed

text \<open>With live parents, everything live is below the root.\<close>

lemma below_root:
  assumes "links_ok nodes root" and "i \<in> live_set nodes" and "(i, root) \<in> (parent_rel nodes)\<^sup>*"
  shows "i \<in> below nodes root"
  using assms(3,2)
proof (induction rule: converse_rtrancl_induct)
  case base
  then show ?case by (simp add: below_def)
next
  case (step i p)
  then obtain n where n: "live_node nodes i n" "pn_parent_id n = Some p"
    by (auto simp: live_set_def parent_rel_def parent_of_live)
  then have "(i, p) \<in> child_rel nodes" by (auto simp: child_rel_def child_set_def)
  moreover have "p \<in> live_set nodes"
    using assms(1) n unfolding links_ok_def by (metis option.distinct(1) option.inject)
  with step have "p \<in> below nodes root" by blast
  ultimately show ?case by (auto simp: below_def intro: converse_rtrancl_into_rtrancl)
qed

lemma links_ok_iff:
  assumes "nodes_wf nodes"
  shows "links_ok nodes root \<longleftrightarrow>
    (\<forall>n\<in>{n. live_node nodes (pn_id n) n}.
       (if pn_id n = root then pn_parent_id n = None
          else (\<exists>p\<in>set (live_ids nodes). pn_parent_id n = Some p))
       \<and> (\<forall>d\<in>set (pn_depends_on n).
         d \<in> set (live_ids nodes) \<and> d \<noteq> pn_id n \<and> (d, pn_id n) \<notin> (parent_rel nodes)\<^sup>+))"
  unfolding links_ok_def set_live_ids [OF assms]
  by (rule for_live_nodes [OF assms, symmetric])

lemma root_parent_None: "links_ok nodes root \<Longrightarrow> root \<in> live_set nodes \<Longrightarrow> parent_of nodes root = None"
  by (auto simp: links_ok_def live_set_def parent_of_live)

lemma live_ids_keys: "nodes_wf nodes \<Longrightarrow> set (live_ids nodes) \<subseteq> fst ` set nodes"
  using live_set_subset_keys set_live_ids by blast

lemma validate_graph_parts:
  assumes "nodes_wf nodes"
  shows "validate_graph nodes root = Ok () \<longleftrightarrow>
    card (live_set nodes) \<le> MAX_PLAN_NODES \<and> root \<in> live_set nodes
    \<and> (\<forall>n\<in>{n. live_node nodes (pn_id n) n}. validate_graph_node nodes root (live_ids nodes) n = Ok ())
    \<and> (\<forall>i\<in>live_set nodes. (i, root) \<in> (parent_rel nodes)\<^sup>*)
    \<and> acyclic (dep_rel nodes) \<and> siblings_ok nodes
    \<and> validate_harness_tree (Suc (length nodes)) nodes root None = Ok ()"
  unfolding validate_graph_def Let_def length_live_ids [OF assms]
  by (simp add: result_simps live_values [OF assms, unfolded set_live_ids [OF assms]] set_live_ids [OF assms]
      validate_parent_reachability_iff validate_sibling_order_iff [OF assms]
      validate_dependency_cycles_iff [OF live_ids_keys [OF assms]] dep_edges_live [OF assms]
      del: set_filter mem_Collect_eq validate_harness_tree.simps MAX_PLAN_NODES_def)

lemma validate_graph_sound:
  assumes "nodes_wf nodes" and "validate_graph nodes root = Ok ()"
  shows "valid_plan_graph nodes root"
proof -
  note parts = assms(2) [unfolded validate_graph_parts [OF assms(1)]]
  have links: "links_ok nodes root"
    unfolding links_ok_iff [OF assms(1)] using parts validate_graph_node_sound by blast
  have "\<forall>i\<in>live_set nodes. harness_ok nodes i"
    using harness_tree_sound [OF assms(1)] below_root [OF links] parts by blast
  with parts links show ?thesis by (simp add: valid_plan_graph_def)
qed

lemma validate_graph_complete:
  assumes "nodes_wf nodes" and "valid_plan_graph nodes root"
  shows "validate_graph nodes root = Ok ()"
proof -
  note v = assms(2) [unfolded valid_plan_graph_def]
  then have links: "links_ok nodes root" and root: "root \<in> live_set nodes"
    and reach: "\<forall>i\<in>live_set nodes. (i, root) \<in> (parent_rel nodes)\<^sup>*" by auto
  note top = root_parent_None [OF links root]
  have node: "validate_graph_node nodes root (live_ids nodes) n = Ok ()"
    if "live_node nodes (pn_id n) n" for n
    using links that top reach
    by (intro validate_graph_node_complete) (auto simp: links_ok_iff [OF assms(1)] set_live_ids [OF assms(1)])
  obtain r where r: "live_node nodes root r" using root by (auto simp: live_set_def)
  have "below nodes root \<subseteq> live_set nodes" using below_live root by blast
  then have "card (below nodes root) \<le> length nodes"
    using card_mono [of "fst ` set nodes" "below nodes root"] live_set_subset_keys card_keys_le [of nodes]
    by (metis List.finite_set finite_imageI le_trans subset_trans)
  then have "validate_harness_tree (Suc (length nodes)) nodes root None = Ok ()"
    using v \<open>below nodes root \<subseteq> live_set nodes\<close>
    by (intro harness_tree_complete [OF assms(1) acyclic_child_rel [OF reach top] _ r]) auto
  with v node show ?thesis by (simp add: validate_graph_parts [OF assms(1)] del: validate_harness_tree.simps)
qed

text \<open>Narrowing from parent to child makes the envelope of the root the envelope of every live node.\<close>

lemma graph_within_envelope:
  assumes "valid_plan_graph m root" and "validate_authorized_envelope m root (Some e) = Ok ()"
    and "live_node m i n"
  shows "within_envelope (pn_harness n) e"
proof -
  note v = assms(1) [unfolded valid_plan_graph_def]
  have i: "(i, root) \<in> (child_rel m)\<^sup>*"
    using below_root [of m root i] v assms(3) by (auto simp: below_def live_set_def)
  then show ?thesis using assms(3)
  proof (induction arbitrary: n rule: converse_rtrancl_induct)
    case base
    then show ?case
      using assms(2)
      by (auto simp: validate_authorized_envelope_def live_node_def result_simps
          validate_harness_against_envelope_iff)
  next
    case (step c p)
    have n: "live_node m c n" "pn_parent_id n = Some p"
      using step(1,4) by (auto simp: child_rel_def child_set_def live_node_def)
    have "links_ok m root" using v by simp
    from this [unfolded links_ok_def, rule_format, OF n(1)] n(2)
    have p: "p \<in> live_set m" by (auto split: if_splits)
    then obtain q where q: "live_node m p q" by (auto simp: live_set_def)
    have "harness_ok m p" using v p by simp
    with q n have "capability_le (pn_harness n) (pn_harness q)" unfolding harness_ok_def by blast
    with step.IH [OF q] show ?case by (rule capability_within_envelope [rotated])
  qed
qed

section \<open>Termination\<close>

lemma chase_ends: "chase f n (Some x) = Some xs \<Longrightarrow> \<exists>r. (x, r) \<in> (link_rel f)\<^sup>* \<and> f r = None"
proof (induction n arbitrary: x xs)
  case (Suc n)
  show ?case
  proof (cases "f x")
    case (Some y)
    with Suc.prems obtain ys where "chase f n (Some y) = Some ys" by auto
    from Suc.IH [OF this] Some show ?thesis
      by (metis converse_rtrancl_into_rtrancl link_rel_iff)
  qed auto
qed simp

lemma parent_chain_ends:
  assumes "acyclic (parent_rel nodes)"
  shows "\<exists>r. (i, r) \<in> (parent_rel nodes)\<^sup>* \<and> parent_of nodes r = None"
proof -
  have "parent_rel nodes \<subseteq> (\<lambda>i. (i, the (parent_of nodes i))) ` fst ` set nodes"
    using parent_domain by (fastforce simp: parent_rel_def)
  then have "finite (parent_rel nodes)" by (rule finite_subset) simp
  then have "wf ((parent_rel nodes)\<inverse>)" using assms by (rule finite_acyclic_wf_converse)
  then show ?thesis
  proof (induction i)
    case (less i)
    show ?case
    proof (cases "parent_of nodes i")
      case (Some p)
      then have "(i, p) \<in> parent_rel nodes" by (simp add: parent_rel_def)
      with less [of p] show ?thesis by (auto intro: converse_rtrancl_into_rtrancl)
    qed auto
  qed
qed

lemma visit_not_diverge:
  assumes "distinct visiting" and "set visiting \<subseteq> set live" and "i \<in> set live"
    and "card (set live) < length visiting + fuel"
  shows "visit fuel nodes live (visiting, visited) i \<notin> {Panic, Diverge}
    \<and> (\<forall>vg vd. visit fuel nodes live (visiting, visited) i = Ok (vg, vd) \<longrightarrow> vg = visiting)"
  using assms
proof (induction fuel arbitrary: visiting visited i)
  case 0
  then have "length visiting \<le> card (set live)"
    by (metis card_mono distinct_card List.finite_set)
  with 0 show ?case by simp
next
  case (Suc fuel)
  show ?case
  proof (cases "i \<in> set visited \<or> i \<in> set visiting \<or> bt_get nodes i = None")
    case True
    then show ?thesis unfolding visit_Suc by auto
  next
    case False
    then obtain n where n: "bt_get nodes i = Some n" by auto
    have step: "visit fuel nodes live (i # visiting, v) d \<notin> {Panic, Diverge}
        \<and> (\<forall>vg vd. visit fuel nodes live (i # visiting, v) d = Ok (vg, vd) \<longrightarrow> vg = i # visiting)"
      if "d \<in> set (live_deps nodes live i)" for d v
      using that False Suc.prems
      by (intro Suc.IH) (auto simp: live_deps_def split: option.splits)
    have "fold_res (visit fuel nodes live) (i # visiting, v) ds \<notin> {Panic, Diverge}
        \<and> (\<forall>vg vd. fold_res (visit fuel nodes live) (i # visiting, v) ds = Ok (vg, vd) \<longrightarrow> vg = i # visiting)"
      if "set ds \<subseteq> set (live_deps nodes live i)" for ds v
      using that
    proof (induction ds arbitrary: v)
      case (Cons d ds)
      show ?case
      proof (cases "visit fuel nodes live (i # visiting, v) d")
        case (Ok s)
        with step [of d v] Cons.prems obtain w where "s = (i # visiting, w)" by (cases s) auto
        with Ok Cons.IH [of w] Cons.prems show ?thesis by simp
      qed (use step [of d v] Cons.prems in auto)
    qed simp
    from this [of "live_deps nodes live i" visited] n False show ?thesis
      unfolding visit_Suc by (auto simp: result_simps split: if_splits)
  qed
qed

lemma validate_dependency_cycles_returns:
  assumes "set live \<subseteq> fst ` set nodes"
  shows "validate_dependency_cycles nodes live \<notin> {Panic, Diverge}"
proof -
  have "card (set live) \<le> length nodes"
    using assms card_mono [of "fst ` set nodes" "set live"] card_keys_le [of nodes] by auto
  then have one: "visit (Suc (length nodes)) nodes live ([], v) i \<notin> {Panic, Diverge}
      \<and> (\<forall>vg vd. visit (Suc (length nodes)) nodes live ([], v) i = Ok (vg, vd) \<longrightarrow> vg = [])"
    if "i \<in> set live" for i v
    using that by (intro visit_not_diverge) auto
  let ?I = "\<lambda>(vg, vd). vg = []"
  have "fold_res (visit (Suc (length nodes)) nodes live) ([], []) live \<noteq> Panic"
    by (rule fold_res_no_panic [where I = ?I]) (use one in \<open>auto simp del: visit.simps\<close>)
  moreover have "fold_res (visit (Suc (length nodes)) nodes live) ([], []) live \<noteq> Diverge"
    by (rule fold_res_no_diverge [where I = ?I]) (use one in \<open>auto simp del: visit.simps\<close>)
  ultimately show ?thesis
    by (auto simp: validate_dependency_cycles_def result_simps simp del: visit.simps)
qed

lemma harness_tree_returns:
  assumes "nodes_wf nodes" and "acyclic (child_rel nodes)" and "card (below nodes i) \<le> fuel"
  shows "validate_harness_tree fuel nodes i ph \<notin> {Panic, Diverge}"
  using assms(3)
proof (induction fuel arbitrary: i ph)
  case 0
  moreover have "i \<in> below nodes i" by (simp add: below_def)
  ultimately show ?case by auto
next
  case (Suc fuel)
  have rec: "validate_harness_tree fuel nodes (pn_id c) h \<notin> {Panic, Diverge}"
    if "c \<in> set (live_children nodes i)" for c h
  proof (rule Suc.IH)
    have "pn_id c \<in> child_set nodes i"
      using that by (auto simp: set_live_children [OF assms(1)] child_set_def)
    from psubset_card_mono [OF finite_below below_child [OF assms(2) this]] Suc.prems
    show "card (below nodes (pn_id c)) \<le> fuel" by simp
  qed
  have paths: "validate_harness_paths j h \<notin> {Panic, Diverge}" for j h
    by (auto simp: validate_harness_paths_def dest!: for_each_PanicD for_each_DivergeD split: if_splits)
  show ?case
    using paths rec
    by (auto simp: result_simps Let_def validate_harness_subset_def
        dest!: for_each_PanicD for_each_DivergeD split: if_splits option.splits)
qed

lemma validate_graph_node_returns:
  assumes "acyclic (parent_rel nodes)"
  shows "validate_graph_node nodes root live n \<notin> {Panic, Diverge}"
proof -
  have "is_descendant nodes d a \<notin> {Panic, Diverge}" for d a
    using parent_chain_ends [OF assms, of d] is_descendant_returns by fastforce
  then show ?thesis
    by (auto simp: validate_graph_node_def result_simps
        dest!: for_each_PanicD for_each_DivergeD split: if_splits)
qed

lemma fold_fresh_returns:
  "fold_res (\<lambda>seen n. if k n \<in> set seen then Err (e n) else Ok (k n # seen)) seen xs
     \<notin> {Panic, Diverge}"
  by (induction xs arbitrary: seen) auto

lemma validate_sibling_order_returns: "validate_sibling_order nodes live \<notin> {Panic, Diverge}"
  using fold_fresh_returns [of "\<lambda>n. (pn_parent_id n, pn_sibling_order n)"
      "\<lambda>n. DuplicateSiblingOrder (pn_parent_id n) (pn_sibling_order n)" "[]"
      "filter (\<lambda>n. pn_id n \<in> set live) (bt_values nodes)"]
  unfolding validate_sibling_order_def by (simp add: result_simps)

lemma validate_graph_returns_acyclic:
  assumes "nodes_wf nodes" and "acyclic (parent_rel nodes)"
  shows "validate_graph nodes root \<notin> {Panic, Diverge}"
proof -
  have "acyclic (child_rel nodes)" using assms(2) child_rel_parent by (rule acyclic_subset)
  moreover have "below nodes root \<subseteq> live_set nodes" if "root \<in> live_set nodes"
    using below_live that by blast
  then have "card (below nodes root) \<le> Suc (length nodes)" if "root \<in> live_set nodes"
    using that card_mono [of "fst ` set nodes" "below nodes root"] live_set_subset_keys card_keys_le [of nodes]
    by (metis List.finite_set finite_imageI le_SucI le_trans subset_trans)
  ultimately have tree: "validate_harness_tree (Suc (length nodes)) nodes root None \<notin> {Panic, Diverge}"
    if "root \<in> live_set nodes"
    using that by (intro harness_tree_returns [OF assms(1)])
  have reach: "validate_parent_reachability nodes root live \<notin> {Panic, Diverge}" for live
    using reach_root_total
    by (fastforce simp: validate_parent_reachability_def dest!: for_each_PanicD for_each_DivergeD)
  show ?thesis
    using tree reach validate_sibling_order_returns [of nodes] validate_graph_node_returns [OF assms(2)]
      validate_dependency_cycles_returns [OF live_ids_keys [OF assms(1)]]
    unfolding validate_graph_def
    by (simp add: Let_def result_simps set_live_ids [OF assms(1)] del: validate_harness_tree.simps)
      (metis for_each_PanicD for_each_DivergeD)
qed

text \<open>A parent cycle that does not pass through the ancestor is followed forever: no amount of fuel
  makes the loop return.\<close>

lemma is_descendant_cycle:
  assumes "(i, p) \<in> (parent_rel nodes)\<^sup>+" and "(p, p) \<in> (parent_rel nodes)\<^sup>+"
    and "(i, a) \<notin> (parent_rel nodes)\<^sup>+"
  shows "is_descendant_from nodes a fuel (parent_of nodes i) = None"
proof (rule ccontr)
  assume "is_descendant_from nodes a fuel (parent_of nodes i) \<noteq> None"
  then obtain b where b: "is_descendant_from nodes a fuel (parent_of nodes i) = Some b" by auto
  with assms(3) have "\<not> b" by (cases b) (auto simp: above_iff dest: is_descendant_from_True)
  with b have "is_descendant_from nodes a fuel (parent_of nodes i) = Some False" by simp
  then obtain xs where xs: "chase (parent_of nodes) fuel (parent_of nodes i) = Some xs"
    using is_descendant_from_False by blast
  have "p \<in> set xs"
    using assms(1) chase_reaches [OF xs] unfolding above_iff by (simp add: parent_rel_def)
  then obtain as bs where "xs = as @ p # bs" by (auto dest: split_list)
  with xs obtain m where "chase (parent_of nodes) m (Some p) = Some (p # bs)"
    using chase_suffix by metis
  from chase_ends [OF this] obtain r where
    "(p, r) \<in> (link_rel (parent_of nodes))\<^sup>*" "parent_of nodes r = None" by blast
  from no_cycle_above_end [OF this] assms(2) show False by (simp add: parent_rel_def)
qed

section \<open>Properties\<close>

text \<open>A small plan the witnesses evaluate: a node is its id, parent, position, dependencies and harness.\<close>

definition sample_node ::
    "string \<Rightarrow> string option \<Rightarrow> u16 \<Rightarrow> string list \<Rightarrow> PlanHarnessSnapshot \<Rightarrow> PlanNodeSnapshot" where
  "sample_node i p order deps h =
     \<lparr>pn_id = PlanNodeId i, pn_client_key = None, pn_parent_id = map_option PlanNodeId p,
      pn_sibling_order = order, pn_objective = ''o'', pn_acceptance = [],
      pn_status = PlanNodeStatus.Pending, pn_executor_policy = Auto, pn_harness = h,
      pn_recovery_policy = default_recovery_policy, pn_depends_on = map PlanNodeId deps,
      pn_result = None, pn_created_revision = 1, pn_updated_revision = 1,
      pn_declared_status = PlanNodeStatus.Pending, pn_execution_summary = default_summary,
      pn_links = []\<rparr>"

definition sample_harness :: "string list \<Rightarrow> string list \<Rightarrow> PlanHarnessSnapshot" where
  "sample_harness tools scope =
     default_harness\<lparr>ha_allowed_tools := tools, ha_read_scope := scope, ha_write_scope := scope\<rparr>"

definition sample_envelope :: PlanCapabilityEnvelopeSnapshot where
  "sample_envelope =
     \<lparr>ce_allowed_tools = [''read'', ''write''], ce_read_scope = [''src''], ce_write_scope = [''src''],
      ce_forbidden_paths = [], ce_destructive_external_authority = False\<rparr>"

definition sample_nodes :: "PlanNodeSnapshot list" where
  "sample_nodes =
     [sample_node ''r'' None 0 [] (sample_harness [''read'', ''write''] [''src'']),
      sample_node ''a'' (Some ''r'') 0 [] (sample_harness [''write''] [''src/a'']),
      sample_node ''b'' (Some ''r'') 1 [''a''] (sample_harness [''read''] [''src/b''])]"

text \<open>Three nodes on a parent cycle beside a root that depends on one of them.\<close>

definition cyclic_nodes :: "PlanNodeSnapshot list" where
  "cyclic_nodes =
     [sample_node ''r'' None 0 [''a''] default_harness,
      sample_node ''a'' (Some ''b'') 0 [] default_harness,
      sample_node ''b'' (Some ''a'') 0 [] default_harness]"

text \<open>
  C2. The graph check \<^verbatim>\<open>validate_graph\<close> accepts a node vector exactly when its live nodes form a
  valid plan: at most 128 of them, one parentless root from which every live node descends, live
  and acyclic dependencies that never point to a node's own descendant, distinct sibling
  positions, at most 16 children per node, well-formed scopes, and harnesses that only narrow
  from parent to child.
\<close>

theorem validate_graph_iff:
  "validate_graph (collect_nodes ns) root = Ok () \<longleftrightarrow> valid_plan_graph (collect_nodes ns) root"
  using validate_graph_sound validate_graph_complete nodes_wf_collect by blast

text \<open>
  C3. The capability ceiling: in a plan that passes the graph check and whose root passes the
  envelope check, the harness of every live node, however deep, stays within the authorized
  envelope: its tools are authorized, every path it may read or write lies inside an authorized
  scope, and everything the envelope forbids it forbids too.
\<close>

theorem validated_plan_within_envelope:
  assumes "validate_graph (collect_nodes ns) root = Ok ()"
    and "validate_authorized_envelope (collect_nodes ns) root (Some e) = Ok ()"
    and "live_node (collect_nodes ns) i n"
  shows "within_envelope (pn_harness n) e"
  using validate_graph_sound [OF nodes_wf_collect assms(1)] assms(2,3) by (rule graph_within_envelope)

theorem validated_plan_within_envelope_witness:
  "within_envelope (sample_harness [''read''] [''src/b'']) sample_envelope"
proof -
  let ?n = "sample_node ''b'' (Some ''r'') 1 [''a''] (sample_harness [''read''] [''src/b''])"
  have "is_ok (validate_graph (collect_nodes sample_nodes) (PlanNodeId ''r''))" by code_simp
  moreover have "is_ok (validate_authorized_envelope (collect_nodes sample_nodes) (PlanNodeId ''r'')
      (Some sample_envelope))" by code_simp
  moreover have "bt_get (collect_nodes sample_nodes) (PlanNodeId ''b'') = Some ?n \<and> is_live ?n"
    by code_simp
  ultimately have "within_envelope (pn_harness ?n) sample_envelope"
    by (intro validated_plan_within_envelope) (auto simp: is_ok_unit live_node_def)
  then show ?thesis by (simp add: sample_node_def)
qed

text \<open>
  C4. The graph check returns on every node vector whose parent links are acyclic, valid or not:
  it neither panics nor runs forever.
\<close>

theorem validate_graph_returns:
  "acyclic (parent_rel (collect_nodes ns)) \<Longrightarrow>
     validate_graph (collect_nodes ns) root \<notin> {Panic, Diverge}"
  using validate_graph_returns_acyclic [OF nodes_wf_collect] by blast

theorem validate_graph_returns_witness:
  "parent_rel (collect_nodes [sample_node ''r'' None 0 [''x''] default_harness]) = {}
   \<and> validate_graph (collect_nodes [sample_node ''r'' None 0 [''x''] default_harness]) (PlanNodeId ''r'')
       \<notin> {Panic, Diverge}"
proof -
  have "parent_rel (collect_nodes [sample_node ''r'' None 0 [''x''] default_harness]) = {}"
    by (auto simp: parent_rel_def parent_of_def collect_nodes_def bt_extend_def sample_node_def
        bind_eq_Some_conv split: if_splits)
  with validate_graph_returns [of "[sample_node ''r'' None 0 [''x''] default_harness]" "PlanNodeId ''r''"]
  show ?thesis by (simp add: acyclic_def)
qed

text \<open>
  C5. Without that hypothesis it may hang: the ancestor search follows parent links with no memory
  of where it has been, and it runs before the parent cycle check. A dependency whose parent
  chain enters a cycle is followed forever.
\<close>

theorem is_descendant_hangs_on_cycle:
  assumes "(i, p) \<in> (parent_rel nodes)\<^sup>+" and "(p, p) \<in> (parent_rel nodes)\<^sup>+"
    and "(i, a) \<notin> (parent_rel nodes)\<^sup>+"
  shows "is_descendant nodes i a = Diverge
    \<and> (\<forall>fuel. is_descendant_from nodes a fuel (parent_of nodes i) = None)"
  using is_descendant_cycle [OF assms] by (simp add: is_descendant_def)

theorem is_descendant_hangs_on_cycle_witness:
  "is_descendant (collect_nodes cyclic_nodes) (PlanNodeId ''a'') (PlanNodeId ''r'') = Diverge
   \<and> validate_graph (collect_nodes cyclic_nodes) (PlanNodeId ''r'') = Diverge"
proof -
  let ?R = "parent_rel (collect_nodes cyclic_nodes)"
  have ab: "parent_of (collect_nodes cyclic_nodes) (PlanNodeId ''a'') = Some (PlanNodeId ''b'')"
      "parent_of (collect_nodes cyclic_nodes) (PlanNodeId ''b'') = Some (PlanNodeId ''a'')"
    by code_simp+
  then have R: "(PlanNodeId ''a'', PlanNodeId ''b'') \<in> ?R" "(PlanNodeId ''b'', PlanNodeId ''a'') \<in> ?R"
    by (simp_all add: parent_rel_def)
  then have loop: "(PlanNodeId ''a'', PlanNodeId ''a'') \<in> ?R\<^sup>+" by (rule trancl_into_trancl2 [OF _ r_into_trancl])
  have "y \<in> {PlanNodeId ''a'', PlanNodeId ''b''}" if "(PlanNodeId ''a'', y) \<in> ?R\<^sup>+" for y
    using that by (induction rule: trancl_induct) (auto simp: parent_rel_def ab)
  then have "(PlanNodeId ''a'', PlanNodeId ''r'') \<notin> ?R\<^sup>+" by auto
  from is_descendant_hangs_on_cycle [OF loop loop this]
  have "is_descendant (collect_nodes cyclic_nodes) (PlanNodeId ''a'') (PlanNodeId ''r'') = Diverge" by simp
  moreover have "diverges (validate_graph (collect_nodes cyclic_nodes) (PlanNodeId ''r''))" by code_simp
  ultimately show ?thesis by (simp add: diverges_iff)
qed

end
