(* ===== verification/Plan_Tree.thy ===== *)
theory Plan_Tree
  imports Plan_Graph "HOL-Library.Option_ord"
begin

text \<open>
  The tree builder (\<^verbatim>\<open>plan/domain/tree.rs\<close>): \<open>flatten\<close> turns an authored tree into nodes with
  runtime identifiers, \<open>resolve_all_dependencies\<close> fills in their dependencies, \<open>ordered_nodes\<close>
  fixes the stored order, and \<open>live_subtree_ids\<close> and \<open>depth_of\<close> read the stored tree. The lemmas
  show that fresh identifiers are really fresh, that the subtree loop computes the live subtree,
  and that ordering only permutes.
\<close>

section \<open>Mutability\<close>

definition ensure_mutable :: "PlanNodeSnapshot \<Rightarrow> unit plan_result" where
  "ensure_mutable n =
     (if list_ex (\<lambda>l. lk_status l = PlanLinkStatus.Active \<and> lk_superseded_by l = None) (pn_links n)
      then Err (ActiveSubagentOwnsSubtree (pn_id n))
      else if pn_status n \<noteq> PlanNodeStatus.Pending
      then Err (NodeNotMutable (pn_id n) (pn_status n))
      else Ok ())"

definition validate_authored_status :: "PlanNodeStatus \<Rightarrow> unit plan_result" where
  "validate_authored_status status =
     (if status \<in> {PlanNodeStatus.Pending, PlanNodeStatus.InProgress, PlanNodeStatus.Completed,
                   PlanNodeStatus.Failed}
      then Ok () else Err (InvalidAuthoredNodeStatus status))"

section \<open>The builder\<close>

record TreeBuilder =
  tb_next_node_sequence :: u64
  tb_revision :: u64
  tb_existing :: node_map
  tb_nodes :: node_map
  tb_keys :: "(string, PlanNodeId) btree_map"
  tb_unresolved :: "(PlanNodeId, PlanNodeReferenceInput list) btree_map"
  tb_allow_existing_node :: "PlanNodeId option"

definition new_tree_builder :: "u64 \<Rightarrow> u64 \<Rightarrow> node_map \<Rightarrow> TreeBuilder" where
  "new_tree_builder next_node_sequence revision existing =
     \<lparr>tb_next_node_sequence = next_node_sequence, tb_revision = revision, tb_existing = existing,
      tb_nodes = [], tb_keys = [], tb_unresolved = [], tb_allow_existing_node = None\<rparr>"

definition allow_existing_node :: "PlanNodeId \<Rightarrow> TreeBuilder \<Rightarrow> TreeBuilder" where
  "allow_existing_node i b = b\<lparr>tb_allow_existing_node := Some i\<rparr>"

definition runtime_node_id :: "u64 \<Rightarrow> PlanNodeId" where
  "runtime_node_id k = PlanNodeId (''plan-node-'' @ show_u64 k)"

text \<open>The identity part of \<open>flatten\<close>: a new node takes the next runtime id and its authored
  settings, an existing node keeps its stored ones.\<close>

record node_identity =
  id_id :: PlanNodeId
  id_created_revision :: u64
  id_client_key :: "string option"
  id_executor_policy :: PlanExecutorPolicy
  id_harness :: PlanHarnessSnapshot
  id_recovery_policy :: PlanRecoveryPolicySnapshot
  id_inherited_status :: "PlanNodeStatus option"

definition flatten_identity ::
    "TreeBuilder \<Rightarrow> PlanNodeInput \<Rightarrow> (TreeBuilder \<times> node_identity) plan_result" where
  "flatten_identity b inp =
     (case (ni_id inp, ni_client_key inp) of
        (None, Some key) \<Rightarrow>
          and_then (validate_client_key key) (\<lambda>_.
          if bt_get (tb_keys b) key \<noteq> None then Err (DuplicateClientKey key)
          else
            let i = runtime_node_id (tb_next_node_sequence b) in
            Ok (b\<lparr>tb_next_node_sequence := tb_next_node_sequence b + 1,
                  tb_keys := bt_insert key i (tb_keys b)\<rparr>,
                \<lparr>id_id = i, id_created_revision = tb_revision b, id_client_key = Some key,
                 id_executor_policy = ni_executor_policy inp, id_harness = ni_harness inp,
                 id_recovery_policy = ni_recovery_policy inp, id_inherited_status = None\<rparr>))
      | (Some i, None) \<Rightarrow>
          and_then (ok_or (bt_get (tb_existing b) i) (UnknownNode i)) (\<lambda>existing.
          and_then (if tb_allow_existing_node b \<noteq> Some i then ensure_mutable existing else Ok ()) (\<lambda>_.
          Ok (b, \<lparr>id_id = i, id_created_revision = pn_created_revision existing,
                  id_client_key = pn_client_key existing,
                  id_executor_policy = pn_executor_policy existing,
                  id_harness = pn_harness existing,
                  id_recovery_policy = pn_recovery_policy existing,
                  id_inherited_status = Some (pn_declared_status existing)\<rparr>)))
      | (None, None) \<Rightarrow> Err InvalidNewNodeIdentity
      | (Some _, Some _) \<Rightarrow> Err InvalidExistingNodeIdentity)"

text \<open>The checks on the input alone, in the order of the source.\<close>

definition flatten_checks :: "PlanNodeInput \<Rightarrow> nat \<Rightarrow> unit plan_result" where
  "flatten_checks inp depth =
     (if depth > MAX_PLAN_DEPTH then Err (PlanTooDeep depth MAX_PLAN_DEPTH) else
      and_then (validate_node_text (ni_objective inp) (ni_acceptance inp)) (\<lambda>_.
      if length (ni_children inp) > MAX_DIRECT_CHILDREN
      then Err (TooManyChildren
             (case ni_id inp of Some i \<Rightarrow> i | None \<Rightarrow> PlanNodeId ''unassigned'')
             (length (ni_children inp)) MAX_DIRECT_CHILDREN)
      else
      and_then (validate_recovery_policy (ni_recovery_policy inp)) (\<lambda>_.
      if list_ex (\<lambda>c. ni_children c \<noteq> []) (ni_children inp) then Err NestedPlanInput
      else case ni_status inp of
          Some status \<Rightarrow> validate_authored_status status
        | None \<Rightarrow> Ok ())))"

definition flatten_node ::
    "TreeBuilder \<Rightarrow> node_identity \<Rightarrow> PlanNodeInput \<Rightarrow> PlanNodeId option \<Rightarrow> u16 \<Rightarrow> PlanNodeSnapshot" where
  "flatten_node b ident inp parent_id sibling_order =
     (let declared =
        (case ni_status inp of
           Some s \<Rightarrow> s
         | None \<Rightarrow> (case id_inherited_status ident of Some s \<Rightarrow> s | None \<Rightarrow> PlanNodeStatus.Pending)) in
      \<lparr>pn_id = id_id ident, pn_client_key = id_client_key ident, pn_parent_id = parent_id,
       pn_sibling_order = sibling_order, pn_objective = ni_objective inp,
       pn_acceptance = ni_acceptance inp, pn_status = declared,
       pn_executor_policy = id_executor_policy ident, pn_harness = id_harness ident,
       pn_recovery_policy = id_recovery_policy ident, pn_depends_on = [], pn_result = None,
       pn_created_revision = id_created_revision ident, pn_updated_revision = tb_revision b,
       pn_declared_status = declared, pn_execution_summary = default_summary, pn_links = []\<rparr>)"

definition insert_node ::
    "TreeBuilder \<Rightarrow> node_identity \<Rightarrow> PlanNodeInput \<Rightarrow> PlanNodeId option \<Rightarrow> u16 \<Rightarrow> TreeBuilder" where
  "insert_node b ident inp parent_id sibling_order =
     b\<lparr>tb_nodes := bt_insert (id_id ident)
         (flatten_node b ident inp parent_id sibling_order) (tb_nodes b),
       tb_unresolved := bt_insert (id_id ident) (ni_depends_on inp) (tb_unresolved b)\<rparr>"

lemma size_child: "c \<in> set (ni_children inp) \<Longrightarrow> size c < size inp"
  by (cases inp) (auto dest!: size_list_estimation' [where f = size, OF _ order_refl])

lemma enumerate_snd: "(k, x) \<in> set (enumerate n xs) \<Longrightarrow> x \<in> set xs"
  by (auto simp: in_set_enumerate_eq)

function flatten ::
    "TreeBuilder \<Rightarrow> PlanNodeInput \<Rightarrow> PlanNodeId option \<Rightarrow> u16 \<Rightarrow> nat
     \<Rightarrow> (TreeBuilder \<times> PlanNodeId) plan_result" where
  "flatten b inp parent_id sibling_order depth =
     and_then (flatten_checks inp depth) (\<lambda>_.
     and_then (flatten_identity b inp) (\<lambda>(b, ident).
     if bt_get (tb_nodes b) (id_id ident) \<noteq> None then Err (DuplicateNodeId (id_id ident))
     else
       and_then
         (fold_res
           (\<lambda>b (order, child).
              and_then (flatten b child (Some (id_id ident)) (of_nat order) (depth + 1))
                (\<lambda>(b, _). Ok b))
           (insert_node b ident inp parent_id sibling_order) (enumerate 0 (ni_children inp)))
         (\<lambda>b. Ok (b, id_id ident))))"
  by pat_completeness auto
termination
  by (relation "measure (\<lambda>(_, inp, _). size inp)") (auto dest: enumerate_snd intro: size_child)

declare flatten.simps [simp del]

section \<open>Dependencies and order\<close>

definition existing_client_keys :: "node_map \<Rightarrow> (string, PlanNodeId) btree_map" where
  "existing_client_keys nodes =
     bt_extend [] (List.map_filter (\<lambda>n. map_option (\<lambda>k. (k, pn_id n)) (pn_client_key n)) (bt_values nodes))"

definition resolve_all_dependencies ::
    "node_map \<Rightarrow> (PlanNodeId, PlanNodeReferenceInput list) btree_map
     \<Rightarrow> (string, PlanNodeId) btree_map \<Rightarrow> PlanNodeId list \<Rightarrow> node_map plan_result" where
  "resolve_all_dependencies nodes unresolved keys live =
     fold_res
       (\<lambda>nodes (i, refs).
          and_then (resolve_dependencies refs keys live) (\<lambda>resolved.
          and_then (expect (bt_get nodes i)) (\<lambda>n.
          Ok (bt_insert i (n\<lparr>pn_depends_on := resolved\<rparr>) nodes))))
       nodes unresolved"

definition node_order :: "PlanNodeSnapshot \<Rightarrow> bool \<times> PlanNodeId option \<times> u16 \<times> PlanNodeId" where
  "node_order n =
     (pn_status n = PlanNodeStatus.Superseded, pn_parent_id n, pn_sibling_order n, pn_id n)"

definition ordered_nodes :: "node_map \<Rightarrow> PlanNodeSnapshot list" where
  "ordered_nodes nodes = sort_key node_order (bt_values nodes)"

section \<open>Reading the tree\<close>

definition live_subtree_pass :: "node_map \<Rightarrow> PlanNodeId list \<Rightarrow> PlanNodeId list" where
  "live_subtree_pass nodes ids =
     foldl (\<lambda>ids n. if is_live n \<and> (case pn_parent_id n of None \<Rightarrow> False | Some p \<Rightarrow> p \<in> set ids)
              then insort_insert (pn_id n) ids else ids) ids (bt_values nodes)"

lemma subtree_fold:
  fixes ids :: "PlanNodeId list"
  shows "let ids' = foldl (\<lambda>ids n. if P ids n then insort_insert (pn_id n) ids else ids) ids ns in
     set ids \<subseteq> set ids' \<and> set ids' \<subseteq> set ids \<union> pn_id ` set ns \<and> length ids \<le> length ids'
     \<and> (length ids' = length ids \<longrightarrow> ids' = ids)
     \<and> (length ids' \<noteq> length ids \<longrightarrow> set ids \<subset> set ids')"
proof (induction ns arbitrary: ids)
  case (Cons n ns)
  let ?ids = "if P ids n then insort_insert (pn_id n) ids else ids"
  show ?case
  proof (cases "?ids = ids")
    case True
    with Cons.IH [of ids] show ?thesis by (auto simp: Let_def)
  next
    case False
    then have "P ids n" "pn_id n \<notin> set ids" by (auto simp: insort_insert_triv split: if_splits)
    then have "set ?ids = insert (pn_id n) (set ids)" "length ?ids = Suc (length ids)"
      by (auto simp: set_insort_insert insort_insert_insort set_insort_key)
    with Cons.IH [of ?ids] \<open>P ids n\<close> \<open>pn_id n \<notin> set ids\<close> show ?thesis by (auto simp: Let_def)
  qed
qed simp

lemma pass_facts:
  "set ids \<subseteq> set (live_subtree_pass nodes ids)"
  "set (live_subtree_pass nodes ids) \<subseteq> set ids \<union> pn_id ` set (bt_values nodes)"
  "length (live_subtree_pass nodes ids) = length ids \<Longrightarrow> live_subtree_pass nodes ids = ids"
  "length (live_subtree_pass nodes ids) \<noteq> length ids \<Longrightarrow> set ids \<subset> set (live_subtree_pass nodes ids)"
  using subtree_fold [where P =
      "\<lambda>ids n. is_live n \<and> (case pn_parent_id n of None \<Rightarrow> False | Some p \<Rightarrow> p \<in> set ids)"
      and ids = ids and ns = "bt_values nodes"]
  unfolding live_subtree_pass_def Let_def by blast+

function live_subtree_loop :: "node_map \<Rightarrow> PlanNodeId list \<Rightarrow> PlanNodeId list" where
  "live_subtree_loop nodes ids =
     (let ids' = live_subtree_pass nodes ids in
      if length ids' = length ids then ids' else live_subtree_loop nodes ids')"
  by pat_completeness auto
termination
proof (relation "measure (\<lambda>(nodes, ids). card (pn_id ` set (bt_values nodes) - set ids))")
  fix nodes :: node_map and ids ids'
  assume *: "ids' = live_subtree_pass nodes ids" "length ids' \<noteq> length ids"
  have "set ids \<subset> set ids'" "set ids' \<subseteq> set ids \<union> pn_id ` set (bt_values nodes)"
    using pass_facts(2,4) [of nodes ids] * by auto
  then have "pn_id ` set (bt_values nodes) - set ids' \<subset> pn_id ` set (bt_values nodes) - set ids"
    by blast
  then show "((nodes, ids'), nodes, ids)
      \<in> measure (\<lambda>(nodes, ids). card (pn_id ` set (bt_values nodes) - set ids))"
    by (simp add: psubset_card_mono)
qed simp

declare live_subtree_loop.simps [simp del]

definition live_subtree_ids :: "node_map \<Rightarrow> PlanNodeId \<Rightarrow> PlanNodeId list" where
  "live_subtree_ids nodes target = live_subtree_loop nodes [target]"

definition depth_of :: "node_map \<Rightarrow> PlanNodeId \<Rightarrow> nat plan_result" where
  "depth_of nodes i =
     returned (map_option (\<lambda>ancestors. Suc (length ancestors))
       (chase (parent_of nodes) (Suc (length nodes)) (parent_of nodes i)))"

section \<open>The subtree loop computes the live subtree\<close>

lemma pass_fixpoint:
  assumes "live_subtree_pass nodes ids = ids" and "n \<in> set (bt_values nodes)"
    and "is_live n" and "pn_parent_id n = Some p" and "p \<in> set ids"
  shows "pn_id n \<in> set ids"
proof -
  let ?P = "\<lambda>ids n. is_live n \<and> (case pn_parent_id n of None \<Rightarrow> False | Some p \<Rightarrow> p \<in> set ids)"
  let ?f = "\<lambda>ids n. if ?P ids n then insort_insert (pn_id n) ids else ids"
  obtain as bs where split: "bt_values nodes = as @ n # bs" using assms(2) by (auto dest: split_list)
  let ?mid = "foldl ?f ids as"
  have "set ids \<subseteq> set ?mid" using subtree_fold [where P = ?P and ids = ids and ns = as] by (simp add: Let_def)
  with assms(3-5) have "pn_id n \<in> set (?f ?mid n)" by (auto simp: set_insort_insert)
  moreover have "set (?f ?mid n) \<subseteq> set (foldl ?f (?f ?mid n) bs)"
    using subtree_fold [where P = ?P and ids = "?f ?mid n" and ns = bs] by (simp add: Let_def)
  ultimately have "pn_id n \<in> set (live_subtree_pass nodes ids)"
    unfolding live_subtree_pass_def split by auto
  with assms(1) show ?thesis by simp
qed

lemma pass_sound:
  assumes "nodes_wf nodes" and "set ids \<subseteq> below nodes target"
  shows "set (live_subtree_pass nodes ids) \<subseteq> below nodes target"
proof -
  have "set (foldl (\<lambda>ids n. if is_live n \<and> (case pn_parent_id n of None \<Rightarrow> False | Some p \<Rightarrow> p \<in> set ids)
          then insort_insert (pn_id n) ids else ids) ids ns) \<subseteq> below nodes target"
    if "set ns \<subseteq> set (bt_values nodes)" "set ids \<subseteq> below nodes target" for ns ids
    using that
  proof (induction ns arbitrary: ids)
    case (Cons n ns)
    have "pn_id n \<in> below nodes target" if "is_live n" "pn_parent_id n = Some p" "p \<in> set ids" for p
    proof -
      have "live_node nodes (pn_id n) n"
        using Cons.prems(1) that(1) assms(1) by (simp add: live_node_def nodes_wf_value)
      then have "(pn_id n, p) \<in> child_rel nodes" using that(2) by (auto simp: child_rel_def child_set_def)
      with that(3) Cons.prems(2) show ?thesis
        by (auto simp: below_def intro: converse_rtrancl_into_rtrancl)
    qed
    with Cons.prems show ?case
      unfolding foldl_Cons by (intro Cons.IH) (auto simp: set_insort_insert split: option.splits)
  qed simp
  from this [of "bt_values nodes" ids] assms(2) show ?thesis by (simp add: live_subtree_pass_def)
qed

lemma pass_closed:
  assumes "nodes_wf nodes" and "live_subtree_pass nodes ids = ids" and "target \<in> set ids"
  shows "below nodes target \<subseteq> set ids"
proof
  fix i assume "i \<in> below nodes target"
  then have "(i, target) \<in> (child_rel nodes)\<^sup>*" by (simp add: below_def)
  then show "i \<in> set ids"
  proof (induction rule: converse_rtrancl_induct)
    case base
    then show ?case by (rule assms(3))
  next
    case (step c p)
    then obtain n where n: "live_node nodes c n" "pn_parent_id n = Some p"
      by (auto simp: child_rel_def child_set_def)
    then have "pn_id n = c" "n \<in> set (bt_values nodes)" "is_live n"
      using live_node_id [OF assms(1)] assms(1) by (auto simp: live_node_def nodes_wf_value)
    with pass_fixpoint [OF assms(2)] n step.IH show ?case by blast
  qed
qed

lemma loop_below:
  "nodes_wf nodes \<Longrightarrow> set ids \<subseteq> below nodes target \<Longrightarrow> target \<in> set ids \<Longrightarrow>
     set (live_subtree_loop nodes ids) = below nodes target"
proof (induction nodes ids rule: live_subtree_loop.induct)
  case (1 nodes ids)
  let ?ids = "live_subtree_pass nodes ids"
  have sub: "set ?ids \<subseteq> below nodes target" using 1 by (intro pass_sound)
  have mem: "target \<in> set ?ids" using "1.prems"(3) pass_facts(1) by blast
  show ?case
  proof (cases "length ?ids = length ids")
    case True
    then have "?ids = ids" by (rule pass_facts(3))
    with sub mem pass_closed [OF "1.prems"(1)] show ?thesis
      by (subst live_subtree_loop.simps) (auto simp: Let_def)
  next
    case False
    with "1.IH" [OF refl False "1.prems"(1) sub mem] show ?thesis
      by (subst live_subtree_loop.simps) (simp add: Let_def)
  qed
qed

lemma set_live_subtree_ids:
  "nodes_wf nodes \<Longrightarrow> set (live_subtree_ids nodes target) = below nodes target"
  unfolding live_subtree_ids_def by (rule loop_below) (auto simp: below_def)

section \<open>Ordering is a permutation\<close>

lemma set_ordered_nodes [simp]: "set (ordered_nodes nodes) = snd ` set nodes"
  by (simp add: ordered_nodes_def)

lemma length_ordered_nodes [simp]: "length (ordered_nodes nodes) = length nodes"
  by (simp add: ordered_nodes_def)

lemma distinct_ordered_nodes:
  assumes "nodes_wf nodes"
  shows "distinct (map pn_id (ordered_nodes nodes))"
proof -
  have "distinct (bt_values nodes)" "inj_on pn_id (set (bt_values nodes))"
    using nodes_wf_ids [OF assms] by (auto simp only: distinct_map)
  then show ?thesis by (simp add: ordered_nodes_def distinct_map)
qed

lemma collect_ordered_nodes:
  assumes "nodes_wf nodes"
  shows "collect_nodes (ordered_nodes nodes) = nodes"
proof (rule bt_eqI)
  show "bt_get (collect_nodes (ordered_nodes nodes)) = bt_get nodes"
  proof
    fix i
    show "bt_get (collect_nodes (ordered_nodes nodes)) i = bt_get nodes i"
    proof (cases "bt_get nodes i")
      case None
      then have "\<forall>n\<in>set (ordered_nodes nodes). pn_id n \<noteq> i"
        unfolding set_ordered_nodes using nodes_wf_value [OF assms] by (metis option.distinct(1))
      with None assms show ?thesis
        by (auto simp: get_collect_nodes distinct_ordered_nodes find_None_iff_set)
    next
      case (Some n)
      then have "pn_id n = i" "n \<in> set (ordered_nodes nodes)"
        using assms nodes_wf_get by (auto simp: nodes_wf_value)
      with Some assms show ?thesis
        using find_by_key [OF distinct_ordered_nodes [OF assms], of n]
        by (simp add: get_collect_nodes distinct_ordered_nodes)
    qed
  qed
qed (use assms nodes_wf_collect in \<open>auto simp: nodes_wf_def\<close>)

section \<open>What the builder guarantees\<close>

text \<open>An invariant of one insertion is an invariant of \<open>flatten\<close>. Every insertion but the first one
  is below a parent.\<close>

lemma flatten_invariant_within:
  assumes "flatten b inp parent order depth = Ok (b', i)" and "I b" and "Q inp parent"
    and "\<And>inp' parent' c j. Q inp' parent' \<Longrightarrow> c \<in> set (ni_children inp') \<Longrightarrow> Q c (Some j)"
    and "\<And>b inp' b1 ident parent' order depth. I b \<Longrightarrow> flatten_checks inp' depth = Ok () \<Longrightarrow>
      Q inp' parent' \<Longrightarrow> flatten_identity b inp' = Ok (b1, ident) \<Longrightarrow>
      bt_get (tb_nodes b1) (id_id ident) = None \<Longrightarrow> I (insert_node b1 ident inp' parent' order)"
  shows "I b'"
  using assms
proof (induction b inp parent order depth arbitrary: b' i rule: flatten.induct)
  case (1 b inp parent order depth)
  from "1.prems"(1) obtain b1 ident where
    checks: "flatten_checks inp depth = Ok ()" and ident: "flatten_identity b inp = Ok (b1, ident)"
    and fresh: "bt_get (tb_nodes b1) (id_id ident) = None"
    and kids: "fold_res (\<lambda>b (order, child).
          and_then (flatten b child (Some (id_id ident)) (of_nat order) (depth + 1)) (\<lambda>(b, _). Ok b))
        (insert_node b1 ident inp parent order) (enumerate 0 (ni_children inp)) = Ok b'"
    by (subst (asm) flatten.simps) (auto simp: result_simps split: if_splits)
  from kids show ?case
  proof (rule fold_res_inv [where I = I])
    show "I (insert_node b1 ident inp parent order)"
      using "1.prems"(2,3) checks ident fresh by (intro "1.prems"(5)) auto
    fix s x t
    assume x: "x \<in> set (enumerate 0 (ni_children inp))" and "I s"
      and "(case x of (order, child) \<Rightarrow>
          and_then (flatten s child (Some (id_id ident)) (of_nat order) (depth + 1)) (\<lambda>(b, _). Ok b)) = Ok t"
    then obtain j where
      fl: "flatten s (snd x) (Some (id_id ident)) (of_nat (fst x)) (depth + 1) = Ok (t, j)"
      by (auto simp: case_prod_beta result_simps)
    have pair: "(fst x, snd x) = x" by simp
    then have "snd x \<in> set (ni_children inp)" using x enumerate_snd by metis
    then have Q: "Q (snd x) (Some (id_id ident))" by (rule "1.prems"(4) [OF "1.prems"(3)])
    show "I t"
      by (rule "1.IH" [OF checks ident refl _ x pair fl \<open>I s\<close> Q "1.prems"(4)])
        (use fresh in \<open>auto intro: "1.prems"(5)\<close>)
  qed
qed

lemma flatten_invariant_parent:
  assumes "flatten b inp parent order depth = Ok (b', i)" and "I b"
    and "\<And>b inp' b1 ident parent' order depth. I b \<Longrightarrow> flatten_checks inp' depth = Ok () \<Longrightarrow>
      parent' \<noteq> None \<or> inp' = inp \<and> parent' = parent \<Longrightarrow> flatten_identity b inp' = Ok (b1, ident) \<Longrightarrow>
      bt_get (tb_nodes b1) (id_id ident) = None \<Longrightarrow> I (insert_node b1 ident inp' parent' order)"
  shows "I b'"
  using assms(1,2)
  by (rule flatten_invariant_within [where Q = "\<lambda>inp' parent'. parent' \<noteq> None \<or> inp' = inp \<and> parent' = parent"])
    (auto intro: assms(3))

lemma flatten_invariant:
  assumes "flatten b inp parent order depth = Ok (b', i)" and "I b"
    and "\<And>b inp b1 ident parent order depth. I b \<Longrightarrow> flatten_checks inp depth = Ok () \<Longrightarrow>
      flatten_identity b inp = Ok (b1, ident) \<Longrightarrow>
      bt_get (tb_nodes b1) (id_id ident) = None \<Longrightarrow> I (insert_node b1 ident inp parent order)"
  shows "I b'"
  using assms(1,2) by (rule flatten_invariant_parent) (rule assms(3))

lemma flatten_result:
  assumes "flatten b inp parent order depth = Ok (b', i)"
  shows "(ni_id inp = Some i \<or> ni_id inp = None) \<and> flatten_checks inp depth = Ok ()"
  using assms
  by (subst (asm) flatten.simps)
    (auto simp: result_simps flatten_identity_def Let_def split: if_splits option.splits prod.splits)

text \<open>The frame of the identity step: only the counter and the key map move.\<close>

lemma flatten_identity_frame:
  "flatten_identity b inp = Ok (b1, ident) \<Longrightarrow>
     tb_existing b1 = tb_existing b \<and> tb_revision b1 = tb_revision b \<and> tb_nodes b1 = tb_nodes b
     \<and> tb_unresolved b1 = tb_unresolved b \<and> tb_allow_existing_node b1 = tb_allow_existing_node b"
  by (auto simp: flatten_identity_def result_simps Let_def split: option.splits if_splits)

definition builder_wf :: "TreeBuilder \<Rightarrow> bool" where
  "builder_wf b \<longleftrightarrow>
     nodes_wf (tb_nodes b) \<and> bt_wf (tb_unresolved b) \<and> bt_wf (tb_keys b)
     \<and> fst ` set (tb_unresolved b) = fst ` set (tb_nodes b)"

lemma keys_bt_insert': "fst ` set (bt_insert k v m) = insert k (fst ` set m)"
  using keys_bt_insert [of k v m] by simp

lemma builder_wf_new [simp]: "builder_wf (new_tree_builder s r m)"
  by (simp add: builder_wf_def new_tree_builder_def)

lemma builder_wf_allow [simp]: "builder_wf (allow_existing_node i b) = builder_wf b"
  by (simp add: builder_wf_def allow_existing_node_def)

lemma builder_wf_insert:
  assumes "builder_wf b" and "flatten_identity b inp = Ok (b1, ident)"
  shows "builder_wf (insert_node b1 ident inp parent order)"
proof -
  have "bt_wf (tb_keys b1)"
    using assms
    by (auto simp: builder_wf_def flatten_identity_def result_simps Let_def bt_wf_insert
        split: option.splits if_splits)
  with assms flatten_identity_frame [OF assms(2)] show ?thesis
    by (auto simp: builder_wf_def insert_node_def flatten_node_def Let_def keys_bt_insert' bt_wf_insert
        intro!: nodes_wf_insert)
qed

lemma flatten_wf: "flatten b inp parent order depth = Ok (b', i) \<Longrightarrow> builder_wf b \<Longrightarrow> builder_wf b'"
  by (erule flatten_invariant) (auto intro: builder_wf_insert)

lemma flatten_existing:
  "flatten b inp parent order depth = Ok (b', i) \<Longrightarrow>
     tb_existing b' = tb_existing b \<and> tb_revision b' = tb_revision b
     \<and> tb_allow_existing_node b' = tb_allow_existing_node b"
  by (erule flatten_invariant [where I = "\<lambda>x. tb_existing x = tb_existing b \<and> tb_revision x = tb_revision b
     \<and> tb_allow_existing_node x = tb_allow_existing_node b"])
    (auto simp: insert_node_def dest: flatten_identity_frame)

lemma insert_node_simps [simp]:
  "tb_existing (insert_node b ident inp p k) = tb_existing b"
  "tb_revision (insert_node b ident inp p k) = tb_revision b"
  "tb_keys (insert_node b ident inp p k) = tb_keys b"
  "tb_next_node_sequence (insert_node b ident inp p k) = tb_next_node_sequence b"
  "tb_nodes (insert_node b ident inp p k) = bt_insert (id_id ident) (flatten_node b ident inp p k) (tb_nodes b)"
  "tb_unresolved (insert_node b ident inp p k) = bt_insert (id_id ident) (ni_depends_on inp) (tb_unresolved b)"
  by (simp_all add: insert_node_def)

lemma flatten_node_simps [simp]:
  "pn_id (flatten_node b ident inp p k) = id_id ident"
  "pn_parent_id (flatten_node b ident inp p k) = p"
  "pn_harness (flatten_node b ident inp p k) = id_harness ident"
  "pn_links (flatten_node b ident inp p k) = []"
  "pn_result (flatten_node b ident inp p k) = None"
  "pn_depends_on (flatten_node b ident inp p k) = []"
  "pn_updated_revision (flatten_node b ident inp p k) = tb_revision b"
  by (simp_all add: flatten_node_def Let_def)

text \<open>A rebuilt root keeps its harness: a node without a parent is the replaced one.\<close>

definition roots_kept :: "TreeBuilder \<Rightarrow> bool" where
  "roots_kept b \<longleftrightarrow>
     (\<forall>i n. bt_get (tb_nodes b) i = Some n \<longrightarrow> pn_parent_id n = None \<longrightarrow>
        (\<exists>m. bt_get (tb_existing b) i = Some m \<and> pn_harness n = pn_harness m))"

lemma flatten_roots_kept:
  assumes "flatten b inp parent order depth = Ok (b', i)" and "builder_wf b" and "roots_kept b"
    and "ni_id inp \<noteq> None \<or> parent \<noteq> None"
  shows "roots_kept b'"
proof -
  have "builder_wf b' \<and> roots_kept b'"
    using assms(1)
  proof (rule flatten_invariant_parent)
    show "builder_wf b \<and> roots_kept b" using assms(2,3) by simp
    fix b inp' b1 ident parent' order depth
    assume b: "builder_wf b \<and> roots_kept b"
      and par: "parent' \<noteq> None \<or> inp' = inp \<and> parent' = parent"
      and id: "flatten_identity b inp' = Ok (b1, ident)"
    note wf = builder_wf_insert [OF conjunct1 [OF b] id]
    have "\<exists>m. bt_get (tb_existing b) (id_id ident) = Some m \<and> id_harness ident = pn_harness m"
      if "parent' = None"
      using that par assms(4) id
      by (auto simp: flatten_identity_def result_simps Let_def split: option.splits if_splits)
    with b id flatten_identity_frame [OF id] wf
    show "builder_wf (insert_node b1 ident inp' parent' order)
        \<and> roots_kept (insert_node b1 ident inp' parent' order)"
      by (auto simp: roots_kept_def get_bt_insert builder_wf_def nodes_wf_def)
  qed
  then show ?thesis ..
qed

section \<open>Resolving dependencies\<close>

lemma resolve_dependencies_facts:
  "resolve_dependencies refs keys live = Ok ds \<Longrightarrow> set ds \<subseteq> set live"
proof -
  assume "resolve_dependencies refs keys live = Ok ds"
  then have "fold_res (\<lambda>resolved ref. and_then (resolve_reference keys ref) (\<lambda>i.
           if i \<notin> set live then Err (UnknownDependency i) else Ok (insort_insert i resolved))) [] refs = Ok ds"
    by (simp add: resolve_dependencies_def split: if_splits)
  then show ?thesis
    by (rule fold_res_inv [where I = "\<lambda>ds. set ds \<subseteq> set live"])
      (auto simp: result_simps set_insort_insert split: if_splits)
qed

lemma resolve_dependencies_returns: "resolve_dependencies refs keys live \<notin> {Panic, Diverge}"
proof -
  let ?f = "\<lambda>resolved ref. and_then (resolve_reference keys ref) (\<lambda>i.
           if i \<notin> set live then Err (UnknownDependency i) else Ok (insort_insert i resolved))"
  have "?f r x \<notin> {Panic, Diverge}" for r x
    by (auto simp: result_simps resolve_reference_def split: PlanNodeReferenceInput.splits if_splits)
  then have "fold_res ?f [] refs \<noteq> Panic" "fold_res ?f [] refs \<noteq> Diverge"
    using fold_res_no_panic [where I = "\<lambda>_. True" and f = ?f] fold_res_no_diverge [where I = "\<lambda>_. True" and f = ?f]
    by simp_all
  then show ?thesis by (simp add: resolve_dependencies_def)
qed

text \<open>Resolution only writes dependencies.\<close>

definition same_but_deps :: "PlanNodeSnapshot \<Rightarrow> PlanNodeSnapshot \<Rightarrow> bool" where
  "same_but_deps a b \<longleftrightarrow> a\<lparr>pn_depends_on := []\<rparr> = b\<lparr>pn_depends_on := []\<rparr>"

definition only_deps_moved :: "node_map \<Rightarrow> node_map \<Rightarrow> bool" where
  "only_deps_moved m m' \<longleftrightarrow> (\<forall>i. rel_option same_but_deps (bt_get m i) (bt_get m' i))"

lemma same_but_deps_fields:
  assumes "same_but_deps a b"
  shows "pn_id a = pn_id b" "pn_parent_id a = pn_parent_id b" "pn_harness a = pn_harness b"
    "pn_status a = pn_status b" "pn_links a = pn_links b" "pn_result a = pn_result b"
    "pn_sibling_order a = pn_sibling_order b" "pn_client_key a = pn_client_key b"
    "pn_declared_status a = pn_declared_status b"
  using assms by (cases a; cases b; simp add: same_but_deps_def)+

lemma only_deps_moved_refl [simp]: "only_deps_moved m m"
  by (simp add: only_deps_moved_def option.rel_refl same_but_deps_def)

lemma only_deps_moved_get:
  "only_deps_moved m m' \<Longrightarrow> bt_get m' i = Some b \<Longrightarrow> \<exists>a. bt_get m i = Some a \<and> same_but_deps a b"
  unfolding only_deps_moved_def by (metis option_rel_Some2)

lemma resolve_all_dependencies_Ok:
  assumes "resolve_all_dependencies m unres keys live = Ok m'" and "nodes_wf m"
  shows "nodes_wf m' \<and> only_deps_moved m m'"
  using assms(1) unfolding resolve_all_dependencies_def
proof (rule fold_res_inv [where I = "\<lambda>x. nodes_wf x \<and> only_deps_moved m x"])
  show "nodes_wf m \<and> only_deps_moved m m" using assms(2) by simp
  fix s x t
  assume s: "nodes_wf s \<and> only_deps_moved m s"
    and "(case x of (i, refs) \<Rightarrow> and_then (resolve_dependencies refs keys live) (\<lambda>resolved.
          and_then (expect (bt_get s i)) (\<lambda>n. Ok (bt_insert i (n\<lparr>pn_depends_on := resolved\<rparr>) s)))) = Ok t"
  then obtain i n ds where n: "bt_get s i = Some n" and t: "t = bt_insert i (n\<lparr>pn_depends_on := ds\<rparr>) s"
    by (auto simp: result_simps split: prod.splits)
  have "nodes_wf t" using s n t nodes_wf_get by (auto intro!: nodes_wf_insert)
  moreover obtain a where "bt_get m i = Some a" "same_but_deps a n"
    using only_deps_moved_get s n by blast
  then have "only_deps_moved m t"
    using s t unfolding only_deps_moved_def by (auto simp: nodes_wf_def get_bt_insert same_but_deps_def)
  ultimately show "nodes_wf t \<and> only_deps_moved m t" ..
qed

lemma resolve_all_dependencies_returns:
  assumes "nodes_wf m" and "fst ` set unres \<subseteq> fst ` set m"
  shows "resolve_all_dependencies m unres keys live \<notin> {Panic, Diverge}"
proof -
  let ?f = "\<lambda>nodes (i, refs). and_then (resolve_dependencies refs keys live) (\<lambda>resolved.
          and_then (expect (bt_get nodes i)) (\<lambda>n. Ok (bt_insert i (n\<lparr>pn_depends_on := resolved\<rparr>) nodes)))"
  let ?I = "\<lambda>x. fst ` set unres \<subseteq> fst ` set x"
  have ret: "?f s x \<notin> {Panic, Diverge}" if "x \<in> set unres" "?I s" for s x
  proof -
    have "bt_get s (fst x) \<noteq> None" using that by (auto simp: map_of_eq_None_iff)
    with resolve_dependencies_returns show ?thesis
      by (auto simp: result_simps split: prod.splits)
  qed
  have keep: "?I t" if "?I s" "?f s x = Ok t" for s x t
  proof -
    from that(2) obtain i n where "t = bt_insert i n s" by (cases x) (auto simp: result_simps)
    then have "fst ` set s \<subseteq> fst ` set t" by (auto simp: keys_bt_insert')
    with that(1) show ?thesis by blast
  qed
  show ?thesis
    unfolding resolve_all_dependencies_def
    by (rule fold_res_returns [where I = ?I]) (rule assms(2), rule ret, assumption+, rule keep)
qed

end
