(* ===== verification/Plan_Refresh.thy ===== *)
theory Plan_Refresh
  imports Plan_Tree "HOL-Library.Multiset"
begin

text \<open>
  The derived state of a plan (\<^verbatim>\<open>plan/execution.rs\<close>): which nodes are ready to run, how parents
  follow their children, how the phase follows the root, and the revision counter with its bounded
  history. The operations touch only the snapshot, so they are functions of it.
\<close>

section \<open>Fingerprints\<close>

definition FNV_OFFSET_BASIS :: u64 where "FNV_OFFSET_BASIS = 0xcbf29ce484222325"
definition FNV_PRIME :: u64 where "FNV_PRIME = 0x100000001b3"

definition hex_digit :: "int \<Rightarrow> char" where
  "hex_digit d = char_of (if d < 10 then 48 + d else 87 + d)"

text \<open>\<^verbatim>\<open>format!("{hash:016x}")\<close>: sixteen lower-case hexadecimal digits.\<close>

definition show_hex16 :: "u64 \<Rightarrow> string" where
  "show_hex16 w = map (\<lambda>k. hex_digit (uint w div 16 ^ (15 - k) mod 16)) [0..<16]"

definition stable_content_hash :: "8 word list \<Rightarrow> string" where
  "stable_content_hash bytes =
     ''fnv1a64:'' @ show_hex16
       (foldl (\<lambda>hash byte. (hash XOR ucast byte) * FNV_PRIME) FNV_OFFSET_BASIS bytes)"

definition find_node :: "PlanSnapshot \<Rightarrow> PlanNodeId \<Rightarrow> PlanNodeSnapshot option" where
  "find_node sn i = List.find (\<lambda>n. pn_id n = i) (ps_nodes sn)"

definition root_node :: "PlanSnapshot \<Rightarrow> PlanNodeSnapshot option" where
  "root_node sn = Option.bind (ps_root_node_id sn) (find_node sn)"

definition contract_fingerprint :: "plan_env \<Rightarrow> PlanSnapshot \<Rightarrow> string" where
  "contract_fingerprint E sn =
     stable_content_hash (en_contract_json E
       (map_option pn_objective (root_node sn)) (map_option pn_acceptance (root_node sn))
       (ps_authorized_capability_envelope sn))"

section \<open>Revisions\<close>

definition bounded_push :: "'a \<Rightarrow> 'a list \<Rightarrow> 'a list" where
  "bounded_push x xs = (let ys = xs @ [x] in if length ys > 32 then tl ys else ys)"

definition append_revision_summary :: "string \<Rightarrow> PlanSnapshot \<Rightarrow> PlanSnapshot plan_result" where
  "append_revision_summary summary sn =
     and_then (ok_or (new_revision_summary (ps_revision sn) summary)
                (InvalidText ''revision_summary'' ''is invalid'')) (\<lambda>s.
     Ok (sn\<lparr>ps_revision_summaries := bounded_push s (ps_revision_summaries sn)\<rparr>))"

definition advance_revision :: "plan_env \<Rightarrow> string \<Rightarrow> PlanSnapshot \<Rightarrow> (PlanSnapshot \<times> u64) plan_result" where
  "advance_revision E summary sn =
     and_then (append_revision_summary summary
                (sn\<lparr>ps_revision := saturating_add (ps_revision sn) 1\<rparr>)) (\<lambda>sn.
     and_then (validate_snapshot_limits E sn) (\<lambda>_.
     Ok (sn, ps_revision sn)))"

section \<open>Ready nodes\<close>

definition children_of :: "PlanSnapshot \<Rightarrow> PlanNodeId \<Rightarrow> PlanNodeSnapshot list" where
  "children_of sn i = filter (\<lambda>c. pn_parent_id c = Some i \<and> is_live c) (ps_nodes sn)"

definition node_execution_shape_is_ready :: "PlanSnapshot \<Rightarrow> PlanNodeSnapshot \<Rightarrow> bool" where
  "node_execution_shape_is_ready sn n =
     (let children = children_of sn (pn_id n) in
      if children = [] then pn_status n = PlanNodeStatus.Pending
      else pn_status n = PlanNodeStatus.Verifying
        \<and> list_all (\<lambda>c. pn_status c = PlanNodeStatus.Completed) children)"

definition retry_backoff_elapsed :: "PlanSnapshot \<Rightarrow> PlanNodeSnapshot \<Rightarrow> u64 \<Rightarrow> bool" where
  "retry_backoff_elapsed sn n now_ms =
     (let backoff = rp_retry_backoff_ms (pn_recovery_policy n) in
      if backoff = 0 then True
      else
        case Option.bind
          (List.find (\<lambda>a. at_node_id a = pn_id n
               \<and> at_outcome a = Some PlanAttemptOutcome.TransientFailure) (rev (ps_attempts sn)))
          at_finished_at_ms of
          None \<Rightarrow> True
        | Some finished \<Rightarrow> saturating_add finished backoff \<le> now_ms)"

definition stored_parent :: "PlanSnapshot \<Rightarrow> PlanNodeId \<Rightarrow> PlanNodeId option" where
  "stored_parent sn i =
     Option.bind (find_node sn i) (\<lambda>n. Option.bind (pn_parent_id n) (\<lambda>p.
       map_option pn_id (find_node sn p)))"

definition node_order_key :: "PlanSnapshot \<Rightarrow> PlanNodeId \<Rightarrow> u16 list plan_result" where
  "node_order_key sn i =
     returned (map_option
       (\<lambda>path. rev (map (\<lambda>j. case find_node sn j of Some n \<Rightarrow> pn_sibling_order n | None \<Rightarrow> 0) path))
       (chase (stored_parent sn) (Suc (length (ps_nodes sn))) (map_option pn_id (find_node sn i))))"

text \<open>\<^verbatim>\<open>sort_by_key\<close> evaluates the key of every element, unless there is nothing to compare.\<close>

definition sort_by_order_key :: "PlanSnapshot \<Rightarrow> PlanNodeId list \<Rightarrow> PlanNodeId list plan_result" where
  "sort_by_order_key sn ids =
     (if length ids < 2 then Ok ids
      else
        and_then (for_each (\<lambda>i. and_then (node_order_key sn i) (\<lambda>_. Ok ())) ids) (\<lambda>_.
        Ok (sort_key (\<lambda>i. case ok_value (node_order_key sn i) of Some k \<Rightarrow> k | None \<Rightarrow> []) ids)))"

definition ready_candidates :: "PlanSnapshot \<Rightarrow> u64 \<Rightarrow> PlanNodeSnapshot list" where
  "ready_candidates sn now_ms =
     (let completed = map pn_id (filter (\<lambda>n. pn_status n = PlanNodeStatus.Completed) (ps_nodes sn));
          live_leases = map le_node_id (filter (\<lambda>l. le_status l = PlanLeaseStatus.Live) (ps_leases sn)) in
      filter (\<lambda>n.
        (pn_status n = PlanNodeStatus.Pending \<or> pn_status n = PlanNodeStatus.Verifying)
        \<and> pn_id n \<notin> set live_leases
        \<and> list_all (\<lambda>d. d \<in> set completed) (pn_depends_on n)
        \<and> node_execution_shape_is_ready sn n
        \<and> retry_backoff_elapsed sn n now_ms) (ps_nodes sn))"

definition ready_node_ids_at :: "PlanSnapshot \<Rightarrow> u64 \<Rightarrow> PlanNodeId list plan_result" where
  "ready_node_ids_at sn now_ms =
     (if ps_phase sn \<noteq> PlanPhase.Executing \<or> ps_scheduler_status sn \<noteq> PlanSchedulerStatus.Active
      then Ok []
      else sort_by_order_key sn (map pn_id (ready_candidates sn now_ms)))"

definition ready_node_ids :: "PlanSnapshot \<Rightarrow> PlanNodeId list plan_result" where
  "ready_node_ids sn = ready_node_ids_at sn (- 1)"

section \<open>Parents and phases\<close>

definition node_has_live_execution :: "PlanSnapshot \<Rightarrow> PlanNodeId \<Rightarrow> bool" where
  "node_has_live_execution sn i \<longleftrightarrow>
     list_ex (\<lambda>a. at_node_id a = i \<and> at_outcome a = None) (ps_attempts sn)
     \<or> list_ex (\<lambda>l. le_node_id l = i \<and> le_status l = PlanLeaseStatus.Live) (ps_leases sn)
     \<or> list_ex (\<lambda>n. pn_id n = i \<and> list_ex (\<lambda>l. lk_status l = PlanLinkStatus.Active) (pn_links n))
         (ps_nodes sn)"

definition parent_update :: "PlanSnapshot \<Rightarrow> PlanNodeSnapshot \<Rightarrow> (PlanNodeId \<times> PlanNodeStatus) option" where
  "parent_update sn n =
     (if pn_status n \<notin> {PlanNodeStatus.Pending, PlanNodeStatus.Expanded, PlanNodeStatus.Verifying}
      then None
      else
        let children = children_of sn (pn_id n) in
        if children = []
           \<or> \<not> list_all (\<lambda>c. pn_status c \<in>
                {PlanNodeStatus.Completed, PlanNodeStatus.Blocked, PlanNodeStatus.Failed}) children
        then None
        else
          let status =
            (if list_all (\<lambda>c. pn_status c = PlanNodeStatus.Completed) children
             then
               (if ps_root_node_id sn = Some (pn_id n) \<and> ps_phase sn = PlanPhase.Executing
                   \<and> ps_scheduler_status sn = PlanSchedulerStatus.Active
                   \<and> \<not> node_has_live_execution sn (pn_id n)
                then PlanNodeStatus.Completed else PlanNodeStatus.Verifying)
             else PlanNodeStatus.Blocked) in
          if pn_status n \<noteq> status \<or> (status = PlanNodeStatus.Completed \<and> pn_result n = None)
          then Some (pn_id n, status) else None)"

definition children_completed_result :: PlanNodeResult where
  "children_completed_result =
     \<lparr>nr_conclusion = ''All declared child work completed.'', nr_evidence_refs = [],
      nr_artifact_refs = [], nr_changed_paths = [],
      nr_verification = [''Every declared child node reached completed status.''],
      nr_open_questions = []\<rparr>"

definition set_parent_status :: "u64 \<Rightarrow> PlanNodeStatus \<Rightarrow> PlanNodeSnapshot \<Rightarrow> PlanNodeSnapshot" where
  "set_parent_status revision status n =
     (let n = n\<lparr>pn_status := status, pn_updated_revision := revision\<rparr> in
      if status = PlanNodeStatus.Completed \<and> pn_result n = None
      then n\<lparr>pn_result := Some children_completed_result\<rparr> else n)"

definition apply_parent_update ::
    "u64 \<Rightarrow> PlanSnapshot \<Rightarrow> PlanNodeId \<times> PlanNodeStatus \<Rightarrow> PlanSnapshot plan_result" where
  "apply_parent_update revision sn u =
     and_then (expect (find_node sn (fst u))) (\<lambda>_.
     Ok (sn\<lparr>ps_nodes := update_first (\<lambda>n. pn_id n = fst u) (set_parent_status revision (snd u))
                (ps_nodes sn)\<rparr>))"

fun refresh_parent_loop :: "nat \<Rightarrow> u64 \<Rightarrow> PlanSnapshot \<Rightarrow> PlanSnapshot plan_result" where
  "refresh_parent_loop 0 revision sn = Diverge"
| "refresh_parent_loop (Suc fuel) revision sn =
     (let updates = List.map_filter (parent_update sn) (ps_nodes sn) in
      if updates = [] then Ok sn
      else and_then (fold_res (apply_parent_update revision) sn updates)
             (refresh_parent_loop fuel revision))"

definition refresh_terminal_phase :: "PlanSnapshot \<Rightarrow> PlanSnapshot" where
  "refresh_terminal_phase sn =
     (case ps_root_node_id sn of
        None \<Rightarrow> sn
      | Some root \<Rightarrow>
          sn\<lparr>ps_phase :=
            (case map_option pn_status (find_node sn root) of
               Some PlanNodeStatus.Completed \<Rightarrow> PlanPhase.Completed
             | Some PlanNodeStatus.Blocked \<Rightarrow> PlanPhase.Blocked
             | Some PlanNodeStatus.Failed \<Rightarrow> PlanPhase.Blocked
             | _ \<Rightarrow> ps_phase sn)\<rparr>)"

definition refresh_parent_states :: "u64 \<Rightarrow> PlanSnapshot \<Rightarrow> PlanSnapshot plan_result" where
  "refresh_parent_states revision sn =
     and_then (refresh_parent_loop (Suc (2 * length (ps_nodes sn))) revision sn)
       (\<lambda>sn. Ok (refresh_terminal_phase sn))"

definition settle_draining_phase :: "PlanSnapshot \<Rightarrow> PlanSnapshot" where
  "settle_draining_phase sn =
     (if ps_scheduler_status sn = PlanSchedulerStatus.Draining
         \<and> list_all (\<lambda>a. at_outcome a \<noteq> None) (ps_attempts sn)
      then sn\<lparr>ps_phase := PlanPhase.Cancelled\<rparr> else sn)"

section \<open>The shape of a plan\<close>

text \<open>
  The graph check reads of a node only its identity, place, dependencies, harness and whether it is
  live. Operations that keep this shape keep the plan valid.
\<close>

definition same_shape :: "PlanNodeSnapshot \<Rightarrow> PlanNodeSnapshot \<Rightarrow> bool" where
  "same_shape m n \<longleftrightarrow>
     pn_id m = pn_id n \<and> pn_parent_id m = pn_parent_id n \<and> pn_sibling_order m = pn_sibling_order n
     \<and> pn_depends_on m = pn_depends_on n \<and> pn_harness m = pn_harness n \<and> is_live m = is_live n"

lemma same_shape_refl [simp]: "same_shape n n"
  by (simp add: same_shape_def)

lemma same_shape_sym: "same_shape m n \<Longrightarrow> same_shape n m"
  by (simp add: same_shape_def)

lemma same_shape_trans: "same_shape l m \<Longrightarrow> same_shape m n \<Longrightarrow> same_shape l n"
  by (simp add: same_shape_def)

definition shape_eq :: "node_map \<Rightarrow> node_map \<Rightarrow> bool" where
  "shape_eq m m' \<longleftrightarrow> (\<forall>i. rel_option same_shape (bt_get m i) (bt_get m' i))"

lemma shape_eq_sym: "shape_eq m m' \<Longrightarrow> shape_eq m' m"
  unfolding shape_eq_def by (metis option.rel_flip option.rel_mono_strong same_shape_sym conversepD conversepI)

lemma shape_live_node:
  assumes "shape_eq m m'" and "live_node m i n"
  shows "\<exists>n'. live_node m' i n' \<and> same_shape n n'"
proof -
  have "rel_option same_shape (Some n) (bt_get m' i)"
    using assms unfolding shape_eq_def live_node_def by metis
  then show ?thesis using assms(2) by (auto simp: option_rel_Some1 live_node_def same_shape_def)
qed

lemma shape_parent_of: "shape_eq m m' \<Longrightarrow> parent_of m = parent_of m'"
proof
  fix i assume "shape_eq m m'"
  then have "rel_option same_shape (bt_get m i) (bt_get m' i)" by (simp add: shape_eq_def)
  then show "parent_of m i = parent_of m' i"
    by (cases "bt_get m i"; cases "bt_get m' i") (auto simp: parent_of_def same_shape_def)
qed

lemma shape_sets:
  assumes "shape_eq m m'"
  shows "live_set m = live_set m'" "child_set m i = child_set m' i" "dep_rel m = dep_rel m'"
proof -
  have live: "live_set a \<subseteq> live_set b" if "shape_eq a b" for a b
    unfolding live_set_def using shape_live_node [OF that] by blast
  have child: "child_set a i \<subseteq> child_set b i" if "shape_eq a b" for a b i
    using shape_live_node [OF that] unfolding child_set_def same_shape_def
    by (clarsimp, metis)
  have "dep_rel a \<subseteq> dep_rel b" if "shape_eq a b" for a b
    using shape_live_node [OF that] live [OF that] unfolding dep_rel_def same_shape_def
    by (clarsimp, metis subsetD)
  with live child shape_eq_sym [OF assms] assms
  show "live_set m = live_set m'" "child_set m i = child_set m' i" "dep_rel m = dep_rel m'"
    by blast+
qed

lemma shape_valid:
  assumes "shape_eq m m'" and "valid_plan_graph m r"
  shows "valid_plan_graph m' r"
proof -
  note shapes = shape_sets [OF assms(1)]
  have par: "parent_rel m = parent_rel m'"
    using shape_parent_of [OF assms(1)] by (simp add: parent_rel_def)
  have bwd: "\<exists>n. live_node m i n \<and> same_shape n n'" if "live_node m' i n'" for i n'
    using shape_live_node [OF shape_eq_sym [OF assms(1)] that] same_shape_sym by blast
  note v = assms(2) [unfolded valid_plan_graph_def]
  have links: "links_ok m r" and sib: "siblings_ok m" and har: "\<forall>i\<in>live_set m. harness_ok m i"
    using v by auto
  have "links_ok m' r"
    unfolding links_ok_def
  proof (intro allI impI)
    fix i n' assume "live_node m' i n'"
    with bwd obtain n where "live_node m i n" and n: "same_shape n n'" by blast
    from links [unfolded links_ok_def, rule_format, OF this(1)] n
    show "(if i = r then pn_parent_id n' = None else \<exists>p\<in>live_set m'. pn_parent_id n' = Some p)
        \<and> (\<forall>d\<in>set (pn_depends_on n'). d \<in> live_set m' \<and> d \<noteq> i \<and> (d, i) \<notin> (parent_rel m')\<^sup>+)"
      by (auto simp: same_shape_def shapes par)
  qed
  moreover have "siblings_ok m'"
    unfolding siblings_ok_def
    using bwd sib [unfolded siblings_ok_def] unfolding same_shape_def by metis
  moreover have "harness_ok m' i" if "i \<in> live_set m'" for i
    unfolding harness_ok_def
  proof (intro allI impI)
    fix n' assume "live_node m' i n'"
    with bwd obtain n where n: "live_node m i n" "same_shape n n'" by blast
    have h: "harness_ok m i" using har that shapes by simp
    note h = h [unfolded harness_ok_def, rule_format, OF n(1)]
    have "capability_le (pn_harness c') (pn_harness n')"
      if "live_node m' c c'" "pn_parent_id c' = Some i" for c c'
    proof -
      from bwd [OF that(1)] obtain x where "live_node m c x" "same_shape x c'" by blast
      moreover from this that(2) have "capability_le (pn_harness x) (pn_harness n)"
        using h unfolding same_shape_def by metis
      ultimately show ?thesis using n(2) by (simp add: same_shape_def)
    qed
    with h n(2) show "valid_paths (pn_harness n') \<and> card (child_set m' i) \<le> MAX_DIRECT_CHILDREN
        \<and> (\<forall>c m. live_node m' c m \<longrightarrow> pn_parent_id m = Some i \<longrightarrow> capability_le (pn_harness m) (pn_harness n'))"
      by (auto simp: same_shape_def shapes)
  qed
  ultimately show ?thesis using v unfolding valid_plan_graph_def shapes par by blast
qed

lemma shape_collect:
  assumes "list_all2 same_shape ns ms"
  shows "shape_eq (collect_nodes ns) (collect_nodes ms)"
proof -
  let ?kv = "map (\<lambda>n. (pn_id n, n))"
  have "bt_wf a \<Longrightarrow> bt_wf b \<Longrightarrow> shape_eq a b \<Longrightarrow> shape_eq (bt_extend a (?kv ns)) (bt_extend b (?kv ms))"
    for a b
    using assms
  proof (induction arbitrary: a b rule: list_all2_induct)
    case (Cons n ns m ms)
    then have "shape_eq (bt_insert (pn_id n) n a) (bt_insert (pn_id m) m b)"
      by (auto simp: shape_eq_def get_bt_insert same_shape_def)
    with Cons show ?case by (simp add: bt_extend_def bt_wf_insert)
  qed (simp add: bt_extend_def)
  then show ?thesis by (simp add: collect_nodes_def shape_eq_def)
qed

lemma list_all2_same_shape_ids: "list_all2 same_shape ns ms \<Longrightarrow> map pn_id ns = map pn_id ms"
  by (induction rule: list_all2_induct) (auto simp: same_shape_def)

section \<open>The refresh loop\<close>

text \<open>One round of the loop rewrites every node by its own update, because ids are distinct.\<close>

definition refresh_node :: "PlanSnapshot \<Rightarrow> u64 \<Rightarrow> PlanNodeSnapshot \<Rightarrow> PlanNodeSnapshot" where
  "refresh_node sn revision n =
     (case parent_update sn n of
        None \<Rightarrow> n
      | Some (_, status) \<Rightarrow> set_parent_status revision status n)"

lemma parent_update_id: "parent_update sn n = Some (i, s) \<Longrightarrow> i = pn_id n"
  by (auto simp: parent_update_def Let_def split: if_splits)

lemma set_parent_status_shape:
  "is_live n \<Longrightarrow> s \<noteq> PlanNodeStatus.Superseded \<Longrightarrow> same_shape n (set_parent_status r s n)"
  by (simp add: set_parent_status_def same_shape_def is_live_def Let_def)

lemma parent_update_status:
  "parent_update sn n = Some (i, s) \<Longrightarrow>
     pn_status n \<in> {PlanNodeStatus.Pending, PlanNodeStatus.Expanded, PlanNodeStatus.Verifying}
     \<and> s \<in> {PlanNodeStatus.Completed, PlanNodeStatus.Verifying, PlanNodeStatus.Blocked}
     \<and> s \<noteq> pn_status n"
  by (auto simp: parent_update_def Let_def split: if_splits)

lemma refresh_node_shape: "same_shape n (refresh_node sn r n)"
  by (auto simp: refresh_node_def split: option.splits dest!: parent_update_status
      intro!: set_parent_status_shape simp: is_live_def)

lemma refresh_node_id [simp]: "pn_id (refresh_node sn r n) = pn_id n"
  using refresh_node_shape [of n sn r] by (simp add: same_shape_def)

lemma update_first_append_fresh:
  "\<forall>x\<in>set xs. \<not> p x \<Longrightarrow> update_first p f (xs @ ys) = xs @ update_first p f ys"
  by (induction xs) auto

lemma apply_round:
  assumes "distinct (map pn_id (pre @ ns))"
  shows "fold_res (apply_parent_update r) (sn\<lparr>ps_nodes := pre @ ns\<rparr>) (List.map_filter (parent_update sn0) ns)
    = Ok (sn\<lparr>ps_nodes := pre @ map (refresh_node sn0 r) ns\<rparr>)"
  using assms
proof (induction ns arbitrary: pre)
  case (Cons n ns)
  have IH: "fold_res (apply_parent_update r) (sn\<lparr>ps_nodes := pre @ x # ns\<rparr>) (List.map_filter (parent_update sn0) ns)
    = Ok (sn\<lparr>ps_nodes := pre @ x # map (refresh_node sn0 r) ns\<rparr>)" if "pn_id x = pn_id n" for x
    using Cons.IH [of "pre @ [x]"] Cons.prems that by simp
  show ?case
  proof (cases "parent_update sn0 n")
    case None
    with IH [of n] show ?thesis by (simp add: List.map_filter_simps refresh_node_def)
  next
    case (Some u)
    then obtain s where u: "u = (pn_id n, s)" using parent_update_id by (cases u) auto
    have "\<forall>x\<in>set pre. pn_id x \<noteq> pn_id n" using Cons.prems by (auto simp: rev_image_eqI)
    then have "update_first (\<lambda>m. pn_id m = pn_id n) (set_parent_status r s) (pre @ n # ns)
        = pre @ set_parent_status r s n # ns"
      by (simp add: update_first_append_fresh)
    moreover obtain m where "find_node (sn\<lparr>ps_nodes := pre @ n # ns\<rparr>) (pn_id n) = Some m"
      by (cases "find_node (sn\<lparr>ps_nodes := pre @ n # ns\<rparr>) (pn_id n)")
        (auto simp: find_node_def find_None_iff_set)
    ultimately have "apply_parent_update r (sn\<lparr>ps_nodes := pre @ n # ns\<rparr>) u
        = Ok (sn\<lparr>ps_nodes := pre @ set_parent_status r s n # ns\<rparr>)"
      by (simp add: apply_parent_update_def u)
    moreover have "pn_id (set_parent_status r s n) = pn_id n"
      by (simp add: set_parent_status_def Let_def)
    ultimately show ?thesis
      using IH [of "set_parent_status r s n"] Some u
      by (simp add: List.map_filter_simps refresh_node_def)
  qed
qed (simp add: List.map_filter_simps)

lemma refresh_round:
  assumes "distinct (map pn_id (ps_nodes sn))"
  shows "fold_res (apply_parent_update r) sn (List.map_filter (parent_update sn) (ps_nodes sn))
    = Ok (sn\<lparr>ps_nodes := map (refresh_node sn r) (ps_nodes sn)\<rparr>)"
  using apply_round [of "[]" "ps_nodes sn" r sn sn] assms by simp

definition pending_weight :: "PlanNodeSnapshot \<Rightarrow> nat" where
  "pending_weight n =
     (if pn_status n \<in> {PlanNodeStatus.Pending, PlanNodeStatus.Expanded} then 2
      else if pn_status n = PlanNodeStatus.Verifying then 1 else 0)"

definition total_weight :: "PlanSnapshot \<Rightarrow> nat" where
  "total_weight sn = sum_list (map pending_weight (ps_nodes sn))"

lemma total_weight_bound: "total_weight sn \<le> 2 * length (ps_nodes sn)"
proof -
  have "sum_list (map pending_weight ns) \<le> 2 * length ns" for ns
    by (induction ns) (auto simp: pending_weight_def)
  then show ?thesis by (simp add: total_weight_def)
qed

lemma pending_weight_update:
  "parent_update sn n = Some u \<Longrightarrow> pending_weight (refresh_node sn r n) < pending_weight n"
  using parent_update_status [of sn n "fst u" "snd u"]
  by (auto simp: refresh_node_def pending_weight_def set_parent_status_def Let_def split: prod.splits)

lemma weight_round:
  assumes "List.map_filter (parent_update sn) ns \<noteq> []"
  shows "sum_list (map (\<lambda>n. pending_weight (refresh_node sn r n)) ns) < sum_list (map pending_weight ns)"
proof -
  have le: "pending_weight (refresh_node sn r n) \<le> pending_weight n" for n
    using pending_weight_update [of sn n] by (cases "parent_update sn n") (auto simp: refresh_node_def less_imp_le)
  then have les: "sum_list (map (\<lambda>n. pending_weight (refresh_node sn r n)) ns) \<le> sum_list (map pending_weight ns)"
    for ns by (rule sum_list_mono)
  show ?thesis using assms
  proof (induction ns)
    case (Cons n ns)
    show ?case
    proof (cases "parent_update sn n")
      case None
      with Cons have "sum_list (map (\<lambda>n. pending_weight (refresh_node sn r n)) ns) < sum_list (map pending_weight ns)"
        by (simp add: List.map_filter_simps)
      with le [of n] show ?thesis by simp
    next
      case (Some u)
      with pending_weight_update [OF Some, of r] les [of ns] show ?thesis by simp
    qed
  qed (simp add: List.map_filter_simps)
qed

text \<open>What the loop keeps and what it reaches: only statuses, node revisions and derived results
  move, and at the end no parent has an update left.\<close>

definition only_nodes_moved :: "PlanSnapshot \<Rightarrow> PlanSnapshot \<Rightarrow> bool" where
  "only_nodes_moved sn sn' \<longleftrightarrow>
     sn'\<lparr>ps_nodes := []\<rparr> = sn\<lparr>ps_nodes := []\<rparr> \<and> list_all2 same_shape (ps_nodes sn) (ps_nodes sn')"

lemma only_nodes_moved_refl [simp]: "only_nodes_moved sn sn"
  by (simp add: only_nodes_moved_def list_all2_same)

lemma only_nodes_moved_trans:
  "only_nodes_moved a b \<Longrightarrow> only_nodes_moved b c \<Longrightarrow> only_nodes_moved a c"
  unfolding only_nodes_moved_def using list_all2_trans [of same_shape same_shape same_shape] same_shape_trans
  by (metis (no_types, lifting))

lemma refresh_loop_total:
  assumes "distinct (map pn_id (ps_nodes sn))" and "total_weight sn < fuel"
  shows "\<exists>sn'. refresh_parent_loop fuel r sn = Ok sn' \<and> only_nodes_moved sn sn'
    \<and> (\<forall>n\<in>set (ps_nodes sn'). parent_update sn' n = None)"
  using assms
proof (induction fuel arbitrary: sn)
  case (Suc fuel)
  show ?case
  proof (cases "List.map_filter (parent_update sn) (ps_nodes sn) = []")
    case True
    then have "\<forall>n\<in>set (ps_nodes sn). parent_update sn n = None"
      unfolding List.map_filter_def by (simp add: filter_empty_conv) (metis not_None_eq surj_pair)
    with True show ?thesis by simp
  next
    case False
    let ?sn = "sn\<lparr>ps_nodes := map (refresh_node sn r) (ps_nodes sn)\<rparr>"
    have "total_weight ?sn < total_weight sn"
      using weight_round [OF False] by (simp add: total_weight_def comp_def)
    moreover have "distinct (map pn_id (ps_nodes ?sn))" using Suc.prems(1) by (simp add: comp_def)
    ultimately obtain sn' where IH: "refresh_parent_loop fuel r ?sn = Ok sn'" "only_nodes_moved ?sn sn'"
        "\<forall>n\<in>set (ps_nodes sn'). parent_update sn' n = None"
      using Suc.IH [of ?sn] Suc.prems(2) by auto
    moreover have "only_nodes_moved sn ?sn"
      by (simp add: only_nodes_moved_def list_all2_conv_all_nth refresh_node_shape)
    ultimately show ?thesis
      using False refresh_round [OF Suc.prems(1), of r] only_nodes_moved_trans by auto
  qed
qed simp

lemma only_nodes_moved_fields:
  assumes "only_nodes_moved sn sn'"
  shows "ps_root_node_id sn' = ps_root_node_id sn" "ps_phase sn' = ps_phase sn"
    "ps_scheduler_status sn' = ps_scheduler_status sn" "ps_attempts sn' = ps_attempts sn"
    "ps_leases sn' = ps_leases sn" "ps_attempt_progress sn' = ps_attempt_progress sn"
    "ps_directives sn' = ps_directives sn" "ps_revision sn' = ps_revision sn"
    "ps_authorized_capability_envelope sn' = ps_authorized_capability_envelope sn"
    "ps_approval_requirements sn' = ps_approval_requirements sn"
    "ps_revision_summaries sn' = ps_revision_summaries sn"
    "map pn_id (ps_nodes sn') = map pn_id (ps_nodes sn)"
    "ps_nodes sn' = [] \<longleftrightarrow> ps_nodes sn = []"
  using assms list_all2_same_shape_ids [of "ps_nodes sn" "ps_nodes sn'"]
  by (cases sn; cases sn'; auto simp: only_nodes_moved_def)+

text \<open>The result of a refresh: \<open>settled\<close> parents and the phase of the root.\<close>

definition settled :: "PlanSnapshot \<Rightarrow> bool" where
  "settled sn \<longleftrightarrow> (\<forall>n\<in>set (ps_nodes sn). parent_update sn n = None)"

definition root_phase :: "PlanSnapshot \<Rightarrow> PlanPhase \<Rightarrow> PlanPhase" where
  "root_phase sn phase =
     (case map_option pn_status (root_node sn) of
        Some PlanNodeStatus.Completed \<Rightarrow> PlanPhase.Completed
      | Some PlanNodeStatus.Blocked \<Rightarrow> PlanPhase.Blocked
      | Some PlanNodeStatus.Failed \<Rightarrow> PlanPhase.Blocked
      | _ \<Rightarrow> phase)"

lemma refresh_terminal_phase_eq:
  "refresh_terminal_phase sn = sn\<lparr>ps_phase := root_phase sn (ps_phase sn)\<rparr>"
  by (auto simp: refresh_terminal_phase_def root_phase_def root_node_def split: option.splits)

lemma refresh_parent_states_Ok:
  assumes "distinct (map pn_id (ps_nodes sn))"
  shows "\<exists>mid. refresh_parent_states r sn = Ok (mid\<lparr>ps_phase := root_phase mid (ps_phase sn)\<rparr>)
    \<and> only_nodes_moved sn mid \<and> settled mid"
proof -
  have "total_weight sn < Suc (2 * length (ps_nodes sn))" using total_weight_bound [of sn] by simp
  from refresh_loop_total [OF assms this, of r] obtain mid where
    "refresh_parent_loop (Suc (2 * length (ps_nodes sn))) r sn = Ok mid" "only_nodes_moved sn mid"
    "settled mid" unfolding settled_def by blast
  then show ?thesis
    by (intro exI [of _ mid])
      (simp add: refresh_parent_states_def refresh_terminal_phase_eq only_nodes_moved_fields
        del: refresh_parent_loop.simps)
qed

lemma refresh_parent_statesE:
  assumes "refresh_parent_states r sn = Ok sn'" and "distinct (map pn_id (ps_nodes sn))"
  obtains mid where "sn' = mid\<lparr>ps_phase := root_phase mid (ps_phase sn)\<rparr>" "only_nodes_moved sn mid"
    "settled mid"
  using refresh_parent_states_Ok [OF assms(2), of r] assms(1) by auto

section \<open>What a refresh may change\<close>

text \<open>
  A refresh moves only the status, revision and result of nodes that wait for their children; every
  other node is left exactly as it was.
\<close>

definition waiting :: "PlanNodeStatus set" where
  "waiting = {PlanNodeStatus.Pending, PlanNodeStatus.Expanded, PlanNodeStatus.Verifying}"

definition refreshed :: "PlanNodeSnapshot \<Rightarrow> PlanNodeSnapshot \<Rightarrow> bool" where
  "refreshed n n' \<longleftrightarrow> n' = n \<or>
     (pn_status n \<in> waiting \<and> is_live n'
      \<and> (\<exists>s vr res. n' = n\<lparr>pn_status := s, pn_updated_revision := vr, pn_result := res\<rparr>))"

lemma refreshed_refl [simp]: "refreshed n n"
  by (simp add: refreshed_def)

lemma refreshed_trans:
  assumes "refreshed a b" and "refreshed b c"
  shows "refreshed a c"
proof -
  have "\<exists>s' vr' res'. a\<lparr>pn_status := s, pn_updated_revision := vr, pn_result := res,
      pn_status := s1, pn_updated_revision := vr1, pn_result := res1\<rparr>
      = a\<lparr>pn_status := s', pn_updated_revision := vr', pn_result := res'\<rparr>" for s vr res s1 vr1 res1
    by (intro exI [of _ s1] exI [of _ vr1] exI [of _ res1]) simp
  with assms show ?thesis unfolding refreshed_def by fastforce
qed

lemma refreshed_fields:
  assumes "refreshed n n'"
  shows "pn_id n' = pn_id n" "pn_declared_status n' = pn_declared_status n" "pn_links n' = pn_links n"
    "pn_client_key n' = pn_client_key n" "same_shape n n'"
    "pn_status n \<notin> waiting \<Longrightarrow> n' = n"
  using assms by (auto simp: refreshed_def same_shape_def is_live_def waiting_def)

lemma refresh_node_refreshed: "refreshed n (refresh_node sn r n)"
proof (cases "parent_update sn n")
  case None
  then show ?thesis by (simp add: refresh_node_def)
next
  case (Some u)
  obtain i s where u: "u = (i, s)" by (cases u)
  have s: "pn_status n \<in> waiting" "s \<noteq> PlanNodeStatus.Superseded"
    using parent_update_status [OF Some [unfolded u]] by (auto simp: waiting_def)
  have "\<exists>res. set_parent_status r s n = n\<lparr>pn_status := s, pn_updated_revision := r, pn_result := res\<rparr>"
  proof (cases "s = PlanNodeStatus.Completed \<and> pn_result n = None")
    case True
    then show ?thesis
      by (intro exI [of _ "Some children_completed_result"]) (simp add: set_parent_status_def)
  next
    case False
    then show ?thesis by (intro exI [of _ "pn_result n"]) (auto simp: set_parent_status_def)
  qed
  with s Some u show ?thesis
    by (auto simp: refresh_node_def refreshed_def is_live_def set_parent_status_def Let_def)
qed

lemma refresh_loop_refreshed:
  assumes "refresh_parent_loop fuel r sn = Ok sn'" and "distinct (map pn_id (ps_nodes sn))"
  shows "list_all2 refreshed (ps_nodes sn) (ps_nodes sn')"
  using assms
proof (induction fuel arbitrary: sn)
  case (Suc fuel)
  let ?sn1 = "sn\<lparr>ps_nodes := map (refresh_node sn r) (ps_nodes sn)\<rparr>"
  show ?case
  proof (cases "List.map_filter (parent_update sn) (ps_nodes sn) = []")
    case True
    with Suc.prems show ?thesis by (simp add: list_all2_refl)
  next
    case False
    with Suc.prems refresh_round [OF Suc.prems(2), of r] have "refresh_parent_loop fuel r ?sn1 = Ok sn'"
      by simp
    moreover have "distinct (map pn_id (ps_nodes ?sn1))" using Suc.prems(2) by (simp add: comp_def)
    ultimately have "list_all2 refreshed (ps_nodes ?sn1) (ps_nodes sn')" by (rule Suc.IH)
    moreover have "list_all2 refreshed (ps_nodes sn) (ps_nodes ?sn1)"
      by (simp add: list_all2_map2 list_all2_refl refresh_node_refreshed)
    ultimately show ?thesis using refreshed_trans list_all2_trans [of refreshed refreshed refreshed] by blast
  qed
qed simp

lemma refresh_parent_states_refreshed:
  assumes "refresh_parent_states r sn = Ok sn'" and "distinct (map pn_id (ps_nodes sn))"
  shows "list_all2 refreshed (ps_nodes sn) (ps_nodes sn')"
proof -
  obtain mid where "refresh_parent_loop (Suc (2 * length (ps_nodes sn))) r sn = Ok mid"
    and "sn' = refresh_terminal_phase mid"
    using assms(1) by (auto simp: refresh_parent_states_def result_simps simp del: refresh_parent_loop.simps)
  with refresh_loop_refreshed [OF this(1) assms(2)] show ?thesis
    by (simp add: refresh_terminal_phase_eq)
qed

section \<open>Ready nodes of a valid plan\<close>

lemma find_node_collect:
  "distinct (map pn_id (ps_nodes sn)) \<Longrightarrow> find_node sn i = bt_get (collect_nodes (ps_nodes sn)) i"
  by (simp add: find_node_def get_collect_nodes)

lemma stored_parent_domain: "stored_parent sn i \<noteq> None \<Longrightarrow> i \<in> pn_id ` set (ps_nodes sn)"
  by (auto simp: stored_parent_def find_node_def bind_eq_None_conv dest!: find_SomeD)

lemma stored_parent_live:
  assumes "distinct (map pn_id (ps_nodes sn))" and "valid_plan_graph (collect_nodes (ps_nodes sn)) r"
    and "i \<in> live_set (collect_nodes (ps_nodes sn))"
  shows "stored_parent sn i = parent_of (collect_nodes (ps_nodes sn)) i
    \<and> (\<forall>p. stored_parent sn i = Some p \<longrightarrow> p \<in> live_set (collect_nodes (ps_nodes sn)))"
proof -
  let ?m = "collect_nodes (ps_nodes sn)"
  from assms(3) obtain n where n: "live_node ?m i n" by (auto simp: live_set_def)
  have "links_ok ?m r" using assms(2) by (simp add: valid_plan_graph_def)
  from this [unfolded links_ok_def, rule_format, OF n]
  have "pn_parent_id n = None \<or> (\<exists>p\<in>live_set ?m. pn_parent_id n = Some p)" by (auto split: if_splits)
  then show ?thesis
    using n nodes_wf_get [OF nodes_wf_collect, of "ps_nodes sn"]
    by (auto simp: stored_parent_def parent_of_def find_node_collect [OF assms(1)] live_node_def
        live_set_def)
qed

lemma node_order_key_returns:
  assumes "distinct (map pn_id (ps_nodes sn))" and "valid_plan_graph (collect_nodes (ps_nodes sn)) r"
    and "i \<in> live_set (collect_nodes (ps_nodes sn))"
  shows "\<exists>k. node_order_key sn i = Ok k"
proof -
  let ?m = "collect_nodes (ps_nodes sn)" and ?f = "stored_parent sn"
  note v = assms(2) [unfolded valid_plan_graph_def]
  have reach: "(i, r) \<in> (parent_rel ?m)\<^sup>*" and root: "r \<in> live_set ?m" using v assms(3) by auto
  have "(i, r) \<in> (link_rel ?f)\<^sup>*"
    using reach assms(3)
  proof (induction rule: converse_rtrancl_induct)
    case (step i p)
    with stored_parent_live [OF assms(1,2) step.prems] have "?f i = Some p" "p \<in> live_set ?m"
      by (auto simp: parent_rel_def)
    with step.IH show ?case by (auto intro: converse_rtrancl_into_rtrancl)
  qed simp
  moreover have "?f r = None"
    using stored_parent_live [OF assms(1,2) root] root_parent_None v by simp
  ultimately obtain n xs where "chase ?f n (Some i) = Some xs" using chase_to_end by metis
  moreover have "card (pn_id ` set (ps_nodes sn)) \<le> length (ps_nodes sn)"
    by (metis card_length length_map set_map)
  then have "chase ?f (Suc (length (ps_nodes sn))) (Some i) = None
      \<longleftrightarrow> (\<forall>n. chase ?f n (Some i) = None)"
    by (intro chase_enough [where S = "pn_id ` set (ps_nodes sn)"] stored_parent_domain) auto
  ultimately obtain ys where "chase ?f (Suc (length (ps_nodes sn))) (Some i) = Some ys"
    by (metis not_None_eq)
  moreover have "map_option pn_id (find_node sn i) = Some i"
    using assms(3) nodes_wf_get [OF nodes_wf_collect, of "ps_nodes sn"]
    by (auto simp: find_node_collect [OF assms(1)] live_set_def live_node_def)
  ultimately show ?thesis unfolding node_order_key_def by (simp only:) (simp del: chase.simps)
qed

lemma sort_by_order_key_Ok:
  assumes "\<forall>i\<in>set ids. \<exists>k. node_order_key sn i = Ok k"
  shows "\<exists>ids'. sort_by_order_key sn ids = Ok ids' \<and> mset ids' = mset ids
    \<and> sorted (map (\<lambda>i. case ok_value (node_order_key sn i) of Some k \<Rightarrow> k | None \<Rightarrow> []) ids')"
proof (cases "length ids < 2")
  case True
  then have "ids = [] \<or> (\<exists>x. ids = [x])" by (cases ids; cases "tl ids") auto
  with True show ?thesis by (auto simp: sort_by_order_key_def)
next
  case False
  then have "for_each (\<lambda>i. and_then (node_order_key sn i) (\<lambda>_. Ok ())) ids = Ok ()"
    using assms by (auto simp: result_simps)
  with False show ?thesis by (simp add: sort_by_order_key_def)
qed

lemma ready_candidates_live: "n \<in> set (ready_candidates sn now) \<Longrightarrow> is_live n \<and> n \<in> set (ps_nodes sn)"
  by (auto simp: ready_candidates_def is_live_def Let_def)

lemma live_in_collect:
  assumes "distinct (map pn_id ns)" and "n \<in> set ns" and "is_live n"
  shows "live_node (collect_nodes ns) (pn_id n) n"
  using assms find_by_key [OF assms(1,2)] by (simp add: live_node_def get_collect_nodes)

lemma live_node_collect_iff:
  "distinct (map pn_id ns) \<Longrightarrow> live_node (collect_nodes ns) i n \<longleftrightarrow> n \<in> set ns \<and> pn_id n = i \<and> is_live n"
  using live_in_collect [of ns n] by (auto simp: live_node_def get_collect_nodes dest: find_SomeD)

lemma ready_node_ids_at_Ok:
  assumes "distinct (map pn_id (ps_nodes sn))" and "valid_plan_graph (collect_nodes (ps_nodes sn)) r"
  shows "\<exists>ids. ready_node_ids_at sn now = Ok ids \<and> distinct ids
    \<and> sorted (map (\<lambda>i. case ok_value (node_order_key sn i) of Some k \<Rightarrow> k | None \<Rightarrow> []) ids)
    \<and> (\<forall>i\<in>set ids. \<exists>n\<in>set (ready_candidates sn now). pn_id n = i)
    \<and> (ps_phase sn = PlanPhase.Executing \<longrightarrow> ps_scheduler_status sn = PlanSchedulerStatus.Active \<longrightarrow>
         pn_id ` set (ready_candidates sn now) \<subseteq> set ids)"
proof -
  let ?ids = "map pn_id (ready_candidates sn now)"
  have "\<forall>i\<in>set ?ids. \<exists>k. node_order_key sn i = Ok k"
    using ready_candidates_live [of _ sn now] live_in_collect [OF assms(1)]
      node_order_key_returns [OF assms] by (fastforce simp: live_set_def)
  from sort_by_order_key_Ok [OF this] obtain ids where
    ids: "sort_by_order_key sn ?ids = Ok ids" "mset ids = mset ?ids"
      "sorted (map (\<lambda>i. case ok_value (node_order_key sn i) of Some k \<Rightarrow> k | None \<Rightarrow> []) ids)"
    by blast
  have "distinct ?ids" using assms(1) by (simp add: ready_candidates_def Let_def distinct_map_filter)
  with ids(2) have "distinct ids" "set ids = set ?ids"
    by (metis mset_eq_imp_distinct_iff, metis mset_eq_setD)
  with ids show ?thesis by (auto simp: ready_node_ids_at_def)
qed

section \<open>Properties\<close>

definition sample_snapshot :: "PlanPhase \<Rightarrow> PlanNodeSnapshot list \<Rightarrow> PlanSnapshot" where
  "sample_snapshot phase ns =
     \<lparr>ps_plan_id = ''plan'', ps_revision = 1, ps_phase = phase, ps_activation_source = User,
      ps_root_node_id = Some (PlanNodeId ''r''), ps_coordinator_node_id = None,
      ps_execution_contract_fingerprint = None, ps_execution_authorization_refs = [],
      ps_authorized_capability_envelope = None, ps_approval_requirements = [], ps_nodes = ns,
      ps_attempts = [], ps_leases = [], ps_attempt_progress = [], ps_directives = [],
      ps_resource_policy_snapshot = default_resource_policy, ps_max_concurrency_hint = None,
      ps_scheduler_status = PlanSchedulerStatus.Active, ps_revision_summaries = []\<rparr>"

lemma phase_frame [simp]:
  "find_node (sn\<lparr>ps_phase := ph\<rparr>) = find_node sn"
  "root_node (sn\<lparr>ps_phase := ph\<rparr>) = root_node sn"
  "children_of (sn\<lparr>ps_phase := ph\<rparr>) = children_of sn"
  "root_phase (sn\<lparr>ps_phase := ph\<rparr>) = root_phase sn"
proof -
  show find: "find_node (sn\<lparr>ps_phase := ph\<rparr>) = find_node sn" by (simp add: fun_eq_iff find_node_def)
  show root: "root_node (sn\<lparr>ps_phase := ph\<rparr>) = root_node sn" by (simp add: root_node_def find)
  show "children_of (sn\<lparr>ps_phase := ph\<rparr>) = children_of sn" by (simp add: fun_eq_iff children_of_def)
  show "root_phase (sn\<lparr>ps_phase := ph\<rparr>) = root_phase sn" by (simp add: fun_eq_iff root_phase_def root)
qed

text \<open>What a refresh promises of the parents, and what makes a node ready, in the terms of the plan.\<close>

definition parents_settled :: "PlanSnapshot \<Rightarrow> bool" where
  "parents_settled sn \<longleftrightarrow>
     (\<forall>n\<in>set (ps_nodes sn). \<forall>children. children = set (children_of sn (pn_id n)) \<longrightarrow>
        pn_status n \<in> {PlanNodeStatus.Pending, PlanNodeStatus.Expanded, PlanNodeStatus.Verifying} \<longrightarrow>
        children \<noteq> {} \<longrightarrow>
        (\<forall>c\<in>children.
           pn_status c \<in> {PlanNodeStatus.Completed, PlanNodeStatus.Blocked, PlanNodeStatus.Failed}) \<longrightarrow>
        pn_status n = PlanNodeStatus.Verifying
        \<and> (\<forall>c\<in>children. pn_status c = PlanNodeStatus.Completed))"

definition ready_node :: "PlanSnapshot \<Rightarrow> u64 \<Rightarrow> PlanNodeSnapshot \<Rightarrow> bool" where
  "ready_node sn now n \<longleftrightarrow>
     (if children_of sn (pn_id n) = [] then pn_status n = PlanNodeStatus.Pending
      else pn_status n = PlanNodeStatus.Verifying
        \<and> (\<forall>c\<in>set (children_of sn (pn_id n)). pn_status c = PlanNodeStatus.Completed))
     \<and> (\<forall>d\<in>set (pn_depends_on n). \<exists>m\<in>set (ps_nodes sn).
          pn_id m = d \<and> pn_status m = PlanNodeStatus.Completed)
     \<and> (\<forall>l\<in>set (ps_leases sn). le_node_id l = pn_id n \<longrightarrow> le_status l \<noteq> PlanLeaseStatus.Live)
     \<and> retry_backoff_elapsed sn n now"

lemma settled_parents:
  assumes "settled sn"
  shows "parents_settled sn"
  unfolding parents_settled_def
proof (intro ballI allI impI)
  fix n children
  assume "n \<in> set (ps_nodes sn)" and "children = set (children_of sn (pn_id n))"
    and "pn_status n \<in> {PlanNodeStatus.Pending, PlanNodeStatus.Expanded, PlanNodeStatus.Verifying}"
    and "children \<noteq> {}"
    and "\<forall>c\<in>children.
      pn_status c \<in> {PlanNodeStatus.Completed, PlanNodeStatus.Blocked, PlanNodeStatus.Failed}"
  moreover from this(1) assms have "parent_update sn n = None" by (simp add: settled_def)
  ultimately show "pn_status n = PlanNodeStatus.Verifying
      \<and> (\<forall>c\<in>children. pn_status c = PlanNodeStatus.Completed)"
    by (auto simp: parent_update_def Let_def list_all_iff split: if_splits)
qed

lemma parents_settled_phase: "parents_settled (sn\<lparr>ps_phase := ph\<rparr>) = parents_settled sn"
  unfolding parents_settled_def phase_frame by simp

lemma set_ready_candidates:
  "n \<in> set (ready_candidates sn now) \<longleftrightarrow> n \<in> set (ps_nodes sn) \<and> ready_node sn now n"
proof -
  have "pn_status n = PlanNodeStatus.Pending \<or> pn_status n = PlanNodeStatus.Verifying"
    if "node_execution_shape_is_ready sn n"
    using that by (auto simp: node_execution_shape_is_ready_def Let_def split: if_splits)
  moreover have "node_execution_shape_is_ready sn n \<longleftrightarrow>
      (if children_of sn (pn_id n) = [] then pn_status n = PlanNodeStatus.Pending
       else pn_status n = PlanNodeStatus.Verifying
        \<and> (\<forall>c\<in>set (children_of sn (pn_id n)). pn_status c = PlanNodeStatus.Completed))"
    by (simp add: node_execution_shape_is_ready_def Let_def list_all_iff)
  moreover have "pn_id n \<notin> set (map le_node_id (filter (\<lambda>l. le_status l = PlanLeaseStatus.Live) (ps_leases sn)))
      \<longleftrightarrow> (\<forall>l\<in>set (ps_leases sn). le_node_id l = pn_id n \<longrightarrow> le_status l \<noteq> PlanLeaseStatus.Live)"
    by (auto simp: image_iff)
  moreover have "list_all (\<lambda>d. d \<in> set (map pn_id
        (filter (\<lambda>n. pn_status n = PlanNodeStatus.Completed) (ps_nodes sn)))) (pn_depends_on n)
      \<longleftrightarrow> (\<forall>d\<in>set (pn_depends_on n). \<exists>m\<in>set (ps_nodes sn).
          pn_id m = d \<and> pn_status m = PlanNodeStatus.Completed)"
    by (auto simp: list_all_iff)
  ultimately show ?thesis
    unfolding ready_candidates_def ready_node_def Let_def set_filter mem_Collect_eq by blast
qed





end
