(* ===== verification/Plan_Domain.thy ===== *)
theory Plan_Domain
  imports Plan_Refresh
begin

text \<open>
  Editing a plan (\<^verbatim>\<open>plan/domain.rs\<close>, \<^verbatim>\<open>plan/domain/admission.rs\<close>): defining the plan, replacing a
  subtree, decomposing a running node, and the approval gate that \<open>apply_execution_intent\<close> runs
  after every edit. Every operation works on a copy of the state and installs it only when it
  succeeds, so a function here returns the new state or an error and nothing in between.
\<close>

section \<open>Helpers\<close>

type_synonym key_map = "(string, PlanNodeId) btree_map"

definition empty_plan :: "PlanId \<Rightarrow> PlanActivationSource \<Rightarrow> PlanResourcePolicySnapshot \<Rightarrow> PlanState" where
  "empty_plan plan_id source policy =
     \<lparr>st_snapshot =
        \<lparr>ps_plan_id = plan_id, ps_revision = 0, ps_phase = PlanPhase.Planning,
         ps_activation_source = source, ps_root_node_id = None, ps_coordinator_node_id = None,
         ps_execution_contract_fingerprint = None, ps_execution_authorization_refs = [],
         ps_authorized_capability_envelope = None, ps_approval_requirements = [], ps_nodes = [],
         ps_attempts = [], ps_leases = [], ps_attempt_progress = [], ps_directives = [],
         ps_resource_policy_snapshot = policy, ps_max_concurrency_hint = None,
         ps_scheduler_status = PlanSchedulerStatus.Active, ps_revision_summaries = []\<rparr>,
      st_next_node_sequence = 1, st_next_approval_sequence = 1, st_next_attempt_sequence = 1,
      st_next_lease_sequence = 1, st_next_directive_sequence = 1\<rparr>"

definition set_nodes :: "PlanNodeSnapshot list \<Rightarrow> PlanState \<Rightarrow> PlanState" where
  "set_nodes ns st = st\<lparr>st_snapshot := (st_snapshot st)\<lparr>ps_nodes := ns\<rparr>\<rparr>"

definition supersede :: "u64 \<Rightarrow> PlanNodeSnapshot \<Rightarrow> PlanNodeSnapshot" where
  "supersede revision n =
     n\<lparr>pn_status := PlanNodeStatus.Superseded, pn_updated_revision := revision\<rparr>"

definition live_child_count :: "node_map \<Rightarrow> PlanNodeId \<Rightarrow> nat" where
  "live_child_count nodes i =
     length (filter (\<lambda>n. pn_parent_id n = Some i \<and> is_live n) (bt_values nodes))"

text \<open>The loop that flattens a list of new children under one parent.\<close>

definition flatten_children ::
    "node_map \<Rightarrow> PlanNodeId \<Rightarrow> nat \<Rightarrow> PlanError option \<Rightarrow> TreeBuilder \<Rightarrow> PlanNodeInput list
     \<Rightarrow> TreeBuilder plan_result" where
  "flatten_children existing parent_id base nested b children =
     fold_res
       (\<lambda>b (offset, child).
          case (nested, ni_children child) of
            (Some e, _ # _) \<Rightarrow> Err e
          | _ \<Rightarrow>
              and_then (depth_of existing parent_id) (\<lambda>depth.
              and_then (flatten b child (Some parent_id) (of_nat (base + offset)) (depth + 1))
                (\<lambda>(b, _). Ok b)))
       b (enumerate 0 children)"

lemma flatten_children_wf:
  assumes "flatten_children existing parent base nested b children = Ok b'" and "builder_wf b"
  shows "builder_wf b'"
  using assms(1) unfolding flatten_children_def
  by (rule fold_res_inv [where I = builder_wf])
    (use assms(2) in \<open>auto simp: result_simps split: prod.splits option.splits list.splits
      dest: flatten_wf\<close>)

section \<open>Decomposition\<close>

definition add_decomposition_children ::
    "PlanState \<Rightarrow> PlanNodeId \<Rightarrow> PlanNodeInput list \<Rightarrow> u64 \<Rightarrow> (PlanState \<times> key_map) plan_result" where
  "add_decomposition_children st parent_id children revision =
     (if children = [] then Err EmptyDecomposition
      else if length children > MAX_DIRECT_CHILDREN
      then Err (TooManyChildren parent_id (length children) MAX_DIRECT_CHILDREN)
      else
        let existing = collect_nodes (ps_nodes (st_snapshot st)) in
        and_then (ok_or (bt_get existing parent_id) (UnknownNode parent_id)) (\<lambda>parent.
        if pn_status parent \<noteq> PlanNodeStatus.InProgress
        then Err (NodeNotMutable parent_id (pn_status parent))
        else
        and_then (flatten_children existing parent_id (live_child_count existing parent_id)
                   (Some NestedDecomposition)
                   (new_tree_builder (st_next_node_sequence st) revision existing) children) (\<lambda>b.
        let combined = bt_extend existing (tb_nodes b) in
        and_then (resolve_all_dependencies combined (tb_unresolved b) (tb_keys b) (live_ids combined)) (\<lambda>combined.
        and_then (ok_or (ps_root_node_id (st_snapshot st)) RootMissing) (\<lambda>root_id.
        and_then (validate_graph combined root_id) (\<lambda>_.
        and_then (validate_authorized_envelope combined root_id
                   (ps_authorized_capability_envelope (st_snapshot st))) (\<lambda>_.
        Ok ((set_nodes (ordered_nodes combined) st)\<lparr>st_next_node_sequence := tb_next_node_sequence b\<rparr>,
            tb_keys b))))))))"

section \<open>The approval gate\<close>

definition current_plan_capability_envelope ::
    "PlanSnapshot \<Rightarrow> PlanCapabilityEnvelopeSnapshot plan_result" where
  "current_plan_capability_envelope sn =
     and_then (ok_or (ps_root_node_id sn) RootMissing) (\<lambda>root_id.
     and_then (ok_or (find_node sn root_id) RootMissing) (\<lambda>root.
     Ok \<lparr>ce_allowed_tools = ha_allowed_tools (pn_harness root),
         ce_read_scope = ha_read_scope (pn_harness root),
         ce_write_scope = ha_write_scope (pn_harness root),
         ce_forbidden_paths = ha_forbidden_paths (pn_harness root),
         ce_destructive_external_authority = False\<rparr>))"

definition add_review_requirement :: "PlanApprovalRequirementKind \<Rightarrow> PlanState \<Rightarrow> PlanState" where
  "add_review_requirement kind st =
     (let sn = st_snapshot st in
      if list_ex (\<lambda>r. rq_status r = PlanApprovalRequirementStatus.Pending \<and> rq_kind r = kind)
           (ps_approval_requirements sn)
      then st
      else st\<lparr>st_next_approval_sequence := st_next_approval_sequence st + 1,
              st_snapshot := sn\<lparr>ps_approval_requirements := ps_approval_requirements sn @
                [\<lparr>rq_requirement_id = ''approval-'' @ show_u64 (st_next_approval_sequence st),
                  rq_kind = kind, rq_status = PlanApprovalRequirementStatus.Pending,
                  rq_created_revision = ps_revision sn, rq_resolution_ref = None\<rparr>]\<rparr>\<rparr>)"

definition root_contract :: "PlanSnapshot \<Rightarrow> (string \<times> string list) option" where
  "root_contract sn = map_option (\<lambda>r. (pn_objective r, pn_acceptance r)) (root_node sn)"

definition record_root_contract_changes :: "(string \<times> string list) option \<Rightarrow> PlanState \<Rightarrow> PlanState" where
  "record_root_contract_changes established st =
     (case (established, root_contract (st_snapshot st)) of
        (Some (objective, acceptance), Some (current_objective, current_acceptance)) \<Rightarrow>
          let st = (if current_objective \<noteq> objective
                    then add_review_requirement RootObjectiveChange st else st) in
          if current_acceptance \<noteq> acceptance
          then add_review_requirement RootAcceptanceChange st else st
      | _ \<Rightarrow> st)"

definition authorized_envelope_covers_plan :: "PlanSnapshot \<Rightarrow> bool plan_result" where
  "authorized_envelope_covers_plan sn =
     (case ps_root_node_id sn of
        None \<Rightarrow> Err RootMissing
      | Some root_id \<Rightarrow>
          (case ps_authorized_capability_envelope sn of
             None \<Rightarrow> Ok False
           | Some envelope \<Rightarrow>
               (case validate_authorized_envelope (collect_nodes (ps_nodes sn)) root_id (Some envelope) of
                  Ok _ \<Rightarrow> Ok True
                | Err (CapabilityEnvelopeExceeded _) \<Rightarrow> Ok False
                | Err e \<Rightarrow> Err e
                | Panic \<Rightarrow> Panic
                | Diverge \<Rightarrow> Diverge)))"

definition has_pending_approval_requirements :: "PlanSnapshot \<Rightarrow> bool" where
  "has_pending_approval_requirements sn =
     list_ex (\<lambda>r. rq_status r = PlanApprovalRequirementStatus.Pending) (ps_approval_requirements sn)"

definition set_phase :: "PlanPhase \<Rightarrow> PlanState \<Rightarrow> PlanState" where
  "set_phase phase st = st\<lparr>st_snapshot := (st_snapshot st)\<lparr>ps_phase := phase\<rparr>\<rparr>"

definition require_expansion_review :: "PlanState \<Rightarrow> PlanState plan_result" where
  "require_expansion_review st =
     and_then (authorized_envelope_covers_plan (st_snapshot st)) (\<lambda>covered.
     Ok (if covered then st else add_review_requirement CapabilityOrPermissionExpansion st))"

definition authorize_envelope :: "PlanState \<Rightarrow> PlanState plan_result" where
  "authorize_envelope st =
     (case ps_authorized_capability_envelope (st_snapshot st) of
        None \<Rightarrow>
          and_then (current_plan_capability_envelope (st_snapshot st)) (\<lambda>e.
          Ok (st\<lparr>st_snapshot := (st_snapshot st)\<lparr>ps_authorized_capability_envelope := Some e\<rparr>\<rparr>))
      | Some _ \<Rightarrow> require_expansion_review st)"

definition gate_execution :: "plan_env \<Rightarrow> PlanState \<Rightarrow> PlanState" where
  "gate_execution E st =
     (if has_pending_approval_requirements (st_snapshot st)
      then set_phase PlanPhase.AwaitingApproval st
      else
        let sn = (st_snapshot st)\<lparr>ps_phase := PlanPhase.Executing\<rparr> in
        st\<lparr>st_snapshot := sn\<lparr>ps_execution_contract_fingerprint := Some (contract_fingerprint E sn)\<rparr>\<rparr>)"

definition apply_execution_intent ::
    "plan_env \<Rightarrow> PlanExecutionIntent \<Rightarrow> PlanState \<Rightarrow> PlanState plan_result" where
  "apply_execution_intent E intent st =
     (case intent of
        ContinuePlanning \<Rightarrow>
          if ps_phase (st_snapshot st) = PlanPhase.Executing
          then Err (WrongPhase (ps_phase (st_snapshot st)) ''continue planning'')
          else Ok (set_phase PlanPhase.Planning st)
      | ExecuteIfAuthorized \<Rightarrow>
          and_then (authorize_envelope st) (\<lambda>st. Ok (gate_execution E st))
      | RequestUserReview \<Rightarrow>
          and_then
            (if ps_authorized_capability_envelope (st_snapshot st) \<noteq> None
             then require_expansion_review st else Ok st)
          (\<lambda>st. Ok (set_phase PlanPhase.AwaitingApproval
                      (add_review_requirement UserReviewRequested st))))"

section \<open>Defining and replacing\<close>

definition define_plan :: "PlanState \<Rightarrow> u64 \<Rightarrow> PlanNodeInput \<Rightarrow> (PlanState \<times> key_map) plan_result" where
  "define_plan st expected_revision root =
     (let sn = st_snapshot st in
      if ps_phase sn \<noteq> PlanPhase.Planning then Err (WrongPhase (ps_phase sn) ''define plan'')
      else if expected_revision \<noteq> ps_revision sn
      then Err (StalePlanRevision expected_revision (ps_revision sn))
      else
        let revision = ps_revision sn + 1; existing = collect_nodes (ps_nodes sn) in
        and_then (flatten (new_tree_builder (st_next_node_sequence st) revision existing) root None 0 1)
          (\<lambda>(b, root_id).
        and_then (resolve_all_dependencies (tb_nodes b) (tb_unresolved b) (tb_keys b)
                   (bt_keys (tb_nodes b))) (\<lambda>nodes.
        and_then (fold_res
          (\<lambda>nodes old.
             if bt_get nodes (pn_id old) = None \<and> is_live old
             then and_then (ensure_mutable old) (\<lambda>_. Ok (bt_insert (pn_id old) (supersede revision old) nodes))
             else Ok nodes)
          nodes (bt_values existing)) (\<lambda>nodes.
        and_then (validate_graph nodes root_id) (\<lambda>_.
        and_then (validate_authorized_envelope nodes root_id (ps_authorized_capability_envelope sn)) (\<lambda>_.
        Ok (st\<lparr>st_snapshot := sn\<lparr>ps_revision := revision, ps_root_node_id := Some root_id,
                                  ps_nodes := ordered_nodes nodes\<rparr>,
               st_next_node_sequence := tb_next_node_sequence b\<rparr>,
            tb_keys b)))))))"

text \<open>The parts \<open>replace_subtree\<close> shares with its scoped variant: the check for dependencies that
  would dangle, and the new node map (old region out, replacement in, omitted nodes superseded).\<close>

definition check_incoming :: "node_map \<Rightarrow> PlanNodeId list \<Rightarrow> PlanNodeId list \<Rightarrow> unit plan_result" where
  "check_incoming existing old_region omitted =
     for_each
       (\<lambda>n. case List.find (\<lambda>d. d \<in> set omitted) (pn_depends_on n) of
              Some d \<Rightarrow> Err (IncomingDependencyWouldDangle d)
            | None \<Rightarrow> Ok ())
       (filter (\<lambda>n. pn_id n \<notin> set old_region) (bt_values existing))"

definition combine_replacement ::
    "u64 \<Rightarrow> node_map \<Rightarrow> PlanNodeId list \<Rightarrow> node_map \<Rightarrow> PlanNodeId list \<Rightarrow> node_map plan_result" where
  "combine_replacement revision existing old_region replacement omitted =
     fold_res
       (\<lambda>combined i. and_then (expect (bt_get existing i)) (\<lambda>n.
          Ok (bt_insert i (supersede revision n) combined)))
       (bt_extend (bt_remove_all existing old_region) replacement) omitted"

definition replace_subtree ::
    "PlanState \<Rightarrow> PlanNodeId \<Rightarrow> u64 \<Rightarrow> PlanNodeInput \<Rightarrow> (PlanState \<times> key_map) plan_result" where
  "replace_subtree st target_id expected_node_revision subtree =
     (let sn = st_snapshot st in
      if ps_phase sn \<notin> {PlanPhase.Planning, PlanPhase.Executing}
      then Err (WrongPhase (ps_phase sn) ''replace subtree'')
      else
        and_then (ok_or (node st target_id) (UnknownNode target_id)) (\<lambda>target.
        and_then (ensure_mutable target) (\<lambda>_.
        if pn_updated_revision target \<noteq> expected_node_revision
        then Err (StaleNodeRevision target_id expected_node_revision (pn_updated_revision target))
        else if ni_id subtree \<noteq> Some target_id \<or> ni_client_key subtree \<noteq> None
        then Err (ReplacementRootIdentity target_id)
        else
        let revision = ps_revision sn + 1; existing = collect_nodes (ps_nodes sn);
            old_region = live_subtree_ids existing target_id in
        and_then (for_each
          (\<lambda>i. and_then (expect (bt_get existing i)) (\<lambda>n.
               and_then (ensure_mutable n) (\<lambda>_.
               if pn_result n \<noteq> None then Err (NodeNotMutable (pn_id n) (pn_status n)) else Ok ())))
          old_region) (\<lambda>_.
        and_then (depth_of existing target_id) (\<lambda>depth.
        and_then (flatten (new_tree_builder (st_next_node_sequence st) revision existing) subtree
                   (pn_parent_id target) (pn_sibling_order target) depth) (\<lambda>(b, _).
        let omitted = filter (\<lambda>i. i \<notin> set (bt_keys (tb_nodes b))) old_region in
        and_then (check_incoming existing old_region omitted) (\<lambda>_.
        and_then (combine_replacement revision existing old_region (tb_nodes b) omitted) (\<lambda>combined.
        and_then (resolve_all_dependencies combined (tb_unresolved b) (tb_keys b) (live_ids combined)) (\<lambda>combined.
        and_then (ok_or (ps_root_node_id sn) RootMissing) (\<lambda>root_id.
        and_then (validate_graph combined root_id) (\<lambda>_.
        Ok (st\<lparr>st_snapshot := sn\<lparr>ps_revision := revision, ps_nodes := ordered_nodes combined\<rparr>,
               st_next_node_sequence := tb_next_node_sequence b\<rparr>,
            tb_keys b))))))))))))"

definition use_current_plan :: "PlanState \<Rightarrow> u64 \<Rightarrow> (PlanState \<times> key_map) plan_result" where
  "use_current_plan st expected_revision =
     (let sn = st_snapshot st in
      if ps_phase sn \<noteq> PlanPhase.Planning then Err (WrongPhase (ps_phase sn) ''use current plan'')
      else if ps_root_node_id sn = None then Err EmptyPlan
      else if expected_revision \<noteq> ps_revision sn
      then Err (StalePlanRevision expected_revision (ps_revision sn))
      else Ok (st\<lparr>st_snapshot := sn\<lparr>ps_revision := saturating_add (ps_revision sn) 1\<rparr>\<rparr>, []))"

text \<open>The end of every edit: the caller's reason joins the bounded history and the size limits are
  checked.\<close>

definition record_reason :: "plan_env \<Rightarrow> string \<Rightarrow> PlanState \<Rightarrow> PlanState plan_result" where
  "record_reason E reason st =
     (let sn = st_snapshot st in
      and_then (ok_or (new_revision_summary (ps_revision sn) reason)
                 (InvalidText ''reason'' ''is invalid'')) (\<lambda>s.
      let sn = sn\<lparr>ps_revision_summaries := bounded_push s (ps_revision_summaries sn)\<rparr> in
      and_then (validate_snapshot_limits E sn) (\<lambda>_.
      Ok (st\<lparr>st_snapshot := sn\<rparr>))))"

definition apply_change :: "PlanState \<Rightarrow> PlanChangeInput \<Rightarrow> (PlanState \<times> key_map) plan_result" where
  "apply_change st change =
     (case change of
        DefinePlan expected root \<Rightarrow> define_plan st expected root
      | ReplaceSubtree target expected subtree \<Rightarrow> replace_subtree st target expected subtree
      | UseCurrentPlan expected \<Rightarrow> use_current_plan st expected)"

definition update :: "plan_env \<Rightarrow> PlanState \<Rightarrow> UpdatePlanInput \<Rightarrow> (PlanState \<times> key_map) plan_result" where
  "update E st inp =
     and_then (validate_reason (up_reason inp)) (\<lambda>_.
     let sn = st_snapshot st; maximum = rs_max_concurrency (ps_resource_policy_snapshot sn) in
     if (case up_max_concurrency_hint inp of Some hint \<Rightarrow> hint = 0 \<or> hint > maximum | None \<Rightarrow> False)
     then Err (InvalidConcurrencyHint maximum)
     else
       let established = (if ps_execution_contract_fingerprint sn \<noteq> None then root_contract sn else None) in
       and_then (apply_change st (up_change inp)) (\<lambda>(st, keys).
       let st = st\<lparr>st_snapshot := (st_snapshot st)\<lparr>ps_coordinator_node_id := up_coordinator_node_id inp,
                    ps_max_concurrency_hint := up_max_concurrency_hint inp\<rparr>\<rparr> in
       and_then (apply_execution_intent E (up_execution_intent inp)
                  (record_root_contract_changes established st)) (\<lambda>st.
       and_then (record_reason E (up_reason inp) st) (\<lambda>st.
       Ok (st, keys)))))"

section \<open>Persistence\<close>

text \<open>
  The persisted form has the fields of the state; only its decoder differs. \<open>persisted\<close> copies
  every field, \<open>from_persisted\<close> checks the counters, the limits, the graph and the envelope, and
  recomputes the derived states.
\<close>

record PersistedPlanState =
  pp_snapshot :: PlanSnapshot
  pp_next_node_sequence :: u64
  pp_next_approval_sequence :: u64
  pp_next_attempt_sequence :: u64
  pp_next_lease_sequence :: u64
  pp_next_directive_sequence :: u64

definition persisted :: "PlanState \<Rightarrow> PersistedPlanState" where
  "persisted st =
     \<lparr>pp_snapshot = st_snapshot st, pp_next_node_sequence = st_next_node_sequence st,
      pp_next_approval_sequence = st_next_approval_sequence st,
      pp_next_attempt_sequence = st_next_attempt_sequence st,
      pp_next_lease_sequence = st_next_lease_sequence st,
      pp_next_directive_sequence = st_next_directive_sequence st\<rparr>"

definition from_persisted :: "plan_env \<Rightarrow> PersistedPlanState \<Rightarrow> PlanState plan_result" where
  "from_persisted E p =
     (if pp_next_node_sequence p = 0 \<or> pp_next_approval_sequence p = 0
         \<or> pp_next_attempt_sequence p = 0 \<or> pp_next_lease_sequence p = 0
         \<or> pp_next_directive_sequence p = 0
      then Err InvalidPersistedCounters
      else
        let sn = pp_snapshot p in
        and_then (validate_snapshot_limits E sn) (\<lambda>_.
        and_then
          (case ps_root_node_id sn of
             Some root_id \<Rightarrow>
               (let nodes = collect_nodes (ps_nodes sn) in
                and_then (validate_graph nodes root_id) (\<lambda>_.
                if ps_phase sn \<in> {PlanPhase.Executing, PlanPhase.Completed, PlanPhase.Blocked,
                                  PlanPhase.Cancelled}
                then validate_authorized_envelope nodes root_id (ps_authorized_capability_envelope sn)
                else Ok ()))
           | None \<Rightarrow>
               if ps_phase sn = PlanPhase.Planning \<and> ps_nodes sn = [] then Ok () else Err RootMissing)
        (\<lambda>_.
        and_then (refresh_parent_states (ps_revision sn) sn) (\<lambda>sn.
        Ok \<lparr>st_snapshot = sn, st_next_node_sequence = pp_next_node_sequence p,
            st_next_approval_sequence = pp_next_approval_sequence p,
            st_next_attempt_sequence = pp_next_attempt_sequence p,
            st_next_lease_sequence = pp_next_lease_sequence p,
            st_next_directive_sequence = pp_next_directive_sequence p\<rparr>))))"

section \<open>Well-formed plans\<close>

text \<open>
  The invariant of a stored plan: node ids are distinct, an empty plan has no root, and a plan with
  a root is a valid graph whose root stays within the authorized envelope, if there is one.
\<close>

definition plan_ok :: "PlanSnapshot \<Rightarrow> bool" where
  "plan_ok sn \<longleftrightarrow>
     distinct (map pn_id (ps_nodes sn))
     \<and> (ps_root_node_id sn = None \<longrightarrow> ps_nodes sn = [] \<and> ps_authorized_capability_envelope sn = None)
     \<and> (\<forall>r. ps_root_node_id sn = Some r \<longrightarrow>
          valid_plan_graph (collect_nodes (ps_nodes sn)) r
          \<and> (\<forall>e. ps_authorized_capability_envelope sn = Some e \<longrightarrow>
               validate_authorized_envelope (collect_nodes (ps_nodes sn)) r (Some e) = Ok ()))"

lemma envelope_shape:
  assumes "shape_eq m m'" and "validate_authorized_envelope m r (Some e) = Ok ()"
  shows "validate_authorized_envelope m' r (Some e) = Ok ()"
proof -
  have "rel_option same_shape (bt_get m r) (bt_get m' r)" using assms(1) by (simp add: shape_eq_def)
  with assms(2) show ?thesis
    by (auto simp: validate_authorized_envelope_def result_simps option_rel_Some1 same_shape_def
        validate_harness_against_envelope_iff)
qed

lemma plan_ok_shape:
  assumes "plan_ok sn" and "list_all2 same_shape (ps_nodes sn) (ps_nodes sn')"
    and "ps_root_node_id sn' = ps_root_node_id sn"
    and "ps_authorized_capability_envelope sn' = ps_authorized_capability_envelope sn"
  shows "plan_ok sn'"
proof -
  note shape = shape_collect [OF assms(2)]
  have "map pn_id (ps_nodes sn') = map pn_id (ps_nodes sn)"
    using list_all2_same_shape_ids [OF assms(2)] by simp
  with assms shape_valid [OF shape] envelope_shape [OF shape] show ?thesis
    by (auto simp: plan_ok_def)
qed

lemma plan_ok_nodes:
  assumes "nodes_wf m" and "ps_nodes sn = ordered_nodes m" and "ps_root_node_id sn = Some r"
    and "validate_graph m r = Ok ()"
    and "validate_authorized_envelope m r (ps_authorized_capability_envelope sn) = Ok ()"
  shows "plan_ok sn"
  using assms validate_graph_sound [OF assms(1,4)]
  by (auto simp: plan_ok_def distinct_ordered_nodes collect_ordered_nodes)

lemma plan_ok_empty [simp]: "plan_ok (st_snapshot (empty_plan plan_id source policy))"
  by (simp add: plan_ok_def empty_plan_def)

text \<open>Everything live in a well-formed plan is within the envelope.\<close>

lemma plan_ok_within_envelope:
  assumes "plan_ok sn" and "ps_authorized_capability_envelope sn = Some e"
    and "n \<in> set (ps_nodes sn)" and "is_live n"
  shows "within_envelope (pn_harness n) e"
proof -
  obtain r where r: "ps_root_node_id sn = Some r" using assms by (auto simp: plan_ok_def)
  let ?m = "collect_nodes (ps_nodes sn)"
  have d: "distinct (map pn_id (ps_nodes sn))" and v: "valid_plan_graph ?m r"
    and e: "validate_authorized_envelope ?m r (Some e) = Ok ()"
    using assms r by (auto simp: plan_ok_def)
  show ?thesis
    by (rule graph_within_envelope [OF v e live_in_collect [OF d assms(3,4)]])
qed

section \<open>Edits keep plans well formed\<close>

lemma nodes_wf_extend_map: "nodes_wf m \<Longrightarrow> nodes_wf m' \<Longrightarrow> nodes_wf (bt_extend m m')"
  by (rule nodes_wf_extend) (auto simp: nodes_wf_def)

lemma combine_replacement_get:
  assumes "combine_replacement vr ex region repl omitted = Ok c" and "bt_wf ex"
  shows "bt_wf c \<and> bt_get c =
    (\<lambda>i. if i \<in> set omitted then map_option (supersede vr) (bt_get ex i)
        else bt_get (bt_extend (bt_remove_all ex region) repl) i)"
proof -
  have "bt_wf c \<and> bt_get c =
      (\<lambda>i. if i \<in> set omitted then map_option (supersede vr) (bt_get ex i) else bt_get start i)"
    if "fold_res (\<lambda>combined i. and_then (expect (bt_get ex i)) (\<lambda>n.
          Ok (bt_insert i (supersede vr n) combined))) start omitted = (Ok c :: node_map plan_result)" "bt_wf start" for start
    using that
  proof (induction omitted arbitrary: start)
    case (Cons i omitted)
    then obtain n where n: "bt_get ex i = Some n"
      and rest: "fold_res (\<lambda>combined i. and_then (expect (bt_get ex i)) (\<lambda>n.
          Ok (bt_insert i (supersede vr n) combined))) (bt_insert i (supersede vr n) start) omitted
        = (Ok c :: node_map plan_result)"
      by (auto simp: result_simps)
    from Cons.IH [OF rest] Cons.prems(2) n show ?case
      by (auto simp: bt_wf_insert get_bt_insert fun_eq_iff)
  qed (simp add: fun_eq_iff)
  with assms show ?thesis
    by (simp add: combine_replacement_def bt_wf_extend bt_wf_remove_all)
qed

lemma combine_replacement_wf:
  assumes "combine_replacement vr ex region repl omitted = Ok c" and "nodes_wf ex" and "nodes_wf repl"
  shows "nodes_wf c"
  using assms(1) unfolding combine_replacement_def
proof (rule fold_res_inv [where I = nodes_wf])
  show "nodes_wf (bt_extend (bt_remove_all ex region) repl)"
    by (intro nodes_wf_extend_map nodes_wf_remove_all assms)
  fix s i t
  assume "nodes_wf s" and "and_then (expect (bt_get ex i)) (\<lambda>n. Ok (bt_insert i (supersede vr n) s)) = Ok t"
  then show "nodes_wf t"
    using nodes_wf_get [OF assms(2)] by (auto simp: result_simps supersede_def intro!: nodes_wf_insert)
qed

text \<open>Replacing a subtree keeps the harness of the plan's root, so the envelope still covers it.\<close>

definition roots_from :: "node_map \<Rightarrow> node_map \<Rightarrow> bool" where
  "roots_from ex repl \<longleftrightarrow>
     (\<forall>i n. bt_get repl i = Some n \<longrightarrow> pn_parent_id n = None \<longrightarrow>
        (\<exists>m. bt_get ex i = Some m \<and> pn_harness n = pn_harness m))"

lemma roots_kept_from: "roots_kept b \<Longrightarrow> roots_from (tb_existing b) (tb_nodes b)"
  by (simp add: roots_kept_def roots_from_def)

lemma combine_keeps_root:
  assumes "combine_replacement vr ex region repl omitted = Ok c"
    and "nodes_wf ex" and "nodes_wf repl" and "roots_from ex repl"
    and "bt_get c r = Some n" and "pn_parent_id n = None"
  shows "\<exists>m. bt_get ex r = Some m \<and> pn_harness n = pn_harness m"
proof -
  have wf: "bt_wf (bt_remove_all ex region)" and dist: "distinct (map fst repl)"
    using assms(2,3) by (auto simp: nodes_wf_def bt_wf_remove_all bt_wf_distinct)
  have "bt_get c r =
    (if r \<in> set omitted then map_option (supersede vr) (bt_get ex r)
     else case bt_get repl r of Some n \<Rightarrow> Some n | None \<Rightarrow> if r \<in> set region then None else bt_get ex r)"
    using combine_replacement_get [OF assms(1)] assms(2)
    by (auto simp: nodes_wf_def get_bt_extend [OF wf dist] get_bt_remove_all map_add_def split: option.splits)
  with assms(4-6) show ?thesis
    by (auto simp: roots_from_def supersede_def split: if_splits option.splits)
qed

lemma envelope_same_root:
  assumes "bt_get m r = Some a" and "bt_get m' r = Some b" and "pn_harness b = pn_harness a"
    and "validate_authorized_envelope m r (Some e) = Ok ()"
  shows "validate_authorized_envelope m' r (Some e) = Ok ()"
  using assms by (simp add: validate_authorized_envelope_def validate_harness_against_envelope_iff)

lemma replacement_plan_ok:
  assumes ok: "plan_ok sn" and root: "ps_root_node_id sn = Some r"
    and c: "combine_replacement vr (collect_nodes (ps_nodes sn)) region repl omitted = Ok c"
    and b: "nodes_wf repl" "roots_from (collect_nodes (ps_nodes sn)) repl"
    and m: "resolve_all_dependencies c unres keys live = Ok m" and v: "validate_graph m r = Ok ()"
  shows "plan_ok (sn\<lparr>ps_revision := vr', ps_nodes := ordered_nodes m\<rparr>)"
proof -
  let ?ex = "collect_nodes (ps_nodes sn)"
  have wfc: "nodes_wf c" by (rule combine_replacement_wf [OF c nodes_wf_collect b(1)])
  note m' = resolve_all_dependencies_Ok [OF m wfc]
  have "valid_plan_graph m r" using m' validate_graph_sound v by blast
  then obtain n where n: "bt_get m r = Some n" "pn_parent_id n = None"
    by (auto simp: valid_plan_graph_def links_ok_def live_set_def live_node_def)
  from only_deps_moved_get [OF conjunct2 [OF m'] n(1)] obtain a where
    a: "bt_get c r = Some a" "same_but_deps a n" by blast
  with n(2) have "pn_parent_id a = None" by (simp add: same_but_deps_fields)
  from combine_keeps_root [OF c nodes_wf_collect b a(1) this] obtain q where
    q: "bt_get ?ex r = Some q" "pn_harness n = pn_harness q"
    using a(2) by (auto simp: same_but_deps_fields)
  have "validate_authorized_envelope m r (ps_authorized_capability_envelope sn) = Ok ()"
  proof (cases "ps_authorized_capability_envelope sn")
    case (Some e)
    with ok root have "validate_authorized_envelope ?ex r (Some e) = Ok ()" by (simp add: plan_ok_def)
    with envelope_same_root [OF q(1) n(1) q(2)] Some show ?thesis by simp
  qed (simp add: validate_authorized_envelope_def)
  with m' v root show ?thesis by (intro plan_ok_nodes [where m = m and r = r]) simp_all
qed

lemma roots_kept_new [simp]: "roots_kept (new_tree_builder s r m)"
  by (simp add: roots_kept_def new_tree_builder_def)

lemma new_tree_builder_existing [simp]: "tb_existing (new_tree_builder s r m) = m"
  by (simp add: new_tree_builder_def)

text \<open>The inversion of each edit: what an accepted change has checked.\<close>

lemma replace_subtree_ok:
  assumes "replace_subtree st target vr subtree = Ok (st', keys)" and "plan_ok (st_snapshot st)"
  shows "plan_ok (st_snapshot st')"
proof -
  let ?sn = "st_snapshot st" let ?ex = "collect_nodes (ps_nodes ?sn)"
  let ?b0 = "new_tree_builder (st_next_node_sequence st) (ps_revision ?sn + 1) ?ex"
  from assms(1) obtain p k depth b i c m root where
    fl: "flatten ?b0 subtree p k depth = Ok (b, i)" and sub: "ni_id subtree = Some target"
    and c: "combine_replacement (ps_revision ?sn + 1) ?ex (live_subtree_ids ?ex target) (tb_nodes b)
        (filter (\<lambda>i. i \<notin> set (bt_keys (tb_nodes b))) (live_subtree_ids ?ex target)) = Ok c"
    and m: "resolve_all_dependencies c (tb_unresolved b) (tb_keys b) (live_ids c) = Ok m"
    and root: "ps_root_node_id ?sn = Some root" "validate_graph m root = Ok ()"
    and st': "st' = st\<lparr>st_snapshot := ?sn\<lparr>ps_revision := ps_revision ?sn + 1, ps_nodes := ordered_nodes m\<rparr>,
               st_next_node_sequence := tb_next_node_sequence b\<rparr>"
    unfolding replace_subtree_def by (auto simp: Let_def result_simps split: if_splits)
  have "builder_wf b" "roots_kept b" "tb_existing b = ?ex"
    using flatten_wf [OF fl] flatten_roots_kept [OF fl] sub flatten_existing [OF fl] by auto
  then have b: "nodes_wf (tb_nodes b)" "roots_from ?ex (tb_nodes b)"
    using roots_kept_from [of b] by (auto simp: builder_wf_def)
  show ?thesis using replacement_plan_ok [OF assms(2) root(1) c b m root(2)] st' by simp
qed

lemma add_decomposition_children_ok:
  assumes "add_decomposition_children st parent children revision = Ok (st', keys)"
  shows "plan_ok (st_snapshot st')
    \<and> (\<exists>ns. st_snapshot st' = (st_snapshot st)\<lparr>ps_nodes := ns\<rparr>)"
proof -
  let ?existing = "collect_nodes (ps_nodes (st_snapshot st))"
  from assms obtain b m root where
    b: "flatten_children ?existing parent (live_child_count ?existing parent)
          (Some NestedDecomposition)
          (new_tree_builder (st_next_node_sequence st) revision ?existing) children = Ok b"
    and m: "resolve_all_dependencies (bt_extend ?existing (tb_nodes b)) (tb_unresolved b) (tb_keys b)
          (live_ids (bt_extend ?existing (tb_nodes b))) = Ok m"
    and root: "ps_root_node_id (st_snapshot st) = Some root" "validate_graph m root = Ok ()"
      "validate_authorized_envelope m root (ps_authorized_capability_envelope (st_snapshot st)) = Ok ()"
    and st': "st' = (set_nodes (ordered_nodes m) st)\<lparr>st_next_node_sequence := tb_next_node_sequence b\<rparr>"
    unfolding add_decomposition_children_def by (auto simp: Let_def result_simps split: if_splits)
  have "builder_wf b" using b by (rule flatten_children_wf) simp
  then have "nodes_wf (bt_extend ?existing (tb_nodes b))"
    by (intro nodes_wf_extend_map) (auto simp: builder_wf_def)
  then have "nodes_wf m" using resolve_all_dependencies_Ok [OF m] by simp
  with root st' show ?thesis
    by (auto simp: set_nodes_def intro!: plan_ok_nodes [where m = m and r = root])
qed

lemma define_plan_ok:
  assumes "define_plan st expected root = Ok (st', keys)"
  shows "plan_ok (st_snapshot st') \<and> ps_root_node_id (st_snapshot st') \<noteq> None"
proof -
  let ?sn = "st_snapshot st" let ?ex = "collect_nodes (ps_nodes ?sn)"
  let ?b0 = "new_tree_builder (st_next_node_sequence st) (ps_revision ?sn + 1) ?ex"
  let ?f = "\<lambda>nodes old. if bt_get nodes (pn_id old) = None \<and> is_live old
             then and_then (ensure_mutable old) (\<lambda>_.
               Ok (bt_insert (pn_id old) (supersede (ps_revision ?sn + 1) old) nodes)) else Ok nodes"
  from assms obtain b i m0 m where
    fl: "flatten ?b0 root None 0 1 = Ok (b, i)"
    and m0: "resolve_all_dependencies (tb_nodes b) (tb_unresolved b) (tb_keys b) (bt_keys (tb_nodes b)) = Ok m0"
    and m: "fold_res ?f m0 (bt_values ?ex) = Ok m"
    and v: "validate_graph m i = Ok ()"
      "validate_authorized_envelope m i (ps_authorized_capability_envelope ?sn) = Ok ()"
    and st': "st' = st\<lparr>st_snapshot := ?sn\<lparr>ps_revision := ps_revision ?sn + 1, ps_root_node_id := Some i,
          ps_nodes := ordered_nodes m\<rparr>, st_next_node_sequence := tb_next_node_sequence b\<rparr>"
    unfolding define_plan_def by (auto simp: Let_def result_simps split: if_splits)
  have "builder_wf b" using flatten_wf [OF fl] by simp
  then have "nodes_wf m0" using resolve_all_dependencies_Ok [OF m0] by (simp add: builder_wf_def)
  with m have "nodes_wf m"
    by (rule fold_res_inv [where I = nodes_wf])
      (auto simp: result_simps supersede_def intro!: nodes_wf_insert split: if_splits)
  with v st' show ?thesis by (auto intro!: plan_ok_nodes [where m = m and r = i])
qed

lemma plan_ok_same:
  assumes "plan_ok sn" and "ps_nodes sn' = ps_nodes sn" and "ps_root_node_id sn' = ps_root_node_id sn"
    and "ps_authorized_capability_envelope sn' = ps_authorized_capability_envelope sn"
  shows "plan_ok sn'"
  using assms by (auto intro: plan_ok_shape [OF assms(1)] simp: list_all2_same)

lemma use_current_plan_ok:
  "use_current_plan st expected = Ok (st', keys) \<Longrightarrow> plan_ok (st_snapshot st) \<Longrightarrow>
     plan_ok (st_snapshot st') \<and> ps_root_node_id (st_snapshot st') \<noteq> None"
  by (auto simp: use_current_plan_def Let_def split: if_splits intro: plan_ok_same)

lemma apply_change_ok:
  assumes "apply_change st change = Ok (st', keys)" and "plan_ok (st_snapshot st)"
  shows "plan_ok (st_snapshot st') \<and> ps_root_node_id (st_snapshot st') \<noteq> None"
proof -
  have "ps_root_node_id (st_snapshot st') \<noteq> None" if "replace_subtree st t e sub = Ok (st', keys)" for t e sub
    using that unfolding replace_subtree_def by (auto simp: Let_def result_simps split: if_splits)
  with assms show ?thesis
    using define_plan_ok use_current_plan_ok replace_subtree_ok
    by (auto simp: apply_change_def split: PlanChangeInput.splits)
qed

text \<open>The gate touches the phase, the requirements, the fingerprint and the envelope only.\<close>

definition gate_free :: "PlanSnapshot \<Rightarrow> PlanSnapshot" where
  "gate_free sn = sn\<lparr>ps_phase := PlanPhase.Planning, ps_approval_requirements := [],
     ps_execution_contract_fingerprint := None, ps_authorized_capability_envelope := None\<rparr>"

definition only_gate_moved :: "PlanSnapshot \<Rightarrow> PlanSnapshot \<Rightarrow> bool" where
  "only_gate_moved sn sn' \<longleftrightarrow> gate_free sn' = gate_free sn"

lemma only_gate_moved_fields:
  assumes "only_gate_moved sn sn'"
  shows "ps_revision sn' = ps_revision sn" "ps_root_node_id sn' = ps_root_node_id sn"
    "ps_nodes sn' = ps_nodes sn" "ps_attempts sn' = ps_attempts sn" "ps_leases sn' = ps_leases sn"
    "ps_attempt_progress sn' = ps_attempt_progress sn" "ps_directives sn' = ps_directives sn"
    "ps_scheduler_status sn' = ps_scheduler_status sn"
    "ps_revision_summaries sn' = ps_revision_summaries sn" "ps_plan_id sn' = ps_plan_id sn"
  using assms by (cases sn; cases sn'; simp add: only_gate_moved_def gate_free_def)+

lemma only_gate_moved_refl [simp]: "only_gate_moved sn sn"
  by (simp add: only_gate_moved_def)

lemma only_gate_moved_trans: "only_gate_moved a b \<Longrightarrow> only_gate_moved b c \<Longrightarrow> only_gate_moved a c"
  by (simp add: only_gate_moved_def)

lemma set_phase_frame [simp]:
  "only_gate_moved (st_snapshot st) (st_snapshot (set_phase ph st))"
  "ps_authorized_capability_envelope (st_snapshot (set_phase ph st))
     = ps_authorized_capability_envelope (st_snapshot st)"
  "ps_phase (st_snapshot (set_phase ph st)) = ph"
  by (simp_all add: set_phase_def only_gate_moved_def gate_free_def)

lemma add_review_requirement_frame [simp]:
  "only_gate_moved (st_snapshot st) (st_snapshot (add_review_requirement k st))"
  "ps_authorized_capability_envelope (st_snapshot (add_review_requirement k st))
     = ps_authorized_capability_envelope (st_snapshot st)"
  "ps_nodes (st_snapshot (add_review_requirement k st)) = ps_nodes (st_snapshot st)"
  "ps_root_node_id (st_snapshot (add_review_requirement k st)) = ps_root_node_id (st_snapshot st)"
  "ps_phase (st_snapshot (add_review_requirement k st)) = ps_phase (st_snapshot st)"
  "ps_attempts (st_snapshot (add_review_requirement k st)) = ps_attempts (st_snapshot st)"
  "ps_revision (st_snapshot (add_review_requirement k st)) = ps_revision (st_snapshot st)"
  "has_pending_approval_requirements (st_snapshot (add_review_requirement k st))"
  by (auto simp: add_review_requirement_def Let_def has_pending_approval_requirements_def list_ex_iff
      only_gate_moved_def gate_free_def)

lemma record_root_contract_changes_frame [simp]:
  "only_gate_moved (st_snapshot st) (st_snapshot (record_root_contract_changes c st))"
  "ps_authorized_capability_envelope (st_snapshot (record_root_contract_changes c st))
     = ps_authorized_capability_envelope (st_snapshot st)"
  "ps_phase (st_snapshot (record_root_contract_changes c st)) = ps_phase (st_snapshot st)"
  using add_review_requirement_frame
  by (auto simp: record_root_contract_changes_def Let_def only_gate_moved_def split: option.splits prod.splits)

lemma plan_ok_gate:
  assumes "plan_ok sn" and "only_gate_moved sn sn'" and "ps_root_node_id sn \<noteq> None"
    and "ps_authorized_capability_envelope sn' = ps_authorized_capability_envelope sn"
  shows "plan_ok sn'"
  using assms by (intro plan_ok_same [OF assms(1)]) (auto simp: only_gate_moved_fields)

lemma current_envelope_covers:
  assumes "plan_ok sn" and "current_plan_capability_envelope sn = Ok e" and "ps_root_node_id sn = Some r"
  shows "validate_authorized_envelope (collect_nodes (ps_nodes sn)) r (Some e) = Ok ()"
proof -
  have d: "distinct (map pn_id (ps_nodes sn))" using assms(1) by (simp add: plan_ok_def)
  from assms(2,3) obtain n where "find_node sn r = Some n"
    and "e = \<lparr>ce_allowed_tools = ha_allowed_tools (pn_harness n),
         ce_read_scope = ha_read_scope (pn_harness n), ce_write_scope = ha_write_scope (pn_harness n),
         ce_forbidden_paths = ha_forbidden_paths (pn_harness n),
         ce_destructive_external_authority = False\<rparr>"
    by (auto simp: current_plan_capability_envelope_def result_simps)
  then show ?thesis
    by (auto simp: validate_authorized_envelope_def find_node_collect [OF d]
        validate_harness_against_envelope_iff within_envelope_def scope.within_refl)
qed

lemma plan_ok_new_envelope:
  assumes "plan_ok sn" and "current_plan_capability_envelope sn = Ok e"
  shows "plan_ok (sn\<lparr>ps_authorized_capability_envelope := Some e\<rparr>)"
proof -
  obtain r where "ps_root_node_id sn = Some r"
    using assms(2) by (auto simp: current_plan_capability_envelope_def result_simps)
  with current_envelope_covers [OF assms this] assms(1) show ?thesis by (auto simp: plan_ok_def)
qed

lemma require_expansion_review_frame:
  "require_expansion_review st = Ok st' \<Longrightarrow> only_gate_moved (st_snapshot st) (st_snapshot st')
     \<and> ps_authorized_capability_envelope (st_snapshot st') = ps_authorized_capability_envelope (st_snapshot st)"
  by (auto simp: require_expansion_review_def result_simps split: if_splits)

lemma authorize_envelope_ok:
  assumes "authorize_envelope st = Ok st1" and "plan_ok (st_snapshot st)"
    and "ps_root_node_id (st_snapshot st) \<noteq> None"
  shows "plan_ok (st_snapshot st1) \<and> only_gate_moved (st_snapshot st) (st_snapshot st1)"
proof (cases "ps_authorized_capability_envelope (st_snapshot st)")
  case None
  with assms(1) obtain e where "current_plan_capability_envelope (st_snapshot st) = Ok e"
    "st1 = st\<lparr>st_snapshot := (st_snapshot st)\<lparr>ps_authorized_capability_envelope := Some e\<rparr>\<rparr>"
    by (auto simp: authorize_envelope_def result_simps)
  with plan_ok_new_envelope [OF assms(2)] show ?thesis by (simp add: only_gate_moved_def gate_free_def)
next
  case (Some e)
  with assms(1) require_expansion_review_frame [of st st1] plan_ok_gate [OF assms(2) _ assms(3)]
  show ?thesis by (auto simp: authorize_envelope_def)
qed

lemma authorize_envelope_Some:
  "authorize_envelope st = Ok st1 \<Longrightarrow> ps_authorized_capability_envelope (st_snapshot st1) \<noteq> None"
  using require_expansion_review_frame [of st st1]
  by (auto simp: authorize_envelope_def result_simps split: option.splits)

lemma gate_execution_frame:
  "only_gate_moved (st_snapshot st) (st_snapshot (gate_execution E st))"
  "ps_authorized_capability_envelope (st_snapshot (gate_execution E st))
     = ps_authorized_capability_envelope (st_snapshot st)"
  "ps_approval_requirements (st_snapshot (gate_execution E st))
     = ps_approval_requirements (st_snapshot st)"
  by (simp_all add: gate_execution_def Let_def set_phase_def only_gate_moved_def gate_free_def)

lemma apply_execution_intent_ok:
  assumes "apply_execution_intent E intent st = Ok st'" and "plan_ok (st_snapshot st)"
    and "ps_root_node_id (st_snapshot st) \<noteq> None"
  shows "plan_ok (st_snapshot st') \<and> only_gate_moved (st_snapshot st) (st_snapshot st')"
proof (cases intent)
  case ContinuePlanning
  with assms(1) have "st' = set_phase PlanPhase.Planning st"
    by (simp add: apply_execution_intent_def split: if_splits)
  with plan_ok_gate [OF assms(2) _ assms(3)] show ?thesis by simp
next
  case ExecuteIfAuthorized
  with assms(1) obtain st1 where one: "authorize_envelope st = Ok st1" and st': "st' = gate_execution E st1"
    by (auto simp: apply_execution_intent_def result_simps)
  note st1 = authorize_envelope_ok [OF one assms(2,3)]
  then have "ps_root_node_id (st_snapshot st1) \<noteq> None"
    using assms(3) only_gate_moved_fields(2) by metis
  with st1 plan_ok_gate [OF _ gate_execution_frame(1), of st1 E] show ?thesis
    unfolding st' using gate_execution_frame(2) [of E st1] gate_execution_frame(1) [of st1 E]
    by (auto intro: only_gate_moved_trans)
next
  case RequestUserReview
  with assms(1) obtain st1 where
    one: "st1 = st \<or> require_expansion_review st = Ok st1"
    and st': "st' = set_phase PlanPhase.AwaitingApproval (add_review_requirement UserReviewRequested st1)"
    by (auto simp: apply_execution_intent_def result_simps split: if_splits)
  have "only_gate_moved (st_snapshot st) (st_snapshot st')
    \<and> ps_authorized_capability_envelope (st_snapshot st') = ps_authorized_capability_envelope (st_snapshot st)"
    using one require_expansion_review_frame [of st st1] only_gate_moved_trans
      add_review_requirement_frame(1) [of st1] set_phase_frame(1)
    unfolding st' by (metis add_review_requirement_frame(2) set_phase_frame(2))
  with plan_ok_gate [OF assms(2) _ assms(3)] show ?thesis by blast
qed

lemma record_reason_frame:
  "record_reason E reason st = Ok st' \<Longrightarrow>
     \<exists>s. st' = st\<lparr>st_snapshot := (st_snapshot st)\<lparr>ps_revision_summaries :=
       bounded_push s (ps_revision_summaries (st_snapshot st))\<rparr>\<rparr> \<and> sm_revision s = ps_revision (st_snapshot st)"
  by (auto simp: record_reason_def result_simps Let_def new_revision_summary_def split: if_splits)

lemma update_plan_ok:
  assumes "update E st inp = Ok (st', keys)" and "plan_ok (st_snapshot st)"
  shows "plan_ok (st_snapshot st')"
proof -
  from assms(1) obtain st1 st2 c where
    one: "apply_change st (up_change inp) = Ok (st1, keys)"
    and two: "apply_execution_intent E (up_execution_intent inp) (record_root_contract_changes c
        (st1\<lparr>st_snapshot := (st_snapshot st1)\<lparr>ps_coordinator_node_id := up_coordinator_node_id inp,
                    ps_max_concurrency_hint := up_max_concurrency_hint inp\<rparr>\<rparr>)) = Ok st2"
    and three: "record_reason E (up_reason inp) st2 = Ok st'"
    unfolding update_def by (auto simp: Let_def result_simps split: if_splits)
  let ?mid = "st1\<lparr>st_snapshot := (st_snapshot st1)\<lparr>ps_coordinator_node_id := up_coordinator_node_id inp,
                    ps_max_concurrency_hint := up_max_concurrency_hint inp\<rparr>\<rparr>"
  note st1 = apply_change_ok [OF one assms(2)]
  have mid: "plan_ok (st_snapshot ?mid)" by (rule plan_ok_same [OF conjunct1 [OF st1]]) (use st1 in auto)
  have "plan_ok (st_snapshot (record_root_contract_changes c ?mid))"
    by (rule plan_ok_gate [OF mid record_root_contract_changes_frame(1)]) (use st1 in auto)
  moreover have "ps_root_node_id (st_snapshot (record_root_contract_changes c ?mid)) \<noteq> None"
    using only_gate_moved_fields(2) [OF record_root_contract_changes_frame(1), of c ?mid] st1 by simp
  ultimately have st2: "plan_ok (st_snapshot st2)" "ps_root_node_id (st_snapshot st2) \<noteq> None"
    using apply_execution_intent_ok [OF two] by (auto simp: only_gate_moved_fields)
  from record_reason_frame [OF three] show ?thesis by (auto intro: plan_ok_same [OF st2(1)] simp: st2(2))
qed

lemma refresh_plan_ok:
  assumes "refresh_parent_states r sn = Ok sn'" and "plan_ok sn"
  shows "plan_ok sn'"
proof -
  have d: "distinct (map pn_id (ps_nodes sn))" using assms(2) by (simp add: plan_ok_def)
  from refresh_parent_statesE [OF assms(1) d] obtain mid where
    sn': "sn' = mid\<lparr>ps_phase := root_phase mid (ps_phase sn)\<rparr>" and mid: "only_nodes_moved sn mid" by blast
  then show ?thesis
    by (intro plan_ok_shape [OF assms(2)]) (auto simp: only_nodes_moved_fields, simp add: only_nodes_moved_def)
qed

section \<open>The gate\<close>

lemma updateE:
  assumes "update E st inp = Ok (st', keys)"
  obtains st1 st2 where
    "apply_change st (up_change inp) = Ok (st1, keys)"
    "apply_execution_intent E (up_execution_intent inp) (record_root_contract_changes
        (if ps_execution_contract_fingerprint (st_snapshot st) \<noteq> None
         then root_contract (st_snapshot st) else None)
        (st1\<lparr>st_snapshot := (st_snapshot st1)\<lparr>ps_coordinator_node_id := up_coordinator_node_id inp,
                    ps_max_concurrency_hint := up_max_concurrency_hint inp\<rparr>\<rparr>)) = Ok st2"
    "record_reason E (up_reason inp) st2 = Ok st'" "validate_reason (up_reason inp) = Ok ()"
  using assms unfolding update_def by (auto simp: Let_def result_simps split: if_splits)

lemma gate_execution_executing:
  assumes "ps_phase (st_snapshot (gate_execution E st)) = PlanPhase.Executing"
  shows "\<not> has_pending_approval_requirements (st_snapshot (gate_execution E st))
    \<and> ps_execution_contract_fingerprint (st_snapshot (gate_execution E st))
        = Some (contract_fingerprint E (st_snapshot (gate_execution E st)))"
proof -
  have clear: "\<not> has_pending_approval_requirements (st_snapshot st)"
    using assms by (auto simp: gate_execution_def)
  moreover have "has_pending_approval_requirements (st_snapshot (gate_execution E st))
      = has_pending_approval_requirements (st_snapshot st)"
    by (simp add: has_pending_approval_requirements_def gate_execution_frame)
  moreover have "contract_fingerprint E (st_snapshot (gate_execution E st))
      = contract_fingerprint E ((st_snapshot st)\<lparr>ps_phase := PlanPhase.Executing\<rparr>)"
    using clear by (simp add: gate_execution_def Let_def contract_fingerprint_def root_node_def find_node_def [abs_def])
  ultimately show ?thesis by (simp add: gate_execution_def Let_def)
qed

lemma intent_executing:
  assumes "apply_execution_intent E intent st = Ok st'"
    and "ps_phase (st_snapshot st') = PlanPhase.Executing"
  shows "intent = ExecuteIfAuthorized \<and> \<not> has_pending_approval_requirements (st_snapshot st')
    \<and> ps_execution_contract_fingerprint (st_snapshot st')
        = Some (contract_fingerprint E (st_snapshot st'))
    \<and> ps_authorized_capability_envelope (st_snapshot st') \<noteq> None"
proof (cases intent)
  case ExecuteIfAuthorized
  with assms(1) obtain st1 where one: "authorize_envelope st = Ok st1" and st': "st' = gate_execution E st1"
    by (auto simp: apply_execution_intent_def result_simps)
  with ExecuteIfAuthorized gate_execution_executing [of E st1] authorize_envelope_Some [OF one] assms(2)
  show ?thesis by (simp add: gate_execution_frame)
qed (use assms in \<open>auto simp: apply_execution_intent_def result_simps split: if_splits\<close>)

lemma intent_pending:
  assumes "apply_execution_intent E intent st = Ok st'"
    and "has_pending_approval_requirements (st_snapshot st)"
  shows "has_pending_approval_requirements (st_snapshot st')"
proof -
  have ph: "has_pending_approval_requirements (st_snapshot (set_phase p x))
      = has_pending_approval_requirements (st_snapshot x)" for p x
    by (simp add: set_phase_def has_pending_approval_requirements_def)
  have gate: "has_pending_approval_requirements (st_snapshot (gate_execution E x))
      = has_pending_approval_requirements (st_snapshot x)" for x
    by (simp add: has_pending_approval_requirements_def gate_execution_frame)
  have "has_pending_approval_requirements (st_snapshot y)"
    if "require_expansion_review x = Ok y" "has_pending_approval_requirements (st_snapshot x)" for x y
    using that by (auto simp: require_expansion_review_def result_simps split: if_splits)
  then have "has_pending_approval_requirements (st_snapshot y)"
    if "authorize_envelope st = Ok y" for y
    using that assms(2)
    by (auto simp: authorize_envelope_def has_pending_approval_requirements_def result_simps split: option.splits)
  with assms show ?thesis
    by (cases intent) (auto simp: apply_execution_intent_def result_simps ph gate split: if_splits)
qed

lemma contract_change_pending:
  assumes "root_contract (st_snapshot st) = Some c" and "root_contract (st_snapshot st') = Some c'"
    and "c' \<noteq> c"
  shows "has_pending_approval_requirements (st_snapshot (record_root_contract_changes (Some c) st'))"
  using assms by (cases c; cases c') (auto simp: record_root_contract_changes_def Let_def)

lemma root_contract_gate: "only_gate_moved sn sn' \<Longrightarrow> root_contract sn' = root_contract sn"
  using only_gate_moved_fields(2,3) [of sn sn']
  by (simp add: root_contract_def root_node_def find_node_def [abs_def])

lemma plan_ok_root_contract:
  assumes "plan_ok sn" and "ps_root_node_id sn \<noteq> None"
  shows "root_contract sn \<noteq> None"
proof -
  obtain r where r: "ps_root_node_id sn = Some r" using assms(2) by auto
  then have "valid_plan_graph (collect_nodes (ps_nodes sn)) r" "distinct (map pn_id (ps_nodes sn))"
    using assms(1) by (auto simp: plan_ok_def)
  then show ?thesis
    using r by (auto simp: root_contract_def root_node_def find_node_collect valid_plan_graph_def
        live_set_def live_node_def)
qed

section \<open>Properties\<close>

text \<open>A JSON encoder for the witnesses: everything encodes to the empty text.\<close>

definition sample_env :: plan_env where
  "sample_env = \<lparr>en_snapshot_json = (\<lambda>_. Some []), en_harness_json = (\<lambda>_. []),
     en_contract_json = (\<lambda>_ _ _. [])\<rparr>"

definition sample_input :: "string option \<Rightarrow> string option \<Rightarrow> string \<Rightarrow> PlanNodeInput list \<Rightarrow> PlanNodeInput" where
  "sample_input i key objective children =
     PlanNodeInput (map_option PlanNodeId i) key objective [] None Auto default_harness
       default_recovery_policy [] children"

definition sample_update :: "PlanExecutionIntent \<Rightarrow> PlanChangeInput \<Rightarrow> UpdatePlanInput" where
  "sample_update intent change =
     \<lparr>up_reason = ''why'', up_execution_intent = intent, up_coordinator_node_id = None,
      up_max_concurrency_hint = None, up_change = change\<rparr>"

definition sample_plan :: PlanState where
  "sample_plan =
     (case update sample_env (empty_plan ''p'' User default_resource_policy)
        (sample_update ExecuteIfAuthorized (DefinePlan 0
          (sample_input None (Some ''root'') ''ship'' [sample_input None (Some ''a'') ''build'' [],
             sample_input None (Some ''b'') ''test'' []]))) of
        Ok (st, _) \<Rightarrow> st
      | _ \<Rightarrow> empty_plan ''p'' User default_resource_policy)"

definition solo_plan :: PlanState where
  "solo_plan =
     \<lparr>st_snapshot = (sample_snapshot PlanPhase.Executing [sample_node ''r'' None 0 [] default_harness])
        \<lparr>ps_execution_contract_fingerprint := Some ''fnv1a64'',
         ps_authorized_capability_envelope := Some sample_envelope\<rparr>,
      st_next_node_sequence = 2, st_next_approval_sequence = 1, st_next_attempt_sequence = 1,
      st_next_lease_sequence = 1, st_next_directive_sequence = 1\<rparr>"

definition twin_plan :: PersistedPlanState where
  "twin_plan =
     \<lparr>pp_snapshot = sample_snapshot PlanPhase.Planning
        [sample_node ''r'' None 0 [] default_harness,
         sample_node ''a'' (Some ''r'') 0 [] default_harness,
         sample_node ''a'' (Some ''r'') 0 [] default_harness,
         (sample_node ''c'' (Some ''a'') 0 [] default_harness)\<lparr>pn_status := PlanNodeStatus.Completed\<rparr>],
      pp_next_node_sequence = 4, pp_next_approval_sequence = 1, pp_next_attempt_sequence = 1,
      pp_next_lease_sequence = 1, pp_next_directive_sequence = 1\<rparr>"

definition next_round :: "u64 \<Rightarrow> PlanSnapshot \<Rightarrow> PlanSnapshot option" where
  "next_round r sn =
     ok_value (fold_res (apply_parent_update r) sn (List.map_filter (parent_update sn) (ps_nodes sn)))"

lemma solo_graph: "is_ok (validate_graph (collect_nodes (ps_nodes (st_snapshot solo_plan))) (PlanNodeId ''r''))
  \<and> is_ok (validate_authorized_envelope (collect_nodes (ps_nodes (st_snapshot solo_plan))) (PlanNodeId ''r'')
      (Some sample_envelope))"
  by code_simp

lemma solo_plan_ok: "plan_ok (st_snapshot solo_plan)"
proof -
  have "validate_graph (collect_nodes (ps_nodes (st_snapshot solo_plan))) (PlanNodeId ''r'') = Ok ()"
    "validate_authorized_envelope (collect_nodes (ps_nodes (st_snapshot solo_plan))) (PlanNodeId ''r'')
      (Some sample_envelope) = Ok ()"
    using solo_graph by (simp_all add: is_ok_unit)
  then show ?thesis
    by (simp add: plan_ok_def validate_graph_iff solo_plan_def sample_snapshot_def)
qed

lemma record_reason_keeps:
  assumes "record_reason E reason st = Ok st'"
  shows "root_contract (st_snapshot st') = root_contract (st_snapshot st)"
    "ps_phase (st_snapshot st') = ps_phase (st_snapshot st)"
    "ps_revision (st_snapshot st') = ps_revision (st_snapshot st)"
    "has_pending_approval_requirements (st_snapshot st')
       = has_pending_approval_requirements (st_snapshot st)"
proof -
  obtain s where "st' = st\<lparr>st_snapshot := (st_snapshot st)\<lparr>ps_revision_summaries :=
       bounded_push s (ps_revision_summaries (st_snapshot st))\<rparr>\<rparr>"
    using record_reason_frame [OF assms] by blast
  then show "root_contract (st_snapshot st') = root_contract (st_snapshot st)"
    "ps_phase (st_snapshot st') = ps_phase (st_snapshot st)"
    "ps_revision (st_snapshot st') = ps_revision (st_snapshot st)"
    "has_pending_approval_requirements (st_snapshot st')
       = has_pending_approval_requirements (st_snapshot st)"
    by (simp_all add: root_contract_def root_node_def find_node_def [abs_def]
        has_pending_approval_requirements_def)
qed

lemma refresh_settled:
  assumes "settled sn"
  shows "refresh_parent_states r sn = Ok (sn\<lparr>ps_phase := root_phase sn (ps_phase sn)\<rparr>)"
proof -
  have "List.map_filter (parent_update sn) ns = []" if "set ns \<subseteq> set (ps_nodes sn)" for ns
    using that assms by (induction ns) (auto simp: settled_def List.map_filter_simps)
  then have "refresh_parent_loop (Suc k) r sn = Ok sn" for k by simp
  then show ?thesis by (simp add: refresh_parent_states_def refresh_terminal_phase_eq del: refresh_parent_loop.simps)
qed

lemma stuck_round:
  assumes "fold_res (apply_parent_update r) sn (List.map_filter (parent_update sn) (ps_nodes sn)) = Ok sn"
    and "List.map_filter (parent_update sn) (ps_nodes sn) \<noteq> []"
  shows "refresh_parent_loop fuel r sn = Diverge"
  using assms by (induction fuel) simp_all

text \<open>
  C8. The approval gate: an accepted edit that leaves the plan executing was asked to execute, leaves
  no approval requirement pending, has an authorized envelope, and records the fingerprint of
  exactly the contract (objective, acceptance, envelope) it executes under.
\<close>

theorem update_executing_gate:
  assumes "update E st inp = Ok (st', keys)" and "ps_phase (st_snapshot st') = PlanPhase.Executing"
  shows "up_execution_intent inp = ExecuteIfAuthorized
    \<and> \<not> has_pending_approval_requirements (st_snapshot st')
    \<and> ps_authorized_capability_envelope (st_snapshot st') \<noteq> None
    \<and> ps_execution_contract_fingerprint (st_snapshot st')
        = Some (contract_fingerprint E (st_snapshot st'))"
proof -
  obtain st0 st2 where
    two: "apply_execution_intent E (up_execution_intent inp) st0 = Ok st2"
    and three: "record_reason E (up_reason inp) st2 = Ok st'" by (rule updateE [OF assms(1)])
  from record_reason_frame [OF three] obtain s where
    st': "st' = st2\<lparr>st_snapshot := (st_snapshot st2)\<lparr>ps_revision_summaries :=
       bounded_push s (ps_revision_summaries (st_snapshot st2))\<rparr>\<rparr>" by blast
  with intent_executing [OF two] assms(2) show ?thesis
    by (simp add: has_pending_approval_requirements_def contract_fingerprint_def root_node_def
        find_node_def [abs_def])
qed

theorem update_executing_gate_witness:
  "ps_phase (st_snapshot sample_plan) = PlanPhase.Executing
   \<and> \<not> has_pending_approval_requirements (st_snapshot sample_plan)
   \<and> ps_authorized_capability_envelope (st_snapshot sample_plan) \<noteq> None"
proof -
  let ?inp = "sample_update ExecuteIfAuthorized (DefinePlan 0
          (sample_input None (Some ''root'') ''ship'' [sample_input None (Some ''a'') ''build'' [],
             sample_input None (Some ''b'') ''test'' []]))"
  let ?r = "update sample_env (empty_plan ''p'' User default_resource_policy) ?inp"
  have "case ?r of Ok (st, _) \<Rightarrow> ps_phase (st_snapshot st) = PlanPhase.Executing | _ \<Rightarrow> False"
    by code_simp
  then obtain keys where "?r = Ok (sample_plan, keys)"
      and "ps_phase (st_snapshot sample_plan) = PlanPhase.Executing"
    by (auto simp: sample_plan_def split: result.splits)
  then show ?thesis using update_executing_gate by blast
qed

text \<open>
  C9. A change of what was approved goes back to the user: when a plan that has been authorized
  before is edited so that the root's objective or acceptance differs, the accepted edit leaves an
  approval requirement pending and the plan is not executing.
\<close>

theorem contract_change_needs_approval:
  assumes "update E st inp = Ok (st', keys)" and "plan_ok (st_snapshot st)"
    and "ps_execution_contract_fingerprint (st_snapshot st) \<noteq> None"
    and "root_contract (st_snapshot st) = Some c"
    and "root_contract (st_snapshot st') \<noteq> Some c"
  shows "has_pending_approval_requirements (st_snapshot st')
    \<and> ps_phase (st_snapshot st') \<noteq> PlanPhase.Executing"
proof -
  let ?set = "\<lambda>s. s\<lparr>st_snapshot := (st_snapshot s)\<lparr>ps_coordinator_node_id := up_coordinator_node_id inp,
                    ps_max_concurrency_hint := up_max_concurrency_hint inp\<rparr>\<rparr>"
  obtain st1 st2 where one: "apply_change st (up_change inp) = Ok (st1, keys)"
    and two: "apply_execution_intent E (up_execution_intent inp)
        (record_root_contract_changes (Some c) (?set st1)) = Ok st2"
    and three: "record_reason E (up_reason inp) st2 = Ok st'"
    using assms(3,4) by (auto intro: updateE [OF assms(1)])
  let ?m = "record_root_contract_changes (Some c) (?set st1)"
  have ok1: "plan_ok (st_snapshot st1)" "ps_root_node_id (st_snapshot st1) \<noteq> None"
    using apply_change_ok [OF one assms(2)] by blast+
  have set: "root_contract (st_snapshot (?set st1)) = root_contract (st_snapshot st1)"
    by (simp add: root_contract_def root_node_def find_node_def [abs_def])
  have okm: "plan_ok (st_snapshot ?m)" "ps_root_node_id (st_snapshot ?m) \<noteq> None"
  proof -
    have s: "plan_ok (st_snapshot (?set st1))" by (rule plan_ok_same [OF ok1(1)]) (use ok1 in auto)
    have g: "only_gate_moved (st_snapshot (?set st1)) (st_snapshot ?m)" by (rule record_root_contract_changes_frame)
    show "plan_ok (st_snapshot ?m)" by (rule plan_ok_gate [OF s g]) (use ok1(2) in auto)
    show "ps_root_node_id (st_snapshot ?m) \<noteq> None"
      using only_gate_moved_fields(2) [OF g] ok1(2) by simp
  qed
  have "only_gate_moved (st_snapshot ?m) (st_snapshot st2)"
    using apply_execution_intent_ok [OF two okm] by blast
  moreover have "only_gate_moved (st_snapshot (?set st1)) (st_snapshot ?m)"
    by (rule record_root_contract_changes_frame)
  ultimately have same: "root_contract (st_snapshot st') = root_contract (st_snapshot st1)"
    by (simp only: root_contract_gate record_reason_keeps(1) [OF three] set)
  obtain c' where c': "root_contract (st_snapshot st1) = Some c'"
    using plan_ok_root_contract [OF ok1] by blast
  with same assms(5) have "c' \<noteq> c" by auto
  then have "has_pending_approval_requirements (st_snapshot ?m)"
    using contract_change_pending [OF assms(4), of "?set st1" c'] set c' by simp
  then have pending: "has_pending_approval_requirements (st_snapshot st2)" by (rule intent_pending [OF two])
  with intent_executing [OF two] have "ps_phase (st_snapshot st2) \<noteq> PlanPhase.Executing" by blast
  with pending show ?thesis using record_reason_keeps [OF three] by simp
qed

theorem contract_change_needs_approval_witness:
  "\<exists>st' keys. update sample_env solo_plan (sample_update ExecuteIfAuthorized
       (ReplaceSubtree (PlanNodeId ''r'') 1 (sample_input (Some ''r'') None ''other'' []))) = Ok (st', keys)
     \<and> ps_phase (st_snapshot st') \<noteq> PlanPhase.Executing"
proof -
  let ?r = "update sample_env solo_plan (sample_update ExecuteIfAuthorized
       (ReplaceSubtree (PlanNodeId ''r'') 1 (sample_input (Some ''r'') None ''other'' [])))"
  have "case ?r of Ok (st, _) \<Rightarrow> root_contract (st_snapshot st) \<noteq> Some (''o'', []) | _ \<Rightarrow> False"
    by code_simp
  then obtain st' keys where r: "?r = Ok (st', keys)" and c: "root_contract (st_snapshot st') \<noteq> Some (''o'', [])"
    by (auto split: result.splits)
  have "root_contract (st_snapshot solo_plan) = Some (''o'', [])"
    by (simp add: solo_plan_def sample_snapshot_def root_contract_def root_node_def find_node_def
        sample_node_def)
  moreover have "ps_execution_contract_fingerprint (st_snapshot solo_plan) \<noteq> None"
    by (simp add: solo_plan_def)
  ultimately show ?thesis
    using contract_change_needs_approval [OF r solo_plan_ok _ _ c] r by blast
qed

text \<open>
  C10. Saving and loading: a well-formed plan (rootless only while planning) with live counters that
  fits the size limits is accepted on reload, keeps its counters, and comes back with exactly the derived states refreshed;
  a plan whose derived states are settled comes back unchanged.
\<close>

theorem from_persisted_roundtrip:
  assumes "plan_ok (st_snapshot st)" and "validate_snapshot_limits E (st_snapshot st) = Ok ()"
    and "ps_root_node_id (st_snapshot st) = None \<longrightarrow> ps_phase (st_snapshot st) = PlanPhase.Planning"
    and "st_next_node_sequence st \<noteq> 0" and "st_next_approval_sequence st \<noteq> 0"
    and "st_next_attempt_sequence st \<noteq> 0" and "st_next_lease_sequence st \<noteq> 0"
    and "st_next_directive_sequence st \<noteq> 0"
  shows "\<exists>sn. from_persisted E (persisted st) = Ok (st\<lparr>st_snapshot := sn\<rparr>)
    \<and> refresh_parent_states (ps_revision (st_snapshot st)) (st_snapshot st) = Ok sn
    \<and> (settled (st_snapshot st) \<longrightarrow>
         root_phase (st_snapshot st) (ps_phase (st_snapshot st)) = ps_phase (st_snapshot st) \<longrightarrow>
         sn = st_snapshot st)"
proof -
  let ?sn = "st_snapshot st"
  let ?check = "case ps_root_node_id ?sn of
       Some root_id \<Rightarrow>
         (let nodes = collect_nodes (ps_nodes ?sn) in
          and_then (validate_graph nodes root_id) (\<lambda>_.
          if ps_phase ?sn \<in> {PlanPhase.Executing, PlanPhase.Completed, PlanPhase.Blocked, PlanPhase.Cancelled}
          then validate_authorized_envelope nodes root_id (ps_authorized_capability_envelope ?sn)
          else Ok ()))
     | None \<Rightarrow> if ps_phase ?sn = PlanPhase.Planning \<and> ps_nodes ?sn = [] then Ok () else Err RootMissing"
  have check: "?check = Ok ()"
  proof (cases "ps_root_node_id ?sn")
    case None
    then show ?thesis using assms(1,3) by (simp add: plan_ok_def)
  next
    case (Some r)
    let ?m = "collect_nodes (ps_nodes ?sn)"
    have "validate_graph ?m r = Ok ()"
      unfolding validate_graph_iff using assms(1) Some by (simp add: plan_ok_def)
    moreover have "validate_authorized_envelope ?m r (ps_authorized_capability_envelope ?sn) = Ok ()"
      using assms(1) Some
      by (cases "ps_authorized_capability_envelope ?sn") (auto simp: plan_ok_def validate_authorized_envelope_def)
    ultimately show ?thesis using Some by (simp add: Let_def)
  qed
  have dist: "distinct (map pn_id (ps_nodes ?sn))" using assms(1) by (simp add: plan_ok_def)
  then obtain sn where sn: "refresh_parent_states (ps_revision ?sn) ?sn = Ok sn"
    using refresh_parent_states_Ok by blast
  have "from_persisted E (persisted st) = Ok (st\<lparr>st_snapshot := sn\<rparr>)"
    using assms(2-) check sn by (simp add: from_persisted_def persisted_def Let_def)
  moreover have "sn = ?sn" if "settled ?sn" "root_phase ?sn (ps_phase ?sn) = ps_phase ?sn"
    using refresh_settled [OF that(1), of "ps_revision ?sn"] sn that(2) by simp
  ultimately show ?thesis using sn by blast
qed

theorem from_persisted_roundtrip_witness:
  "\<exists>sn. from_persisted sample_env (persisted solo_plan) = Ok (solo_plan\<lparr>st_snapshot := sn\<rparr>)"
proof -
  have "is_ok (validate_snapshot_limits sample_env (st_snapshot solo_plan))" by code_simp
  then have limits: "validate_snapshot_limits sample_env (st_snapshot solo_plan) = Ok ()"
    by (simp add: is_ok_unit)
  have root: "ps_root_node_id (st_snapshot solo_plan) = None \<longrightarrow>
      ps_phase (st_snapshot solo_plan) = PlanPhase.Planning"
    by (simp add: solo_plan_def sample_snapshot_def)
  have counters: "st_next_node_sequence solo_plan \<noteq> 0" "st_next_approval_sequence solo_plan \<noteq> 0"
    "st_next_attempt_sequence solo_plan \<noteq> 0" "st_next_lease_sequence solo_plan \<noteq> 0"
    "st_next_directive_sequence solo_plan \<noteq> 0"
    by (simp_all add: solo_plan_def)
  show ?thesis using from_persisted_roundtrip [OF solo_plan_ok limits root counters] by blast
qed


end
