(* ===== verification/Plan_Attempts.thy ===== *)
theory Plan_Attempts
  imports Plan_Domain
begin

text \<open>
  Attempts, leases and coordinator directives: \<^verbatim>\<open>plan/execution.rs\<close> (starting attempts, entering
  execution), \<^verbatim>\<open>plan/attempt_binding.rs\<close> (which attempt a caller may report on) and
  \<^verbatim>\<open>plan/execution/directives.rs\<close>. Every operation of the source works on a clone of the state and
  installs it only on success, so an error leaves the caller's state as it was; here an operation
  returns the new state inside \<open>Ok\<close>.
\<close>

section \<open>In-place updates of the snapshot\<close>

definition upd_node ::
    "PlanNodeId \<Rightarrow> (PlanNodeSnapshot \<Rightarrow> PlanNodeSnapshot) \<Rightarrow> PlanSnapshot \<Rightarrow> PlanSnapshot" where
  "upd_node i f sn = sn\<lparr>ps_nodes := update_first (\<lambda>n. pn_id n = i) f (ps_nodes sn)\<rparr>"

definition upd_attempt ::
    "nat \<Rightarrow> (PlanAttemptSnapshot \<Rightarrow> PlanAttemptSnapshot) \<Rightarrow> PlanSnapshot \<Rightarrow> PlanSnapshot" where
  "upd_attempt k f sn = sn\<lparr>ps_attempts := (ps_attempts sn)[k := f (ps_attempts sn ! k)]\<rparr>"

definition upd_lease ::
    "nat \<Rightarrow> (PlanLeaseSnapshot \<Rightarrow> PlanLeaseSnapshot) \<Rightarrow> PlanSnapshot \<Rightarrow> PlanSnapshot" where
  "upd_lease k f sn = sn\<lparr>ps_leases := (ps_leases sn)[k := f (ps_leases sn ! k)]\<rparr>"

definition upd_progress ::
    "PlanAttemptId \<Rightarrow> (PlanAttemptProgressSnapshot \<Rightarrow> PlanAttemptProgressSnapshot)
     \<Rightarrow> PlanSnapshot \<Rightarrow> PlanSnapshot" where
  "upd_progress a f sn =
     sn\<lparr>ps_attempt_progress := update_first (\<lambda>p. pr_attempt_id p = a) f (ps_attempt_progress sn)\<rparr>"

definition find_progress :: "PlanSnapshot \<Rightarrow> PlanAttemptId \<Rightarrow> PlanAttemptProgressSnapshot option" where
  "find_progress sn a = List.find (\<lambda>p. pr_attempt_id p = a) (ps_attempt_progress sn)"

definition set_status :: "PlanNodeStatus \<Rightarrow> u64 \<Rightarrow> PlanNodeSnapshot \<Rightarrow> PlanNodeSnapshot" where
  "set_status s revision n = n\<lparr>pn_status := s, pn_updated_revision := revision\<rparr>"

section \<open>Starting attempts\<close>

record PlanAttemptActor =
  aa_executor_session_id :: SessionId

record PlanAttemptStartRecords =
  sr_attempt :: PlanAttemptSnapshot
  sr_lease :: "PlanLeaseSnapshot option"
  sr_progress :: PlanAttemptProgressSnapshot

definition plan_attempt_id :: "u64 \<Rightarrow> PlanAttemptId" where
  "plan_attempt_id k = ''plan-attempt-'' @ show_u64 k"

definition plan_lease_id :: "u64 \<Rightarrow> PlanLeaseId" where
  "plan_lease_id k = ''plan-lease-'' @ show_u64 k"

definition new_attempt ::
    "plan_env \<Rightarrow> PlanAttemptId \<Rightarrow> PlanNodeSnapshot \<Rightarrow> PlanLeaseId option \<Rightarrow> SessionId \<Rightarrow> u64
     \<Rightarrow> PlanAttemptSnapshot" where
  "new_attempt E attempt_id n lease_id executor now_ms =
     \<lparr>at_attempt_id = attempt_id, at_node_id = pn_id n, at_node_revision = pn_updated_revision n,
      at_lease_id = lease_id, at_executor_session_id = executor,
      at_harness_fingerprint = stable_content_hash (en_harness_json E (pn_harness n)),
      at_started_at_ms = now_ms, at_finished_at_ms = None, at_outcome = None, at_result = None,
      at_diagnostic = None, at_latest_checkpoint_ref = None,
      at_last_applied_directive_sequence = 0\<rparr>"

definition new_lease ::
    "PlanSnapshot \<Rightarrow> PlanLeaseId \<Rightarrow> PlanAttemptId \<Rightarrow> PlanNodeSnapshot \<Rightarrow> SessionId \<Rightarrow> u64
     \<Rightarrow> PlanLeaseSnapshot" where
  "new_lease sn lease_id attempt_id n executor now_ms =
     \<lparr>le_lease_id = lease_id, le_attempt_id = attempt_id, le_node_id = pn_id n,
      le_node_revision = pn_updated_revision n, le_executor_session_id = executor,
      le_started_at_ms = now_ms, le_last_heartbeat_at_ms = now_ms,
      le_lease_expires_at_ms =
        saturating_add now_ms (rs_subagent_heartbeat_ttl_ms (ps_resource_policy_snapshot sn)),
      le_status = PlanLeaseStatus.Live\<rparr>"

definition new_progress ::
    "PlanAttemptId \<Rightarrow> PlanNodeId \<Rightarrow> bool \<Rightarrow> u64 \<Rightarrow> PlanAttemptProgressSnapshot" where
  "new_progress attempt_id node_id leased now_ms =
     \<lparr>pr_attempt_id = attempt_id, pr_node_id = node_id, pr_elapsed_ms = 0, pr_model_turns = 0,
      pr_reported_usage = None,
      pr_last_subagent_heartbeat_at_ms = (if leased then Some now_ms else None),
      pr_last_runtime_activity_at_ms = now_ms, pr_last_durable_progress_at_ms = None,
      pr_provider_request_in_flight = False, pr_tool_call_in_flight = False,
      pr_observable_side_effects = 0, pr_artifacts_created = 0, pr_artifact_refs = [],
      pr_changed_paths = [], pr_acceptance_evidence = [], pr_repeated_failure_fingerprint = None,
      pr_summary = None, pr_next_action = None, pr_request_coordinator_review = False\<rparr>"

definition start_attempt_records ::
    "plan_env \<Rightarrow> PlanState \<Rightarrow> PlanNodeId \<Rightarrow> PlanAttemptActor \<Rightarrow> u64 \<Rightarrow> bool
     \<Rightarrow> (PlanState \<times> PlanAttemptStartRecords) plan_result" where
  "start_attempt_records E st node_id actor now_ms create_subagent_lease =
     (let sn = st_snapshot st; executor = aa_executor_session_id actor in
      if ps_phase sn \<noteq> PlanPhase.Executing
      then Err (WrongPhase (ps_phase sn) ''start plan attempt'')
      else
        and_then
          (if ps_scheduler_status sn \<noteq> PlanSchedulerStatus.Active then Ok False
           else and_then (ready_node_ids_at sn now_ms) (\<lambda>ids. Ok (node_id \<in> set ids))) (\<lambda>ready.
        if \<not> ready then Err (NodeNotReady node_id)
        else if list_ex (\<lambda>l. le_node_id l = node_id \<and> le_status l = PlanLeaseStatus.Live) (ps_leases sn)
        then Err (LiveLeaseExists node_id)
        else if list_ex (\<lambda>a. at_outcome a = None \<and> at_executor_session_id a = executor) (ps_attempts sn)
        then Err (ActiveAttemptExistsForExecutor executor)
        else
        and_then (advance_revision E ''plan attempt started'' sn) (\<lambda>(sn, revision).
        and_then (expect (find_node sn node_id)) (\<lambda>found.
        let n = set_status PlanNodeStatus.InProgress revision found;
            sn = upd_node node_id (set_status PlanNodeStatus.InProgress revision) sn;
            attempt_id = plan_attempt_id (st_next_attempt_sequence st);
            lease_id = (if create_subagent_lease
                        then Some (plan_lease_id (st_next_lease_sequence st)) else None);
            attempt = new_attempt E attempt_id n lease_id executor now_ms;
            lease = map_option (\<lambda>i. new_lease sn i attempt_id n executor now_ms) lease_id;
            progress = new_progress attempt_id node_id (lease \<noteq> None) now_ms in
        Ok (st\<lparr>st_snapshot := sn\<lparr>ps_attempts := ps_attempts sn @ [attempt],
                 ps_leases := ps_leases sn @ (case lease of Some l \<Rightarrow> [l] | None \<Rightarrow> []),
                 ps_attempt_progress := ps_attempt_progress sn @ [progress]\<rparr>,
               st_next_attempt_sequence := st_next_attempt_sequence st + 1,
               st_next_lease_sequence := (if create_subagent_lease then st_next_lease_sequence st + 1
                                          else st_next_lease_sequence st)\<rparr>,
            \<lparr>sr_attempt = attempt, sr_lease = lease, sr_progress = progress\<rparr>)))))"

definition start_attempt ::
    "plan_env \<Rightarrow> PlanState \<Rightarrow> PlanNodeId \<Rightarrow> PlanAttemptActor \<Rightarrow> u64
     \<Rightarrow> (PlanState \<times> PlanAttemptSnapshot \<times> PlanLeaseSnapshot \<times> PlanAttemptProgressSnapshot) plan_result" where
  "start_attempt E st node_id actor now_ms =
     and_then (start_attempt_records E st node_id actor now_ms True) (\<lambda>(st, records).
     and_then (expect (sr_lease records)) (\<lambda>lease.
     Ok (st, sr_attempt records, lease, sr_progress records)))"

definition start_local_attempt ::
    "plan_env \<Rightarrow> PlanState \<Rightarrow> PlanNodeId \<Rightarrow> PlanAttemptActor \<Rightarrow> u64
     \<Rightarrow> (PlanState \<times> PlanAttemptSnapshot \<times> PlanAttemptProgressSnapshot) plan_result" where
  "start_local_attempt E st node_id actor now_ms =
     and_then (start_attempt_records E st node_id actor now_ms False) (\<lambda>(st, records).
     Ok (st, sr_attempt records, sr_progress records))"

definition enter_execution ::
    "plan_env \<Rightarrow> PlanState \<Rightarrow> PlanCapabilityEnvelopeSnapshot \<Rightarrow> string list \<Rightarrow> PlanState plan_result" where
  "enter_execution E st envelope authorization_refs =
     (case ps_root_node_id (st_snapshot st) of
        None \<Rightarrow> Err EmptyPlan
      | Some root_id \<Rightarrow>
          let sn = (st_snapshot st)\<lparr>ps_authorized_capability_envelope := Some envelope\<rparr> in
          and_then (validate_authorized_envelope (collect_nodes (ps_nodes sn)) root_id (Some envelope)) (\<lambda>_.
          let sn = sn\<lparr>ps_execution_authorization_refs := authorization_refs,
                      ps_phase := PlanPhase.Executing\<rparr>;
              sn = sn\<lparr>ps_execution_contract_fingerprint := Some (contract_fingerprint E sn)\<rparr> in
          and_then (advance_revision E ''plan execution authorized'' sn) (\<lambda>(sn, _).
          Ok (st\<lparr>st_snapshot := sn\<rparr>))))"

section \<open>Which attempt a caller owns\<close>

definition validate_live_lease ::
    "PlanSnapshot \<Rightarrow> PlanAttemptActor \<Rightarrow> PlanLeaseId \<Rightarrow> u64 \<Rightarrow> (nat \<times> nat) plan_result" where
  "validate_live_lease sn actor lease_id expected_node_revision =
     and_then (ok_or (position (\<lambda>l. le_lease_id l = lease_id) (ps_leases sn)) (UnknownLease lease_id))
       (\<lambda>lease_index.
     let lease = ps_leases sn ! lease_index in
     if le_status lease \<noteq> PlanLeaseStatus.Live then Err (LeaseNotLive lease_id)
     else
     and_then (ok_or (position (\<lambda>a. at_attempt_id a = le_attempt_id lease) (ps_attempts sn))
                (UnknownAttempt (le_attempt_id lease))) (\<lambda>attempt_index.
     let attempt = ps_attempts sn ! attempt_index; executor = aa_executor_session_id actor in
     if at_outcome attempt \<noteq> None then Err (AttemptAlreadyResolved (at_attempt_id attempt))
     else if at_executor_session_id attempt \<noteq> executor \<or> le_executor_session_id lease \<noteq> executor
     then Err (AttemptOwnershipMismatch (at_attempt_id attempt))
     else if le_node_revision lease \<noteq> expected_node_revision
     then Err (AttemptNodeRevisionMismatch expected_node_revision (le_node_revision lease))
     else Ok (attempt_index, lease_index)))"

definition validate_own_lease ::
    "PlanSnapshot \<Rightarrow> PlanAttemptActor \<Rightarrow> PlanLeaseId \<Rightarrow> (nat \<times> nat) plan_result" where
  "validate_own_lease sn actor lease_id =
     and_then (ok_or (List.find (\<lambda>l. le_lease_id l = lease_id) (ps_leases sn)) (UnknownLease lease_id))
       (\<lambda>lease. validate_live_lease sn actor lease_id (le_node_revision lease))"

definition validate_current_attempt ::
    "PlanSnapshot \<Rightarrow> PlanAttemptActor \<Rightarrow> (nat \<times> nat option) plan_result" where
  "validate_current_attempt sn actor =
     (let executor = aa_executor_session_id actor;
          active = map fst (filter (\<lambda>(_, a). at_outcome a = None \<and> at_executor_session_id a = executor)
                     (enumerate 0 (ps_attempts sn))) in
      case active of
        [] \<Rightarrow> Err (NoActiveAttemptForExecutor executor)
      | attempt_index # others \<Rightarrow>
          if others \<noteq> [] then Err (MultipleActiveAttemptsForExecutor executor)
          else
            let attempt = ps_attempts sn ! attempt_index in
            case at_lease_id attempt of
              None \<Rightarrow> Ok (attempt_index, None)
            | Some lease_id \<Rightarrow>
                and_then (validate_live_lease sn actor lease_id (at_node_revision attempt))
                  (\<lambda>(_, lease_index). Ok (attempt_index, Some lease_index)))"

section \<open>Directives\<close>

definition directive_closed :: "PlanDirectiveStatus \<Rightarrow> bool" where
  "directive_closed s \<longleftrightarrow>
     s \<in> {PlanDirectiveStatus.Applied, PlanDirectiveStatus.Superseded, PlanDirectiveStatus.Expired}"

definition report_directive ::
    "PlanDirectiveId list \<Rightarrow> PlanDirectiveId list \<Rightarrow> u64 \<Rightarrow> CoordinatorDirectiveSnapshot
     \<Rightarrow> (CoordinatorDirectiveSnapshot \<times> bool) plan_result" where
  "report_directive acknowledged applied now_ms d =
     (let i = di_directive_id d;
          d = (if i \<in> set acknowledged
                  \<and> di_status d \<in> {PlanDirectiveStatus.Queued, PlanDirectiveStatus.Delivered}
               then d\<lparr>di_status := PlanDirectiveStatus.Acknowledged, di_acknowledged_at_ms := Some now_ms\<rparr>
               else d) in
      if i \<in> set applied then
        (if di_status d = PlanDirectiveStatus.Applied then Ok (d, False)
         else if di_status d \<noteq> PlanDirectiveStatus.Acknowledged
         then Err (InvalidDirectiveTransition i (di_status d) ''applied'')
         else Ok (d\<lparr>di_status := PlanDirectiveStatus.Applied, di_applied_at_ms := Some now_ms\<rparr>, True))
      else Ok (d, True))"

definition report_one_directive ::
    "PlanAttemptId \<Rightarrow> PlanDirectiveId list \<Rightarrow> PlanDirectiveId list \<Rightarrow> u64
     \<Rightarrow> CoordinatorDirectiveSnapshot list \<times> CoordinatorDirectiveSnapshot list \<Rightarrow> PlanDirectiveId
     \<Rightarrow> (CoordinatorDirectiveSnapshot list \<times> CoordinatorDirectiveSnapshot list) plan_result" where
  "report_one_directive attempt_id acknowledged applied now_ms s i =
     (let mine = (\<lambda>d. di_directive_id d = i \<and> di_attempt_id d = attempt_id) in
      and_then (ok_or (List.find mine (fst s)) (UnknownDirective i)) (\<lambda>d.
      and_then (report_directive acknowledged applied now_ms d) (\<lambda>(d, pushed).
      Ok (update_first mine (\<lambda>_. d) (fst s), if pushed then snd s @ [d] else snd s))))"

definition max_applied_sequence :: "PlanAttemptId \<Rightarrow> CoordinatorDirectiveSnapshot list \<Rightarrow> u64 option" where
  "max_applied_sequence attempt_id ds =
     (case map di_sequence (filter (\<lambda>d. di_attempt_id d = attempt_id
            \<and> di_status d = PlanDirectiveStatus.Applied) ds) of
        [] \<Rightarrow> None
      | s # ss \<Rightarrow> Some (fold max ss s))"

definition apply_directive_reports ::
    "PlanAttemptId \<Rightarrow> PlanDirectiveId list \<Rightarrow> PlanDirectiveId list \<Rightarrow> u64 \<Rightarrow> PlanSnapshot
     \<Rightarrow> (PlanSnapshot \<times> CoordinatorDirectiveSnapshot list) plan_result" where
  "apply_directive_reports attempt_id acknowledged applied now_ms sn =
     and_then (fold_res (report_one_directive attempt_id acknowledged applied now_ms)
                (ps_directives sn, []) (bs_collect (acknowledged @ applied))) (\<lambda>(ds, updated).
     let sn = sn\<lparr>ps_directives := ds\<rparr> in
     Ok (case max_applied_sequence attempt_id ds of
           None \<Rightarrow> sn
         | Some s \<Rightarrow>
             sn\<lparr>ps_attempts := update_first (\<lambda>a. at_attempt_id a = attempt_id)
                  (\<lambda>a. a\<lparr>at_last_applied_directive_sequence := s\<rparr>) (ps_attempts sn)\<rparr>,
         updated))"

definition plan_directive_id :: "u64 \<Rightarrow> PlanDirectiveId" where
  "plan_directive_id k = PlanDirectiveId (''plan-directive-'' @ show_u64 k)"

definition active_directive_count :: "PlanAttemptId \<Rightarrow> CoordinatorDirectiveSnapshot list \<Rightarrow> nat" where
  "active_directive_count attempt_id ds =
     length (filter (\<lambda>d. di_attempt_id d = attempt_id \<and> \<not> directive_closed (di_status d)) ds)"

definition new_directive ::
    "PlanState \<Rightarrow> ControlPlanAttemptInput \<Rightarrow> PlanAttemptSnapshot \<Rightarrow> PlanLeaseSnapshot \<Rightarrow> u64
     \<Rightarrow> CoordinatorDirectiveSnapshot" where
  "new_directive st inp attempt lease now_ms =
     \<lparr>di_directive_id = plan_directive_id (st_next_directive_sequence st),
      di_sequence = st_next_directive_sequence st, di_plan_id = ps_plan_id (st_snapshot st),
      di_node_id = at_node_id attempt, di_node_revision = at_node_revision attempt,
      di_attempt_id = at_attempt_id attempt, di_lease_id = le_lease_id lease,
      di_kind = cp_kind inp, di_reason = cp_reason inp, di_instruction = cp_instruction inp,
      di_constraints = (case cp_constraints inp of Some c \<Rightarrow> c | None \<Rightarrow> default_constraints),
      di_requested_output = cp_requested_output inp, di_issued_at_ms = now_ms,
      di_status = PlanDirectiveStatus.Queued, di_delivered_at_ms = None,
      di_acknowledged_at_ms = None, di_applied_at_ms = None\<rparr>"

definition validate_directive_input :: "ControlPlanAttemptInput \<Rightarrow> unit plan_result" where
  "validate_directive_input inp =
     and_then (validate_reason (cp_reason inp)) (\<lambda>_.
     and_then (case cp_instruction inp of Some t \<Rightarrow> validate_reason t | None \<Rightarrow> Ok ()) (\<lambda>_.
     and_then (validate_payload_items ''requested_output'' (length (cp_requested_output inp))) (\<lambda>_.
     for_each (validate_payload_text ''requested_output'') (cp_requested_output inp))))"

definition issue_directive ::
    "plan_env \<Rightarrow> PlanState \<Rightarrow> ControlPlanAttemptInput \<Rightarrow> u64
     \<Rightarrow> (PlanState \<times> CoordinatorDirectiveSnapshot) plan_result" where
  "issue_directive E st inp now_ms =
     and_then (validate_directive_input inp) (\<lambda>_.
     let sn = st_snapshot st in
     and_then (ok_or (List.find (\<lambda>a. at_attempt_id a = cp_attempt_id inp) (ps_attempts sn))
                (UnknownAttempt (cp_attempt_id inp))) (\<lambda>attempt.
     if at_outcome attempt \<noteq> None then Err (AttemptAlreadyResolved (cp_attempt_id inp))
     else
     and_then (ok_or (at_lease_id attempt) StaleDirectiveTarget) (\<lambda>expected_lease_id.
     and_then (ok_or (List.find (\<lambda>l. le_lease_id l = expected_lease_id) (ps_leases sn))
                StaleDirectiveTarget) (\<lambda>lease.
     if le_status lease \<noteq> PlanLeaseStatus.Live \<or> le_attempt_id lease \<noteq> at_attempt_id attempt
        \<or> le_node_revision lease \<noteq> at_node_revision attempt
     then Err StaleDirectiveTarget
     else
     let active = active_directive_count (at_attempt_id attempt) (ps_directives sn) in
     if active \<ge> MAX_DIRECTIVES_PER_ATTEMPT
     then Err (TooManyActiveDirectives (at_attempt_id attempt) (active + 1) MAX_DIRECTIVES_PER_ATTEMPT)
     else
     let directive = new_directive st inp attempt lease now_ms in
     and_then (advance_revision E ''coordinator directive issued''
                (sn\<lparr>ps_directives := ps_directives sn @ [directive]\<rparr>)) (\<lambda>(sn, _).
     Ok (st\<lparr>st_snapshot := sn, st_next_directive_sequence := st_next_directive_sequence st + 1\<rparr>,
         directive))))))"

definition deliver_one :: "PlanAttemptId \<Rightarrow> u64 \<Rightarrow> CoordinatorDirectiveSnapshot \<Rightarrow> CoordinatorDirectiveSnapshot" where
  "deliver_one attempt_id now_ms d =
     (if di_attempt_id d = attempt_id \<and> di_status d = PlanDirectiveStatus.Queued
      then d\<lparr>di_status := PlanDirectiveStatus.Delivered, di_delivered_at_ms := Some now_ms\<rparr> else d)"

definition deliver_queued_directives ::
    "plan_env \<Rightarrow> PlanState \<Rightarrow> PlanAttemptActor \<Rightarrow> PlanLeaseId \<Rightarrow> u64
     \<Rightarrow> (PlanState \<times> CoordinatorDirectiveSnapshot list) plan_result" where
  "deliver_queued_directives E st actor lease_id now_ms =
     (let sn = st_snapshot st in
      and_then (validate_own_lease sn actor lease_id) (\<lambda>(attempt_index, _).
      let attempt_id = at_attempt_id (ps_attempts sn ! attempt_index);
          queued = filter (\<lambda>d. di_attempt_id d = attempt_id \<and> di_status d = PlanDirectiveStatus.Queued)
                     (ps_directives sn);
          updated = map (deliver_one attempt_id now_ms) queued in
      if updated = [] then Ok (st, [])
      else
      and_then (advance_revision E ''coordinator directives delivered''
                 (sn\<lparr>ps_directives := map (deliver_one attempt_id now_ms) (ps_directives sn)\<rparr>)) (\<lambda>(sn, _).
      Ok (st\<lparr>st_snapshot := sn\<rparr>, updated))))"

definition expire_directive :: "PlanAttemptId \<Rightarrow> CoordinatorDirectiveSnapshot \<Rightarrow> CoordinatorDirectiveSnapshot" where
  "expire_directive attempt_id d =
     (if di_attempt_id d = attempt_id \<and> \<not> directive_closed (di_status d)
      then d\<lparr>di_status := PlanDirectiveStatus.Expired\<rparr> else d)"

definition expire_attempt_directives ::
    "PlanAttemptId \<Rightarrow> PlanSnapshot \<Rightarrow> PlanSnapshot \<times> CoordinatorDirectiveSnapshot list" where
  "expire_attempt_directives attempt_id sn =
     (sn\<lparr>ps_directives := map (expire_directive attempt_id) (ps_directives sn)\<rparr>,
      map (expire_directive attempt_id)
        (filter (\<lambda>d. di_attempt_id d = attempt_id \<and> \<not> directive_closed (di_status d))
          (ps_directives sn)))"

end
