(* ===== verification/Plan_Reports.thy ===== *)
theory Plan_Reports
  imports Plan_Attempts
begin

text \<open>
  Reports on attempts: \<^verbatim>\<open>plan/execution/report_validation.rs\<close> and \<^verbatim>\<open>plan/execution/reporting.rs\<close>.
  The output structs of the source carry a copy of the new snapshot; it is the snapshot of the
  returned state and is left out of the records here.
\<close>

section \<open>The report contract\<close>

definition validate_decomposition :: "PlanDecompositionInput \<Rightarrow> unit plan_result" where
  "validate_decomposition inp =
     and_then (validate_reason (dn_reason inp)) (\<lambda>_.
     if dn_children inp = [] then Err EmptyDecomposition
     else if list_ex (\<lambda>c. ni_children c \<noteq> []) (dn_children inp) then Err NestedDecomposition
     else Ok ())"

definition validate_attempt_report_contract :: "ReportPlanAttemptInput \<Rightarrow> unit plan_result" where
  "validate_attempt_report_contract inp =
     (let invalid = Err (InvalidAttemptOutcome (ra_outcome inp));
          no_result = ra_result inp = None; no_diagnostic = ra_diagnostic inp = None in
      case ra_outcome inp of
        PlanAttemptOutcome.Completed \<Rightarrow>
          if \<not> no_result \<and> no_diagnostic \<and> ra_decomposition inp = None then Ok () else invalid
      | PlanAttemptOutcome.Decomposed \<Rightarrow>
          (case ra_decomposition inp of
             Some d \<Rightarrow> if no_result \<and> no_diagnostic then validate_decomposition d else invalid
           | None \<Rightarrow> invalid)
      | PlanAttemptOutcome.Blocked \<Rightarrow>
          if ra_decomposition inp = None \<and> (\<not> no_result \<or> \<not> no_diagnostic) then Ok () else invalid
      | PlanAttemptOutcome.SemanticFailure \<Rightarrow>
          if ra_decomposition inp = None \<and> (\<not> no_result \<or> \<not> no_diagnostic) then Ok () else invalid
      | PlanAttemptOutcome.TransientFailure \<Rightarrow>
          if no_result \<and> \<not> no_diagnostic \<and> ra_decomposition inp = None then Ok () else invalid
      | PlanAttemptOutcome.Yielded \<Rightarrow>
          if no_result \<and> ra_decomposition inp = None then Ok () else invalid
      | PlanAttemptOutcome.Cancelled \<Rightarrow> invalid
      | PlanAttemptOutcome.Interrupted \<Rightarrow> invalid)"

section \<open>Progress\<close>

record PlanProgressOutput =
  po_progress :: PlanAttemptProgressSnapshot
  po_updated_directives :: "CoordinatorDirectiveSnapshot list"

definition push_new :: "'a list \<Rightarrow> 'a list \<Rightarrow> 'a list" where
  "push_new xs ys = foldl (\<lambda>xs y. if y \<in> set xs then xs else xs @ [y]) xs ys"

definition apply_progress_report ::
    "ReportPlanProgressInput \<Rightarrow> u64 \<Rightarrow> u64 \<Rightarrow> PlanAttemptProgressSnapshot \<Rightarrow> PlanAttemptProgressSnapshot" where
  "apply_progress_report inp started_at_ms now_ms p =
     p\<lparr>pr_elapsed_ms := saturating_sub now_ms started_at_ms, pr_last_runtime_activity_at_ms := now_ms,
       pr_last_durable_progress_at_ms := Some now_ms,
       pr_artifacts_created :=
         saturating_add (pr_artifacts_created p) (of_nat (length (gp_artifact_refs inp))),
       pr_artifact_refs := push_new (pr_artifact_refs p) (gp_artifact_refs inp),
       pr_acceptance_evidence := push_new (pr_acceptance_evidence p) (gp_evidence_refs inp),
       pr_summary := Some (gp_summary inp), pr_next_action := gp_next_action inp,
       pr_request_coordinator_review :=
         (case gp_request_coordinator_review inp of Some b \<Rightarrow> b | None \<Rightarrow> False)\<rparr>"

definition validate_progress_input :: "ReportPlanProgressInput \<Rightarrow> unit plan_result" where
  "validate_progress_input inp =
     and_then (validate_reason (gp_summary inp)) (\<lambda>_.
     and_then (case gp_next_action inp of Some t \<Rightarrow> validate_reason t | None \<Rightarrow> Ok ()) (\<lambda>_.
     and_then (case gp_checkpoint_ref inp of Some t \<Rightarrow> validate_reason t | None \<Rightarrow> Ok ()) (\<lambda>_.
     and_then (validate_payload_items ''evidence_refs'' (length (gp_evidence_refs inp))) (\<lambda>_.
     validate_payload_items ''artifact_refs'' (length (gp_artifact_refs inp))))))"

definition report_progress ::
    "plan_env \<Rightarrow> PlanState \<Rightarrow> PlanAttemptActor \<Rightarrow> ReportPlanProgressInput \<Rightarrow> u64
     \<Rightarrow> (PlanState \<times> PlanProgressOutput) plan_result" where
  "report_progress E st actor inp now_ms =
     and_then (validate_progress_input inp) (\<lambda>_.
     let sn = st_snapshot st in
     and_then (validate_current_attempt sn actor) (\<lambda>(attempt_index, _).
     let attempt_id = at_attempt_id (ps_attempts sn ! attempt_index) in
     and_then (apply_directive_reports attempt_id (gp_acknowledged_directive_ids inp)
                (gp_applied_directive_ids inp) now_ms sn) (\<lambda>(sn, updated).
     let sn = (case gp_checkpoint_ref inp of
                 Some r \<Rightarrow> upd_attempt attempt_index (\<lambda>a. a\<lparr>at_latest_checkpoint_ref := Some r\<rparr>) sn
               | None \<Rightarrow> sn);
         started_at_ms = at_started_at_ms (ps_attempts sn ! attempt_index) in
     and_then (expect (find_progress sn attempt_id)) (\<lambda>p.
     let p = apply_progress_report inp started_at_ms now_ms p;
         sn = upd_progress attempt_id (apply_progress_report inp started_at_ms now_ms) sn in
     and_then (advance_revision E ''attempt progress reported'' sn) (\<lambda>(sn, _).
     Ok (st\<lparr>st_snapshot := sn\<rparr>, \<lparr>po_progress = p, po_updated_directives = updated\<rparr>))))))"

definition open_attempt_of :: "PlanSnapshot \<Rightarrow> PlanAttemptActor \<Rightarrow> PlanAttemptSnapshot option" where
  "open_attempt_of sn actor =
     List.find (\<lambda>a. at_outcome a = None \<and> at_executor_session_id a = aa_executor_session_id actor)
       (ps_attempts sn)"

definition apply_runtime_effect ::
    "string list \<Rightarrow> u64 \<Rightarrow> u64 \<Rightarrow> PlanAttemptProgressSnapshot \<Rightarrow> PlanAttemptProgressSnapshot" where
  "apply_runtime_effect changed_paths started_at_ms now_ms p =
     p\<lparr>pr_elapsed_ms := saturating_sub now_ms started_at_ms, pr_last_runtime_activity_at_ms := now_ms,
       pr_observable_side_effects := saturating_add (pr_observable_side_effects p) 1,
       pr_changed_paths := push_new (pr_changed_paths p) changed_paths\<rparr>"

definition record_runtime_effect ::
    "plan_env \<Rightarrow> PlanState \<Rightarrow> PlanAttemptActor \<Rightarrow> string list \<Rightarrow> u64
     \<Rightarrow> (PlanState \<times> PlanProgressOutput) plan_result" where
  "record_runtime_effect E st actor changed_paths now_ms =
     (let sn = st_snapshot st in
      and_then (for_each
        (\<lambda>path. if is_valid_workspace_scope path then Ok ()
           else Err (InvalidScopePath
             (case open_attempt_of sn actor of
                Some a \<Rightarrow> at_node_id a | None \<Rightarrow> PlanNodeId ''unknown-plan-node'') path))
        changed_paths) (\<lambda>_.
      and_then (validate_current_attempt sn actor) (\<lambda>(attempt_index, _).
      let attempt = ps_attempts sn ! attempt_index; attempt_id = at_attempt_id attempt in
      and_then (expect (find_progress sn attempt_id)) (\<lambda>p.
      let effect = apply_runtime_effect changed_paths (at_started_at_ms attempt) now_ms in
      and_then (advance_revision E ''runtime-observed attempt effect recorded''
                 (upd_progress attempt_id effect sn)) (\<lambda>(sn, _).
      Ok (st\<lparr>st_snapshot := sn\<rparr>, \<lparr>po_progress = effect p, po_updated_directives = []\<rparr>))))))"

definition apply_heartbeat ::
    "u64 \<Rightarrow> u64 \<Rightarrow> bool \<Rightarrow> bool \<Rightarrow> PlanAttemptProgressSnapshot \<Rightarrow> PlanAttemptProgressSnapshot" where
  "apply_heartbeat started_at_ms now_ms provider_request tool_call p =
     p\<lparr>pr_elapsed_ms := saturating_sub now_ms started_at_ms,
       pr_last_subagent_heartbeat_at_ms := Some now_ms, pr_last_runtime_activity_at_ms := now_ms,
       pr_provider_request_in_flight := provider_request, pr_tool_call_in_flight := tool_call\<rparr>"

definition heartbeat ::
    "plan_env \<Rightarrow> PlanState \<Rightarrow> PlanAttemptActor \<Rightarrow> PlanLeaseId \<Rightarrow> u64 \<Rightarrow> bool \<Rightarrow> bool
     \<Rightarrow> (PlanState \<times> PlanProgressOutput) plan_result" where
  "heartbeat E st actor lease_id now_ms provider_request tool_call =
     (let sn = st_snapshot st in
      and_then (validate_own_lease sn actor lease_id) (\<lambda>(attempt_index, lease_index).
      let ttl = rs_subagent_heartbeat_ttl_ms (ps_resource_policy_snapshot sn);
          started_at_ms = le_started_at_ms (ps_leases sn ! lease_index);
          sn = upd_lease lease_index (\<lambda>l. l\<lparr>le_last_heartbeat_at_ms := now_ms,
                 le_lease_expires_at_ms := saturating_add now_ms ttl\<rparr>) sn;
          attempt_id = at_attempt_id (ps_attempts sn ! attempt_index) in
      and_then (expect (find_progress sn attempt_id)) (\<lambda>p.
      let beat = apply_heartbeat started_at_ms now_ms provider_request tool_call in
      and_then (advance_revision E ''attempt heartbeat recorded'' (upd_progress attempt_id beat sn)) (\<lambda>(sn, _).
      Ok (st\<lparr>st_snapshot := sn\<rparr>, \<lparr>po_progress = beat p, po_updated_directives = []\<rparr>)))))"

section \<open>Finishing an attempt\<close>

definition transient_retry_is_safe :: "PlanSnapshot \<Rightarrow> PlanNodeSnapshot \<Rightarrow> bool" where
  "transient_retry_is_safe sn n \<longleftrightarrow>
     \<not> rp_retry_only_before_observable_side_effects (pn_recovery_policy n)
     \<or> (case Option.bind (List.find (\<lambda>a. at_node_id a = pn_id n \<and> at_outcome a = None) (ps_attempts sn))
              (\<lambda>a. find_progress sn (at_attempt_id a)) of
          None \<Rightarrow> True
        | Some p \<Rightarrow> pr_observable_side_effects p = 0)"

definition outcome_count :: "PlanSnapshot \<Rightarrow> PlanNodeId \<Rightarrow> PlanAttemptOutcome list \<Rightarrow> nat" where
  "outcome_count sn i outcomes =
     length (filter (\<lambda>a. at_node_id a = i \<and> (case at_outcome a of None \<Rightarrow> False | Some o' \<Rightarrow> o' \<in> set outcomes))
       (ps_attempts sn))"

definition node_status_after_outcome :: "PlanSnapshot \<Rightarrow> PlanNodeId \<Rightarrow> PlanAttemptOutcome \<Rightarrow> PlanNodeStatus" where
  "node_status_after_outcome sn i outcome =
     (case outcome of
        PlanAttemptOutcome.Completed \<Rightarrow> PlanNodeStatus.Completed
      | PlanAttemptOutcome.Decomposed \<Rightarrow> PlanNodeStatus.Expanded
      | PlanAttemptOutcome.Blocked \<Rightarrow> PlanNodeStatus.Blocked
      | PlanAttemptOutcome.SemanticFailure \<Rightarrow> PlanNodeStatus.Failed
      | PlanAttemptOutcome.TransientFailure \<Rightarrow>
          (case find_node sn i of
             None \<Rightarrow> PlanNodeStatus.Blocked
           | Some n \<Rightarrow>
               if \<not> transient_retry_is_safe sn n then PlanNodeStatus.Blocked
               else if outcome_count sn i [PlanAttemptOutcome.TransientFailure] + 1
                       < unat (rp_max_transient_attempts (pn_recovery_policy n))
               then PlanNodeStatus.Pending else PlanNodeStatus.Blocked)
      | PlanAttemptOutcome.Yielded \<Rightarrow> PlanNodeStatus.Pending
      | PlanAttemptOutcome.Interrupted \<Rightarrow> PlanNodeStatus.Pending
      | PlanAttemptOutcome.Cancelled \<Rightarrow> PlanNodeStatus.Blocked)"

record PlanAttemptReportOutput =
  ro_attempt :: PlanAttemptSnapshot
  ro_updated_directives :: "CoordinatorDirectiveSnapshot list"
  ro_ready_node_ids :: "PlanNodeId list"
  ro_client_key_to_runtime_node_id :: key_map
  ro_previous_phase :: PlanPhase

definition decomposition_forbidden :: "PlanAttemptId \<Rightarrow> PlanSnapshot \<Rightarrow> bool" where
  "decomposition_forbidden attempt_id sn \<longleftrightarrow>
     list_ex (\<lambda>d. di_attempt_id d = attempt_id
          \<and> di_status d \<notin> {PlanDirectiveStatus.Superseded, PlanDirectiveStatus.Expired}
          \<and> \<not> dc_allow_decomposition (di_constraints d)) (ps_directives sn)"

definition finish_node ::
    "ReportPlanAttemptInput \<Rightarrow> PlanNodeStatus \<Rightarrow> u64 \<Rightarrow> PlanNodeSnapshot \<Rightarrow> PlanNodeSnapshot" where
  "finish_node inp status revision n =
     (let n = set_status status revision n in
      if ra_outcome inp = PlanAttemptOutcome.Completed then n\<lparr>pn_result := ra_result inp\<rparr> else n)"

definition finish_attempt :: "ReportPlanAttemptInput \<Rightarrow> u64 \<Rightarrow> PlanAttemptSnapshot \<Rightarrow> PlanAttemptSnapshot" where
  "finish_attempt inp now_ms a =
     a\<lparr>at_finished_at_ms := Some now_ms, at_outcome := Some (ra_outcome inp),
       at_result := ra_result inp, at_diagnostic := ra_diagnostic inp\<rparr>"

definition decompose ::
    "PlanState \<Rightarrow> PlanNodeId \<Rightarrow> PlanDecompositionInput option \<Rightarrow> u64 \<Rightarrow> (PlanState \<times> key_map) plan_result" where
  "decompose st node_id decomposition revision =
     (case decomposition of
        Some d \<Rightarrow> add_decomposition_children st node_id (dn_children d) revision
      | None \<Rightarrow> Ok (st, []))"

definition finish_records ::
    "ReportPlanAttemptInput \<Rightarrow> u64 \<Rightarrow> u64 \<Rightarrow> nat \<Rightarrow> nat option \<Rightarrow> PlanAttemptId \<Rightarrow> PlanNodeId \<Rightarrow> PlanSnapshot
     \<Rightarrow> PlanSnapshot" where
  "finish_records inp revision now_ms attempt_index lease_index attempt_id node_id sn =
     (let status = node_status_after_outcome sn node_id (ra_outcome inp);
          sn = upd_node node_id (finish_node inp status revision) sn;
          sn = upd_attempt attempt_index (finish_attempt inp now_ms) sn;
          sn = (case lease_index of
                  Some k \<Rightarrow> upd_lease k (\<lambda>l. l\<lparr>le_status := PlanLeaseStatus.Resolved\<rparr>) sn
                | None \<Rightarrow> sn);
          started_at_ms = at_started_at_ms (ps_attempts sn ! attempt_index) in
      upd_progress attempt_id (\<lambda>p. p\<lparr>pr_elapsed_ms := saturating_sub now_ms started_at_ms,
        pr_last_runtime_activity_at_ms := now_ms\<rparr>) sn)"

definition report_attempt ::
    "plan_env \<Rightarrow> PlanState \<Rightarrow> PlanAttemptActor \<Rightarrow> ReportPlanAttemptInput \<Rightarrow> u64
     \<Rightarrow> (PlanState \<times> PlanAttemptReportOutput) plan_result" where
  "report_attempt E st actor inp now_ms =
     and_then (validate_attempt_report_contract inp) (\<lambda>_.
     let sn = st_snapshot st; previous_phase = ps_phase sn; outcome = ra_outcome inp in
     and_then (validate_current_attempt sn actor) (\<lambda>(attempt_index, lease_index).
     let attempt = ps_attempts sn ! attempt_index;
         attempt_id = at_attempt_id attempt; node_id = at_node_id attempt in
     if outcome = PlanAttemptOutcome.Yielded \<and> at_latest_checkpoint_ref attempt = None
     then Err (InvalidAttemptOutcome outcome)
     else
     and_then (apply_directive_reports attempt_id (ra_acknowledged_directive_ids inp)
                (ra_applied_directive_ids inp) now_ms sn) (\<lambda>(sn, updated).
     if outcome = PlanAttemptOutcome.Decomposed \<and> decomposition_forbidden attempt_id sn
     then Err (InvalidAttemptOutcome outcome)
     else
     let revision = saturating_add (ps_revision sn) 1 in
     and_then (decompose (st\<lparr>st_snapshot := sn\<rparr>) node_id (ra_decomposition inp) revision) (\<lambda>(st, keys).
     and_then (append_revision_summary ''plan attempt finished''
                ((st_snapshot st)\<lparr>ps_revision := revision\<rparr>)) (\<lambda>sn.
     and_then (expect (find_node sn node_id)) (\<lambda>_.
     let (sn, expired) = expire_attempt_directives attempt_id
           (finish_records inp revision now_ms attempt_index lease_index attempt_id node_id sn) in
     and_then (refresh_parent_states revision sn) (\<lambda>sn.
     let sn = settle_draining_phase (refresh_terminal_phase sn) in
     and_then (ready_node_ids_at sn now_ms) (\<lambda>ready.
     and_then (validate_snapshot_limits E sn) (\<lambda>_.
     Ok (st\<lparr>st_snapshot := sn\<rparr>,
         \<lparr>ro_attempt = ps_attempts sn ! attempt_index, ro_updated_directives = updated @ expired,
          ro_ready_node_ids = ready, ro_client_key_to_runtime_node_id = keys,
          ro_previous_phase = previous_phase\<rparr>))))))))))"

end
