(* ===== verification/Plan_Recovery.thy ===== *)
theory Plan_Recovery
  imports Plan_Reports
begin

text \<open>
  Recovery of attempts whose executor is gone: \<^verbatim>\<open>plan/recovery.rs\<close>. Abandoning the execution state
  of a loaded session, cancelling an attempt of a draining plan, asking for a progress review and
  interrupting attempts whose lease has expired.
\<close>

section \<open>Links\<close>

definition link_counts :: "PlanLinkStatus \<Rightarrow> PlanLinkSnapshot list \<Rightarrow> 32 word" where
  "link_counts s ls =
     of_nat (length (filter (\<lambda>l. lk_status l = s)
       (filter (\<lambda>l. lk_status l \<noteq> PlanLinkStatus.Superseded \<and> lk_superseded_by l = None) ls)))"

definition link_summary :: "PlanLinkSnapshot list \<Rightarrow> PlanExecutionSummary" where
  "link_summary ls =
     \<lparr>es_active = link_counts PlanLinkStatus.Active ls,
      es_completed = link_counts PlanLinkStatus.Completed ls,
      es_failed = link_counts PlanLinkStatus.Failed ls,
      es_cancelled = link_counts PlanLinkStatus.Cancelled ls,
      es_blocked = link_counts PlanLinkStatus.Blocked ls\<rparr>"

definition recompute_execution_summary :: "PlanNodeSnapshot \<Rightarrow> PlanNodeSnapshot" where
  "recompute_execution_summary n = n\<lparr>pn_execution_summary := link_summary (pn_links n)\<rparr>"

section \<open>Closing attempts\<close>

fun unwrap :: "('a, 'e) result \<Rightarrow> ('a, 'e) result" where
  "unwrap (Err _) = Panic"
| "unwrap r = r"

definition close_attempt ::
    "PlanAttemptOutcome \<Rightarrow> ErrorInfo \<Rightarrow> u64 \<Rightarrow> PlanAttemptSnapshot \<Rightarrow> PlanAttemptSnapshot" where
  "close_attempt outcome diagnostic now_ms a =
     a\<lparr>at_finished_at_ms := Some now_ms, at_outcome := Some outcome, at_diagnostic := Some diagnostic\<rparr>"

definition close_progress ::
    "u64 \<Rightarrow> u64 \<Rightarrow> PlanAttemptProgressSnapshot \<Rightarrow> PlanAttemptProgressSnapshot" where
  "close_progress started_at_ms now_ms p =
     p\<lparr>pr_elapsed_ms := saturating_sub now_ms started_at_ms, pr_last_runtime_activity_at_ms := now_ms,
       pr_provider_request_in_flight := False, pr_tool_call_in_flight := False\<rparr>"

section \<open>Loading a session\<close>

definition cancel_active_link :: "u64 \<Rightarrow> PlanLinkSnapshot \<Rightarrow> PlanLinkSnapshot" where
  "cancel_active_link now_ms l =
     (if lk_status l = PlanLinkStatus.Active
      then l\<lparr>lk_status := PlanLinkStatus.Cancelled, lk_terminal_at_ms := Some now_ms\<rparr> else l)"

definition has_active_link :: "PlanNodeSnapshot \<Rightarrow> bool" where
  "has_active_link n \<longleftrightarrow> list_ex (\<lambda>l. lk_status l = PlanLinkStatus.Active) (pn_links n)"

definition abandon_links :: "u64 \<Rightarrow> u64 \<Rightarrow> PlanNodeSnapshot \<Rightarrow> PlanNodeSnapshot" where
  "abandon_links revision now_ms n =
     (if has_active_link n
      then set_status PlanNodeStatus.Blocked revision
             (recompute_execution_summary (n\<lparr>pn_links := map (cancel_active_link now_ms) (pn_links n)\<rparr>))
      else n)"

definition expire_live_lease :: "PlanLeaseSnapshot \<Rightarrow> PlanLeaseSnapshot" where
  "expire_live_lease l =
     (if le_status l = PlanLeaseStatus.Live then l\<lparr>le_status := PlanLeaseStatus.Expired\<rparr> else l)"

definition abandon_attempt ::
    "ErrorInfo \<Rightarrow> u64 \<Rightarrow> u64 \<Rightarrow> PlanSnapshot \<Rightarrow> PlanAttemptId \<Rightarrow> PlanSnapshot" where
  "abandon_attempt diagnostic revision now_ms sn attempt_id =
     (case position (\<lambda>a. at_attempt_id a = attempt_id) (ps_attempts sn) of
        None \<Rightarrow> sn
      | Some k \<Rightarrow>
          let attempt = ps_attempts sn ! k;
              sn = upd_attempt k (close_attempt PlanAttemptOutcome.Interrupted diagnostic now_ms) sn;
              sn = (case at_lease_id attempt of
                      None \<Rightarrow> sn
                    | Some i \<Rightarrow> sn\<lparr>ps_leases :=
                        update_first (\<lambda>l. le_lease_id l = i) expire_live_lease (ps_leases sn)\<rparr>);
              sn = upd_progress attempt_id (\<lambda>p. (close_progress (at_started_at_ms attempt) now_ms p)
                     \<lparr>pr_request_coordinator_review := False\<rparr>) sn;
              sn = fst (expire_attempt_directives attempt_id sn) in
          upd_node (at_node_id attempt) (set_status PlanNodeStatus.Blocked revision) sn)"

definition open_attempt_ids :: "PlanSnapshot \<Rightarrow> PlanAttemptId list" where
  "open_attempt_ids sn = map at_attempt_id (filter (\<lambda>a. at_outcome a = None) (ps_attempts sn))"

definition abandon_unresumed_execution :: "plan_env \<Rightarrow> PlanState \<Rightarrow> u64 \<Rightarrow> (PlanState \<times> bool) plan_result" where
  "abandon_unresumed_execution E st now_ms =
     (let sn = st_snapshot st; attempt_ids = open_attempt_ids sn in
      if attempt_ids = [] \<and> \<not> list_ex has_active_link (ps_nodes sn) then Ok (st, False)
      else
        and_then (unwrap (advance_revision E ''persisted execution was not resumed'' sn)) (\<lambda>(sn, revision).
        let sn = sn\<lparr>ps_nodes := map (abandon_links revision now_ms) (ps_nodes sn)\<rparr> in
        and_then (expect (new_error_info ''plan_attempt_interrupted''
                   ''persisted execution had no live subagent after session load'')) (\<lambda>diagnostic.
        let sn = foldl (abandon_attempt diagnostic revision now_ms) sn attempt_ids in
        and_then (refresh_parent_states revision sn) (\<lambda>sn.
        Ok (st\<lparr>st_snapshot := refresh_terminal_phase sn\<rparr>, True)))))"

section \<open>Cancelling one attempt\<close>

definition cancel_attempt ::
    "plan_env \<Rightarrow> PlanState \<Rightarrow> PlanAttemptActor \<Rightarrow> PlanLeaseId \<Rightarrow> string \<Rightarrow> u64
     \<Rightarrow> (PlanState \<times> PlanAttemptSnapshot \<times> CoordinatorDirectiveSnapshot list \<times> PlanPhase) plan_result" where
  "cancel_attempt E st actor lease_id reason now_ms =
     and_then (validate_reason reason) (\<lambda>_.
     let sn = st_snapshot st; previous_phase = ps_phase sn in
     if ps_scheduler_status sn \<noteq> PlanSchedulerStatus.Draining
     then Err (WrongPhase (ps_phase sn) ''cancel plan attempt'')
     else
     and_then (validate_own_lease sn actor lease_id) (\<lambda>(attempt_index, lease_index).
     let attempt_id = at_attempt_id (ps_attempts sn ! attempt_index);
         node_id = at_node_id (ps_attempts sn ! attempt_index) in
     and_then (advance_revision E ''plan attempt cancelled'' sn) (\<lambda>(sn, revision).
     and_then (expect (new_error_info ''plan_attempt_cancelled'' reason)) (\<lambda>diagnostic.
     let sn = upd_attempt attempt_index (close_attempt PlanAttemptOutcome.Cancelled diagnostic now_ms) sn;
         sn = upd_lease lease_index (\<lambda>l. l\<lparr>le_status := PlanLeaseStatus.Cancelled\<rparr>) sn in
     and_then (expect (find_node sn node_id)) (\<lambda>_.
     let sn = upd_node node_id (set_status PlanNodeStatus.Blocked revision) sn;
         (sn, expired) = expire_attempt_directives attempt_id sn;
         sn = settle_draining_phase sn in
     Ok (st\<lparr>st_snapshot := sn\<rparr>, ps_attempts sn ! attempt_index, expired, previous_phase))))))"

section \<open>Asking for a review\<close>

definition request_review ::
    "u64 \<Rightarrow> u64 \<Rightarrow> PlanAttemptProgressSnapshot \<Rightarrow> PlanAttemptProgressSnapshot" where
  "request_review started_at_ms now_ms p =
     p\<lparr>pr_elapsed_ms := saturating_sub now_ms started_at_ms, pr_last_runtime_activity_at_ms := now_ms,
       pr_request_coordinator_review := True\<rparr>"

definition review_progress_at_boundary ::
    "plan_env \<Rightarrow> PlanState \<Rightarrow> PlanAttemptActor \<Rightarrow> PlanLeaseId \<Rightarrow> u64
     \<Rightarrow> (PlanState \<times> PlanAttemptProgressSnapshot option) plan_result" where
  "review_progress_at_boundary E st actor lease_id now_ms =
     (let sn = st_snapshot st in
      and_then (validate_own_lease sn actor lease_id) (\<lambda>(attempt_index, lease_index).
      let attempt_id = at_attempt_id (ps_attempts sn ! attempt_index);
          started_at_ms = le_started_at_ms (ps_leases sn ! lease_index) in
      and_then (expect (find_progress sn attempt_id)) (\<lambda>p.
      let baseline = (case pr_last_durable_progress_at_ms p of Some t \<Rightarrow> t | None \<Rightarrow> started_at_ms);
          window = rs_no_durable_progress_review_window_ms (ps_resource_policy_snapshot sn) in
      if pr_request_coordinator_review p \<or> saturating_sub now_ms baseline < window then Ok (st, None)
      else
      and_then (advance_revision E ''plan progress review requested''
                 (upd_progress attempt_id (request_review started_at_ms now_ms) sn)) (\<lambda>(sn, _).
      Ok (st\<lparr>st_snapshot := sn\<rparr>, Some (request_review started_at_ms now_ms p))))))"

section \<open>Expired leases\<close>

definition interrupted_attempt_can_retry ::
    "PlanSnapshot \<Rightarrow> PlanNodeId \<Rightarrow> PlanAttemptId \<Rightarrow> bool plan_result" where
  "interrupted_attempt_can_retry sn i attempt_id =
     and_then (expect (find_node sn i)) (\<lambda>n.
     let prior = outcome_count sn i
                   [PlanAttemptOutcome.TransientFailure, PlanAttemptOutcome.Interrupted] in
     Ok (if prior + 1 \<ge> unat (rp_max_transient_attempts (pn_recovery_policy n)) then False
         else if \<not> rp_retry_only_before_observable_side_effects (pn_recovery_policy n) then True
         else (case find_progress sn attempt_id of
                 None \<Rightarrow> True
               | Some p \<Rightarrow> pr_observable_side_effects p = 0 \<and> pr_artifacts_created p = 0
                   \<and> pr_changed_paths p = [])))"

definition lease_expired :: "PlanSnapshot \<Rightarrow> u64 \<Rightarrow> PlanAttemptSnapshot \<Rightarrow> bool" where
  "lease_expired sn now_ms a \<longleftrightarrow>
     (case at_lease_id a of
        None \<Rightarrow> False
      | Some i \<Rightarrow> list_ex (\<lambda>l. le_lease_id l = i \<and> le_status l = PlanLeaseStatus.Live
            \<and> le_lease_expires_at_ms l \<le> now_ms) (ps_leases sn))"

record PlanRecoveryOutput =
  re_interrupted_attempts :: "PlanAttemptSnapshot list"
  re_updated_directives :: "CoordinatorDirectiveSnapshot list"
  re_ready_node_ids :: "PlanNodeId list"
  re_previous_phase :: PlanPhase

type_synonym interruption = "PlanSnapshot \<times> PlanAttemptSnapshot list \<times> CoordinatorDirectiveSnapshot list"

definition interrupt_attempt :: "u64 \<Rightarrow> u64 \<Rightarrow> interruption \<Rightarrow> PlanAttemptId \<Rightarrow> interruption plan_result" where
  "interrupt_attempt revision now_ms s attempt_id =
     (let sn = fst s; done_attempts = fst (snd s); directives = snd (snd s) in
      and_then (expect (position (\<lambda>a. at_attempt_id a = attempt_id) (ps_attempts sn))) (\<lambda>k.
      let attempt = ps_attempts sn ! k; node_id = at_node_id attempt in
      and_then (expect (at_lease_id attempt)) (\<lambda>lease_id.
      and_then (expect (position (\<lambda>l. le_lease_id l = lease_id) (ps_leases sn))) (\<lambda>lease_index.
      and_then (interrupted_attempt_can_retry sn node_id attempt_id) (\<lambda>retry.
      and_then (expect (new_error_info ''plan_attempt_interrupted''
                 ''subagent lease expired without a terminal attempt report'')) (\<lambda>diagnostic.
      let sn = upd_attempt k (close_attempt PlanAttemptOutcome.Interrupted diagnostic now_ms) sn;
          sn = upd_lease lease_index (\<lambda>l. l\<lparr>le_status := PlanLeaseStatus.Expired\<rparr>) sn;
          sn = upd_progress attempt_id (close_progress (at_started_at_ms attempt) now_ms) sn;
          status = (if retry then PlanNodeStatus.Pending else PlanNodeStatus.Blocked);
          interrupted = ps_attempts sn ! k;
          (sn, expired) = expire_attempt_directives attempt_id
             (upd_node node_id (set_status status revision) sn) in
      Ok (sn, done_attempts @ [interrupted], directives @ expired)))))))"

definition interrupt_expired_leases ::
    "plan_env \<Rightarrow> PlanState \<Rightarrow> u64 \<Rightarrow> (PlanState \<times> PlanRecoveryOutput) plan_result" where
  "interrupt_expired_leases E st now_ms =
     (let sn = st_snapshot st; previous_phase = ps_phase sn;
          attempt_ids = map at_attempt_id
            (filter (\<lambda>a. at_outcome a = None \<and> lease_expired sn now_ms a) (ps_attempts sn)) in
      if attempt_ids = []
      then Ok (st, \<lparr>re_interrupted_attempts = [], re_updated_directives = [], re_ready_node_ids = [],
                    re_previous_phase = previous_phase\<rparr>)
      else
      and_then (advance_revision E ''expired subagent plan leases interrupted'' sn) (\<lambda>(sn, revision).
      and_then (fold_res (interrupt_attempt revision now_ms) (sn, [], []) attempt_ids)
        (\<lambda>(sn, interrupted, directives).
      and_then (refresh_parent_states revision sn) (\<lambda>sn.
      let sn = settle_draining_phase (refresh_terminal_phase sn) in
      and_then (ready_node_ids_at sn now_ms) (\<lambda>ready.
      Ok (st\<lparr>st_snapshot := sn\<rparr>,
          \<lparr>re_interrupted_attempts = interrupted, re_updated_directives = directives,
           re_ready_node_ids = ready, re_previous_phase = previous_phase\<rparr>))))))"

end
