(* ===== verification/Plan_Control.thy ===== *)
theory Plan_Control
  imports Plan_Recovery
begin

text \<open>
  User control of a plan: \<^verbatim>\<open>plan/control.rs\<close>. Approving, pausing and resuming, sending back to
  revision, cancelling and retrying an interrupted node.
\<close>

section \<open>Approval\<close>

definition requirement_resolution ::
    "PlanApprovalInput \<Rightarrow> PlanCapabilityEnvelopeSnapshot \<Rightarrow> PlanApprovalRequirementSnapshot \<Rightarrow> string option" where
  "requirement_resolution inp envelope r =
     (let supplied = ap_capability_envelope inp \<noteq> None; refs = ap_authorization_refs inp in
      case rq_kind r of
        UserReviewRequested \<Rightarrow> Some (ap_review_resolution_ref inp)
      | SkillReviewRequested _ \<Rightarrow> Some (ap_review_resolution_ref inp)
      | RootObjectiveChange \<Rightarrow> Some (ap_review_resolution_ref inp)
      | RootAcceptanceChange \<Rightarrow> Some (ap_review_resolution_ref inp)
      | CapabilityOrPermissionExpansion \<Rightarrow>
          if supplied \<and> refs \<noteq> [] then Some (join_strings '','' refs) else None
      | DestructiveExternalAuthority \<Rightarrow>
          if supplied \<and> ce_destructive_external_authority envelope \<and> refs \<noteq> []
          then Some (join_strings '','' refs) else None
      | RequiredExternalInput _ \<Rightarrow> bt_get (ap_requirement_resolution_refs inp) (rq_requirement_id r))"

fun resolve_requirements ::
    "PlanApprovalInput \<Rightarrow> PlanCapabilityEnvelopeSnapshot \<Rightarrow> PlanApprovalRequirementSnapshot list
     \<Rightarrow> PlanApprovalRequirementSnapshot list plan_result" where
  "resolve_requirements inp envelope [] = Ok []"
| "resolve_requirements inp envelope (r # rs) =
     (if rq_status r \<noteq> PlanApprovalRequirementStatus.Pending
      then and_then (resolve_requirements inp envelope rs) (\<lambda>rs. Ok (r # rs))
      else
        and_then (ok_or (requirement_resolution inp envelope r)
                   (UnresolvedApprovalRequirement (rq_requirement_id r))) (\<lambda>resolution.
        and_then (resolve_requirements inp envelope rs) (\<lambda>rs.
        Ok (r\<lparr>rq_status := PlanApprovalRequirementStatus.Resolved,
              rq_resolution_ref := Some resolution\<rparr> # rs))))"

definition unresolved_requirement :: "PlanSnapshot \<Rightarrow> PlanError" where
  "unresolved_requirement sn =
     UnresolvedApprovalRequirement
       (case List.find (\<lambda>r. rq_status r = PlanApprovalRequirementStatus.Pending)
               (ps_approval_requirements sn) of
          Some r \<Rightarrow> rq_requirement_id r
        | None \<Rightarrow> ''approval-envelope'')"

definition validate_approval_texts :: "PlanApprovalInput \<Rightarrow> unit plan_result" where
  "validate_approval_texts inp =
     and_then (validate_reason (ap_review_resolution_ref inp)) (\<lambda>_.
     and_then (for_each validate_reason (ap_authorization_refs inp)) (\<lambda>_.
     for_each validate_reason (bt_values (ap_requirement_resolution_refs inp))))"

definition approve :: "plan_env \<Rightarrow> PlanState \<Rightarrow> PlanApprovalInput \<Rightarrow> (PlanState \<times> PlanPhase) plan_result" where
  "approve E st inp =
     (let sn = st_snapshot st in
      if ps_phase sn \<notin> {PlanPhase.Planning, PlanPhase.AwaitingApproval}
      then Err (WrongPhase (ps_phase sn) ''approve plan'')
      else case ps_root_node_id sn of
        None \<Rightarrow> Err EmptyPlan
      | Some root_id \<Rightarrow>
          if ap_plan_id inp \<noteq> ps_plan_id sn then Err (StalePlanIdentity (ap_plan_id inp) (ps_plan_id sn))
          else if ap_expected_plan_revision inp \<noteq> ps_revision sn
          then Err (StalePlanRevision (ap_expected_plan_revision inp) (ps_revision sn))
          else
          and_then (validate_approval_texts inp) (\<lambda>_.
          and_then (ok_or (case ap_capability_envelope inp of
                             Some e \<Rightarrow> Some e
                           | None \<Rightarrow> ps_authorized_capability_envelope sn) (unresolved_requirement sn)) (\<lambda>envelope.
          and_then (validate_authorized_envelope (collect_nodes (ps_nodes sn)) root_id (Some envelope)) (\<lambda>_.
          and_then (resolve_requirements inp envelope (ps_approval_requirements sn)) (\<lambda>requirements.
          let previous_phase = ps_phase sn;
              sn = sn\<lparr>ps_approval_requirements := requirements,
                      ps_authorized_capability_envelope := Some envelope,
                      ps_execution_authorization_refs := ap_authorization_refs inp,
                      ps_phase := PlanPhase.Executing,
                      ps_scheduler_status := PlanSchedulerStatus.Active\<rparr>;
              sn = sn\<lparr>ps_execution_contract_fingerprint := Some (contract_fingerprint E sn)\<rparr> in
          and_then (advance_revision E ''plan approval resolved'' sn) (\<lambda>(sn, _).
          Ok (st\<lparr>st_snapshot := sn\<rparr>, previous_phase)))))))"

section \<open>Scheduling\<close>

definition change_scheduler_status ::
    "plan_env \<Rightarrow> PlanState \<Rightarrow> string \<Rightarrow> PlanSchedulerStatus \<Rightarrow> PlanSchedulerStatus \<Rightarrow> string
     \<Rightarrow> (PlanState \<times> PlanPhase) plan_result" where
  "change_scheduler_status E st reason expected target operation =
     and_then (validate_reason reason) (\<lambda>_.
     let sn = st_snapshot st in
     if ps_phase sn \<noteq> PlanPhase.Executing \<or> ps_scheduler_status sn \<noteq> expected
     then Err (WrongPhase (ps_phase sn) operation)
     else
     and_then (advance_revision E operation (sn\<lparr>ps_scheduler_status := target\<rparr>)) (\<lambda>(sn', _).
     Ok (st\<lparr>st_snapshot := sn'\<rparr>, ps_phase sn)))"

definition pause_scheduling :: "plan_env \<Rightarrow> PlanState \<Rightarrow> string \<Rightarrow> (PlanState \<times> PlanPhase) plan_result" where
  "pause_scheduling E st reason =
     change_scheduler_status E st reason PlanSchedulerStatus.Active PlanSchedulerStatus.Paused
       ''pause plan scheduling''"

definition resume_scheduling :: "plan_env \<Rightarrow> PlanState \<Rightarrow> string \<Rightarrow> (PlanState \<times> PlanPhase) plan_result" where
  "resume_scheduling E st reason =
     change_scheduler_status E st reason PlanSchedulerStatus.Paused PlanSchedulerStatus.Active
       ''resume plan scheduling''"

section \<open>Revision\<close>

definition reject_pending ::
    "string \<Rightarrow> PlanApprovalRequirementSnapshot \<Rightarrow> PlanApprovalRequirementSnapshot" where
  "reject_pending reason r =
     (if rq_status r = PlanApprovalRequirementStatus.Pending
      then r\<lparr>rq_status := PlanApprovalRequirementStatus.Rejected, rq_resolution_ref := Some reason\<rparr> else r)"

definition revise :: "plan_env \<Rightarrow> PlanState \<Rightarrow> string \<Rightarrow> (PlanState \<times> PlanPhase) plan_result" where
  "revise E st reason =
     and_then (validate_reason reason) (\<lambda>_.
     let sn = st_snapshot st in
     if ps_phase sn \<notin> {PlanPhase.AwaitingApproval, PlanPhase.Executing}
     then Err (WrongPhase (ps_phase sn) ''revise plan'')
     else if list_ex (\<lambda>a. at_outcome a = None) (ps_attempts sn)
     then Err (ActiveAttemptsPreventControl ''plan revision'')
     else
     and_then (advance_revision E ''plan returned to revision''
                (sn\<lparr>ps_approval_requirements := map (reject_pending reason) (ps_approval_requirements sn),
                    ps_phase := PlanPhase.Planning, ps_scheduler_status := PlanSchedulerStatus.Paused\<rparr>))
       (\<lambda>(sn', _). Ok (st\<lparr>st_snapshot := sn'\<rparr>, ps_phase sn)))"

section \<open>Cancellation\<close>

definition cancel_local_attempt ::
    "ErrorInfo \<Rightarrow> u64 \<Rightarrow> u64 \<Rightarrow> PlanSnapshot \<times> PlanAttemptSnapshot list \<Rightarrow> PlanAttemptId
     \<Rightarrow> (PlanSnapshot \<times> PlanAttemptSnapshot list) plan_result" where
  "cancel_local_attempt diagnostic revision now_ms s attempt_id =
     (let sn = fst s in
      and_then (expect (position (\<lambda>a. at_attempt_id a = attempt_id) (ps_attempts sn))) (\<lambda>k.
      let attempt = ps_attempts sn ! k;
          sn = upd_attempt k (close_attempt PlanAttemptOutcome.Cancelled diagnostic now_ms) sn;
          sn = upd_progress attempt_id (close_progress (at_started_at_ms attempt) now_ms) sn in
      and_then (expect (find_node sn (at_node_id attempt))) (\<lambda>_.
      let sn = upd_node (at_node_id attempt) (set_status PlanNodeStatus.Blocked revision) sn in
      Ok (sn, snd s @ [ps_attempts sn ! k]))))"

definition request_cancellation ::
    "plan_env \<Rightarrow> PlanState \<Rightarrow> string \<Rightarrow> u64
     \<Rightarrow> (PlanState \<times> PlanPhase \<times> PlanAttemptSnapshot list) plan_result" where
  "request_cancellation E st reason now_ms =
     and_then (validate_reason reason) (\<lambda>_.
     let sn = st_snapshot st; previous_phase = ps_phase sn in
     if ps_phase sn \<in> {PlanPhase.Completed, PlanPhase.Blocked, PlanPhase.Cancelled}
     then Err (WrongPhase (ps_phase sn) ''cancel plan'')
     else
     let local_attempt_ids = map at_attempt_id
           (filter (\<lambda>a. at_outcome a = None \<and> at_lease_id a = None) (ps_attempts sn)) in
     and_then (advance_revision E ''plan cancellation requested''
                (sn\<lparr>ps_scheduler_status := PlanSchedulerStatus.Draining\<rparr>)) (\<lambda>(sn, revision).
     and_then (expect (new_error_info ''plan_attempt_cancelled'' reason)) (\<lambda>diagnostic.
     and_then (fold_res (cancel_local_attempt diagnostic revision now_ms) (sn, []) local_attempt_ids)
       (\<lambda>(sn, finished).
     and_then (refresh_parent_states revision sn) (\<lambda>sn.
     Ok (st\<lparr>st_snapshot := settle_draining_phase sn\<rparr>, previous_phase, finished))))))"

section \<open>Retry\<close>

text \<open>
  The retry walks up from the node to the root and reopens blocked ancestors. The walk ends when
  a node has no parent; on a stored cycle it would not, which fuel \<open>None\<close> stands for.
\<close>

definition reopen_node :: "PlanNodeId \<Rightarrow> u64 \<Rightarrow> PlanNodeSnapshot \<Rightarrow> PlanNodeSnapshot" where
  "reopen_node node_id revision n =
     set_status
       (if pn_id n = node_id then PlanNodeStatus.Pending
        else if pn_status n = PlanNodeStatus.Blocked then PlanNodeStatus.Expanded
        else pn_status n) revision n"

fun reopen_path :: "nat \<Rightarrow> PlanNodeId \<Rightarrow> u64 \<Rightarrow> PlanNodeId option \<Rightarrow> PlanSnapshot \<Rightarrow> PlanSnapshot plan_result" where
  "reopen_path fuel node_id revision None sn = Ok sn"
| "reopen_path 0 node_id revision (Some i) sn = Diverge"
| "reopen_path (Suc fuel) node_id revision (Some i) sn =
     and_then (expect (find_node sn i)) (\<lambda>n.
     reopen_path fuel node_id revision (pn_parent_id n) (upd_node i (reopen_node node_id revision) sn))"

definition retry_interrupted_node ::
    "plan_env \<Rightarrow> PlanState \<Rightarrow> PlanNodeId \<Rightarrow> string \<Rightarrow> (PlanState \<times> PlanPhase) plan_result" where
  "retry_interrupted_node E st node_id reason =
     and_then (validate_reason reason) (\<lambda>_.
     let sn = st_snapshot st; previous_phase = ps_phase sn in
     if ps_phase sn \<notin> {PlanPhase.Executing, PlanPhase.Blocked}
        \<or> ps_scheduler_status sn = PlanSchedulerStatus.Draining
     then Err (WrongPhase (ps_phase sn) ''retry interrupted plan node'')
     else
     and_then (ok_or (find_node sn node_id) (UnknownNode node_id)) (\<lambda>n.
     let latest = List.find (\<lambda>a. at_node_id a = node_id) (rev (ps_attempts sn)) in
     if pn_status n \<noteq> PlanNodeStatus.Blocked
        \<or> Option.bind latest at_outcome \<noteq> Some PlanAttemptOutcome.Interrupted
     then Err (InterruptedRetryUnavailable node_id)
     else if list_ex (\<lambda>l. le_node_id l = node_id \<and> le_status l = PlanLeaseStatus.Live) (ps_leases sn)
     then Err (LiveLeaseExists node_id)
     else
     and_then (advance_revision E ''interrupted plan node explicitly retried'' sn) (\<lambda>(sn, revision).
     and_then (reopen_path (Suc (length (ps_nodes sn))) node_id revision (Some node_id) sn) (\<lambda>sn.
     and_then (refresh_parent_states revision sn) (\<lambda>sn.
     Ok (st\<lparr>st_snapshot := sn\<lparr>ps_phase := PlanPhase.Executing,
                                ps_scheduler_status := PlanSchedulerStatus.Active\<rparr>\<rparr>,
         previous_phase))))))"

end
