(* ===== verification/Plan_Scoped.thy ===== *)
theory Plan_Scoped
  imports Plan_Domain
begin

text \<open>
  Edits by a linked subagent: \<^verbatim>\<open>plan/domain/scoped.rs\<close>. A subagent bound to a node may define
  children of that node or replace a subtree below it, and nothing else.
\<close>

section \<open>Checking the request\<close>

definition validate_subagent_scope ::
    "PlanState \<Rightarrow> PlanId \<Rightarrow> PlanNodeId \<Rightarrow> PlanBindingId \<Rightarrow> unit plan_result" where
  "validate_subagent_scope st plan_id root_node_id binding_id =
     (let sn = st_snapshot st in
      if ps_plan_id sn \<noteq> plan_id
      then Err (SubagentScopeViolation ''scope plan id does not match the active plan'')
      else
      and_then (ok_or (node st root_node_id) (SubagentScopeViolation ''scope root node does not exist'')) (\<lambda>root.
      if \<not> list_ex (\<lambda>l. lk_plan_id l = ps_plan_id sn \<and> lk_node_id l = root_node_id
              \<and> lk_binding_id l = binding_id \<and> lk_status l = PlanLinkStatus.Active
              \<and> lk_superseded_by l = None) (pn_links root)
      then Err (SubagentScopeViolation ''scope root is not owned by the linked binding'')
      else Ok ()))"

function collect_scoped_client_keys :: "PlanNodeInput list \<Rightarrow> string list \<Rightarrow> string list plan_result" where
  "collect_scoped_client_keys [] keys = Ok keys"
| "collect_scoped_client_keys (inp # inps) keys =
     and_then
       (case ni_client_key inp of
          None \<Rightarrow> Ok keys
        | Some k \<Rightarrow>
            and_then (validate_client_key k) (\<lambda>_.
            if k \<in> set keys then Err (DuplicateClientKey k) else Ok (insort_insert k keys))) (\<lambda>keys.
     and_then (collect_scoped_client_keys (ni_children inp) keys) (\<lambda>keys.
     collect_scoped_client_keys inps keys))"
  by pat_completeness auto

lemma size_children: "size_list size (ni_children inp) < size inp"
  by (cases inp) simp

termination collect_scoped_client_keys
proof (relation "measure (\<lambda>(inps, _). size_list size inps)", goal_cases)
  case (2 inp inps keys)
  show ?case using size_children [of inp] by simp
next
  case (3 inp inps keys)
  have "0 < size inp" using size_children [of inp] by linarith
  then show ?case by simp
qed simp

definition validate_scoped_dependency_refs ::
    "PlanNodeReferenceInput list \<Rightarrow> PlanNodeId list \<Rightarrow> string list \<Rightarrow> key_map \<Rightarrow> unit plan_result" where
  "validate_scoped_dependency_refs references scope_ids local_client_keys existing_keys =
     for_each
       (\<lambda>reference.
          case reference of
            RefId i \<Rightarrow>
              if i \<notin> set scope_ids
              then Err (SubagentScopeViolation ''child input dependency escapes the linked subtree'')
              else Ok ()
          | RefClientKey k \<Rightarrow>
              if k \<in> set local_client_keys then Ok ()
              else
              and_then (ok_or (bt_get existing_keys k) (UnknownClientKey k)) (\<lambda>i.
              if i \<notin> set scope_ids
              then Err (SubagentScopeViolation ''child input dependency escapes the linked subtree'')
              else Ok ())) references"

definition validate_scoped_root_contract ::
    "PlanNodeInput \<Rightarrow> PlanNodeSnapshot \<Rightarrow> node_map \<Rightarrow> key_map \<Rightarrow> unit plan_result" where
  "validate_scoped_root_contract inp current existing existing_keys =
     (let dependencies = SubagentScopeViolation ''child input cannot modify the linked root dependencies'' in
      if ni_objective inp \<noteq> pn_objective current \<or> ni_acceptance inp \<noteq> pn_acceptance current
         \<or> (case ni_status inp of Some s \<Rightarrow> s \<noteq> pn_declared_status current | None \<Rightarrow> False)
      then Err (SubagentScopeViolation
             ''child input cannot modify the linked root contract or status projection'')
      else case resolve_dependencies (ni_depends_on inp) existing_keys (live_ids existing) of
        Ok resolved \<Rightarrow> if resolved \<noteq> pn_depends_on current then Err dependencies else Ok ()
      | Err _ \<Rightarrow> Err dependencies
      | Panic \<Rightarrow> Panic
      | Diverge \<Rightarrow> Diverge)"

definition validate_scoped_identity ::
    "PlanNodeInput \<Rightarrow> bool \<Rightarrow> node_map \<Rightarrow> PlanNodeId list \<Rightarrow> PlanNodeId option \<Rightarrow> PlanNodeId
     \<Rightarrow> string list \<Rightarrow> key_map \<Rightarrow> unit plan_result" where
  "validate_scoped_identity inp is_top_level existing scope_ids replacement_target scope_root_id
       local_client_keys existing_keys =
     (case ni_id inp of
        Some i \<Rightarrow>
          (case replacement_target of
             None \<Rightarrow> Err (SubagentScopeViolation ''child input cannot provide an existing node id'')
           | Some target_id \<Rightarrow>
               if \<not> is_top_level \<or> i \<noteq> target_id
               then Err (SubagentScopeViolation ''child input cannot replace an id outside the target root'')
               else
               and_then (ok_or (bt_get existing target_id)
                 (SubagentScopeViolation ''replacement target is not present in the active plan'')) (\<lambda>target.
               if ni_executor_policy inp \<noteq> pn_executor_policy target \<or> ni_harness inp \<noteq> pn_harness target
                  \<or> ni_recovery_policy inp \<noteq> pn_recovery_policy target
               then Err (SubagentScopeViolation
                      ''child input cannot modify runtime-owned execution policy'')
               else if target_id = scope_root_id
               then validate_scoped_root_contract inp target existing existing_keys
               else validate_scoped_dependency_refs (ni_depends_on inp) scope_ids local_client_keys
                      existing_keys))
      | None \<Rightarrow>
          if ni_executor_policy inp \<noteq> Auto \<or> ni_harness inp \<noteq> default_harness
             \<or> ni_recovery_policy inp \<noteq> default_recovery_policy
          then Err (SubagentScopeViolation ''new child input cannot author runtime-owned fields'')
          else validate_scoped_dependency_refs (ni_depends_on inp) scope_ids local_client_keys
                 existing_keys)"

function validate_scoped_input_node ::
    "PlanNodeInput \<Rightarrow> bool \<Rightarrow> node_map \<Rightarrow> PlanNodeId list \<Rightarrow> PlanNodeId option \<Rightarrow> PlanNodeId
     \<Rightarrow> string list \<Rightarrow> key_map \<Rightarrow> unit plan_result" where
  "validate_scoped_input_node inp is_top_level existing scope_ids replacement_target scope_root_id
       local_client_keys existing_keys =
     and_then (case ni_status inp of Some s \<Rightarrow> validate_authored_status s | None \<Rightarrow> Ok ()) (\<lambda>_.
     and_then (validate_scoped_identity inp is_top_level existing scope_ids replacement_target
                scope_root_id local_client_keys existing_keys) (\<lambda>_.
     for_each (\<lambda>child. validate_scoped_input_node child False existing scope_ids replacement_target
                scope_root_id local_client_keys existing_keys) (ni_children inp)))"
  by pat_completeness auto
termination
  by (relation "measure (\<lambda>(inp, _). size inp)") (auto simp: size_child)

declare validate_scoped_input_node.simps [simp del]

text \<open>For evaluation, unfold the check only when the input is a constructor term.\<close>

lemma validate_scoped_input_node_code [code]:
  "validate_scoped_input_node (PlanNodeInput i key objective acceptance status policy harness recovery deps children)
       is_top_level existing scope_ids replacement_target scope_root_id local_client_keys existing_keys =
     and_then (case status of Some s \<Rightarrow> validate_authored_status s | None \<Rightarrow> Ok ()) (\<lambda>_.
     and_then (validate_scoped_identity
                (PlanNodeInput i key objective acceptance status policy harness recovery deps children)
                is_top_level existing scope_ids replacement_target scope_root_id local_client_keys existing_keys) (\<lambda>_.
     for_each (\<lambda>child. validate_scoped_input_node child False existing scope_ids replacement_target
                scope_root_id local_client_keys existing_keys) children))"
  by (subst validate_scoped_input_node.simps) simp

definition validate_scoped_inputs ::
    "PlanNodeInput list \<Rightarrow> node_map \<Rightarrow> PlanNodeId list \<Rightarrow> PlanNodeId option \<Rightarrow> PlanNodeId \<Rightarrow> unit plan_result" where
  "validate_scoped_inputs inps existing scope_ids replacement_target scope_root_id =
     (if replacement_target = None \<and> list_ex (\<lambda>i. ni_children i \<noteq> []) inps then Err NestedPlanInput
      else
      and_then (collect_scoped_client_keys inps []) (\<lambda>local_client_keys.
      let existing_keys = existing_client_keys existing in
      and_then (for_each (\<lambda>k. if bt_get existing_keys k \<noteq> None then Err (DuplicateClientKey k) else Ok ())
                 local_client_keys) (\<lambda>_.
      for_each (\<lambda>inp. validate_scoped_input_node inp True existing scope_ids replacement_target
                 scope_root_id local_client_keys existing_keys) inps)))"

section \<open>The edits\<close>

definition preserve_scoped_root :: "PlanNodeSnapshot \<Rightarrow> u64 \<Rightarrow> PlanNodeSnapshot \<Rightarrow> PlanNodeSnapshot" where
  "preserve_scoped_root current revision replacement =
     replacement\<lparr>pn_parent_id := pn_parent_id current, pn_sibling_order := pn_sibling_order current,
       pn_objective := pn_objective current, pn_acceptance := pn_acceptance current,
       pn_executor_policy := pn_executor_policy current, pn_harness := pn_harness current,
       pn_recovery_policy := pn_recovery_policy current, pn_depends_on := pn_depends_on current,
       pn_result := pn_result current, pn_created_revision := pn_created_revision current,
       pn_updated_revision := revision, pn_status := pn_status current,
       pn_declared_status := pn_declared_status current,
       pn_execution_summary := pn_execution_summary current, pn_links := pn_links current\<rparr>"

definition preserve_scoped_runtime_state ::
    "PlanNodeSnapshot \<Rightarrow> u64 \<Rightarrow> PlanNodeSnapshot \<Rightarrow> PlanNodeSnapshot" where
  "preserve_scoped_runtime_state current revision replacement =
     replacement\<lparr>pn_result := pn_result current, pn_updated_revision := revision,
       pn_status := pn_status current, pn_execution_summary := pn_execution_summary current,
       pn_links := pn_links current\<rparr>"

definition scoped_client_keys :: "node_map \<Rightarrow> key_map \<Rightarrow> key_map" where
  "scoped_client_keys combined new_keys = bt_extend (existing_client_keys combined) new_keys"

definition define_scoped_children ::
    "PlanState \<Rightarrow> PlanNodeId \<Rightarrow> u64 \<Rightarrow> PlanNodeInput list \<Rightarrow> (PlanState \<times> key_map) plan_result" where
  "define_scoped_children st root_node_id expected_plan_revision children =
     (let sn = st_snapshot st in
      if ps_phase sn \<notin> {PlanPhase.Planning, PlanPhase.Executing}
      then Err (WrongPhase (ps_phase sn) ''define scoped children'')
      else if expected_plan_revision \<noteq> ps_revision sn
      then Err (StalePlanRevision expected_plan_revision (ps_revision sn))
      else if children = [] then Err EmptyDecomposition
      else if length children > MAX_DIRECT_CHILDREN
      then Err (TooManyChildren root_node_id (length children) MAX_DIRECT_CHILDREN)
      else
      let existing = node_map st; scope_ids = live_subtree_ids existing root_node_id;
          revision = ps_revision sn + 1 in
      and_then (validate_scoped_inputs children existing scope_ids None root_node_id) (\<lambda>_.
      and_then (flatten_children existing root_node_id (live_child_count existing root_node_id) None
                 (new_tree_builder (st_next_node_sequence st) revision existing) children) (\<lambda>b.
      let combined = bt_extend existing (tb_nodes b) in
      and_then (resolve_all_dependencies combined (tb_unresolved b)
                 (scoped_client_keys combined (tb_keys b)) (live_ids combined)) (\<lambda>combined.
      and_then (ok_or (ps_root_node_id sn) RootMissing) (\<lambda>plan_root_id.
      and_then (validate_graph combined plan_root_id) (\<lambda>_.
      and_then (validate_authorized_envelope combined plan_root_id
                 (ps_authorized_capability_envelope sn)) (\<lambda>_.
      Ok (st\<lparr>st_snapshot := sn\<lparr>ps_revision := revision, ps_nodes := ordered_nodes combined\<rparr>,
             st_next_node_sequence := tb_next_node_sequence b\<rparr>, tb_keys b))))))))"

definition preserve_replacement ::
    "node_map \<Rightarrow> PlanNodeId \<Rightarrow> PlanNodeId \<Rightarrow> u64 \<Rightarrow> node_map \<Rightarrow> node_map plan_result" where
  "preserve_replacement existing scope_root_id target_node_id revision replacement =
     (let replacement = map (\<lambda>(i, n).
            (i, if i \<noteq> scope_root_id
                then (case bt_get existing i of
                        Some current \<Rightarrow> preserve_scoped_runtime_state current revision n
                      | None \<Rightarrow> n)
                else n)) replacement in
      if target_node_id = scope_root_id then
        and_then (expect (bt_get existing scope_root_id)) (\<lambda>current.
        and_then (expect (bt_get replacement scope_root_id)) (\<lambda>n.
        Ok (bt_insert scope_root_id (preserve_scoped_root current revision n) replacement)))
      else Ok replacement)"

definition replace_scoped_subtree ::
    "PlanState \<Rightarrow> PlanNodeId \<Rightarrow> PlanNodeId \<Rightarrow> u64 \<Rightarrow> PlanNodeInput \<Rightarrow> (PlanState \<times> key_map) plan_result" where
  "replace_scoped_subtree st scope_root_id target_node_id expected_node_revision subtree =
     (let sn = st_snapshot st in
      if ps_phase sn \<notin> {PlanPhase.Planning, PlanPhase.Executing}
      then Err (WrongPhase (ps_phase sn) ''replace scoped subtree'')
      else
      let existing = node_map st; scope_ids = live_subtree_ids existing scope_root_id in
      if target_node_id \<notin> set scope_ids
      then Err (SubagentScopeViolation ''replacement target is outside the linked subtree'')
      else
      and_then (ok_or (bt_get existing target_node_id)
        (SubagentScopeViolation ''replacement target is not a live scoped node'')) (\<lambda>target.
      and_then (if target_node_id \<noteq> scope_root_id then ensure_mutable target else Ok ()) (\<lambda>_.
      if pn_updated_revision target \<noteq> expected_node_revision
      then Err (StaleNodeRevision target_node_id expected_node_revision (pn_updated_revision target))
      else if ni_id subtree \<noteq> Some target_node_id \<or> ni_client_key subtree \<noteq> None
      then Err (ReplacementRootIdentity target_node_id)
      else
      and_then (validate_scoped_inputs [subtree] existing scope_ids (Some target_node_id) scope_root_id) (\<lambda>_.
      let old_region = live_subtree_ids existing target_node_id; revision = ps_revision sn + 1 in
      and_then (for_each
        (\<lambda>i. and_then (expect (bt_get existing i)) (\<lambda>n.
             if i \<noteq> scope_root_id then ensure_mutable n else Ok ())) old_region) (\<lambda>_.
      let b = new_tree_builder (st_next_node_sequence st) revision existing;
          b = (if target_node_id = scope_root_id then allow_existing_node scope_root_id b else b) in
      and_then (depth_of existing target_node_id) (\<lambda>depth.
      and_then (flatten b subtree (pn_parent_id target) (pn_sibling_order target) depth) (\<lambda>(b, _).
      and_then (preserve_replacement existing scope_root_id target_node_id revision (tb_nodes b)) (\<lambda>replacement.
      let omitted = filter (\<lambda>i. i \<notin> set (bt_keys replacement)) old_region in
      and_then (check_incoming existing old_region omitted) (\<lambda>_.
      and_then (combine_replacement revision existing old_region replacement omitted) (\<lambda>combined.
      and_then (resolve_all_dependencies combined (tb_unresolved b)
                 (scoped_client_keys combined (tb_keys b)) (live_ids combined)) (\<lambda>combined.
      and_then (ok_or (ps_root_node_id sn) RootMissing) (\<lambda>plan_root_id.
      and_then (validate_graph combined plan_root_id) (\<lambda>_.
      Ok (st\<lparr>st_snapshot := sn\<lparr>ps_revision := revision, ps_nodes := ordered_nodes combined\<rparr>,
             st_next_node_sequence := tb_next_node_sequence b\<rparr>, tb_keys b))))))))))))))"

definition update_subagent ::
    "plan_env \<Rightarrow> PlanState \<Rightarrow> PlanId \<Rightarrow> PlanNodeId \<Rightarrow> PlanBindingId \<Rightarrow> SubagentPlanUpdateInput
     \<Rightarrow> (PlanState \<times> key_map) plan_result" where
  "update_subagent E st plan_id root_node_id binding_id inp =
     and_then (validate_reason (sp_reason inp)) (\<lambda>_.
     and_then (validate_subagent_scope st plan_id root_node_id binding_id) (\<lambda>_.
     and_then
       (case sp_change inp of
          DefineChildren expected children \<Rightarrow> define_scoped_children st root_node_id expected children
        | SubagentReplaceSubtree target expected subtree \<Rightarrow>
            replace_scoped_subtree st root_node_id target expected subtree) (\<lambda>(st, keys).
     and_then (record_reason E (sp_reason inp) st) (\<lambda>st.
     Ok (st, keys)))))"

end
