(* ===== verification/Plan_Links.thy ===== *)
theory Plan_Links
  imports Plan_Control Plan_Scoped
begin

text \<open>
  Links between plan nodes and running subagents: the state changes of
  \<^verbatim>\<open>plan/controller/transactions/subagents.rs\<close> (the code between cloning the active plan and handing
  it to persistence) and the view a linked subagent gets, \<^verbatim>\<open>plan/subagent_scope.rs\<close>.
\<close>

section \<open>Link projection\<close>

definition recompute_link_projection :: "PlanNodeSnapshot \<Rightarrow> PlanNodeSnapshot" where
  "recompute_link_projection n =
     (let summary = link_summary (pn_links n) in
      n\<lparr>pn_execution_summary := summary,
        pn_status :=
          (if es_active summary > 0 then PlanNodeStatus.InProgress
           else if es_failed summary > 0 \<or> es_cancelled summary > 0 then PlanNodeStatus.Failed
           else if es_blocked summary > 0 then PlanNodeStatus.Blocked
           else if es_completed summary > 0 then PlanNodeStatus.Completed
           else pn_declared_status n)\<rparr>)"

section \<open>Binding a subagent\<close>

definition supersede_link :: "PlanBindingId \<Rightarrow> PlanLinkSnapshot \<Rightarrow> PlanLinkSnapshot" where
  "supersede_link binding_id l =
     (if lk_superseded_by l = None
         \<and> lk_status l \<in> {PlanLinkStatus.Completed, PlanLinkStatus.Failed, PlanLinkStatus.Cancelled,
                          PlanLinkStatus.Blocked}
      then l\<lparr>lk_status := PlanLinkStatus.Superseded, lk_superseded_by := Some binding_id\<rparr> else l)"

definition bind_node :: "PlanLinkSnapshot \<Rightarrow> u64 \<Rightarrow> PlanNodeSnapshot \<Rightarrow> PlanNodeSnapshot" where
  "bind_node link revision n =
     recompute_link_projection
       (n\<lparr>pn_links := map (supersede_link (lk_binding_id link)) (pn_links n) @ [link],
          pn_updated_revision := revision\<rparr>)"

definition reopen_ancestor :: "u64 \<Rightarrow> PlanNodeSnapshot \<Rightarrow> PlanNodeSnapshot" where
  "reopen_ancestor revision n =
     (if pn_status n \<in> {PlanNodeStatus.Blocked, PlanNodeStatus.Failed}
      then set_status PlanNodeStatus.Expanded revision n else n)"

definition reopen_ancestors :: "u64 \<Rightarrow> PlanSnapshot \<Rightarrow> PlanNodeId list \<Rightarrow> PlanSnapshot plan_result" where
  "reopen_ancestors revision sn ids =
     fold_res (\<lambda>sn i. and_then (expect (find_node sn i)) (\<lambda>_.
       Ok (upd_node i (reopen_ancestor revision) sn))) sn ids"

definition stored_link :: "PlanSnapshot \<Rightarrow> PlanNodeId \<Rightarrow> PlanNodeId option" where
  "stored_link sn i = Option.bind (find_node sn i) pn_parent_id"

definition ancestor_ids :: "PlanSnapshot \<Rightarrow> PlanNodeId \<Rightarrow> PlanNodeId list plan_result" where
  "ancestor_ids sn i =
     returned (chase (stored_link sn) (Suc (length (ps_nodes sn))) (stored_link sn i))"

definition new_link ::
    "PlanSnapshot \<Rightarrow> PlanNodeId \<Rightarrow> SubagentId \<Rightarrow> SubagentTaskId \<Rightarrow> u64 \<Rightarrow> u64 \<Rightarrow> PlanLinkSnapshot" where
  "new_link sn node_id agent_id task_id revision now_ms =
     \<lparr>lk_plan_id = ps_plan_id sn, lk_node_id = node_id,
      lk_binding_id = ''plan-binding-'' @ show_u64 revision, lk_subagent_id = agent_id,
      lk_task_id = task_id, lk_status = PlanLinkStatus.Active, lk_linked_at_ms = now_ms,
      lk_terminal_at_ms = None, lk_superseded_by = None\<rparr>"

definition bind_subagent ::
    "plan_env \<Rightarrow> PlanState \<Rightarrow> string \<Rightarrow> SubagentId \<Rightarrow> SubagentTaskId \<Rightarrow> u64
     \<Rightarrow> (PlanState \<times> PlanLinkSnapshot) plan_result" where
  "bind_subagent E st client_key agent_id task_id now_ms =
     and_then (advance_revision E ''runtime linked a subagent to this Plan task'' (st_snapshot st))
       (\<lambda>(sn, revision).
     and_then (ok_or (List.find (\<lambda>n. pn_client_key n = Some client_key) (ps_nodes sn))
                (UnknownClientKey client_key)) (\<lambda>found.
     let node_id = pn_id found in
     and_then (ancestor_ids sn node_id) (\<lambda>ancestors.
     and_then (expect (find_node sn node_id)) (\<lambda>_.
     let link = new_link sn node_id agent_id task_id revision now_ms;
         sn = upd_node node_id (bind_node link revision) sn in
     and_then (reopen_ancestors revision sn ancestors) (\<lambda>sn.
     let sn = (if ps_phase sn = PlanPhase.Blocked
               then sn\<lparr>ps_phase := PlanPhase.Executing, ps_scheduler_status := PlanSchedulerStatus.Active\<rparr>
               else sn) in
     and_then (refresh_parent_states revision sn) (\<lambda>sn.
     Ok (st\<lparr>st_snapshot := sn\<rparr>, link)))))))"

section \<open>Link lifecycle\<close>

definition set_link_status ::
    "PlanBindingId \<Rightarrow> PlanLinkStatus \<Rightarrow> u64 \<Rightarrow> u64 \<Rightarrow> PlanNodeSnapshot \<Rightarrow> PlanNodeSnapshot" where
  "set_link_status binding_id status revision now_ms n =
     recompute_link_projection
       (n\<lparr>pn_links := update_first (\<lambda>l. lk_binding_id l = binding_id)
            (\<lambda>l. l\<lparr>lk_status := status,
                   lk_terminal_at_ms := (if status = PlanLinkStatus.Active then None else Some now_ms)\<rparr>)
            (pn_links n),
          pn_updated_revision := revision\<rparr>)"

definition has_binding :: "PlanBindingId \<Rightarrow> PlanNodeSnapshot \<Rightarrow> bool" where
  "has_binding binding_id n \<longleftrightarrow> list_ex (\<lambda>l. lk_binding_id l = binding_id) (pn_links n)"

definition update_subagent_link ::
    "plan_env \<Rightarrow> PlanState \<Rightarrow> PlanBindingId \<Rightarrow> PlanLinkStatus \<Rightarrow> u64 \<Rightarrow> PlanState plan_result" where
  "update_subagent_link E st binding_id status now_ms =
     and_then (advance_revision E ''runtime updated linked subagent state'' (st_snapshot st))
       (\<lambda>(sn, revision).
     and_then (ok_or (List.find (has_binding binding_id) (ps_nodes sn))
                (UnknownNode (PlanNodeId ''linked-node-not-found''))) (\<lambda>_.
     let sn = sn\<lparr>ps_nodes := update_first (has_binding binding_id)
                   (set_link_status binding_id status revision now_ms) (ps_nodes sn)\<rparr> in
     and_then (refresh_parent_states revision sn) (\<lambda>sn.
     Ok (st\<lparr>st_snapshot := refresh_terminal_phase sn\<rparr>))))"

section \<open>The view of a linked subagent\<close>

function subtree_search :: "node_map \<Rightarrow> PlanNodeId \<Rightarrow> PlanNodeId list \<Rightarrow> PlanNodeId option \<Rightarrow> bool" where
  "subtree_search nodes root visited None = False"
| "subtree_search nodes root visited (Some i) =
     (if i \<in> set visited then False
      else if i = root then True
      else subtree_search nodes root (i # visited) (parent_of nodes i))"
  by pat_completeness auto
termination
proof (relation "measure (\<lambda>(nodes, root, visited, cursor).
    card (fst ` set nodes - set visited) + card (fst ` set nodes - set visited)
    + (case cursor of None \<Rightarrow> 0 | Some i \<Rightarrow> if i \<in> fst ` set nodes then 1 else 2))", goal_cases)
  case (2 nodes root visited i)
  let ?K = "fst ` set nodes"
  show ?case
  proof (cases "i \<in> ?K")
    case True
    have "card (?K - set (i # visited)) < card (?K - set visited)"
      by (rule psubset_card_mono) (use 2 True in auto)
    then show ?thesis using True by (auto split: option.splits)
  next
    case False
    then have "bt_get nodes i = None" by (simp add: map_of_eq_None_iff)
    then have "parent_of nodes i = None" by (simp add: parent_of_def)
    moreover have "card (?K - set (i # visited)) \<le> card (?K - set visited)"
      by (rule card_mono) auto
    ultimately show ?thesis using False by simp
  qed
qed simp

definition is_in_subtree :: "node_map \<Rightarrow> PlanNodeId \<Rightarrow> PlanNodeId \<Rightarrow> bool" where
  "is_in_subtree nodes candidate root = subtree_search nodes root [] (Some candidate)"

definition project_node ::
    "PlanNodeId \<Rightarrow> PlanBindingId \<Rightarrow> PlanNodeId list \<Rightarrow> PlanNodeSnapshot \<Rightarrow> PlanNodeSnapshot" where
  "project_node root_node_id binding_id scoped_ids n =
     (let n = (if pn_id n = root_node_id then n\<lparr>pn_parent_id := None, pn_sibling_order := 0\<rparr>
               else n\<lparr>pn_depends_on := filter (\<lambda>d. d \<in> set scoped_ids) (pn_depends_on n)\<rparr>) in
      n\<lparr>pn_links := filter (\<lambda>l. lk_binding_id l = binding_id) (pn_links n)\<rparr>)"

definition project_snapshot ::
    "PlanSnapshot \<Rightarrow> PlanId \<Rightarrow> PlanNodeId \<Rightarrow> PlanBindingId \<Rightarrow> PlanSnapshot plan_result" where
  "project_snapshot sn plan_id root_node_id binding_id =
     (if ps_plan_id sn \<noteq> plan_id
      then Err (SubagentScopeViolation ''scope plan id does not match the active plan'')
      else
      and_then (ok_or (find_node sn root_node_id)
                 (SubagentScopeViolation ''scope root node does not exist'')) (\<lambda>root.
      if \<not> list_ex (\<lambda>l. lk_plan_id l = ps_plan_id sn \<and> lk_node_id l = root_node_id
              \<and> lk_binding_id l = binding_id \<and> lk_status l = PlanLinkStatus.Active
              \<and> lk_superseded_by l = None) (pn_links root)
      then Err (SubagentScopeViolation ''scope root is not owned by the linked binding'')
      else
      let nodes = collect_nodes (ps_nodes sn);
          scoped_ids = filter (\<lambda>i. is_in_subtree nodes i root_node_id) (bt_keys nodes) in
      Ok (sn\<lparr>ps_nodes := map (project_node root_node_id binding_id scoped_ids)
                (filter (\<lambda>n. pn_id n \<in> set scoped_ids) (ps_nodes sn)),
             ps_root_node_id := Some root_node_id, ps_coordinator_node_id := None,
             ps_attempts := filter (\<lambda>a. at_node_id a \<in> set scoped_ids) (ps_attempts sn),
             ps_leases := filter (\<lambda>l. le_node_id l \<in> set scoped_ids) (ps_leases sn),
             ps_attempt_progress := filter (\<lambda>p. pr_node_id p \<in> set scoped_ids) (ps_attempt_progress sn),
             ps_directives := filter (\<lambda>d. di_node_id d \<in> set scoped_ids) (ps_directives sn)\<rparr>)))"

end
