(* ===== verification/Plan_Invariant.thy ===== *)
theory Plan_Invariant
  imports Plan_Links
begin

text \<open>
  The invariant of a plan in execution and its preservation by the operations on attempts, leases,
  directives and links. \<open>records_ok\<close> relates attempts and leases, \<open>node_ok\<close> restricts single nodes, and
  \<open>exec_ok\<close> ties both to a well-formed plan.
\<close>

section \<open>Attempts and leases\<close>

definition is_open :: "PlanAttemptSnapshot \<Rightarrow> bool" where
  "is_open a \<longleftrightarrow> at_outcome a = None"

definition same_attempt :: "PlanAttemptSnapshot \<Rightarrow> PlanAttemptSnapshot \<Rightarrow> bool" where
  "same_attempt a b \<longleftrightarrow>
     at_attempt_id b = at_attempt_id a \<and> at_node_id b = at_node_id a
     \<and> at_node_revision b = at_node_revision a \<and> at_lease_id b = at_lease_id a
     \<and> at_executor_session_id b = at_executor_session_id a"

definition same_lease :: "PlanLeaseSnapshot \<Rightarrow> PlanLeaseSnapshot \<Rightarrow> bool" where
  "same_lease k l \<longleftrightarrow>
     le_lease_id l = le_lease_id k \<and> le_attempt_id l = le_attempt_id k \<and> le_node_id l = le_node_id k
     \<and> le_node_revision l = le_node_revision k
     \<and> le_executor_session_id l = le_executor_session_id k"

definition linked :: "PlanAttemptSnapshot \<Rightarrow> PlanLeaseSnapshot \<Rightarrow> bool" where
  "linked a l \<longleftrightarrow>
     at_lease_id a = Some (le_lease_id l) \<and> le_attempt_id l = at_attempt_id a
     \<and> le_node_id l = at_node_id a \<and> le_node_revision l = at_node_revision a
     \<and> le_executor_session_id l = at_executor_session_id a"

definition agree :: "PlanAttemptSnapshot \<Rightarrow> PlanLeaseSnapshot \<Rightarrow> bool" where
  "agree a l \<longleftrightarrow> (le_status l = PlanLeaseStatus.Live \<longleftrightarrow> is_open a)"

definition records_ok :: "PlanAttemptSnapshot list \<Rightarrow> PlanLeaseSnapshot list \<Rightarrow> bool" where
  "records_ok as ls \<longleftrightarrow>
     distinct (map at_attempt_id as) \<and> distinct (map le_lease_id ls)
     \<and> distinct (map at_node_id (filter is_open as))
     \<and> distinct (map at_executor_session_id (filter is_open as))
     \<and> (\<forall>l\<in>set ls. \<exists>a\<in>set as. linked a l \<and> agree a l)
     \<and> (\<forall>a\<in>set as. at_lease_id a \<noteq> None \<longrightarrow> (\<exists>l\<in>set ls. linked a l))"

lemma records_ok_Nil [simp]: "records_ok [] []"
  by (simp add: records_ok_def)

lemma same_attempt_refl [simp]: "same_attempt a a"
  by (simp add: same_attempt_def)

lemma same_lease_refl [simp]: "same_lease l l"
  by (simp add: same_lease_def)

lemma linked_same: "same_attempt a b \<Longrightarrow> same_lease k l \<Longrightarrow> linked b l = linked a k"
  by (auto simp: same_attempt_def same_lease_def linked_def)

lemma distinct_map_eq: "distinct (map f xs) \<Longrightarrow> x \<in> set xs \<Longrightarrow> y \<in> set xs \<Longrightarrow> f x = f y \<Longrightarrow> x = y"
  by (auto simp: distinct_map dest: inj_onD)

lemma linked_agree:
  assumes "records_ok as ls" and "a \<in> set as" and "l \<in> set ls" and "linked a l"
  shows "agree a l"
proof -
  obtain b where b: "b \<in> set as" "linked b l" "agree b l" using assms(1,3) by (auto simp: records_ok_def)
  have "b = a"
    by (rule distinct_map_eq [of at_attempt_id as]) (use assms b in \<open>auto simp: records_ok_def linked_def\<close>)
  with b show ?thesis by simp
qed

lemma lease_of_attempt:
  assumes "records_ok as ls" and "a \<in> set as" and "l \<in> set ls" and "at_lease_id a = Some (le_lease_id l)"
  shows "linked a l"
proof -
  obtain k where k: "k \<in> set ls" "linked a k" using assms(1,2,4) by (fastforce simp: records_ok_def)
  have "k = l"
    by (rule distinct_map_eq [of le_lease_id ls]) (use assms k in \<open>auto simp: records_ok_def linked_def\<close>)
  with k show ?thesis by simp
qed

lemma list_all2_ex1: "list_all2 R xs ys \<Longrightarrow> x \<in> set xs \<Longrightarrow> \<exists>y\<in>set ys. R x y"
  by (induction rule: list_all2_induct) auto

lemma list_all2_ex2: "list_all2 R xs ys \<Longrightarrow> y \<in> set ys \<Longrightarrow> \<exists>x\<in>set xs. R x y"
  by (induction rule: list_all2_induct) auto

lemma map_list_all2: "list_all2 R xs ys \<Longrightarrow> (\<And>x y. R x y \<Longrightarrow> f y = f x) \<Longrightarrow> map f ys = map f xs"
  by (induction rule: list_all2_induct) auto

lemma distinct_filter_shrinks:
  assumes "list_all2 R xs ys" and "\<And>x y. R x y \<Longrightarrow> f y = f x \<and> (P y \<longrightarrow> P x)"
    and "distinct (map f (filter P xs))"
  shows "distinct (map f (filter P ys))"
proof -
  have "distinct (map f (filter P ys)) \<and> f ` {y \<in> set ys. P y} \<subseteq> f ` {x \<in> set xs. P x}"
    using assms(1,3)
  proof (induction rule: list_all2_induct)
    case (Cons x xs y ys)
    have R: "f y = f x" "P y \<longrightarrow> P x" using assms(2) [OF Cons.hyps(1)] by auto
    have IH: "distinct (map f (filter P ys))" "f ` {y \<in> set ys. P y} \<subseteq> f ` {x \<in> set xs. P x}"
      using Cons by (auto split: if_splits)
    with Cons.prems R show ?case by (auto split: if_splits)
  qed simp
  then show ?thesis by blast
qed

text \<open>
  The one rule for every operation on existing records: identities stay, attempts may only be
  closed, and where an attempt and its lease meet they still agree.
\<close>

lemma records_step:
  assumes ok: "records_ok as ls"
    and as: "list_all2 (\<lambda>a b. same_attempt a b \<and> (is_open b \<longrightarrow> is_open a)) as as'"
    and ls: "list_all2 same_lease ls ls'"
    and agree: "\<And>a l. a \<in> set as' \<Longrightarrow> l \<in> set ls' \<Longrightarrow> linked a l \<Longrightarrow> agree a l"
  shows "records_ok as' ls'"
proof -
  have "distinct (map at_attempt_id as')"
    using ok map_list_all2 [OF as, of at_attempt_id] by (simp add: records_ok_def same_attempt_def)
  moreover have "distinct (map le_lease_id ls')"
    using ok map_list_all2 [OF ls, of le_lease_id] by (simp add: records_ok_def same_lease_def)
  moreover have "distinct (map at_node_id (filter is_open as'))"
    by (rule distinct_filter_shrinks [OF as]) (use ok in \<open>auto simp: records_ok_def same_attempt_def\<close>)
  moreover have "distinct (map at_executor_session_id (filter is_open as'))"
    by (rule distinct_filter_shrinks [OF as]) (use ok in \<open>auto simp: records_ok_def same_attempt_def\<close>)
  moreover have "\<exists>a\<in>set as'. linked a l' \<and> agree a l'" if l': "l' \<in> set ls'" for l'
  proof -
    obtain l where l: "l \<in> set ls" "same_lease l l'"
      using list_all2_ex2 [OF ls l'] by blast
    then obtain a where a: "a \<in> set as" "linked a l" using ok by (auto simp: records_ok_def)
    then obtain b where b: "b \<in> set as'" "same_attempt a b"
      using list_all2_ex1 [OF as] by blast
    with a l have "linked b l'" by (simp add: linked_same)
    with agree [OF b(1) l'] b show ?thesis by blast
  qed
  moreover have "\<exists>l\<in>set ls'. linked b l" if b: "b \<in> set as'" "at_lease_id b \<noteq> None" for b
  proof -
    obtain a where a: "a \<in> set as" "same_attempt a b"
      using list_all2_ex2 [OF as b(1)] by blast
    then obtain l where l: "l \<in> set ls" "linked a l"
      using ok b(2) by (auto simp: records_ok_def same_attempt_def)
    then obtain l' where l': "l' \<in> set ls'" "same_lease l l'"
      using list_all2_ex1 [OF ls] by blast
    with a l have "linked b l'" by (simp add: linked_same)
    with l' show ?thesis by blast
  qed
  ultimately show ?thesis by (simp add: records_ok_def)
qed

lemma records_frame:
  assumes ok: "records_ok as ls"
    and as: "list_all2 (\<lambda>a b. same_attempt a b \<and> is_open b = is_open a) as as'"
    and ls: "list_all2 (\<lambda>k l. same_lease k l
               \<and> (le_status l = PlanLeaseStatus.Live) = (le_status k = PlanLeaseStatus.Live)) ls ls'"
  shows "records_ok as' ls'"
proof (rule records_step [OF ok])
  show "list_all2 (\<lambda>a b. same_attempt a b \<and> (is_open b \<longrightarrow> is_open a)) as as'"
    using as by (rule list_all2_mono) auto
  show "list_all2 same_lease ls ls'" using ls by (rule list_all2_mono) auto
  fix b l' assume b: "b \<in> set as'" and l': "l' \<in> set ls'" and lk: "linked b l'"
  obtain a where a: "a \<in> set as" "same_attempt a b" "is_open b = is_open a"
    using list_all2_ex2 [OF as b] by blast
  obtain l where l: "l \<in> set ls" "same_lease l l'"
      "(le_status l' = PlanLeaseStatus.Live) = (le_status l = PlanLeaseStatus.Live)"
    using list_all2_ex2 [OF ls l'] by blast
  have "agree a l" by (rule linked_agree [OF ok a(1) l(1)]) (use lk a l in \<open>simp add: linked_same\<close>)
  with a l show "agree b l'" by (simp add: agree_def)
qed

text \<open>Closing the attempt at \<open>k\<close> together with its lease.\<close>

lemma records_close:
  assumes ok: "records_ok as ls" and k: "k < length as"
    and a': "same_attempt (as ! k) a'" "\<not> is_open a'"
    and ls: "list_all2 (\<lambda>l l'. same_lease l l'
        \<and> (le_status l' = PlanLeaseStatus.Live) =
          (le_status l = PlanLeaseStatus.Live \<and> at_lease_id (as ! k) \<noteq> Some (le_lease_id l))) ls ls'"
  shows "records_ok (as[k := a']) ls'"
proof (rule records_step [OF ok])
  show "list_all2 (\<lambda>a b. same_attempt a b \<and> (is_open b \<longrightarrow> is_open a)) as (as[k := a'])"
    using a' k by (auto simp: list_all2_conv_all_nth nth_list_update)
  show "list_all2 same_lease ls ls'" using ls by (rule list_all2_mono) auto
  fix b l' assume b: "b \<in> set (as[k := a'])" and l': "l' \<in> set ls'" and lk: "linked b l'"
  obtain l where l: "l \<in> set ls" "same_lease l l'" and live: "(le_status l' = PlanLeaseStatus.Live) =
      (le_status l = PlanLeaseStatus.Live \<and> at_lease_id (as ! k) \<noteq> Some (le_lease_id l))"
    using list_all2_ex2 [OF ls l'] by blast
  obtain m where m: "m < length as" "b = (if m = k then a' else as ! m)"
    using b k by (auto simp: in_set_conv_nth nth_list_update split: if_splits)
  have here: "same_attempt (as ! m) b" using m a' by auto
  then have lk': "linked (as ! m) l" using lk linked_same [OF here l(2)] by simp
  have mem: "as ! m \<in> set as" "as ! k \<in> set as" using m k by auto
  show "agree b l'"
  proof (cases "m = k")
    case True
    then have "at_lease_id (as ! k) = Some (le_lease_id l)" using lk' by (simp add: linked_def)
    with True m a' live show ?thesis by (simp add: agree_def)
  next
    case False
    have "at_lease_id (as ! k) \<noteq> Some (le_lease_id l)"
    proof
      assume "at_lease_id (as ! k) = Some (le_lease_id l)"
      then have "linked (as ! k) l" by (rule lease_of_attempt [OF ok mem(2) l(1)])
      with lk' have "at_attempt_id (as ! m) = at_attempt_id (as ! k)" by (simp add: linked_def)
      moreover have "distinct (map at_attempt_id as)" using ok by (simp add: records_ok_def)
      ultimately have "m = k" using m(1) k by (metis length_map nth_eq_iff_index_eq nth_map)
      with False show False by simp
    qed
    with live linked_agree [OF ok mem(1) l(1) lk'] m False show ?thesis by (simp add: agree_def)
  qed
qed

lemma records_start:
  assumes ok: "records_ok as ls" and a: "is_open a" "at_attempt_id a \<notin> at_attempt_id ` set as"
    and fresh: "\<And>b. b \<in> set as \<Longrightarrow> is_open b \<Longrightarrow>
      at_node_id b \<noteq> at_node_id a \<and> at_executor_session_id b \<noteq> at_executor_session_id a"
    and new: "new = [] \<and> at_lease_id a = None
      \<or> (\<exists>l. new = [l] \<and> linked a l \<and> le_status l = PlanLeaseStatus.Live
            \<and> le_lease_id l \<notin> le_lease_id ` set ls)"
  shows "records_ok (as @ [a]) (ls @ new)"
proof -
  have "at_node_id a \<notin> at_node_id ` {b \<in> set as. is_open b}"
    "at_executor_session_id a \<notin> at_executor_session_id ` {b \<in> set as. is_open b}"
    by (fastforce dest: fresh)+
  then have "distinct (map at_node_id (filter is_open (as @ [a])))"
    "distinct (map at_executor_session_id (filter is_open (as @ [a])))"
    "distinct (map at_attempt_id (as @ [a]))"
    using ok a by (auto simp: records_ok_def)
  moreover have "distinct (map le_lease_id (ls @ new))"
  proof -
    have "distinct (map le_lease_id ls)" using ok by (simp add: records_ok_def)
    with new show ?thesis by (elim disjE exE conjE) (simp_all add: image_iff)
  qed
  moreover have "\<forall>l\<in>set (ls @ new). \<exists>b\<in>set (as @ [a]). linked b l \<and> agree b l"
    using ok new a by (auto simp: records_ok_def agree_def)
  moreover have "\<forall>b\<in>set (as @ [a]). at_lease_id b \<noteq> None \<longrightarrow> (\<exists>l\<in>set (ls @ new). linked b l)"
    using ok new by (auto simp: records_ok_def)
  ultimately show ?thesis by (simp only: records_ok_def simp_thms)
qed

section \<open>Nodes\<close>

text \<open>
  No node declares itself superseded, a link that still runs has not been replaced, and a
  superseded node has no running link.
\<close>

definition node_ok :: "PlanNodeSnapshot \<Rightarrow> bool" where
  "node_ok n \<longleftrightarrow>
     pn_declared_status n \<noteq> PlanNodeStatus.Superseded
     \<and> (\<forall>l\<in>set (pn_links n). lk_status l = PlanLinkStatus.Active \<longrightarrow> lk_superseded_by l = None)
     \<and> (pn_status n = PlanNodeStatus.Superseded \<longrightarrow> \<not> has_active_link n)"

definition busy :: "PlanSnapshot \<Rightarrow> PlanNodeId \<Rightarrow> bool" where
  "busy sn i \<longleftrightarrow> (\<exists>n\<in>set (ps_nodes sn). pn_id n = i \<and> pn_status n = PlanNodeStatus.InProgress)"

definition open_nodes :: "PlanSnapshot \<Rightarrow> PlanNodeId set" where
  "open_nodes sn = at_node_id ` {a \<in> set (ps_attempts sn). is_open a}"

section \<open>The invariant\<close>

definition exec_ok :: "PlanSnapshot \<Rightarrow> bool" where
  "exec_ok sn \<longleftrightarrow>
     plan_ok sn \<and> (\<forall>n\<in>set (ps_nodes sn). node_ok n)
     \<and> records_ok (ps_attempts sn) (ps_leases sn)
     \<and> map pr_attempt_id (ps_attempt_progress sn) = map at_attempt_id (ps_attempts sn)
     \<and> (\<forall>i\<in>open_nodes sn. busy sn i)
     \<and> (ps_phase sn = PlanPhase.Planning \<longrightarrow> open_nodes sn = {})"

lemma exec_okD:
  assumes "exec_ok sn"
  shows "plan_ok sn" "records_ok (ps_attempts sn) (ps_leases sn)"
    "distinct (map pn_id (ps_nodes sn))" "n \<in> set (ps_nodes sn) \<Longrightarrow> node_ok n"
    "map pr_attempt_id (ps_attempt_progress sn) = map at_attempt_id (ps_attempts sn)"
    "i \<in> open_nodes sn \<Longrightarrow> busy sn i" "ps_phase sn = PlanPhase.Planning \<Longrightarrow> open_nodes sn = {}"
  using assms by (auto simp: exec_ok_def plan_ok_def)

text \<open>Changes that do not touch nodes, phase or envelope.\<close>

lemma exec_ok_records:
  assumes "exec_ok sn" and "ps_nodes sn' = ps_nodes sn" and "ps_root_node_id sn' = ps_root_node_id sn"
    and "ps_authorized_capability_envelope sn' = ps_authorized_capability_envelope sn"
    and "records_ok (ps_attempts sn') (ps_leases sn')"
    and "map pr_attempt_id (ps_attempt_progress sn') = map at_attempt_id (ps_attempts sn')"
    and "open_nodes sn' \<subseteq> open_nodes sn"
    and "ps_phase sn' = PlanPhase.Planning \<longrightarrow> open_nodes sn' = {}"
  shows "exec_ok sn'"
  using assms plan_ok_same [of sn sn'] by (auto simp: exec_ok_def busy_def)

text \<open>Changes of nodes that keep the shape of the plan and the busy nodes.\<close>

lemma exec_ok_nodes:
  assumes "exec_ok sn" and "list_all2 same_shape (ps_nodes sn) (ps_nodes sn')"
    and "ps_root_node_id sn' = ps_root_node_id sn"
    and "ps_authorized_capability_envelope sn' = ps_authorized_capability_envelope sn"
    and "\<forall>n\<in>set (ps_nodes sn'). node_ok n"
    and "ps_attempts sn' = ps_attempts sn" and "ps_leases sn' = ps_leases sn"
    and "map pr_attempt_id (ps_attempt_progress sn') = map pr_attempt_id (ps_attempt_progress sn)"
    and "\<forall>i\<in>open_nodes sn. busy sn' i" and "ps_phase sn' = PlanPhase.Planning \<longrightarrow> open_nodes sn = {}"
  shows "exec_ok sn'"
proof -
  have "open_nodes sn' = open_nodes sn" using assms(6) by (simp add: open_nodes_def)
  with assms plan_ok_shape [of sn sn'] show ?thesis by (auto simp: exec_ok_def)
qed

lemma node_ok_refreshed: "refreshed n n' \<Longrightarrow> node_ok n \<Longrightarrow> node_ok n'"
  by (auto simp: refreshed_def node_ok_def has_active_link_def is_live_def)

lemma refresh_exec_ok:
  assumes "refresh_parent_states r sn = Ok sn'" and "exec_ok sn"
  shows "exec_ok sn'"
proof -
  note d = exec_okD(3) [OF assms(2)]
  obtain mid where sn': "sn' = mid\<lparr>ps_phase := root_phase mid (ps_phase sn)\<rparr>" and mid: "only_nodes_moved sn mid"
    using refresh_parent_statesE [OF assms(1) d] by blast
  have ref: "list_all2 refreshed (ps_nodes sn) (ps_nodes sn')"
    by (rule refresh_parent_states_refreshed [OF assms(1) d])
  show ?thesis
  proof (rule exec_ok_nodes [OF assms(2)])
    show "list_all2 same_shape (ps_nodes sn) (ps_nodes sn')"
      using ref by (rule list_all2_mono) (rule refreshed_fields(5))
    show "\<forall>n\<in>set (ps_nodes sn'). node_ok n"
      using list_all2_ex2 [OF ref] exec_okD(4) [OF assms(2)] node_ok_refreshed by blast
    show "\<forall>i\<in>open_nodes sn. busy sn' i"
    proof
      fix i assume "i \<in> open_nodes sn"
      then obtain n where n: "n \<in> set (ps_nodes sn)" "pn_id n = i" "pn_status n = PlanNodeStatus.InProgress"
        using exec_okD(6) [OF assms(2)] by (auto simp: busy_def)
      then obtain n' where n': "n' \<in> set (ps_nodes sn')" "refreshed n n'" using list_all2_ex1 [OF ref] by blast
      with n have "n' = n" using refreshed_fields(6) [of n n'] by (simp add: waiting_def)
      with n n' show "busy sn' i" by (auto simp: busy_def)
    qed
    show "ps_phase sn' = PlanPhase.Planning \<longrightarrow> open_nodes sn = {}"
      using exec_okD(7) [OF assms(2)] sn'
      by (auto simp: root_phase_def split: option.splits PlanNodeStatus.splits)
  qed (use sn' mid in \<open>auto simp: only_nodes_moved_fields\<close>)
qed

lemma refresh_terminal_phase_exec_ok: "exec_ok sn \<Longrightarrow> exec_ok (refresh_terminal_phase sn)"
proof -
  assume ok: "exec_ok sn"
  have ph: "root_phase sn p = PlanPhase.Planning \<Longrightarrow> p = PlanPhase.Planning" for p
    by (auto simp: root_phase_def split: option.splits PlanNodeStatus.splits)
  show ?thesis unfolding refresh_terminal_phase_eq
    by (rule exec_ok_records [OF ok]) (use exec_okD [OF ok] ph in \<open>auto simp: open_nodes_def\<close>)
qed

lemma settle_exec_ok: "exec_ok sn \<Longrightarrow> exec_ok (settle_draining_phase sn)"
proof -
  assume ok: "exec_ok sn"
  show ?thesis unfolding settle_draining_phase_def
    by (auto intro!: exec_ok_records [OF ok] ok exec_okD(2,5) [OF ok] simp: open_nodes_def)
qed

lemma exec_ok_empty: "exec_ok (st_snapshot (empty_plan plan_id source policy))"
  unfolding exec_ok_def using plan_ok_empty [of plan_id source policy]
  by (simp add: empty_plan_def open_nodes_def)

section \<open>Building blocks\<close>

lemma advance_revisionE:
  assumes "advance_revision E s sn = Ok (sn', r)"
  obtains x where "sn' = sn\<lparr>ps_revision := saturating_add (ps_revision sn) 1, ps_revision_summaries := x\<rparr>"
    "r = saturating_add (ps_revision sn) 1" "validate_snapshot_limits E sn' = Ok ()"
proof -
  let ?sn1 = "sn\<lparr>ps_revision := saturating_add (ps_revision sn) 1\<rparr>"
  obtain s1 where one: "append_revision_summary s ?sn1 = Ok s1" and limits: "validate_snapshot_limits E s1 = Ok ()"
    and two: "sn' = s1" "r = ps_revision s1"
    using assms by (auto simp: advance_revision_def and_then_Ok_iff)
  from one obtain y where "s1 = ?sn1\<lparr>ps_revision_summaries := bounded_push y (ps_revision_summaries sn)\<rparr>"
    unfolding append_revision_summary_def and_then_Ok_iff by force
  with two limits show thesis by (intro that) auto
qed

lemma exec_ok_revision [simp]:
  "exec_ok (sn\<lparr>ps_revision := v, ps_revision_summaries := x\<rparr>) = exec_ok sn"
  "exec_ok (sn\<lparr>ps_directives := ds\<rparr>) = exec_ok sn"
  "exec_ok (sn\<lparr>ps_revision := v\<rparr>) = exec_ok sn"
  "exec_ok (sn\<lparr>ps_revision_summaries := x\<rparr>) = exec_ok sn"
  "exec_ok (sn\<lparr>ps_scheduler_status := c\<rparr>) = exec_ok sn"
  by (simp_all add: exec_ok_def plan_ok_def busy_def open_nodes_def)

lemma advance_exec_ok: "advance_revision E s sn = Ok (sn', r) \<Longrightarrow> exec_ok sn' = exec_ok sn"
  by (erule advance_revisionE) simp

lemma list_all2_update_first:
  assumes "\<And>x. x \<in> set xs \<Longrightarrow> p x \<Longrightarrow> R x (f x)" and "\<And>x. R x x"
  shows "list_all2 R xs (update_first p f xs)"
  using assms(1) by (induction xs) (auto simp: assms(2) list_all2_same)

lemma update_first_cases:
  "y \<in> set (update_first p f xs) \<Longrightarrow> y \<in> set xs \<or> (\<exists>x\<in>set xs. p x \<and> y = f x)"
  by (induction xs) (auto split: if_splits)

lemma update_first_other: "x \<in> set xs \<Longrightarrow> \<not> p x \<Longrightarrow> x \<in> set (update_first p f xs)"
  by (induction xs) auto

lemma update_first_found: "List.find p xs = Some x \<Longrightarrow> f x \<in> set (update_first p f xs)"
  by (induction xs) (auto split: if_splits)

definition restatus :: "PlanNodeSnapshot \<Rightarrow> PlanNodeSnapshot \<Rightarrow> bool" where
  "restatus n n' \<longleftrightarrow> is_live n' \<and>
     (\<exists>s vr res. n' = n\<lparr>pn_status := s, pn_updated_revision := vr, pn_result := res\<rparr>)"

lemma restatus_shape: "restatus n n' \<Longrightarrow> is_live n \<Longrightarrow> same_shape n n'"
  by (auto simp: restatus_def same_shape_def is_live_def)

lemma restatus_node_ok: "restatus n n' \<Longrightarrow> node_ok n \<Longrightarrow> node_ok n'"
  by (auto simp: restatus_def node_ok_def has_active_link_def is_live_def)

lemma restatus_id: "restatus n n' \<Longrightarrow> pn_id n' = pn_id n"
  by (auto simp: restatus_def)

lemma restatus_set_status [intro]: "s \<noteq> PlanNodeStatus.Superseded \<Longrightarrow> restatus n (set_status s vr n)"
  by (auto simp: restatus_def set_status_def is_live_def intro!: exI [of _ s] exI [of _ vr] exI [of _ "pn_result n"])

lemma busy_live: "exec_ok sn \<Longrightarrow> busy sn i \<Longrightarrow> n \<in> set (ps_nodes sn) \<Longrightarrow> pn_id n = i \<Longrightarrow>
    pn_status n = PlanNodeStatus.InProgress"
  by (auto simp: busy_def dest!: exec_okD(3) dest: distinct_map_eq)

text \<open>
  Moving the status of one live node, when no open attempt depends on it (or it becomes busy).
\<close>

lemma exec_ok_upd_node:
  assumes ok: "exec_ok sn"
    and f: "\<And>n. n \<in> set (ps_nodes sn) \<Longrightarrow> pn_id n = i \<Longrightarrow> is_live n \<and> restatus n (f n)"
    and idle: "i \<notin> open_nodes sn"
  shows "exec_ok (upd_node i f sn)"
proof (rule exec_ok_nodes [OF ok])
  show "list_all2 same_shape (ps_nodes sn) (ps_nodes (upd_node i f sn))"
    unfolding upd_node_def using f by (simp add: list_all2_update_first restatus_shape)
  show "\<forall>n\<in>set (ps_nodes (upd_node i f sn)). node_ok n"
    using f exec_okD(4) [OF ok]
    by (auto simp: upd_node_def intro: restatus_node_ok dest!: update_first_cases)
  show "\<forall>j\<in>open_nodes sn. busy (upd_node i f sn) j"
  proof
    fix j assume j: "j \<in> open_nodes sn"
    then obtain n where "n \<in> set (ps_nodes sn)" "pn_id n = j" "pn_status n = PlanNodeStatus.InProgress"
      using exec_okD(6) [OF ok] by (auto simp: busy_def)
    moreover have "j \<noteq> i" using j idle by auto
    ultimately show "busy (upd_node i f sn) j"
      by (auto simp: busy_def upd_node_def intro!: bexI [of _ n] update_first_other)
  qed
  show "ps_phase (upd_node i f sn) = PlanPhase.Planning \<longrightarrow> open_nodes sn = {}"
    using exec_okD(7) [OF ok] by (simp add: upd_node_def)
qed (simp_all add: upd_node_def)

lemma upd_progress_exec_ok:
  assumes "\<And>p. pr_attempt_id (f p) = pr_attempt_id p"
  shows "exec_ok (upd_progress a f sn) = exec_ok sn"
  using assms by (simp add: exec_ok_def upd_progress_def plan_ok_def busy_def open_nodes_def)

text \<open>Closing an open attempt: its lease ends with it and its node leaves the busy state.\<close>

lemma close_exec_ok:
  assumes ok: "exec_ok sn" and k: "k < length (ps_attempts sn)"
    and a': "same_attempt (ps_attempts sn ! k) a'" "\<not> is_open a'" and opn: "is_open (ps_attempts sn ! k)"
    and f: "\<And>n. is_live n \<Longrightarrow> restatus n (f n)"
    and attempts: "ps_attempts sn' = (ps_attempts sn)[k := a']"
    and leases: "list_all2 (\<lambda>l l'. same_lease l l'
        \<and> (le_status l' = PlanLeaseStatus.Live) = (le_status l = PlanLeaseStatus.Live
            \<and> at_lease_id (ps_attempts sn ! k) \<noteq> Some (le_lease_id l))) (ps_leases sn) (ps_leases sn')"
    and nodes: "ps_nodes sn' = update_first (\<lambda>n. pn_id n = at_node_id (ps_attempts sn ! k)) f (ps_nodes sn)"
    and rest: "ps_root_node_id sn' = ps_root_node_id sn" "ps_phase sn' = ps_phase sn"
      "ps_authorized_capability_envelope sn' = ps_authorized_capability_envelope sn"
      "map pr_attempt_id (ps_attempt_progress sn') = map pr_attempt_id (ps_attempt_progress sn)"
  shows "exec_ok sn'"
proof -
  let ?a = "ps_attempts sn ! k" and ?i = "at_node_id (ps_attempts sn ! k)"
  let ?mid = "sn\<lparr>ps_attempts := ps_attempts sn', ps_leases := ps_leases sn'\<rparr>"
  note rec = exec_okD(2) [OF ok]
  have a: "?a \<in> set (ps_attempts sn)" using k by simp
  have rec': "records_ok (ps_attempts sn') (ps_leases sn')"
    unfolding attempts by (rule records_close [OF rec k a' leases])
  have sub: "open_nodes ?mid \<subseteq> open_nodes sn - {?i}"
  proof
    fix j assume "j \<in> open_nodes ?mid"
    then obtain b where b: "b \<in> set ((ps_attempts sn)[k := a'])" "is_open b" "at_node_id b = j"
      by (auto simp: open_nodes_def attempts)
    then obtain m where m: "m < length (ps_attempts sn)" "m \<noteq> k" "b = ps_attempts sn ! m"
      using k a'(2) by (auto simp: in_set_conv_nth nth_list_update split: if_splits)
    have "at_node_id b \<noteq> ?i"
    proof
      assume eq: "at_node_id b = ?i"
      have "b = ?a"
        by (rule distinct_map_eq [of at_node_id "filter is_open (ps_attempts sn)"])
          (use rec m b opn a eq in \<open>auto simp: records_ok_def\<close>)
      moreover have "distinct (ps_attempts sn)" using rec by (auto simp: records_ok_def distinct_map)
      ultimately show False using m k by (simp add: nth_eq_iff_index_eq)
    qed
    with b m show "j \<in> open_nodes sn - {?i}" by (auto simp: open_nodes_def)
  qed
  have ids: "map at_attempt_id (ps_attempts sn') = map at_attempt_id (ps_attempts sn)"
    using a'(1) k by (simp add: attempts map_update same_attempt_def)
       (metis length_map list_update_id nth_map)
  have mid: "exec_ok ?mid"
    by (rule exec_ok_records [OF ok]) (use sub rec' ids exec_okD [OF ok] in auto)
  have live: "is_live n" if "n \<in> set (ps_nodes sn)" "pn_id n = ?i" for n
  proof -
    have "busy sn ?i" using exec_okD(6) [OF ok] a opn by (auto simp: open_nodes_def)
    with busy_live [OF ok] that show ?thesis by (simp add: is_live_def)
  qed
  have "exec_ok (upd_node ?i f ?mid)"
    by (rule exec_ok_upd_node [OF mid]) (use sub live f in auto)
  moreover have "open_nodes sn' = open_nodes (upd_node ?i f ?mid)"
    "busy sn' = busy (upd_node ?i f ?mid)"
    by (simp_all add: open_nodes_def upd_node_def busy_def [abs_def] nodes)
  ultimately show ?thesis
    using rest plan_ok_same [of "upd_node ?i f ?mid" sn']
    by (simp add: exec_ok_def upd_node_def nodes)
qed

section \<open>Starting attempts\<close>

lemma set_sort_by_order_key: "sort_by_order_key sn ids = Ok ids' \<Longrightarrow> set ids' = set ids"
  by (auto simp: sort_by_order_key_def result_simps split: if_splits)

lemma ready_node_ids_at_ready:
  "ready_node_ids_at sn now = Ok ids \<Longrightarrow> i \<in> set ids \<Longrightarrow> \<exists>n\<in>set (ps_nodes sn). pn_id n = i \<and> ready_node sn now n"
  by (fastforce simp: ready_node_ids_at_def set_ready_candidates dest!: set_sort_by_order_key split: if_splits)

definition attempt_of ::
    "plan_env \<Rightarrow> PlanState \<Rightarrow> PlanNodeSnapshot \<Rightarrow> PlanAttemptActor \<Rightarrow> u64 \<Rightarrow> bool \<Rightarrow> PlanAttemptSnapshot" where
  "attempt_of E st n actor now_ms leased =
     new_attempt E (plan_attempt_id (st_next_attempt_sequence st)) n
       (if leased then Some (plan_lease_id (st_next_lease_sequence st)) else None)
       (aa_executor_session_id actor) now_ms"

definition started ::
    "plan_env \<Rightarrow> PlanState \<Rightarrow> PlanNodeSnapshot \<Rightarrow> PlanAttemptActor \<Rightarrow> u64 \<Rightarrow> bool \<Rightarrow> PlanRevisionSummary list
     \<Rightarrow> PlanState" where
  "started E st found actor now leased x =
     (let r = saturating_add (ps_revision (st_snapshot st)) 1;
          sn = upd_node (pn_id found) (set_status PlanNodeStatus.InProgress r)
                 ((st_snapshot st)\<lparr>ps_revision := r, ps_revision_summaries := x\<rparr>);
          n = set_status PlanNodeStatus.InProgress r found; a = attempt_of E st n actor now leased in
      st\<lparr>st_snapshot := sn\<lparr>ps_attempts := ps_attempts sn @ [a],
           ps_leases := ps_leases sn @ (if leased then [new_lease sn (plan_lease_id (st_next_lease_sequence st))
              (at_attempt_id a) n (aa_executor_session_id actor) now] else []),
           ps_attempt_progress := ps_attempt_progress sn @ [new_progress (at_attempt_id a) (pn_id found) leased now]\<rparr>,
         st_next_attempt_sequence := st_next_attempt_sequence st + 1,
         st_next_lease_sequence := (if leased then st_next_lease_sequence st + 1 else st_next_lease_sequence st)\<rparr>)"

lemma start_attempt_recordsE:
  assumes "start_attempt_records E st i actor now leased = Ok (st', records)"
  obtains n found x where
    "n \<in> set (ps_nodes (st_snapshot st))" "pn_id n = i" "ready_node (st_snapshot st) now n"
    "find_node (st_snapshot st) i = Some found"
    "ps_phase (st_snapshot st) = PlanPhase.Executing"
    "ps_scheduler_status (st_snapshot st) = PlanSchedulerStatus.Active"
    "\<forall>a\<in>set (ps_attempts (st_snapshot st)). is_open a \<longrightarrow>
       at_executor_session_id a \<noteq> aa_executor_session_id actor"
    "st' = started E st found actor now leased x"
    "last (ps_attempts (st_snapshot st')) = sr_attempt records"
    "leased \<longrightarrow> sr_lease records = Some (last (ps_leases (st_snapshot st')))"
proof -
  let ?sn = "st_snapshot st" and ?e = "aa_executor_session_id actor"
  from assms have phase: "ps_phase ?sn = PlanPhase.Executing"
    by (auto simp: start_attempt_records_def Let_def split: if_splits)
  note unf = assms [unfolded start_attempt_records_def Let_def]
  from unf phase have sched: "ps_scheduler_status ?sn = PlanSchedulerStatus.Active"
    by (auto split: if_splits)
  with unf phase obtain ids where ids: "ready_node_ids_at ?sn now = Ok ids" and i: "i \<in> set ids"
    by (auto simp: and_then_Ok_iff split: if_splits)
  have free: "\<not> list_ex (\<lambda>a. at_outcome a = None \<and> at_executor_session_id a = ?e) (ps_attempts ?sn)"
    using unf phase sched ids i by (auto split: if_splits)
  from unf phase sched ids i free obtain sn1 r found where
    adv: "advance_revision E ''plan attempt started'' ?sn = Ok (sn1, r)"
    and found: "find_node sn1 i = Some found"
    by (auto simp: and_then_Ok_iff expect_simps split: if_splits)
  obtain x where sn1: "sn1 = ?sn\<lparr>ps_revision := saturating_add (ps_revision ?sn) 1, ps_revision_summaries := x\<rparr>"
    and r: "r = saturating_add (ps_revision ?sn) 1" using adv by (rule advance_revisionE)
  have found': "find_node ?sn i = Some found" using found by (simp add: sn1 find_node_def)
  obtain n where n: "n \<in> set (ps_nodes ?sn)" "pn_id n = i" "ready_node ?sn now n"
    using ready_node_ids_at_ready [OF ids i] by blast
  have i': "pn_id found = i" using found' by (auto simp: find_node_def dest: find_SomeD)
  have res: "st' = started E st found actor now leased x"
    "last (ps_attempts (st_snapshot st')) = sr_attempt records"
    "leased \<longrightarrow> sr_lease records = Some (last (ps_leases (st_snapshot st')))"
    using unf phase sched ids i free adv found i'
    by (auto simp: started_def sn1 r Let_def attempt_of_def new_attempt_def upd_node_def split: if_splits)
  have "\<forall>a\<in>set (ps_attempts ?sn). is_open a \<longrightarrow> at_executor_session_id a \<noteq> ?e"
    using free by (auto simp: list_ex_iff is_open_def)
  then show thesis by (rule that [OF n found' phase sched _ res])
qed

lemma plan_attempt_id_inj [simp]: "plan_attempt_id a = plan_attempt_id b \<longleftrightarrow> a = b"
  by (simp add: plan_attempt_id_def show_u64_inj)

lemma plan_lease_id_inj [simp]: "plan_lease_id a = plan_lease_id b \<longleftrightarrow> a = b"
  by (simp add: plan_lease_id_def show_u64_inj)

text \<open>
  Identifiers are drawn from the counters: the \<open>k\<close>-th attempt ever started is \<^verbatim>\<open>plan-attempt-k\<close>, and
  likewise for leases. They are distinct as long as the 64-bit counter has not gone round.
\<close>

definition numbered :: "(u64 \<Rightarrow> string) \<Rightarrow> nat \<Rightarrow> string list" where
  "numbered mk n = map (\<lambda>k. mk (of_nat (Suc k))) [0..<n]"

definition sequences_ok :: "PlanState \<Rightarrow> bool" where
  "sequences_ok st \<longleftrightarrow> (let sn = st_snapshot st in
     map at_attempt_id (ps_attempts sn) = numbered plan_attempt_id (length (ps_attempts sn))
     \<and> st_next_attempt_sequence st = of_nat (Suc (length (ps_attempts sn)))
     \<and> map le_lease_id (ps_leases sn) = numbered plan_lease_id (length (ps_leases sn))
     \<and> st_next_lease_sequence st = of_nat (Suc (length (ps_leases sn)))
     \<and> length (ps_leases sn) \<le> length (ps_attempts sn))"

lemma numbered_Suc: "numbered mk (Suc n) = numbered mk n @ [mk (of_nat (Suc n))]"
  by (simp add: numbered_def)

lemma numbered_fresh:
  assumes "\<And>a b. mk a = mk b \<Longrightarrow> a = b" and "Suc n < 2 ^ 64"
  shows "mk (of_nat (Suc n)) \<notin> set (numbered mk n)"
proof
  assume "mk (of_nat (Suc n)) \<in> set (numbered mk n)"
  then obtain k where k: "k < n" "mk (of_nat (Suc n)) = mk (of_nat (Suc k))" by (auto simp: numbered_def)
  then have "(of_nat (Suc n) :: u64) = of_nat (Suc k)" using assms(1) by blast
  then have "unat (of_nat (Suc n) :: u64) = unat (of_nat (Suc k) :: u64)" by simp
  then have "Suc n = Suc k" using assms(2) k(1) by (simp only: unat_of_nat) simp
  with k(1) show False by simp
qed

lemma same_node: "exec_ok sn \<Longrightarrow> n \<in> set (ps_nodes sn) \<Longrightarrow> find_node sn (pn_id n) = Some n"
  by (simp add: find_node_def find_by_key exec_okD(3))

lemma exec_ok_add_attempt:
  assumes ok: "exec_ok sn" and b: "busy sn (at_node_id a)" "at_node_id a \<notin> open_nodes sn"
    and rec: "records_ok (ps_attempts sn @ [a]) (ps_leases sn @ new)"
    and p: "pr_attempt_id p = at_attempt_id a" and ph: "ps_phase sn \<noteq> PlanPhase.Planning"
  shows "exec_ok (sn\<lparr>ps_attempts := ps_attempts sn @ [a], ps_leases := ps_leases sn @ new,
           ps_attempt_progress := ps_attempt_progress sn @ [p]\<rparr>)"
proof -
  have "busy sn j" if "j \<in> open_nodes (sn\<lparr>ps_attempts := ps_attempts sn @ [a], ps_leases := ps_leases sn @ new,
           ps_attempt_progress := ps_attempt_progress sn @ [p]\<rparr>)" for j
    using that b(1) exec_okD(6) [OF ok] by (auto simp: open_nodes_def)
  with assms show ?thesis by (auto simp: exec_ok_def busy_def plan_ok_def)
qed

lemma busy_started:
  assumes "find_node sn i = Some n"
  shows "busy (upd_node i (set_status PlanNodeStatus.InProgress r) sn) i"
  unfolding busy_def upd_node_def
proof
  show "set_status PlanNodeStatus.InProgress r n \<in> set (ps_nodes (sn\<lparr>ps_nodes := update_first (\<lambda>m. pn_id m = i)
      (set_status PlanNodeStatus.InProgress r) (ps_nodes sn)\<rparr>))"
    using assms by (simp add: find_node_def update_first_found)
qed (use assms in \<open>auto simp: find_node_def set_status_def dest: find_SomeD\<close>)

lemma start_attempt_records_exec_ok:
  assumes "start_attempt_records E st i actor now leased = Ok (st', records)"
    and ok: "exec_ok (st_snapshot st)" and seq: "sequences_ok st"
    and fit: "Suc (length (ps_attempts (st_snapshot st))) < 2 ^ 64"
  shows "exec_ok (st_snapshot st') \<and> sequences_ok st'"
proof -
  let ?sn = "st_snapshot st"
  obtain n0 n x where n0: "n0 \<in> set (ps_nodes ?sn)" "pn_id n0 = i" "ready_node ?sn now n0"
    and found: "find_node ?sn i = Some n"
    and phase: "ps_phase ?sn = PlanPhase.Executing"
    and free: "\<forall>a\<in>set (ps_attempts ?sn). is_open a \<longrightarrow>
       at_executor_session_id a \<noteq> aa_executor_session_id actor"
    and st'0: "st' = started E st n actor now leased x"
    by (rule start_attempt_recordsE [OF assms(1)]) blast
  have n: "n \<in> set (ps_nodes ?sn)" "pn_id n = i" "ready_node ?sn now n"
    using same_node [OF ok n0(1)] n0 found by auto
  let ?r = "saturating_add (ps_revision ?sn) 1"
  let ?n = "set_status PlanNodeStatus.InProgress ?r n"
  let ?base = "?sn\<lparr>ps_revision := ?r, ps_revision_summaries := x\<rparr>"
  let ?mid = "upd_node i (set_status PlanNodeStatus.InProgress ?r) ?base"
  let ?a = "attempt_of E st ?n actor now leased"
  let ?new = "if leased then [new_lease ?mid (plan_lease_id (st_next_lease_sequence st))
              (at_attempt_id ?a) ?n (aa_executor_session_id actor) now] else []"
  have st': "st' = st\<lparr>st_snapshot := ?mid\<lparr>ps_attempts := ps_attempts ?mid @ [?a],
           ps_leases := ps_leases ?mid @ ?new,
           ps_attempt_progress := ps_attempt_progress ?mid @ [new_progress (at_attempt_id ?a) i leased now]\<rparr>,
         st_next_attempt_sequence := st_next_attempt_sequence st + 1,
         st_next_lease_sequence := (if leased then st_next_lease_sequence st + 1 else st_next_lease_sequence st)\<rparr>"
    unfolding st'0 started_def Let_def n(2) ..
  have status: "pn_status n \<noteq> PlanNodeStatus.InProgress" "is_live n"
    using n(3) by (auto simp: ready_node_def is_live_def split: if_splits)
  have idle: "i \<notin> open_nodes ?sn"
    using exec_okD(6) [OF ok, of i] busy_live [OF ok _ n(1,2)] status by blast
  have ok0: "exec_ok ?base" using ok by simp
  have "n' = n" if "n' \<in> set (ps_nodes ?sn)" "pn_id n' = i" for n'
    using that n exec_okD(3) [OF ok] by (auto dest: distinct_map_eq)
  then have ok1: "exec_ok ?mid"
    by (intro exec_ok_upd_node [OF ok0]) (use status idle in \<open>auto simp: open_nodes_def\<close>)
  have a: "at_node_id ?a = i" "is_open ?a" "at_attempt_id ?a = plan_attempt_id (st_next_attempt_sequence st)"
    "at_executor_session_id ?a = aa_executor_session_id actor"
    using n(2) by (simp_all add: attempt_of_def new_attempt_def is_open_def set_status_def)
  have frame: "ps_attempts ?mid = ps_attempts ?sn" "ps_leases ?mid = ps_leases ?sn"
    "open_nodes ?mid = open_nodes ?sn"
    by (simp_all add: upd_node_def open_nodes_def)
  have "find_node ?base i = Some n" using found by (simp add: find_node_def)
  then have busy: "busy ?mid i" by (rule busy_started)
  have seqs: "map at_attempt_id (ps_attempts ?sn) = numbered plan_attempt_id (length (ps_attempts ?sn))"
    "st_next_attempt_sequence st = of_nat (Suc (length (ps_attempts ?sn)))"
    "map le_lease_id (ps_leases ?sn) = numbered plan_lease_id (length (ps_leases ?sn))"
    "st_next_lease_sequence st = of_nat (Suc (length (ps_leases ?sn)))"
    "length (ps_leases ?sn) \<le> length (ps_attempts ?sn)"
    using seq by (simp_all add: sequences_ok_def Let_def)
  have fresh_a: "at_attempt_id ?a \<notin> at_attempt_id ` set (ps_attempts ?sn)"
    using numbered_fresh [of plan_attempt_id "length (ps_attempts ?sn)"] fit seqs(1,2) a(3)
    by (metis list.set_map plan_attempt_id_inj)
  have fresh_l: "plan_lease_id (st_next_lease_sequence st) \<notin> le_lease_id ` set (ps_leases ?sn)"
    using numbered_fresh [of plan_lease_id "length (ps_leases ?sn)"] fit seqs(3,4,5)
    by (metis list.set_map plan_lease_id_inj le_less_trans Suc_le_mono)
  have rec: "records_ok (ps_attempts ?sn @ [?a]) (ps_leases ?sn @ ?new)"
  proof (rule records_start [OF exec_okD(2) [OF ok] a(2) fresh_a])
    show "at_node_id b \<noteq> at_node_id ?a \<and> at_executor_session_id b \<noteq> at_executor_session_id ?a"
      if "b \<in> set (ps_attempts ?sn)" "is_open b" for b
    proof -
      have "at_node_id b \<in> open_nodes ?sn" using that by (simp add: open_nodes_def)
      with free idle that a show ?thesis by metis
    qed
    show "?new = [] \<and> at_lease_id ?a = None \<or> (\<exists>l. ?new = [l] \<and> linked ?a l \<and> le_status l = PlanLeaseStatus.Live
            \<and> le_lease_id l \<notin> le_lease_id ` set (ps_leases ?sn))"
      using fresh_l by (simp add: linked_def attempt_of_def new_attempt_def new_lease_def)
  qed
  have "exec_ok (?mid\<lparr>ps_attempts := ps_attempts ?mid @ [?a], ps_leases := ps_leases ?mid @ ?new,
           ps_attempt_progress := ps_attempt_progress ?mid @ [new_progress (at_attempt_id ?a) i leased now]\<rparr>)"
    by (rule exec_ok_add_attempt [OF ok1])
      (use a busy idle rec frame phase in \<open>simp_all add: new_progress_def upd_node_def\<close>)
  moreover have "sequences_ok st'"
    unfolding st' using seqs a(3)
    by (simp add: sequences_ok_def Let_def frame numbered_Suc new_lease_def)
  ultimately show ?thesis by (simp add: st')
qed

section \<open>The invariant of a plan state\<close>

definition node_ids_ok :: "PlanState \<Rightarrow> bool" where
  "node_ids_ok st \<longleftrightarrow>
     (\<forall>n\<in>set (ps_nodes (st_snapshot st)).
        \<exists>k. unat k < unat (st_next_node_sequence st) \<and> pn_id n = runtime_node_id k)"

definition plan_inv :: "PlanState \<Rightarrow> bool" where
  "plan_inv st \<longleftrightarrow> exec_ok (st_snapshot st) \<and> sequences_ok st \<and> node_ids_ok st"

text \<open>Most operations keep the identities of the records.\<close>

text \<open>An attempt may change while it is open; once it has its outcome it stays as it is.\<close>

definition evolves :: "PlanAttemptSnapshot \<Rightarrow> PlanAttemptSnapshot \<Rightarrow> bool" where
  "evolves a b \<longleftrightarrow> same_attempt a b \<and> (\<not> is_open a \<longrightarrow> b = a)"

lemma evolves_refl [simp]: "evolves a a"
  by (simp add: evolves_def)

lemma evolves_trans: "evolves a b \<Longrightarrow> evolves b c \<Longrightarrow> evolves a c"
  by (auto simp: evolves_def same_attempt_def)

lemma evolves_same [simp]: "list_all2 evolves as as"
  by (simp add: list_all2_same)

lemma evolves_ids: "list_all2 evolves as bs \<Longrightarrow> map at_attempt_id bs = map at_attempt_id as"
  by (erule map_list_all2) (simp add: evolves_def same_attempt_def)

definition same_history :: "PlanSnapshot \<Rightarrow> PlanSnapshot \<Rightarrow> bool" where
  "same_history sn sn' \<longleftrightarrow>
     map pn_id (ps_nodes sn') = map pn_id (ps_nodes sn)
     \<and> list_all2 evolves (ps_attempts sn) (ps_attempts sn')
     \<and> map le_lease_id (ps_leases sn') = map le_lease_id (ps_leases sn)"

lemma same_history_refl [simp]: "same_history sn sn"
  by (simp add: same_history_def)

lemma same_history_trans: "same_history a b \<Longrightarrow> same_history b c \<Longrightarrow> same_history a c"
  by (auto simp: same_history_def intro: list_all2_trans [of evolves evolves evolves] evolves_trans)

lemma plan_inv_snapshot:
  assumes "plan_inv st" and ids: "same_history (st_snapshot st) sn" and "exec_ok sn"
  shows "plan_inv (st\<lparr>st_snapshot := sn\<rparr>)"
proof -
  have l: "length (ps_attempts sn) = length (ps_attempts (st_snapshot st))"
    "length (ps_leases sn) = length (ps_leases (st_snapshot st))"
    using ids unfolding same_history_def by (metis length_map list_all2_lengthD)+
  have "pn_id ` set (ps_nodes sn) = pn_id ` set (ps_nodes (st_snapshot st))"
    using ids unfolding same_history_def by (metis list.set_map)
  then have "\<exists>m\<in>set (ps_nodes (st_snapshot st)). pn_id m = pn_id n" if "n \<in> set (ps_nodes sn)" for n
    using that by (metis (no_types, lifting) image_iff)
  then have "node_ids_ok (st\<lparr>st_snapshot := sn\<rparr>)"
    using assms(1) unfolding plan_inv_def node_ids_ok_def by fastforce
  with assms l evolves_ids [of "ps_attempts (st_snapshot st)" "ps_attempts sn"] show ?thesis by (simp add: plan_inv_def sequences_ok_def same_history_def Let_def)
qed

lemma plan_invD:
  assumes "plan_inv st"
  shows "exec_ok (st_snapshot st)" "sequences_ok st" "node_ids_ok st"
  using assms by (simp_all add: plan_inv_def)

lemma plan_inv_other_sequences [simp]:
  "plan_inv (st\<lparr>st_next_directive_sequence := k\<rparr>) = plan_inv st"
  "plan_inv (st\<lparr>st_next_approval_sequence := k\<rparr>) = plan_inv st"
  by (simp_all add: plan_inv_def sequences_ok_def node_ids_ok_def)

section \<open>Whose attempt\<close>

lemma validate_live_leaseD:
  assumes "validate_live_lease sn actor lease_id vr = Ok (k, j)"
  shows "j < length (ps_leases sn)" "le_lease_id (ps_leases sn ! j) = lease_id"
    "le_status (ps_leases sn ! j) = PlanLeaseStatus.Live" "k < length (ps_attempts sn)"
    "at_attempt_id (ps_attempts sn ! k) = le_attempt_id (ps_leases sn ! j)" "is_open (ps_attempts sn ! k)"
    "at_executor_session_id (ps_attempts sn ! k) = aa_executor_session_id actor"
  using assms
  by (auto simp: validate_live_lease_def Let_def result_simps position_Some_iff is_open_def split: if_splits)

lemma validate_live_lease_linked:
  assumes "validate_live_lease sn actor lease_id vr = Ok (k, j)" and ok: "records_ok (ps_attempts sn) (ps_leases sn)"
  shows "linked (ps_attempts sn ! k) (ps_leases sn ! j)"
proof -
  note d = validate_live_leaseD [OF assms(1)]
  obtain a where a: "a \<in> set (ps_attempts sn)" "linked a (ps_leases sn ! j)"
    using ok nth_mem [OF d(1)] unfolding records_ok_def by blast
  have "a = ps_attempts sn ! k"
    by (rule distinct_map_eq [of at_attempt_id "ps_attempts sn"]) (use ok a d in \<open>auto simp: records_ok_def linked_def\<close>)
  with a show ?thesis by simp
qed

lemma validate_own_leaseE:
  assumes "validate_own_lease sn actor lease_id = Ok (k, j)"
  obtains vr where "validate_live_lease sn actor lease_id vr = Ok (k, j)"
  using assms by (auto simp: validate_own_lease_def result_simps)

lemma validate_current_attemptE:
  assumes "validate_current_attempt sn actor = Ok (k, lease)"
  obtains "k < length (ps_attempts sn)" "is_open (ps_attempts sn ! k)"
    "at_executor_session_id (ps_attempts sn ! k) = aa_executor_session_id actor"
    "at_lease_id (ps_attempts sn ! k) = None" "lease = None"
  | j i m where "k < length (ps_attempts sn)" "is_open (ps_attempts sn ! k)"
    "at_executor_session_id (ps_attempts sn ! k) = aa_executor_session_id actor"
    "at_lease_id (ps_attempts sn ! k) = Some i" "lease = Some j"
    "validate_live_lease sn actor i (at_node_revision (ps_attempts sn ! k)) = Ok (m, j)"
proof -
  let ?act = "map fst (filter (\<lambda>(_, a). at_outcome a = None \<and> at_executor_session_id a = aa_executor_session_id actor)
      (enumerate 0 (ps_attempts sn)))"
  from assms have act: "?act = [k]"
    by (auto simp: validate_current_attempt_def Let_def and_then_Ok_iff split: list.splits option.splits if_splits)
  then have "k \<in> set ?act" by simp
  then have k: "k < length (ps_attempts sn)" "is_open (ps_attempts sn ! k)"
    "at_executor_session_id (ps_attempts sn ! k) = aa_executor_session_id actor"
    by (auto simp: in_set_enumerate_eq is_open_def)
  from assms act show thesis
    by (cases "at_lease_id (ps_attempts sn ! k)")
      (use that k in \<open>auto simp: validate_current_attempt_def Let_def and_then_Ok_iff split: if_splits\<close>)
qed

lemma validate_current_attempt_k:
  assumes "validate_current_attempt sn actor = Ok (k, lease)"
  shows "k < length (ps_attempts sn)" "is_open (ps_attempts sn ! k)"
    "at_executor_session_id (ps_attempts sn ! k) = aa_executor_session_id actor"
  using assms by (auto elim: validate_current_attemptE)

section \<open>Reports that leave the records alone\<close>

lemma apply_directive_reportsE:
  assumes "apply_directive_reports a ack app now sn = Ok (sn', upd)"
  obtains ds s where "sn' = sn\<lparr>ps_directives := ds\<rparr> \<or>
    sn' = sn\<lparr>ps_directives := ds, ps_attempts := update_first (\<lambda>b. at_attempt_id b = a)
      (\<lambda>b. b\<lparr>at_last_applied_directive_sequence := s\<rparr>) (ps_attempts sn)\<rparr>"
  using assms
  by (auto simp: apply_directive_reports_def Let_def and_then_Ok_iff split: option.splits)

lemma update_first_nth:
  "k < length xs \<Longrightarrow> \<exists>y. update_first p f xs ! k = y \<and> (y = xs ! k \<or> p (xs ! k) \<and> y = f (xs ! k))"
proof (induction xs arbitrary: k)
  case (Cons x xs)
  then show ?case by (cases k) auto
qed simp

text \<open>A change of attempts that keeps identity and openness.\<close>

lemma exec_ok_touch:
  assumes ok: "exec_ok sn" and as: "list_all2 (\<lambda>a b. same_attempt a b \<and> is_open b = is_open a) (ps_attempts sn) as"
    and ls: "list_all2 (\<lambda>k l. same_lease k l
       \<and> (le_status l = PlanLeaseStatus.Live) = (le_status k = PlanLeaseStatus.Live)) (ps_leases sn) ls"
    and pr: "map pr_attempt_id ps = map pr_attempt_id (ps_attempt_progress sn)"
  shows "exec_ok (sn\<lparr>ps_attempts := as, ps_leases := ls, ps_attempt_progress := ps\<rparr>)"
proof (rule exec_ok_records [OF ok])
  let ?sn = "sn\<lparr>ps_attempts := as, ps_leases := ls, ps_attempt_progress := ps\<rparr>"
  show "records_ok (ps_attempts ?sn) (ps_leases ?sn)"
    using records_frame [OF exec_okD(2) [OF ok] as ls] by simp
  have "map at_attempt_id as = map at_attempt_id (ps_attempts sn)"
    using as by (rule map_list_all2) (simp add: same_attempt_def)
  then show "map pr_attempt_id (ps_attempt_progress ?sn) = map at_attempt_id (ps_attempts ?sn)"
    using pr exec_okD(5) [OF ok] by simp
  show sub: "open_nodes ?sn \<subseteq> open_nodes sn"
  proof
    fix j assume "j \<in> open_nodes ?sn"
    then obtain b where b: "b \<in> set as" "is_open b" "at_node_id b = j" by (auto simp: open_nodes_def)
    obtain a where "a \<in> set (ps_attempts sn)" "same_attempt a b" "is_open b = is_open a"
      using list_all2_ex2 [OF as b(1)] by blast
    with b show "j \<in> open_nodes sn" by (auto simp: open_nodes_def same_attempt_def)
  qed
  show "ps_phase ?sn = PlanPhase.Planning \<longrightarrow> open_nodes ?sn = {}" using exec_okD(7) [OF ok] sub by auto
qed simp_all

lemma directives_exec_ok:
  assumes "apply_directive_reports a ack app now sn = Ok (sn', upd)" and "exec_ok sn"
  shows "exec_ok sn'"
proof -
  obtain ds s where sn': "sn' = sn\<lparr>ps_directives := ds\<rparr> \<or>
    sn' = sn\<lparr>ps_directives := ds, ps_attempts := update_first (\<lambda>b. at_attempt_id b = a)
      (\<lambda>b. b\<lparr>at_last_applied_directive_sequence := s\<rparr>) (ps_attempts sn)\<rparr>"
    by (rule apply_directive_reportsE [OF assms(1)])
  let ?as = "update_first (\<lambda>b. at_attempt_id b = a)
      (\<lambda>b. b\<lparr>at_last_applied_directive_sequence := s\<rparr>) (ps_attempts sn)"
  let ?base = "sn\<lparr>ps_directives := ds\<rparr>"
  have "exec_ok (?base\<lparr>ps_attempts := ?as, ps_leases := ps_leases ?base,
      ps_attempt_progress := ps_attempt_progress ?base\<rparr>)"
    by (rule exec_ok_touch)
      (use assms(2) in \<open>auto intro!: list_all2_update_first simp: same_attempt_def is_open_def list_all2_same\<close>)
  then have "exec_ok (sn\<lparr>ps_directives := ds, ps_attempts := ?as\<rparr>)" by simp
  with sn' assms(2) show ?thesis by auto
qed

lemma directives_frame:
  assumes "apply_directive_reports a ack app now sn = Ok (sn', upd)"
  shows "map at_attempt_id (ps_attempts sn') = map at_attempt_id (ps_attempts sn)"
    "ps_nodes sn' = ps_nodes sn" "ps_leases sn' = ps_leases sn" "ps_revision sn' = ps_revision sn"
    "ps_attempt_progress sn' = ps_attempt_progress sn" "ps_phase sn' = ps_phase sn"
    "ps_root_node_id sn' = ps_root_node_id sn" "length (ps_attempts sn') = length (ps_attempts sn)"
    "k < length (ps_attempts sn) \<Longrightarrow> same_attempt (ps_attempts sn ! k) (ps_attempts sn' ! k)
       \<and> at_outcome (ps_attempts sn' ! k) = at_outcome (ps_attempts sn ! k)"
proof -
  obtain ds s where sn': "sn' = sn\<lparr>ps_directives := ds\<rparr> \<or>
    sn' = sn\<lparr>ps_directives := ds, ps_attempts := update_first (\<lambda>b. at_attempt_id b = a)
      (\<lambda>b. b\<lparr>at_last_applied_directive_sequence := s\<rparr>) (ps_attempts sn)\<rparr>"
    by (rule apply_directive_reportsE [OF assms(1)])
  then show "map at_attempt_id (ps_attempts sn') = map at_attempt_id (ps_attempts sn)"
    "ps_nodes sn' = ps_nodes sn" "ps_leases sn' = ps_leases sn" "ps_revision sn' = ps_revision sn"
    "ps_attempt_progress sn' = ps_attempt_progress sn" "ps_phase sn' = ps_phase sn"
    "ps_root_node_id sn' = ps_root_node_id sn" "length (ps_attempts sn') = length (ps_attempts sn)" by auto
  assume "k < length (ps_attempts sn)"
  then show "same_attempt (ps_attempts sn ! k) (ps_attempts sn' ! k)
       \<and> at_outcome (ps_attempts sn' ! k) = at_outcome (ps_attempts sn ! k)"
    using sn' update_first_nth [of k "ps_attempts sn" "\<lambda>b. at_attempt_id b = a"
        "\<lambda>b. b\<lparr>at_last_applied_directive_sequence := s\<rparr>"] by (auto simp: same_attempt_def)
qed

end
