(* ===== verification/Plan_Preservation.thy ===== *)
theory Plan_Preservation
  imports Plan_Invariant
begin

text \<open>
  Every operation that works on a plan keeps its invariant \<open>plan_inv\<close>. \<open>keeps\<close> relates two snapshots
  with the same identities such that the second is well-formed when the first is; the building
  blocks of the operations are shown to be such steps, and the operations are compositions of them.
\<close>

lemma ex_unit: "(\<exists>x :: unit. P x) \<longleftrightarrow> P ()"
  by (metis old.unit.exhaust)

lemmas ok_steps = and_then_Ok_iff split_paired_Ex prod.case result.inject prod.inject

section \<open>Steps that keep a snapshot well-formed\<close>

definition keeps :: "PlanSnapshot \<Rightarrow> PlanSnapshot \<Rightarrow> bool" where
  "keeps sn sn' \<longleftrightarrow> (exec_ok sn \<longrightarrow> same_history sn sn' \<and> exec_ok sn')"

lemma keeps_refl [simp, intro]: "keeps sn sn"
  by (simp add: keeps_def)

lemma keeps_trans [trans]: "keeps a b \<Longrightarrow> keeps b c \<Longrightarrow> keeps a c"
  using same_history_trans by (auto simp: keeps_def)

lemma keepsD: "keeps sn sn' \<Longrightarrow> exec_ok sn \<Longrightarrow> exec_ok sn'"
  by (simp add: keeps_def)

text \<open>What an operation promises: the invariant holds again, the attempts before it are still there
  with at most one new one behind them, and it has used up at most 128 node numbers.\<close>

definition grown :: "PlanAttemptSnapshot list \<Rightarrow> PlanAttemptSnapshot list \<Rightarrow> bool" where
  "grown as as' \<longleftrightarrow> (\<exists>bs cs. as' = bs @ cs \<and> list_all2 evolves as bs \<and> (cs = [] \<or> (\<exists>a. cs = [a] \<and> is_open a)))"

lemma grown_evolves: "list_all2 evolves as bs \<Longrightarrow> grown as bs"
  by (auto simp: grown_def)

lemma grown_refl [simp]: "grown as as"
  by (simp add: grown_evolves)

lemma grown_length: "grown as as' \<Longrightarrow> length as' \<le> Suc (length as)"
  by (auto simp: grown_def dest: list_all2_lengthD)

definition plan_next :: "PlanState \<Rightarrow> PlanState \<Rightarrow> bool" where
  "plan_next st st' \<longleftrightarrow> plan_inv st'
     \<and> grown (ps_attempts (st_snapshot st)) (ps_attempts (st_snapshot st'))
     \<and> unat (st_next_node_sequence st') \<le> unat (st_next_node_sequence st) + 128"

lemma plan_next_refl: "plan_inv st \<Longrightarrow> plan_next st st"
  by (simp add: plan_next_def)

lemma plan_inv_keeps:
  assumes "plan_inv st" and "keeps (st_snapshot st) sn"
  shows "plan_next st (st\<lparr>st_snapshot := sn\<rparr>)"
proof -
  have *: "same_history (st_snapshot st) sn" "exec_ok sn" using assms plan_invD(1) by (auto simp: keeps_def)
  then have "grown (ps_attempts (st_snapshot st)) (ps_attempts sn)" by (simp add: same_history_def grown_evolves)
  with plan_inv_snapshot [OF assms(1) *] show ?thesis by (simp add: plan_next_def)
qed

lemma keeps_directives: "keeps sn (sn\<lparr>ps_directives := ds\<rparr>)"
  by (simp add: keeps_def same_history_def)

lemma keeps_scheduler: "keeps sn (sn\<lparr>ps_scheduler_status := s\<rparr>)"
  by (simp add: keeps_def same_history_def)

lemma keeps_expire: "keeps sn (fst (expire_attempt_directives a sn))"
  by (simp add: expire_attempt_directives_def keeps_directives)

lemma keeps_advance: "advance_revision E s sn = Ok (sn', r) \<Longrightarrow> keeps sn sn'"
  by (auto simp: keeps_def same_history_def elim!: advance_revisionE)

lemma keeps_progress:
  assumes "\<And>p. pr_attempt_id (f p) = pr_attempt_id p"
  shows "keeps sn (upd_progress a f sn)"
proof -
  have "exec_ok (upd_progress a f sn) = exec_ok sn" using assms by (rule upd_progress_exec_ok)
  then show ?thesis by (simp add: keeps_def same_history_def upd_progress_def)
qed

lemma keeps_refresh:
  assumes "refresh_parent_states r sn = Ok sn'"
  shows "keeps sn sn'"
  unfolding keeps_def
proof (intro impI conjI)
  assume ok: "exec_ok sn"
  note d = exec_okD(3) [OF ok]
  obtain mid where sn': "sn' = mid\<lparr>ps_phase := root_phase mid (ps_phase sn)\<rparr>" and mid: "only_nodes_moved sn mid"
    using refresh_parent_statesE [OF assms d] by blast
  have "map pn_id (ps_nodes sn') = map pn_id (ps_nodes sn)"
    using refresh_parent_states_refreshed [OF assms d] by (rule map_list_all2) (simp add: refreshed_fields)
  with sn' mid show "same_history sn sn'" by (simp add: same_history_def only_nodes_moved_fields)
  show "exec_ok sn'" using assms ok by (rule refresh_exec_ok)
qed

lemma keeps_terminal: "keeps sn (refresh_terminal_phase sn)"
  by (simp add: keeps_def refresh_terminal_phase_exec_ok) (simp add: refresh_terminal_phase_eq same_history_def)

lemma keeps_settle: "keeps sn (settle_draining_phase sn)"
  by (simp add: keeps_def settle_exec_ok) (simp add: settle_draining_phase_def same_history_def Let_def)

lemma keeps_directive_reports:
  assumes "apply_directive_reports (at_attempt_id (ps_attempts sn ! k)) ack app now sn = Ok (sn', upd)"
    and "k < length (ps_attempts sn)" and "is_open (ps_attempts sn ! k)"
  shows "keeps sn sn'"
  unfolding keeps_def
proof (intro impI conjI)
  assume ok: "exec_ok sn"
  have d: "distinct (map at_attempt_id (ps_attempts sn))" using exec_okD(2) [OF ok] by (simp add: records_ok_def)
  have "is_open b" if "b \<in> set (ps_attempts sn)" "at_attempt_id b = at_attempt_id (ps_attempts sn ! k)" for b
    using distinct_map_eq [OF d that(1) nth_mem [OF assms(2)] that(2)] assms(3) by simp
  then have "list_all2 evolves (ps_attempts sn) (ps_attempts sn')"
    using assms(1)
    by (elim apply_directive_reportsE disjE)
      (auto intro!: list_all2_update_first simp: evolves_def same_attempt_def)
  then show "same_history sn sn'" using directives_frame [OF assms(1)] by (simp add: same_history_def)
  show "exec_ok sn'" by (rule directives_exec_ok [OF assms(1) ok])
qed

lemma list_all2_list_update:
  assumes "k < length xs \<Longrightarrow> R (xs ! k) y" and "\<And>x. R x x"
  shows "list_all2 R xs (xs[k := y])"
  using assms by (simp add: list_all2_conv_all_nth) (metis nth_list_update_eq nth_list_update_neq)

lemma keeps_attempt:
  assumes "\<And>a. same_attempt a (f a) \<and> at_outcome (f a) = at_outcome a" and "is_open (ps_attempts sn ! k)"
  shows "keeps sn (upd_attempt k f sn)"
  unfolding keeps_def
proof (intro impI conjI)
  let ?as = "(ps_attempts sn)[k := f (ps_attempts sn ! k)]"
  have R: "list_all2 (\<lambda>a b. same_attempt a b \<and> is_open b = is_open a) (ps_attempts sn) ?as"
    by (rule list_all2_list_update) (use assms in \<open>auto simp: is_open_def\<close>)
  assume ok: "exec_ok sn"
  have "exec_ok (sn\<lparr>ps_attempts := ?as, ps_leases := ps_leases sn, ps_attempt_progress := ps_attempt_progress sn\<rparr>)"
    by (rule exec_ok_touch [OF ok R]) (simp_all add: list_all2_same)
  then show "exec_ok (upd_attempt k f sn)" by (simp add: upd_attempt_def)
  have "list_all2 evolves (ps_attempts sn) ?as"
    by (rule list_all2_list_update) (use assms in \<open>auto simp: evolves_def\<close>)
  then show "same_history sn (upd_attempt k f sn)" by (simp add: same_history_def upd_attempt_def)
qed

lemma keeps_lease:
  assumes "\<And>l. same_lease l (f l) \<and> le_status (f l) = le_status l"
  shows "keeps sn (upd_lease k f sn)"
  unfolding keeps_def
proof (intro impI conjI)
  let ?ls = "(ps_leases sn)[k := f (ps_leases sn ! k)]"
  have R: "list_all2 (\<lambda>k l. same_lease k l
       \<and> (le_status l = PlanLeaseStatus.Live) = (le_status k = PlanLeaseStatus.Live)) (ps_leases sn) ?ls"
    by (rule list_all2_list_update) (use assms in auto)
  assume ok: "exec_ok sn"
  have "exec_ok (sn\<lparr>ps_attempts := ps_attempts sn, ps_leases := ?ls, ps_attempt_progress := ps_attempt_progress sn\<rparr>)"
    by (rule exec_ok_touch [OF ok _ R]) (simp_all add: list_all2_same)
  then show "exec_ok (upd_lease k f sn)" by (simp add: upd_lease_def)
  have "map le_lease_id ?ls = map le_lease_id (ps_leases sn)"
    using R by (rule map_list_all2) (simp add: same_lease_def)
  then show "same_history sn (upd_lease k f sn)" by (simp add: same_history_def upd_lease_def)
qed

lemmas keeps_simple = keeps_directives keeps_scheduler keeps_expire keeps_terminal keeps_settle

section \<open>Progress, effects, heartbeats and directives\<close>

lemma report_progress_inv:
  assumes "report_progress E st actor inp now = Ok (st', out)" and "plan_inv st"
  shows "plan_next st st'"
proof -
  obtain k lease s mid upd sn r where cur: "validate_current_attempt (st_snapshot st) actor = Ok (k, lease)"
    and mid: "apply_directive_reports (at_attempt_id (ps_attempts (st_snapshot st) ! k))
        (gp_acknowledged_directive_ids inp) (gp_applied_directive_ids inp) now (st_snapshot st) = Ok (mid, upd)"
    and adv: "advance_revision E ''attempt progress reported''
      (upd_progress (at_attempt_id (ps_attempts (st_snapshot st) ! k)) (apply_progress_report inp s now)
        (case gp_checkpoint_ref inp of
           Some r \<Rightarrow> upd_attempt k (\<lambda>a. a\<lparr>at_latest_checkpoint_ref := Some r\<rparr>) mid | None \<Rightarrow> mid)) = Ok (sn, r)"
    and st': "st' = st\<lparr>st_snapshot := sn\<rparr>"
    using assms(1) by (auto simp: report_progress_def Let_def result_simps split: prod.splits)
  note c = validate_current_attempt_k [OF cur]
  have opn: "is_open (ps_attempts mid ! k)" using directives_frame(9) [OF mid c(1)] c(2) by (simp add: is_open_def)
  note keeps_directive_reports [OF mid c(1,2)]
  also have "keeps mid (case gp_checkpoint_ref inp of
           Some r \<Rightarrow> upd_attempt k (\<lambda>a. a\<lparr>at_latest_checkpoint_ref := Some r\<rparr>) mid | None \<Rightarrow> mid)" (is "keeps _ ?c")
    using opn by (auto intro: keeps_attempt simp: same_attempt_def split: option.split)
  also have "keeps ?c (upd_progress (at_attempt_id (ps_attempts (st_snapshot st) ! k))
      (apply_progress_report inp s now) ?c)"
    by (rule keeps_progress) (simp add: apply_progress_report_def)
  also note keeps_advance [OF adv]
  finally show ?thesis unfolding st' by (rule plan_inv_keeps [OF assms(2)])
qed

lemma record_runtime_effect_inv:
  assumes "record_runtime_effect E st actor paths now = Ok (st', out)" and "plan_inv st"
  shows "plan_next st st'"
proof -
  obtain a s sn r where adv: "advance_revision E ''runtime-observed attempt effect recorded''
      (upd_progress a (apply_runtime_effect paths s now) (st_snapshot st)) = Ok (sn, r)"
    and st': "st' = st\<lparr>st_snapshot := sn\<rparr>"
    using assms(1) by (auto simp: record_runtime_effect_def Let_def result_simps split: prod.splits)
  have "keeps (st_snapshot st) (upd_progress a (apply_runtime_effect paths s now) (st_snapshot st))"
    by (rule keeps_progress) (simp add: apply_runtime_effect_def)
  also note keeps_advance [OF adv]
  finally show ?thesis unfolding st' by (rule plan_inv_keeps [OF assms(2)])
qed

lemma heartbeat_inv:
  assumes "heartbeat E st actor lease now pr tc = Ok (st', out)" and "plan_inv st"
  shows "plan_next st st'"
proof -
  obtain a s j e sn r where adv: "advance_revision E ''attempt heartbeat recorded''
      (upd_progress a (apply_heartbeat s now pr tc)
        (upd_lease j (\<lambda>l. l\<lparr>le_last_heartbeat_at_ms := now, le_lease_expires_at_ms := e\<rparr>)
          (st_snapshot st))) = Ok (sn, r)"
    and st': "st' = st\<lparr>st_snapshot := sn\<rparr>"
    using assms(1) by (auto simp: heartbeat_def Let_def result_simps split: prod.splits)
  let ?l = "upd_lease j (\<lambda>l. l\<lparr>le_last_heartbeat_at_ms := now, le_lease_expires_at_ms := e\<rparr>) (st_snapshot st)"
  have "keeps (st_snapshot st) ?l" by (rule keeps_lease) (simp add: same_lease_def)
  also have "keeps ?l (upd_progress a (apply_heartbeat s now pr tc) ?l)"
    by (rule keeps_progress) (simp add: apply_heartbeat_def)
  also note keeps_advance [OF adv]
  finally show ?thesis unfolding st' by (rule plan_inv_keeps [OF assms(2)])
qed

lemma issue_directive_inv:
  assumes "issue_directive E st inp now = Ok (st', out)" and "plan_inv st"
  shows "plan_next st st'"
proof -
  obtain ds sn r v where adv: "advance_revision E ''coordinator directive issued''
      ((st_snapshot st)\<lparr>ps_directives := ds\<rparr>) = Ok (sn, r)"
    and st': "st' = st\<lparr>st_snapshot := sn, st_next_directive_sequence := v\<rparr>"
    using assms(1) by (auto simp: issue_directive_def Let_def result_simps split: prod.splits if_splits)
  have "keeps (st_snapshot st) sn" using keeps_trans [OF keeps_directives keeps_advance [OF adv]] .
  from plan_inv_keeps [OF assms(2) this] show ?thesis unfolding st' by (simp add: plan_next_def)
qed

lemma deliver_queued_directives_inv:
  assumes "deliver_queued_directives E st actor lease now = Ok (st', out)" and "plan_inv st"
  shows "plan_next st st'"
proof -
  consider "st' = st" | ds sn r where "advance_revision E ''coordinator directives delivered''
      ((st_snapshot st)\<lparr>ps_directives := ds\<rparr>) = Ok (sn, r)" "st' = st\<lparr>st_snapshot := sn\<rparr>"
    using assms(1) by (auto simp: deliver_queued_directives_def Let_def result_simps split: prod.splits if_splits)
  then show ?thesis
  proof cases
    case 2
    show ?thesis unfolding 2(2)
      by (rule plan_inv_keeps [OF assms(2) keeps_trans [OF keeps_directives keeps_advance [OF 2(1)]]])
  qed (use plan_next_refl [OF assms(2)] in simp)
qed

lemma review_progress_inv:
  assumes "review_progress_at_boundary E st actor lease now = Ok (st', out)" and "plan_inv st"
  shows "plan_next st st'"
proof -
  consider "st' = st" | a s sn r where "advance_revision E ''plan progress review requested''
      (upd_progress a (request_review s now) (st_snapshot st)) = Ok (sn, r)" "st' = st\<lparr>st_snapshot := sn\<rparr>"
    using assms(1)
    by (auto simp: review_progress_at_boundary_def Let_def result_simps split: prod.splits if_splits)
  then show ?thesis
  proof cases
    case 2
    have "keeps (st_snapshot st) (upd_progress a (request_review s now) (st_snapshot st))"
      by (rule keeps_progress) (simp add: request_review_def)
    also note keeps_advance [OF 2(1)]
    finally show ?thesis unfolding 2(2) by (rule plan_inv_keeps [OF assms(2)])
  qed (use plan_next_refl [OF assms(2)] in simp)
qed

lemma start_attempt_records_inv:
  assumes "start_attempt_records E st i actor now leased = Ok (st', records)" and inv: "plan_inv st"
    and fit: "Suc (length (ps_attempts (st_snapshot st))) < 2 ^ 64"
  shows "plan_next st st'"
proof -
  obtain found x where st': "st' = started E st found actor now leased x"
    using start_attempt_recordsE [OF assms(1)] by metis
  have "node_ids_ok st'"
    using plan_invD(3) [OF inv] unfolding st' node_ids_ok_def started_def
    by (auto simp: Let_def upd_node_def set_status_def dest!: update_first_cases) metis
  with start_attempt_records_exec_ok [OF assms(1) plan_invD(1,2) [OF inv] fit]
  have "plan_inv st'" by (simp add: plan_inv_def)
  moreover have "grown (ps_attempts (st_snapshot st)) (ps_attempts (st_snapshot st'))"
    unfolding grown_def
    by (rule exI [of _ "ps_attempts (st_snapshot st)"])
      (simp add: st' started_def Let_def upd_node_def attempt_of_def new_attempt_def is_open_def)
  ultimately show ?thesis by (simp add: plan_next_def st' started_def Let_def)
qed

section \<open>Closing an attempt\<close>

definition resolves :: "PlanAttemptSnapshot \<Rightarrow> PlanLeaseSnapshot \<Rightarrow> PlanLeaseSnapshot \<Rightarrow> bool" where
  "resolves a l l' \<longleftrightarrow> same_lease l l' \<and> (le_status l' = PlanLeaseStatus.Live) =
     (le_status l = PlanLeaseStatus.Live \<and> at_lease_id a \<noteq> Some (le_lease_id l))"

lemma keeps_close:
  assumes k: "k < length (ps_attempts sn)" and opn: "is_open (ps_attempts sn ! k)"
    and a': "same_attempt (ps_attempts sn ! k) a'" "\<not> is_open a'"
    and f: "\<And>n. restatus n (f n)"
    and attempts: "ps_attempts sn' = (ps_attempts sn)[k := a']"
    and leases: "exec_ok sn \<Longrightarrow> list_all2 (resolves (ps_attempts sn ! k)) (ps_leases sn) (ps_leases sn')"
    and nodes: "ps_nodes sn' = update_first (\<lambda>n. pn_id n = at_node_id (ps_attempts sn ! k)) f (ps_nodes sn)"
    and rest: "ps_root_node_id sn' = ps_root_node_id sn" "ps_phase sn' = ps_phase sn"
      "ps_authorized_capability_envelope sn' = ps_authorized_capability_envelope sn"
      "map pr_attempt_id (ps_attempt_progress sn') = map pr_attempt_id (ps_attempt_progress sn)"
  shows "keeps sn sn'"
  unfolding keeps_def
proof (intro impI conjI)
  assume ok: "exec_ok sn"
  show "exec_ok sn'" by (rule close_exec_ok [OF ok k a' opn f attempts leases [OF ok, unfolded resolves_def] nodes rest])
  have "list_all2 evolves (ps_attempts sn) (ps_attempts sn')"
    unfolding attempts by (rule list_all2_list_update) (use a'(1) opn in \<open>simp_all add: evolves_def\<close>)
  moreover have "map le_lease_id (ps_leases sn') = map le_lease_id (ps_leases sn)"
    using leases [OF ok] by (rule map_list_all2) (simp add: resolves_def same_lease_def)
  moreover have "map pn_id (ps_nodes sn') = map pn_id (ps_nodes sn)"
    unfolding nodes by (rule map_update_first) (simp add: restatus_id [OF f])
  ultimately show "same_history sn sn'" by (simp add: same_history_def)
qed

lemma resolves_at:
  assumes "records_ok as ls" and "j < length ls" and "linked a (ls ! j)"
    and "same_lease (ls ! j) l'" and "le_status l' \<noteq> PlanLeaseStatus.Live"
  shows "list_all2 (resolves a) ls (ls[j := l'])"
proof -
  have "distinct (map le_lease_id ls)" using assms(1) by (simp add: records_ok_def)
  then have "le_lease_id (ls ! i) \<noteq> le_lease_id (ls ! j)" if "i < length ls" "i \<noteq> j" for i
    using that assms(2) by (simp add: distinct_conv_nth)
  then show ?thesis using assms
    by (auto simp: list_all2_conv_all_nth nth_list_update resolves_def linked_def) metis
qed

lemma resolves_none: "at_lease_id a = None \<Longrightarrow> list_all2 (resolves a) ls ls"
  by (simp add: list_all2_same resolves_def)

lemma resolves_first:
  assumes "records_ok as ls" and "at_lease_id a = Some i" and "a \<in> set as"
    and "\<And>l. same_lease l (f l) \<and> le_status (f l) \<noteq> PlanLeaseStatus.Live"
  shows "list_all2 (resolves a) ls (update_first (\<lambda>l. le_lease_id l = i) f ls)"
proof -
  have "distinct (map le_lease_id ls)" using assms(1) by (simp add: records_ok_def)
  then show ?thesis
  proof (induction ls)
    case (Cons l ls)
    show ?case
    proof (cases "le_lease_id l = i")
      case True
      have "le_lease_id l \<notin> set (map le_lease_id ls)" using Cons.prems by simp
      then have "\<forall>m\<in>set ls. le_lease_id m \<noteq> i" using True by (metis image_eqI list.set_map)
      then have "list_all2 (resolves a) ls ls"
        using assms(2) by (auto simp: list_all2_same resolves_def)
      moreover have "resolves a l (f l)" using True assms(2,4) by (simp add: resolves_def)
      ultimately show ?thesis using True by simp
    next
      case False
      then show ?thesis using Cons assms(2) by (simp add: resolves_def)
    qed
  qed simp
qed

lemma restatus_set_status': "s \<in> {PlanNodeStatus.Pending, PlanNodeStatus.Blocked, PlanNodeStatus.Completed,
    PlanNodeStatus.Expanded, PlanNodeStatus.Failed} \<Longrightarrow> restatus n (set_status s vr n)"
  by (rule restatus_set_status) auto

lemma close_attempt_same [simp]:
  "same_attempt a (close_attempt outcome d now a)" "\<not> is_open (close_attempt outcome d now a)"
  by (simp_all add: close_attempt_def same_attempt_def is_open_def)

lemma close_progress_id [simp]: "pr_attempt_id (close_progress s now p) = pr_attempt_id p"
  by (simp add: close_progress_def)

lemma keeps_close_leased:
  assumes "validate_own_lease sn actor lease_id = Ok (k, j)"
    and "ps_attempts mid = ps_attempts sn" "ps_leases mid = ps_leases sn"
    and "s \<noteq> PlanLeaseStatus.Live" and "t \<noteq> PlanNodeStatus.Superseded"
  shows "keeps mid (upd_node (at_node_id (ps_attempts sn ! k)) (set_status t vr)
    (upd_lease j (\<lambda>l. l\<lparr>le_status := s\<rparr>) (upd_attempt k (close_attempt outcome d now) mid)))"
proof -
  obtain vr' where live: "validate_live_lease sn actor lease_id vr' = Ok (k, j)"
    using validate_own_leaseE [OF assms(1)] .
  note v = validate_live_leaseD [OF live]
  have "exec_ok mid \<Longrightarrow> list_all2 (resolves (ps_attempts mid ! k)) (ps_leases mid)
      ((ps_leases mid)[j := (ps_leases mid ! j)\<lparr>le_status := s\<rparr>])"
    by (rule resolves_at [of "ps_attempts mid"])
      (use v assms validate_live_lease_linked [OF live] exec_okD(2) [of mid] in
        \<open>auto simp: same_lease_def\<close>)
  then show ?thesis
    by (intro keeps_close [where k = k and f = "set_status t vr"
          and a' = "close_attempt outcome d now (ps_attempts mid ! k)"])
      (use v assms in \<open>auto simp: upd_node_def upd_lease_def upd_attempt_def\<close>)
qed

lemma cancel_attempt_inv:
  assumes "cancel_attempt E st actor lease reason now = Ok (st', out)" and "plan_inv st"
  shows "plan_next st st'"
proof -
  let ?sn = "st_snapshot st"
  obtain k j mid r d where v: "validate_own_lease ?sn actor lease = Ok (k, j)"
    and adv: "advance_revision E ''plan attempt cancelled'' ?sn = Ok (mid, r)"
    and st': "st' = st\<lparr>st_snapshot := settle_draining_phase (fst (expire_attempt_directives
      (at_attempt_id (ps_attempts ?sn ! k)) (upd_node (at_node_id (ps_attempts ?sn ! k))
        (set_status PlanNodeStatus.Blocked r) (upd_lease j (\<lambda>l. l\<lparr>le_status := PlanLeaseStatus.Cancelled\<rparr>)
          (upd_attempt k (close_attempt PlanAttemptOutcome.Cancelled d now) mid)))))\<rparr>"
    using assms(1) by (auto simp: cancel_attempt_def Let_def result_simps case_prod_beta split: if_splits)
  note keeps_advance [OF adv]
  also have "keeps mid (upd_node (at_node_id (ps_attempts ?sn ! k))
        (set_status PlanNodeStatus.Blocked r) (upd_lease j (\<lambda>l. l\<lparr>le_status := PlanLeaseStatus.Cancelled\<rparr>)
          (upd_attempt k (close_attempt PlanAttemptOutcome.Cancelled d now) mid)))"
    by (rule keeps_close_leased [OF v]) (use adv in \<open>auto elim!: advance_revisionE\<close>)
  also note keeps_expire
  also note keeps_settle
  finally show ?thesis unfolding st' by (rule plan_inv_keeps [OF assms(2)])
qed

section \<open>Closing the local attempts of a cancelled plan\<close>

lemma position_attempt:
  assumes "position (\<lambda>a. at_attempt_id a = i) (ps_attempts sn) = Some k"
  shows "k < length (ps_attempts sn)" "at_attempt_id (ps_attempts sn ! k) = i"
  using assms by (auto simp: position_Some_iff)

definition idle_leased :: "PlanAttemptSnapshot list \<Rightarrow> PlanAttemptId list \<Rightarrow> PlanLeaseId option set \<Rightarrow> bool" where
  "idle_leased as ids L \<longleftrightarrow>
     distinct ids \<and> (\<forall>a\<in>set as. at_attempt_id a \<in> set ids \<longrightarrow> is_open a \<and> at_lease_id a \<in> L)"

lemma idle_leased_step:
  assumes "idle_leased as (i # ids) L" and "k < length as" and "at_attempt_id (as ! k) = i"
    and "same_attempt (as ! k) a'"
  shows "idle_leased (as[k := a']) ids L" "is_open (as ! k)" "at_lease_id (as ! k) \<in> L"
  using assms nth_mem [OF assms(2)]
  by (auto simp: idle_leased_def same_attempt_def dest!: set_update_subset_insert [THEN subsetD])

lemma cancel_local_attemptE:
  assumes "cancel_local_attempt d r now (sn, done) i = Ok (sn', done')"
  obtains k where "position (\<lambda>a. at_attempt_id a = i) (ps_attempts sn) = Some k"
    "sn' = upd_node (at_node_id (ps_attempts sn ! k)) (set_status PlanNodeStatus.Blocked r)
      (upd_progress i (close_progress (at_started_at_ms (ps_attempts sn ! k)) now)
        (upd_attempt k (close_attempt PlanAttemptOutcome.Cancelled d now) sn))"
  using assms by (auto simp: cancel_local_attempt_def Let_def result_simps)

lemma cancel_local_attempt_keeps:
  assumes "cancel_local_attempt d r now (sn, done) i = Ok (sn', done')"
    and "idle_leased (ps_attempts sn) (i # ids) {None}"
  shows "keeps sn sn' \<and> idle_leased (ps_attempts sn') ids {None}"
proof -
  obtain k where k: "position (\<lambda>a. at_attempt_id a = i) (ps_attempts sn) = Some k"
    and sn': "sn' = upd_node (at_node_id (ps_attempts sn ! k)) (set_status PlanNodeStatus.Blocked r)
      (upd_progress i (close_progress (at_started_at_ms (ps_attempts sn ! k)) now)
        (upd_attempt k (close_attempt PlanAttemptOutcome.Cancelled d now) sn))"
    by (rule cancel_local_attemptE [OF assms(1)])
  note k = position_attempt [OF k]
  note i = idle_leased_step [OF assms(2) k, of "close_attempt PlanAttemptOutcome.Cancelled d now (ps_attempts sn ! k)"]
  have "keeps sn sn'"
    by (rule keeps_close [where k = k and f = "set_status PlanNodeStatus.Blocked r"
          and a' = "close_attempt PlanAttemptOutcome.Cancelled d now (ps_attempts sn ! k)"])
      (use k i in \<open>auto simp: sn' upd_node_def upd_progress_def upd_attempt_def intro!: resolves_none\<close>)
  with i(1) show ?thesis by (simp add: sn' upd_node_def upd_progress_def upd_attempt_def)
qed

lemma cancel_local_attempts_keeps:
  assumes "fold_res (cancel_local_attempt d r now) (sn, done) ids = Ok (sn', done')"
    and "idle_leased (ps_attempts sn) ids {None}"
  shows "keeps sn sn'"
  using assms
proof (induction ids arbitrary: sn "done")
  case (Cons i ids)
  then obtain mid done1 where step: "cancel_local_attempt d r now (sn, done) i = Ok (mid, done1)"
    and rest: "fold_res (cancel_local_attempt d r now) (mid, done1) ids = Ok (sn', done')"
    by (auto simp: result_simps)
  from cancel_local_attempt_keeps [OF step Cons.prems(2)] Cons.IH [OF rest] show ?case
    using keeps_trans by blast
qed simp

lemma idle_leased_open:
  assumes "exec_ok sn" and "\<And>a. a \<in> set (ps_attempts sn) \<Longrightarrow> P a \<Longrightarrow> is_open a \<and> at_lease_id a \<in> L"
  shows "idle_leased (ps_attempts sn) (map at_attempt_id (filter P (ps_attempts sn))) L"
proof -
  have d: "distinct (map at_attempt_id (ps_attempts sn))" using exec_okD(2) [OF assms(1)] by (simp add: records_ok_def)
  have "P a" if "a \<in> set (ps_attempts sn)" "b \<in> set (ps_attempts sn)" "P b" "at_attempt_id a = at_attempt_id b" for a b
    using distinct_map_eq [OF d that(1,2,4)] that(3) by simp
  then have "\<forall>a\<in>set (ps_attempts sn). at_attempt_id a \<in> at_attempt_id ` {b \<in> set (ps_attempts sn). P b} \<longrightarrow> P a"
    by blast
  with assms(2) d show ?thesis unfolding idle_leased_def by (simp add: distinct_map_filter)
qed

lemma request_cancellationE:
  assumes "request_cancellation E st reason now = Ok (st', out)"
  obtains mid r d mid2 done2 sn where
    "advance_revision E ''plan cancellation requested''
      ((st_snapshot st)\<lparr>ps_scheduler_status := PlanSchedulerStatus.Draining\<rparr>) = Ok (mid, r)"
    "fold_res (cancel_local_attempt d r now) (mid, []) (map at_attempt_id
      (filter (\<lambda>a. at_outcome a = None \<and> at_lease_id a = None) (ps_attempts (st_snapshot st)))) = Ok (mid2, done2)"
    "refresh_parent_states r mid2 = Ok sn"
    "st' = st\<lparr>st_snapshot := settle_draining_phase sn\<rparr>"
    "validate_reason reason = Ok ()" "new_error_info ''plan_attempt_cancelled'' reason = Some d"
  using assms unfolding request_cancellation_def Let_def
  by (clarsimp simp only: ok_steps expect_simps ex_unit split: if_splits) blast

lemma request_cancellation_inv:
  assumes "request_cancellation E st reason now = Ok (st', out)" and inv: "plan_inv st"
  shows "plan_next st st'"
proof -
  let ?sn = "st_snapshot st"
  obtain mid r d mid2 done2 sn where
    adv: "advance_revision E ''plan cancellation requested'' (?sn\<lparr>ps_scheduler_status := PlanSchedulerStatus.Draining\<rparr>)
      = Ok (mid, r)"
    and fold: "fold_res (cancel_local_attempt d r now) (mid, []) (map at_attempt_id
      (filter (\<lambda>a. at_outcome a = None \<and> at_lease_id a = None) (ps_attempts ?sn))) = Ok (mid2, done2)"
    and ref: "refresh_parent_states r mid2 = Ok sn"
    and st': "st' = st\<lparr>st_snapshot := settle_draining_phase sn\<rparr>"
    by (rule request_cancellationE [OF assms(1)])
  have "keeps ?sn mid" using keeps_trans [OF keeps_scheduler keeps_advance [OF adv]] .
  also have "keeps mid mid2"
  proof (rule cancel_local_attempts_keeps [OF fold])
    have "idle_leased (ps_attempts ?sn) (map at_attempt_id
      (filter (\<lambda>a. at_outcome a = None \<and> at_lease_id a = None) (ps_attempts ?sn))) {None}"
      by (rule idle_leased_open [OF plan_invD(1) [OF inv]]) (simp add: is_open_def)
    then show "idle_leased (ps_attempts mid) (map at_attempt_id
      (filter (\<lambda>a. at_outcome a = None \<and> at_lease_id a = None) (ps_attempts ?sn))) {None}"
      using adv by (auto elim!: advance_revisionE)
  qed
  also note keeps_refresh [OF ref]
  also note keeps_settle
  finally show ?thesis unfolding st' by (rule plan_inv_keeps [OF inv])
qed

section \<open>Expired leases\<close>

lemma interrupt_attemptE:
  assumes "interrupt_attempt r now (sn, done, ds) i = Ok (sn', out)"
  obtains k lease j d s where
    "position (\<lambda>a. at_attempt_id a = i) (ps_attempts sn) = Some k" "at_lease_id (ps_attempts sn ! k) = Some lease"
    "position (\<lambda>l. le_lease_id l = lease) (ps_leases sn) = Some j"
    "s \<in> {PlanNodeStatus.Pending, PlanNodeStatus.Blocked}"
    "sn' = fst (expire_attempt_directives i (upd_node (at_node_id (ps_attempts sn ! k)) (set_status s r)
       (upd_progress i (close_progress (at_started_at_ms (ps_attempts sn ! k)) now)
         (upd_lease j (\<lambda>l. l\<lparr>le_status := PlanLeaseStatus.Expired\<rparr>)
           (upd_attempt k (close_attempt PlanAttemptOutcome.Interrupted d now) sn)))))"
proof -
  obtain k lease j retry d where
    p: "position (\<lambda>a. at_attempt_id a = i) (ps_attempts sn) = Some k" "at_lease_id (ps_attempts sn ! k) = Some lease"
    "position (\<lambda>l. le_lease_id l = lease) (ps_leases sn) = Some j"
    and sn': "sn' = fst (expire_attempt_directives i (upd_node (at_node_id (ps_attempts sn ! k))
       (set_status (if retry then PlanNodeStatus.Pending else PlanNodeStatus.Blocked) r)
       (upd_progress i (close_progress (at_started_at_ms (ps_attempts sn ! k)) now)
         (upd_lease j (\<lambda>l. l\<lparr>le_status := PlanLeaseStatus.Expired\<rparr>)
           (upd_attempt k (close_attempt PlanAttemptOutcome.Interrupted d now) sn)))))"
    using assms unfolding interrupt_attempt_def Let_def case_prod_beta fst_conv snd_conv
    by (clarsimp simp only: ok_steps expect_simps)
  show thesis by (rule that [OF p _ sn']) simp
qed

lemma interrupt_attempt_keeps:
  assumes step: "interrupt_attempt r now (sn, done, ds) i = Ok (sn', out)"
    and idle: "idle_leased (ps_attempts sn) (i # ids) UNIV"
  shows "keeps sn sn' \<and> idle_leased (ps_attempts sn') ids UNIV"
proof -
  obtain k lease j d s where
    p: "position (\<lambda>a. at_attempt_id a = i) (ps_attempts sn) = Some k" "at_lease_id (ps_attempts sn ! k) = Some lease"
    "position (\<lambda>l. le_lease_id l = lease) (ps_leases sn) = Some j"
    and s: "s \<in> {PlanNodeStatus.Pending, PlanNodeStatus.Blocked}"
    and sn': "sn' = fst (expire_attempt_directives i (upd_node (at_node_id (ps_attempts sn ! k)) (set_status s r)
       (upd_progress i (close_progress (at_started_at_ms (ps_attempts sn ! k)) now)
         (upd_lease j (\<lambda>l. l\<lparr>le_status := PlanLeaseStatus.Expired\<rparr>)
           (upd_attempt k (close_attempt PlanAttemptOutcome.Interrupted d now) sn)))))"
    by (rule interrupt_attemptE [OF step])
  note k = position_attempt [OF p(1)]
  note i = idle_leased_step [OF idle k, of "close_attempt PlanAttemptOutcome.Interrupted d now (ps_attempts sn ! k)"]
  have j: "j < length (ps_leases sn)" "le_lease_id (ps_leases sn ! j) = lease"
    using p(3) by (auto simp: position_Some_iff)
  have res: "exec_ok sn \<Longrightarrow> list_all2 (resolves (ps_attempts sn ! k)) (ps_leases sn)
      ((ps_leases sn)[j := (ps_leases sn ! j)\<lparr>le_status := PlanLeaseStatus.Expired\<rparr>])"
    by (rule resolves_at [of "ps_attempts sn"])
      (use exec_okD(2) [of sn] j p(2) lease_of_attempt [of "ps_attempts sn" "ps_leases sn" "ps_attempts sn ! k" "ps_leases sn ! j"]
          k(1) in \<open>auto simp: same_lease_def\<close>)
  have "keeps sn sn'"
    by (rule keeps_close [where k = k and f = "set_status s r"
          and a' = "close_attempt PlanAttemptOutcome.Interrupted d now (ps_attempts sn ! k)"])
      (use k i s res in \<open>auto simp: sn' upd_node_def upd_progress_def upd_attempt_def upd_lease_def
          expire_attempt_directives_def\<close>)
  with i(1) show ?thesis
    by (simp add: sn' upd_node_def upd_progress_def upd_attempt_def upd_lease_def expire_attempt_directives_def)
qed

lemma interrupt_attempts_keeps:
  assumes "fold_res (interrupt_attempt r now) (sn, out) ids = Ok (sn', out')"
    and "idle_leased (ps_attempts sn) ids UNIV"
  shows "keeps sn sn'"
  using assms
proof (induction ids arbitrary: sn out)
  case (Cons i ids)
  obtain d ds where out: "out = (d, ds)" by (cases out)
  from Cons.prems(1) obtain mid out1 where step: "interrupt_attempt r now (sn, d, ds) i = Ok (mid, out1)"
    and rest: "fold_res (interrupt_attempt r now) (mid, out1) ids = Ok (sn', out')"
    by (auto simp: result_simps out)
  from interrupt_attempt_keeps [OF step Cons.prems(2)] Cons.IH [OF rest] show ?case
    using keeps_trans by blast
qed simp

lemma interrupt_expired_leases_inv:
  assumes "interrupt_expired_leases E st now = Ok (st', out)" and inv: "plan_inv st"
  shows "plan_next st st'"
proof -
  let ?sn = "st_snapshot st"
  let ?ids = "map at_attempt_id (filter (\<lambda>a. at_outcome a = None \<and> lease_expired ?sn now a) (ps_attempts ?sn))"
  show ?thesis
  proof (cases "?ids = []")
    case True
    with assms(1) plan_next_refl [OF inv] show ?thesis
      unfolding interrupt_expired_leases_def Let_def by (simp only: if_True result.inject prod.inject simp_thms)
  next
    case False
    obtain mid r mid2 done2 ds2 sn where
      adv: "advance_revision E ''expired subagent plan leases interrupted'' ?sn = Ok (mid, r)"
      and fold: "fold_res (interrupt_attempt r now) (mid, [], []) ?ids = Ok (mid2, done2, ds2)"
      and ref: "refresh_parent_states r mid2 = Ok sn"
      and st': "st' = st\<lparr>st_snapshot := settle_draining_phase (refresh_terminal_phase sn)\<rparr>"
      using assms(1) False unfolding interrupt_expired_leases_def Let_def
      by (clarsimp simp only: ok_steps if_False) blast
    have "idle_leased (ps_attempts ?sn) ?ids UNIV"
      by (rule idle_leased_open [OF plan_invD(1) [OF inv]]) (simp add: is_open_def)
    then have idle: "idle_leased (ps_attempts mid) ?ids UNIV" using adv by (auto elim!: advance_revisionE)
    note keeps_advance [OF adv]
    also note interrupt_attempts_keeps [OF fold idle]
    also note keeps_refresh [OF ref]
    also note keeps_terminal
    also note keeps_settle
    finally show ?thesis unfolding st' by (rule plan_inv_keeps [OF inv])
  qed
qed

section \<open>Loading a session\<close>

lemma update_first_map:
  assumes "\<And>x. x \<in> set xs \<Longrightarrow> p (g x) = p x \<and> f (g x) = g (f x)"
  shows "update_first p f (map g xs) = map g (update_first p f xs)"
  using assms by (induction xs) auto

lemma abandon_links_commute:
  "set_status PlanNodeStatus.Blocked r (abandon_links r now n)
     = abandon_links r now (set_status PlanNodeStatus.Blocked r n)"
  by (simp add: abandon_links_def set_status_def has_active_link_def recompute_execution_summary_def)

lemma abandon_links_id [simp]: "pn_id (abandon_links r now n) = pn_id n"
  by (simp add: abandon_links_def set_status_def recompute_execution_summary_def)

definition abandon_node_links :: "u64 \<Rightarrow> u64 \<Rightarrow> PlanSnapshot \<Rightarrow> PlanSnapshot" where
  "abandon_node_links r now sn = sn\<lparr>ps_nodes := map (abandon_links r now) (ps_nodes sn)\<rparr>"

lemma abandon_attempt_links:
  "abandon_attempt d r now (abandon_node_links r now sn) i = abandon_node_links r now (abandon_attempt d r now sn i)"
proof -
  have "update_first (\<lambda>n. pn_id n = j) (set_status PlanNodeStatus.Blocked r) (map (abandon_links r now) ns)
    = map (abandon_links r now) (update_first (\<lambda>n. pn_id n = j) (set_status PlanNodeStatus.Blocked r) ns)" for j ns
    by (rule update_first_map) (simp add: abandon_links_commute)
  then show ?thesis
    by (simp add: abandon_attempt_def abandon_node_links_def Let_def upd_node_def upd_attempt_def
        upd_progress_def expire_attempt_directives_def split: option.split)
qed

lemma abandon_attempts_links:
  "foldl (abandon_attempt d r now) (abandon_node_links r now sn) ids
     = abandon_node_links r now (foldl (abandon_attempt d r now) sn ids)"
  by (induction ids arbitrary: sn) (simp_all add: abandon_attempt_links)

lemma expire_live_lease_resolved [simp]:
  "same_lease l (expire_live_lease l)" "le_status (expire_live_lease l) \<noteq> PlanLeaseStatus.Live"
  by (auto simp: expire_live_lease_def same_lease_def)

lemma abandon_attempt_keeps:
  assumes idle: "idle_leased (ps_attempts sn) (i # ids) UNIV" and known: "i \<in> at_attempt_id ` set (ps_attempts sn)"
  shows "keeps sn (abandon_attempt d r now sn i)"
    and "idle_leased (ps_attempts (abandon_attempt d r now sn i)) ids UNIV"
    and "map at_attempt_id (ps_attempts (abandon_attempt d r now sn i)) = map at_attempt_id (ps_attempts sn)"
    and "exec_ok sn \<Longrightarrow> set (open_attempt_ids (abandon_attempt d r now sn i)) \<subseteq> set (open_attempt_ids sn) - {i}"
proof -
  obtain k where pos: "position (\<lambda>a. at_attempt_id a = i) (ps_attempts sn) = Some k"
    using known by (cases "position (\<lambda>a. at_attempt_id a = i) (ps_attempts sn)") (auto simp: position_None_iff)
  let ?a = "ps_attempts sn ! k"
  let ?a' = "close_attempt PlanAttemptOutcome.Interrupted d now ?a"
  let ?ls = "case at_lease_id ?a of None \<Rightarrow> ps_leases sn
    | Some l \<Rightarrow> update_first (\<lambda>x. le_lease_id x = l) expire_live_lease (ps_leases sn)"
  note k = position_attempt [OF pos]
  note i = idle_leased_step [OF idle k, of ?a']
  have sn': "ps_attempts (abandon_attempt d r now sn i) = (ps_attempts sn)[k := ?a']"
    "ps_leases (abandon_attempt d r now sn i) = ?ls"
    "ps_nodes (abandon_attempt d r now sn i)
       = update_first (\<lambda>n. pn_id n = at_node_id ?a) (set_status PlanNodeStatus.Blocked r) (ps_nodes sn)"
    "map pr_attempt_id (ps_attempt_progress (abandon_attempt d r now sn i)) = map pr_attempt_id (ps_attempt_progress sn)"
    "ps_root_node_id (abandon_attempt d r now sn i) = ps_root_node_id sn"
    "ps_phase (abandon_attempt d r now sn i) = ps_phase sn"
    "ps_authorized_capability_envelope (abandon_attempt d r now sn i) = ps_authorized_capability_envelope sn"
    by (simp_all add: abandon_attempt_def pos Let_def upd_node_def upd_attempt_def upd_progress_def
        expire_attempt_directives_def split: option.split)
  have res: "exec_ok sn \<Longrightarrow> list_all2 (resolves ?a) (ps_leases sn) ?ls"
    by (cases "at_lease_id ?a")
      (use exec_okD(2) [of sn] nth_mem [OF k(1)] resolves_first [of "ps_attempts sn" "ps_leases sn" ?a] in
        \<open>auto intro: resolves_none\<close>)
  show "keeps sn (abandon_attempt d r now sn i)"
    by (rule keeps_close [where k = k and f = "set_status PlanNodeStatus.Blocked r" and a' = ?a'])
      (use k i res in \<open>auto simp: sn'\<close>)
  show "idle_leased (ps_attempts (abandon_attempt d r now sn i)) ids UNIV" using i(1) by (simp add: sn')
  show ids: "map at_attempt_id (ps_attempts (abandon_attempt d r now sn i)) = map at_attempt_id (ps_attempts sn)"
    using k(1) by (auto simp: sn' list_eq_iff_nth_eq nth_list_update close_attempt_def)
  assume ok: "exec_ok sn"
  have d: "distinct (map at_attempt_id (ps_attempts sn))" using exec_okD(2) [OF ok] by (simp add: records_ok_def)
  show "set (open_attempt_ids (abandon_attempt d r now sn i)) \<subseteq> set (open_attempt_ids sn) - {i}"
  proof
    fix j assume "j \<in> set (open_attempt_ids (abandon_attempt d r now sn i))"
    then obtain m where m: "m < length (ps_attempts sn)" "at_outcome ((ps_attempts sn)[k := ?a'] ! m) = None"
      "at_attempt_id ((ps_attempts sn)[k := ?a'] ! m) = j"
      by (auto simp: open_attempt_ids_def sn' in_set_conv_nth)
    then have "m \<noteq> k" using k(1) by (auto simp: close_attempt_def)
    with m have "at_outcome (ps_attempts sn ! m) = None" "at_attempt_id (ps_attempts sn ! m) = j" by auto
    moreover from this \<open>m \<noteq> k\<close> m(1) k d have "j \<noteq> i" by (auto simp: distinct_conv_nth)
    ultimately show "j \<in> set (open_attempt_ids sn) - {i}" using m(1) by (auto simp: open_attempt_ids_def)
  qed
qed

lemma abandon_attempts_keeps:
  assumes "exec_ok sn" and "idle_leased (ps_attempts sn) ids UNIV"
    and "set ids \<subseteq> at_attempt_id ` set (ps_attempts sn)"
  shows "keeps sn (foldl (abandon_attempt d r now) sn ids)
    \<and> set (open_attempt_ids (foldl (abandon_attempt d r now) sn ids)) \<subseteq> set (open_attempt_ids sn) - set ids"
  using assms
proof (induction ids arbitrary: sn)
  case (Cons i ids)
  let ?mid = "abandon_attempt d r now sn i"
  have i: "i \<in> at_attempt_id ` set (ps_attempts sn)" using Cons.prems(3) by simp
  note mid = abandon_attempt_keeps [OF Cons.prems(2) i, of d r now]
  have "at_attempt_id ` set (ps_attempts ?mid) = at_attempt_id ` set (ps_attempts sn)"
    using mid(3) by (metis list.set_map)
  then have "keeps ?mid (foldl (abandon_attempt d r now) ?mid ids) \<and>
      set (open_attempt_ids (foldl (abandon_attempt d r now) ?mid ids)) \<subseteq> set (open_attempt_ids ?mid) - set ids"
    using Cons.IH [OF keepsD [OF mid(1) Cons.prems(1)] mid(2)] Cons.prems(3) by simp
  with mid(4) [OF Cons.prems(1)] keeps_trans [OF mid(1)] show ?case by auto
qed simp

lemma abandon_links_shape:
  assumes "node_ok n"
  shows "same_shape n (abandon_links r now n)" "node_ok (abandon_links r now n)"
    "\<not> has_active_link (abandon_links r now n)"
proof -
  have "lk_status (cancel_active_link now l) \<noteq> PlanLinkStatus.Active" for l by (simp add: cancel_active_link_def)
  then show "same_shape n (abandon_links r now n)" "node_ok (abandon_links r now n)"
    "\<not> has_active_link (abandon_links r now n)"
    using assms
    by (auto simp: abandon_links_def same_shape_def node_ok_def set_status_def recompute_execution_summary_def
        is_live_def has_active_link_def list_ex_iff)
qed

lemma abandon_node_links_keeps:
  assumes "open_attempt_ids sn = []"
  shows "keeps sn (abandon_node_links r now sn)"
  unfolding keeps_def
proof (intro impI conjI)
  assume ok: "exec_ok sn"
  have none: "open_nodes sn = {}" using assms by (auto simp: open_attempt_ids_def open_nodes_def is_open_def filter_empty_conv)
  show "exec_ok (abandon_node_links r now sn)"
    by (rule exec_ok_nodes [OF ok])
      (use none exec_okD(4) [OF ok] abandon_links_shape in
        \<open>auto simp: abandon_node_links_def list_all2_map2 list_all2_same\<close>)
qed (simp add: same_history_def abandon_node_links_def comp_def)

lemma abandon_unresumed_executionE:
  assumes "abandon_unresumed_execution E st now = Ok (st', True)"
  obtains mid r d sn where
    "advance_revision E ''persisted execution was not resumed'' (st_snapshot st) = Ok (mid, r)"
    "refresh_parent_states r (abandon_node_links r now
       (foldl (abandon_attempt d r now) mid (open_attempt_ids (st_snapshot st)))) = Ok sn"
    "st' = st\<lparr>st_snapshot := refresh_terminal_phase sn\<rparr>"
proof -
  have unw: "unwrap x = Ok y \<longleftrightarrow> x = Ok y" for x :: "(PlanSnapshot \<times> u64) plan_result" and y by (cases x) auto
  have "\<not> (open_attempt_ids (st_snapshot st) = [] \<and> \<not> list_ex has_active_link (ps_nodes (st_snapshot st)))"
    by (rule notI) (use assms in \<open>simp add: abandon_unresumed_execution_def\<close>)
  then obtain mid r d sn where adv: "advance_revision E ''persisted execution was not resumed'' (st_snapshot st) = Ok (mid, r)"
    and ref: "refresh_parent_states r (foldl (abandon_attempt d r now)
       (mid\<lparr>ps_nodes := map (abandon_links r now) (ps_nodes mid)\<rparr>) (open_attempt_ids (st_snapshot st))) = Ok sn"
    and st': "st' = st\<lparr>st_snapshot := refresh_terminal_phase sn\<rparr>"
    using assms unfolding abandon_unresumed_execution_def Let_def
    by (simp only: if_False ok_steps unw expect_simps) (elim exE conjE, blast)
  show thesis
    by (rule that [OF adv _ st']) (use ref abandon_attempts_links [of d r now mid] in \<open>simp add: abandon_node_links_def\<close>)
qed

lemma abandon_unresumed_execution_inv:
  assumes "abandon_unresumed_execution E st now = Ok (st', b)" and inv: "plan_inv st"
  shows "plan_next st st'"
proof (cases b)
  case False
  then have "st' = st" using assms(1)
    by (auto simp: abandon_unresumed_execution_def Let_def result_simps split: if_splits)
  with plan_next_refl [OF inv] show ?thesis by simp
next
  case True
  let ?sn = "st_snapshot st"
  obtain mid r d sn where adv: "advance_revision E ''persisted execution was not resumed'' ?sn = Ok (mid, r)"
    and ref: "refresh_parent_states r (abandon_node_links r now
       (foldl (abandon_attempt d r now) mid (open_attempt_ids ?sn))) = Ok sn"
    and st': "st' = st\<lparr>st_snapshot := refresh_terminal_phase sn\<rparr>"
    using abandon_unresumed_executionE assms(1) True by metis
  have as: "ps_attempts mid = ps_attempts ?sn" using adv by (auto elim!: advance_revisionE)
  then have ids: "open_attempt_ids mid = open_attempt_ids ?sn" by (simp add: open_attempt_ids_def)
  note mid = keepsD [OF keeps_advance [OF adv] plan_invD(1) [OF inv]]
  have idle: "idle_leased (ps_attempts mid) (open_attempt_ids mid) UNIV"
    unfolding open_attempt_ids_def by (rule idle_leased_open [OF mid]) (simp add: is_open_def)
  have "set (open_attempt_ids mid) \<subseteq> at_attempt_id ` set (ps_attempts mid)" by (auto simp: open_attempt_ids_def)
  note f = abandon_attempts_keeps [OF mid idle this, of d r now]
  note keeps_advance [OF adv]
  also note f [THEN conjunct1]
  also have "keeps (foldl (abandon_attempt d r now) mid (open_attempt_ids mid))
      (abandon_node_links r now (foldl (abandon_attempt d r now) mid (open_attempt_ids mid)))"
    using f by (intro abandon_node_links_keeps) auto
  also note keeps_refresh [OF ref [folded ids]]
  also note keeps_terminal
  finally show ?thesis unfolding st' by (rule plan_inv_keeps [OF inv])
qed

section \<open>Control operations\<close>

lemma exec_ok_gate:
  assumes ok: "exec_ok sn" and "plan_ok sn'" and "ps_nodes sn' = ps_nodes sn"
    and "ps_attempts sn' = ps_attempts sn" and "ps_leases sn' = ps_leases sn"
    and "ps_attempt_progress sn' = ps_attempt_progress sn"
    and "ps_phase sn' = PlanPhase.Planning \<longrightarrow> open_nodes sn = {}"
  shows "exec_ok sn'"
proof -
  have "open_nodes sn' = open_nodes sn" "busy sn' = busy sn"
    using assms by (simp_all add: open_nodes_def busy_def fun_eq_iff)
  with assms exec_okD [OF ok] show ?thesis by (simp add: exec_ok_def)
qed

lemma keeps_gate:
  assumes "exec_ok sn \<Longrightarrow> plan_ok sn'" and "ps_nodes sn' = ps_nodes sn"
    and "ps_attempts sn' = ps_attempts sn" and "ps_leases sn' = ps_leases sn"
    and "ps_attempt_progress sn' = ps_attempt_progress sn"
    and "ps_phase sn' = PlanPhase.Planning \<longrightarrow> open_nodes sn = {}"
  shows "keeps sn sn'"
  using exec_ok_gate [of sn sn'] assms by (simp add: keeps_def same_history_def)

lemma plan_ok_authorized:
  assumes "plan_ok sn" and "ps_root_node_id sn = Some r"
    and "validate_authorized_envelope (collect_nodes (ps_nodes sn)) r (Some e) = Ok ()"
    and "ps_nodes sn' = ps_nodes sn" and "ps_root_node_id sn' = Some r"
    and "ps_authorized_capability_envelope sn' = Some e"
  shows "plan_ok sn'"
  using assms by (simp add: plan_ok_def)

lemma keeps_authorized:
  assumes "ps_root_node_id sn = Some r"
    and "validate_authorized_envelope (collect_nodes (ps_nodes sn)) r (Some e) = Ok ()"
    and "ps_nodes sn' = ps_nodes sn" "ps_root_node_id sn' = Some r"
    and "ps_authorized_capability_envelope sn' = Some e"
    and "ps_attempts sn' = ps_attempts sn" "ps_leases sn' = ps_leases sn"
    and "ps_attempt_progress sn' = ps_attempt_progress sn" and "ps_phase sn' = PlanPhase.Executing"
  shows "keeps sn sn'"
proof (rule keeps_gate)
  assume "exec_ok sn"
  then show "plan_ok sn'" using plan_ok_authorized [OF exec_okD(1) assms(1,2)] assms by blast
qed (use assms in simp_all)

lemma enter_execution_inv:
  assumes "enter_execution E st envelope refs = Ok st'" and inv: "plan_inv st"
  shows "plan_next st st'"
proof -
  obtain r fp sn vr where root: "ps_root_node_id (st_snapshot st) = Some r"
    and env: "validate_authorized_envelope (collect_nodes (ps_nodes (st_snapshot st))) r (Some envelope) = Ok ()"
    and adv: "advance_revision E ''plan execution authorized''
      ((st_snapshot st)\<lparr>ps_authorized_capability_envelope := Some envelope, ps_execution_authorization_refs := refs,
         ps_phase := PlanPhase.Executing, ps_execution_contract_fingerprint := fp\<rparr>) = Ok (sn, vr)"
    and st': "st' = st\<lparr>st_snapshot := sn\<rparr>"
    using assms(1) by (auto simp: enter_execution_def Let_def result_simps split: option.splits)
  have "keeps (st_snapshot st) ((st_snapshot st)\<lparr>ps_authorized_capability_envelope := Some envelope,
      ps_execution_authorization_refs := refs, ps_phase := PlanPhase.Executing, ps_execution_contract_fingerprint := fp\<rparr>)"
    by (rule keeps_authorized [OF root env]) (simp_all add: root)
  also note keeps_advance [OF adv]
  finally show ?thesis unfolding st' by (rule plan_inv_keeps [OF inv])
qed

lemma approveE:
  assumes "approve E st inp = Ok (st', out)"
  obtains r envelope rqs fp sn vr where "ps_root_node_id (st_snapshot st) = Some r"
    "ps_phase (st_snapshot st) \<in> {PlanPhase.Planning, PlanPhase.AwaitingApproval}"
    "ap_expected_plan_revision inp = ps_revision (st_snapshot st)"
    "validate_authorized_envelope (collect_nodes (ps_nodes (st_snapshot st))) r (Some envelope) = Ok ()"
    "resolve_requirements inp envelope (ps_approval_requirements (st_snapshot st)) = Ok rqs"
    "advance_revision E ''plan approval resolved''
      ((st_snapshot st)\<lparr>ps_approval_requirements := rqs, ps_authorized_capability_envelope := Some envelope,
         ps_execution_authorization_refs := ap_authorization_refs inp, ps_phase := PlanPhase.Executing,
         ps_scheduler_status := PlanSchedulerStatus.Active, ps_execution_contract_fingerprint := fp\<rparr>) = Ok (sn, vr)"
    "st' = st\<lparr>st_snapshot := sn\<rparr>" "out = ps_phase (st_snapshot st)"
    "case ap_capability_envelope inp of Some e \<Rightarrow> envelope = e
       | None \<Rightarrow> ps_authorized_capability_envelope (st_snapshot st) = Some envelope"
    "fp = Some (contract_fingerprint E ((st_snapshot st)\<lparr>ps_authorized_capability_envelope := Some envelope\<rparr>))"
  using assms
  by (auto simp: approve_def Let_def result_simps contract_fingerprint_def root_node_def find_node_def
      split: option.splits if_splits)

lemma approve_inv:
  assumes "approve E st inp = Ok (st', out)" and inv: "plan_inv st"
  shows "plan_next st st'"
proof -
  obtain r e rqs fp sn vr where root: "ps_root_node_id (st_snapshot st) = Some r"
    and env: "validate_authorized_envelope (collect_nodes (ps_nodes (st_snapshot st))) r (Some e) = Ok ()"
    and adv: "advance_revision E ''plan approval resolved''
      ((st_snapshot st)\<lparr>ps_approval_requirements := rqs, ps_authorized_capability_envelope := Some e,
         ps_execution_authorization_refs := ap_authorization_refs inp, ps_phase := PlanPhase.Executing,
         ps_scheduler_status := PlanSchedulerStatus.Active, ps_execution_contract_fingerprint := fp\<rparr>) = Ok (sn, vr)"
    and st': "st' = st\<lparr>st_snapshot := sn\<rparr>"
    by (rule approveE [OF assms(1)])
  have "keeps (st_snapshot st) ((st_snapshot st)\<lparr>ps_approval_requirements := rqs,
      ps_authorized_capability_envelope := Some e, ps_execution_authorization_refs := ap_authorization_refs inp,
      ps_phase := PlanPhase.Executing, ps_scheduler_status := PlanSchedulerStatus.Active,
      ps_execution_contract_fingerprint := fp\<rparr>)"
    by (rule keeps_authorized [OF root env]) (simp_all add: root)
  also note keeps_advance [OF adv]
  finally show ?thesis unfolding st' by (rule plan_inv_keeps [OF inv])
qed

lemma change_scheduler_status_inv:
  assumes "change_scheduler_status E st reason expected target operation = Ok (st', out)" and inv: "plan_inv st"
  shows "plan_next st st'"
proof -
  obtain sn vr where adv: "advance_revision E operation ((st_snapshot st)\<lparr>ps_scheduler_status := target\<rparr>) = Ok (sn, vr)"
    and st': "st' = st\<lparr>st_snapshot := sn\<rparr>"
    using assms(1) by (auto simp: change_scheduler_status_def Let_def result_simps split: if_splits)
  show ?thesis unfolding st'
    by (rule plan_inv_keeps [OF inv keeps_trans [OF keeps_scheduler keeps_advance [OF adv]]])
qed

lemma revise_inv:
  assumes "revise E st reason = Ok (st', out)" and inv: "plan_inv st"
  shows "plan_next st st'"
proof -
  let ?mid = "(st_snapshot st)\<lparr>ps_approval_requirements :=
      map (reject_pending reason) (ps_approval_requirements (st_snapshot st)),
      ps_phase := PlanPhase.Planning, ps_scheduler_status := PlanSchedulerStatus.Paused\<rparr>"
  obtain sn vr where adv: "advance_revision E ''plan returned to revision'' ?mid = Ok (sn, vr)"
    and idle: "\<not> list_ex (\<lambda>a. at_outcome a = None) (ps_attempts (st_snapshot st))"
    and st': "st' = st\<lparr>st_snapshot := sn\<rparr>"
    using assms(1) by (auto simp: revise_def Let_def result_simps split: if_splits)
  have "open_nodes (st_snapshot st) = {}" using idle by (auto simp: open_nodes_def is_open_def list_ex_iff)
  then have "keeps (st_snapshot st) ?mid"
    by (intro keeps_gate) (auto intro: plan_ok_same [OF exec_okD(1)])
  also note keeps_advance [OF adv]
  finally show ?thesis unfolding st' by (rule plan_inv_keeps [OF inv])
qed

section \<open>Single nodes\<close>

text \<open>A change of one node that keeps its place in the graph and does not end running work.\<close>

definition gentle :: "PlanNodeId set \<Rightarrow> PlanNodeSnapshot \<Rightarrow> PlanNodeSnapshot \<Rightarrow> bool" where
  "gentle A n n' \<longleftrightarrow> same_shape n n' \<and> (node_ok n \<longrightarrow> node_ok n')
     \<and> (pn_status n = PlanNodeStatus.InProgress \<and> pn_id n \<in> A \<longrightarrow> pn_status n' = PlanNodeStatus.InProgress)"

lemma gentle_refl [simp]: "gentle A n n"
  by (simp add: gentle_def)

lemma list_all2_update_found:
  assumes "List.find p xs = Some x" and "R x (f x)" and "\<And>y. R y y"
  shows "list_all2 R xs (update_first p f xs)"
  using assms by (induction xs) (auto simp: list_all2_same split: if_splits)

lemma keeps_nodes:
  assumes g: "exec_ok sn \<Longrightarrow> list_all2 (gentle (open_nodes sn)) (ps_nodes sn) ns"
  shows "keeps sn (sn\<lparr>ps_nodes := ns\<rparr>)"
  unfolding keeps_def
proof (intro impI conjI)
  assume ok: "exec_ok sn"
  note g = g [OF ok]
  have shape: "list_all2 same_shape (ps_nodes sn) ns" using g by (rule list_all2_mono) (simp add: gentle_def)
  have "\<forall>n\<in>set ns. node_ok n"
    using list_all2_ex2 [OF g] exec_okD(4) [OF ok] by (auto simp: gentle_def)
  moreover have "busy (sn\<lparr>ps_nodes := ns\<rparr>) i" if i: "i \<in> open_nodes sn" for i
  proof -
    obtain n where n: "n \<in> set (ps_nodes sn)" "pn_id n = i" "pn_status n = PlanNodeStatus.InProgress"
      using exec_okD(6) [OF ok i] by (auto simp: busy_def)
    then show ?thesis using list_all2_ex1 [OF g n(1)] i by (auto simp: busy_def gentle_def same_shape_def)
  qed
  ultimately show "exec_ok (sn\<lparr>ps_nodes := ns\<rparr>)"
    by (intro exec_ok_nodes [OF ok]) (use shape exec_okD(7) [OF ok] in auto)
  show "same_history sn (sn\<lparr>ps_nodes := ns\<rparr>)"
    using map_list_all2 [OF shape, of pn_id] by (simp add: same_history_def same_shape_def)
qed

lemma keeps_upd_node:
  assumes "\<And>n. exec_ok sn \<Longrightarrow> n \<in> set (ps_nodes sn) \<Longrightarrow> pn_id n = i \<Longrightarrow> gentle (open_nodes sn) n (f n)"
  shows "keeps sn (upd_node i f sn)"
  unfolding upd_node_def by (rule keeps_nodes) (rule list_all2_update_first, use assms in auto)

lemma node_ok_restatus: "node_ok n \<Longrightarrow> s \<noteq> PlanNodeStatus.Superseded \<Longrightarrow> node_ok (set_status s vr n)"
  by (simp add: node_ok_def set_status_def has_active_link_def)

section \<open>Retrying an interrupted node\<close>

lemma reopen_node_fields [simp]:
  "pn_id (reopen_node i vr n) = pn_id n"
  "pn_id n = i \<Longrightarrow> pn_status (reopen_node i vr n) = PlanNodeStatus.Pending"
  by (simp_all add: reopen_node_def set_status_def)

lemma reopen_path_keeps:
  assumes "reopen_path fuel i vr c sn = Ok sn'"
    and "\<forall>n\<in>set (ps_nodes sn). pn_id n = i \<longrightarrow> pn_status n \<in> {PlanNodeStatus.Blocked, PlanNodeStatus.Pending}"
  shows "keeps sn sn'"
  using assms
proof (induction fuel i vr c sn rule: reopen_path.induct)
  case (3 fuel i vr j sn)
  let ?mid = "upd_node j (reopen_node i vr) sn"
  have "keeps sn ?mid"
  proof (rule keeps_upd_node)
    fix n assume "n \<in> set (ps_nodes sn)" "pn_id n = j"
    then show "gentle (open_nodes sn) n (reopen_node i vr n)"
      using "3.prems"(2)
      by (auto simp: gentle_def reopen_node_def set_status_def same_shape_def is_live_def node_ok_def has_active_link_def)
  qed
  moreover have "\<forall>n\<in>set (ps_nodes ?mid). pn_id n = i \<longrightarrow> pn_status n \<in> {PlanNodeStatus.Blocked, PlanNodeStatus.Pending}"
  proof (intro ballI impI)
    fix n assume n: "n \<in> set (ps_nodes ?mid)" "pn_id n = i"
    then consider "n \<in> set (ps_nodes sn)" | m where "m \<in> set (ps_nodes sn)" "n = reopen_node i vr m"
      using update_first_cases unfolding upd_node_def by fastforce
    then show "pn_status n \<in> {PlanNodeStatus.Blocked, PlanNodeStatus.Pending}"
      using "3.prems"(2) n(2) by cases auto
  qed
  ultimately show ?case using "3.prems"(1) "3.IH" keeps_trans by (auto simp: result_simps)
qed (auto simp: result_simps)

lemma retry_interrupted_nodeE:
  assumes "retry_interrupted_node E st i reason = Ok (st', out)"
  obtains n mid vr mid2 sn where "find_node (st_snapshot st) i = Some n" "pn_status n = PlanNodeStatus.Blocked"
    "Option.bind (List.find (\<lambda>a. at_node_id a = i) (rev (ps_attempts (st_snapshot st)))) at_outcome
       = Some PlanAttemptOutcome.Interrupted"
    "ps_phase (st_snapshot st) \<in> {PlanPhase.Executing, PlanPhase.Blocked}"
    "advance_revision E ''interrupted plan node explicitly retried'' (st_snapshot st) = Ok (mid, vr)"
    "reopen_path (Suc (length (ps_nodes mid))) i vr (Some i) mid = Ok mid2"
    "refresh_parent_states vr mid2 = Ok sn"
    "st' = st\<lparr>st_snapshot := sn\<lparr>ps_phase := PlanPhase.Executing, ps_scheduler_status := PlanSchedulerStatus.Active\<rparr>\<rparr>"
    "out = ps_phase (st_snapshot st)"
  using assms unfolding retry_interrupted_node_def Let_def
  by (clarsimp simp only: ok_steps ok_or_simps de_Morgan_disj not_not result.distinct simp_thms split: if_split_asm)

lemma retry_interrupted_node_inv:
  assumes "retry_interrupted_node E st i reason = Ok (st', out)" and inv: "plan_inv st"
  shows "plan_next st st'"
proof -
  obtain n mid vr mid2 sn where n: "find_node (st_snapshot st) i = Some n" "pn_status n = PlanNodeStatus.Blocked"
    and adv: "advance_revision E ''interrupted plan node explicitly retried'' (st_snapshot st) = Ok (mid, vr)"
    and path: "reopen_path (Suc (length (ps_nodes mid))) i vr (Some i) mid = Ok mid2"
    and ref: "refresh_parent_states vr mid2 = Ok sn"
    and st': "st' = st\<lparr>st_snapshot := sn\<lparr>ps_phase := PlanPhase.Executing, ps_scheduler_status := PlanSchedulerStatus.Active\<rparr>\<rparr>"
    by (rule retry_interrupted_nodeE [OF assms(1)])
  have "m = n" if "m \<in> set (ps_nodes (st_snapshot st))" "pn_id m = i" for m
    using that same_node [OF plan_invD(1) [OF inv] that(1)] n(1) by simp
  then have "\<forall>m\<in>set (ps_nodes mid). pn_id m = i \<longrightarrow> pn_status m \<in> {PlanNodeStatus.Blocked, PlanNodeStatus.Pending}"
    using adv n(2) by (auto elim!: advance_revisionE)
  note p = reopen_path_keeps [OF path this]
  note keeps_advance [OF adv]
  also note p
  also note keeps_refresh [OF ref]
  also have "keeps sn (sn\<lparr>ps_phase := PlanPhase.Executing, ps_scheduler_status := PlanSchedulerStatus.Active\<rparr>)"
    by (rule keeps_gate) (auto intro: plan_ok_same [OF exec_okD(1)])
  finally show ?thesis unfolding st' by (rule plan_inv_keeps [OF inv])
qed

section \<open>Links\<close>

lemma link_counts_positive:
  assumes "l \<in> set ls" and "lk_status l = PlanLinkStatus.Active" and "lk_superseded_by l = None"
    and "length ls < 2 ^ 32"
  shows "link_counts PlanLinkStatus.Active ls > 0"
proof -
  let ?xs = "filter (\<lambda>l. lk_status l = PlanLinkStatus.Active)
       (filter (\<lambda>l. lk_status l \<noteq> PlanLinkStatus.Superseded \<and> lk_superseded_by l = None) ls)"
  have "length ?xs \<le> length ls" by (rule order_trans [OF length_filter_le length_filter_le])
  then have "length ?xs < 2 ^ 32" using assms(4) by (rule le_less_trans)
  moreover have "l \<in> set ?xs" using assms by simp
  then have "length ?xs \<noteq> 0" by (metis length_0_conv list.set(1) empty_iff)
  ultimately have "(of_nat (length ?xs) :: 32 word) \<noteq> 0"
    by (auto simp add: word_of_nat_eq_0_iff simp del: filter_filter dest!: dvd_imp_le)
  then show ?thesis unfolding link_counts_def by (simp only: word_neq_0_conv)
qed

lemma projection_live:
  "pn_declared_status n \<noteq> PlanNodeStatus.Superseded \<Longrightarrow> is_live (recompute_link_projection n)"
  by (simp add: recompute_link_projection_def is_live_def Let_def)

lemma projection_fields [simp]:
  "pn_id (recompute_link_projection n) = pn_id n"
  "pn_links (recompute_link_projection n) = pn_links n"
  "pn_declared_status (recompute_link_projection n) = pn_declared_status n"
  "pn_parent_id (recompute_link_projection n) = pn_parent_id n"
  "pn_sibling_order (recompute_link_projection n) = pn_sibling_order n"
  "pn_depends_on (recompute_link_projection n) = pn_depends_on n"
  "pn_harness (recompute_link_projection n) = pn_harness n"
  by (simp_all add: recompute_link_projection_def Let_def)

lemma projection_gentle:
  assumes "is_live n" and "node_ok n"
    and "\<And>l. l \<in> set ls \<Longrightarrow> lk_status l = PlanLinkStatus.Active \<Longrightarrow> lk_superseded_by l = None"
    and "pn_id n \<in> A \<Longrightarrow> \<exists>l\<in>set ls. lk_status l = PlanLinkStatus.Active" and "length ls < 2 ^ 32"
  shows "gentle A n (recompute_link_projection (n\<lparr>pn_links := ls, pn_updated_revision := vr\<rparr>))" (is "gentle A n ?n")
proof -
  have live: "is_live ?n" using assms(2) by (intro projection_live) (simp add: node_ok_def)
  moreover have "pn_status ?n = PlanNodeStatus.InProgress" if i: "pn_id n \<in> A"
  proof -
    obtain l where "l \<in> set ls" "lk_status l = PlanLinkStatus.Active" using assms(4) [OF i] by blast
    with link_counts_positive [of l ls] assms(3,5) show ?thesis
      by (simp add: recompute_link_projection_def link_summary_def Let_def)
  qed
  ultimately show ?thesis using assms(1-3)
    by (auto simp: gentle_def same_shape_def node_ok_def is_live_def)
qed

lemma bind_node_gentle:
  assumes "is_live n" and "node_ok n" and "lk_status link = PlanLinkStatus.Active" and "lk_superseded_by link = None"
    and "Suc (length (pn_links n)) < 2 ^ 32"
  shows "gentle A n (bind_node link vr n)"
  unfolding bind_node_def
proof (rule projection_gentle [OF assms(1,2)])
  fix l assume "l \<in> set (map (supersede_link (lk_binding_id link)) (pn_links n) @ [link])"
    and "lk_status l = PlanLinkStatus.Active"
  then show "lk_superseded_by l = None"
    using assms(2,4) by (auto simp: supersede_link_def node_ok_def split: if_splits)
qed (use assms in auto)

lemma reopen_ancestor_gentle: "gentle A n (reopen_ancestor vr n)"
  by (auto simp: gentle_def reopen_ancestor_def set_status_def same_shape_def is_live_def node_ok_def has_active_link_def)

lemma reopen_ancestors_keeps:
  "reopen_ancestors vr sn is = Ok sn' \<Longrightarrow> keeps sn sn'"
  unfolding reopen_ancestors_def
proof (induction "is" arbitrary: sn)
  case (Cons i "is")
  then have "keeps (upd_node i (reopen_ancestor vr) sn) sn'" by (auto simp: result_simps)
  with keeps_trans [OF keeps_upd_node] show ?case by (blast intro: reopen_ancestor_gentle)
qed simp

definition bindable :: "PlanState \<Rightarrow> string \<Rightarrow> bool" where
  "bindable st key \<longleftrightarrow>
     (case List.find (\<lambda>n. pn_client_key n = Some key) (ps_nodes (st_snapshot st)) of
        None \<Rightarrow> True
      | Some n \<Rightarrow> is_live n \<and> Suc (length (pn_links n)) < 2 ^ 32)"

lemma bind_subagentE:
  assumes "bind_subagent E st key agent task now = Ok (st', link)"
  obtains mid vr n ancestors mid2 sn where
    "advance_revision E ''runtime linked a subagent to this Plan task'' (st_snapshot st) = Ok (mid, vr)"
    "List.find (\<lambda>n. pn_client_key n = Some key) (ps_nodes mid) = Some n"
    "ancestor_ids mid (pn_id n) = Ok ancestors"
    "lk_status link = PlanLinkStatus.Active" "lk_superseded_by link = None" "lk_node_id link = pn_id n"
    "reopen_ancestors vr (upd_node (pn_id n) (bind_node link vr) mid) ancestors = Ok mid2"
    "refresh_parent_states vr (if ps_phase mid2 = PlanPhase.Blocked
       then mid2\<lparr>ps_phase := PlanPhase.Executing, ps_scheduler_status := PlanSchedulerStatus.Active\<rparr> else mid2) = Ok sn"
    "st' = st\<lparr>st_snapshot := sn\<rparr>"
proof -
  obtain mid vr n ancestors mid2 sn where link: "link = new_link mid (pn_id n) agent task vr now"
    and steps: "advance_revision E ''runtime linked a subagent to this Plan task'' (st_snapshot st) = Ok (mid, vr)"
    "List.find (\<lambda>n. pn_client_key n = Some key) (ps_nodes mid) = Some n"
    "ancestor_ids mid (pn_id n) = Ok ancestors"
    and rest: "reopen_ancestors vr (upd_node (pn_id n) (bind_node (new_link mid (pn_id n) agent task vr now) vr) mid) ancestors = Ok mid2"
    "refresh_parent_states vr (if ps_phase mid2 = PlanPhase.Blocked
       then mid2\<lparr>ps_phase := PlanPhase.Executing, ps_scheduler_status := PlanSchedulerStatus.Active\<rparr> else mid2) = Ok sn"
    "st' = st\<lparr>st_snapshot := sn\<rparr>"
    using assms unfolding bind_subagent_def Let_def
    by (simp only: ok_steps ok_or_simps) (elim exE conjE, blast)
  have "lk_status link = PlanLinkStatus.Active" "lk_superseded_by link = None" "lk_node_id link = pn_id n"
    by (simp_all add: link new_link_def)
  then show thesis by (rule that [OF steps _ _ _ rest [folded link]])
qed

lemma bind_subagent_inv:
  assumes "bind_subagent E st key agent task now = Ok (st', link)" and inv: "plan_inv st" and "bindable st key"
  shows "plan_next st st'"
proof -
  obtain mid vr n ancestors mid2 sn where
    adv: "advance_revision E ''runtime linked a subagent to this Plan task'' (st_snapshot st) = Ok (mid, vr)"
    and n: "List.find (\<lambda>n. pn_client_key n = Some key) (ps_nodes mid) = Some n"
    and link: "lk_status link = PlanLinkStatus.Active" "lk_superseded_by link = None"
    and fold: "reopen_ancestors vr (upd_node (pn_id n) (bind_node link vr) mid) ancestors = Ok mid2"
    and ref: "refresh_parent_states vr (if ps_phase mid2 = PlanPhase.Blocked
       then mid2\<lparr>ps_phase := PlanPhase.Executing, ps_scheduler_status := PlanSchedulerStatus.Active\<rparr> else mid2) = Ok sn"
    and st': "st' = st\<lparr>st_snapshot := sn\<rparr>"
    by (rule bind_subagentE [OF assms(1)])
  have "ps_nodes mid = ps_nodes (st_snapshot st)" using adv by (auto elim!: advance_revisionE)
  with assms(3) n have g: "is_live n" "Suc (length (pn_links n)) < 2 ^ 32" by (auto simp: bindable_def)
  have mem: "n \<in> set (ps_nodes mid)" using find_SomeD [OF n] by simp
  note keeps_advance [OF adv]
  also have "keeps mid (upd_node (pn_id n) (bind_node link vr) mid)"
  proof (rule keeps_upd_node)
    fix m assume ok: "exec_ok mid" and m: "m \<in> set (ps_nodes mid)" "pn_id m = pn_id n"
    have "m = n" using distinct_map_eq [OF exec_okD(3) [OF ok] m(1) mem m(2)] .
    then show "gentle (open_nodes mid) m (bind_node link vr m)"
      using bind_node_gentle g link exec_okD(4) [OF ok m(1)] by simp
  qed
  also note reopen_ancestors_keeps [OF fold]
  also have "keeps mid2 (if ps_phase mid2 = PlanPhase.Blocked
       then mid2\<lparr>ps_phase := PlanPhase.Executing, ps_scheduler_status := PlanSchedulerStatus.Active\<rparr> else mid2)"
    by (auto intro!: keeps_gate plan_ok_same [OF exec_okD(1)])
  also note keeps_refresh [OF ref]
  finally show ?thesis unfolding st' by (rule plan_inv_keeps [OF inv])
qed

definition link_settles :: "PlanState \<Rightarrow> PlanBindingId \<Rightarrow> bool" where
  "link_settles st b \<longleftrightarrow>
     (case List.find (has_binding b) (ps_nodes (st_snapshot st)) of
        None \<Rightarrow> True
      | Some n \<Rightarrow> is_live n \<and> length (pn_links n) < 2 ^ 32 \<and> pn_id n \<notin> open_nodes (st_snapshot st)
          \<and> (\<forall>l\<in>set (pn_links n). lk_binding_id l = b \<longrightarrow> lk_superseded_by l = None))"

lemma set_link_status_gentle:
  assumes "is_live n" and "node_ok n" and "length (pn_links n) < 2 ^ 32" and "pn_id n \<notin> A"
    and "\<forall>l\<in>set (pn_links n). lk_binding_id l = b \<longrightarrow> lk_superseded_by l = None"
  shows "gentle A n (set_link_status b s vr now n)"
  unfolding set_link_status_def
  by (rule projection_gentle [OF assms(1,2)])
    (use assms in \<open>auto simp: node_ok_def dest!: update_first_cases\<close>)

lemma update_subagent_link_inv:
  assumes "update_subagent_link E st b s now = Ok st'" and inv: "plan_inv st" and "link_settles st b"
  shows "plan_next st st'"
proof -
  obtain mid vr n sn where
    adv: "advance_revision E ''runtime updated linked subagent state'' (st_snapshot st) = Ok (mid, vr)"
    and n: "List.find (has_binding b) (ps_nodes mid) = Some n"
    and ref: "refresh_parent_states vr (mid\<lparr>ps_nodes := update_first (has_binding b)
                   (set_link_status b s vr now) (ps_nodes mid)\<rparr>) = Ok sn"
    and st': "st' = st\<lparr>st_snapshot := refresh_terminal_phase sn\<rparr>"
    using assms(1) by (auto simp: update_subagent_link_def Let_def result_simps)
  have "ps_nodes mid = ps_nodes (st_snapshot st)" "open_nodes mid = open_nodes (st_snapshot st)"
    using adv by (auto simp: open_nodes_def elim!: advance_revisionE)
  with assms(3) n have g: "is_live n" "length (pn_links n) < 2 ^ 32" "pn_id n \<notin> open_nodes mid"
    "\<forall>l\<in>set (pn_links n). lk_binding_id l = b \<longrightarrow> lk_superseded_by l = None" by (auto simp: link_settles_def)
  note keeps_advance [OF adv]
  also have "keeps mid (mid\<lparr>ps_nodes := update_first (has_binding b) (set_link_status b s vr now) (ps_nodes mid)\<rparr>)"
  proof (rule keeps_nodes)
    assume ok: "exec_ok mid"
    have "gentle (open_nodes mid) n (set_link_status b s vr now n)"
      by (rule set_link_status_gentle) (use g exec_okD(4) [OF ok] find_SomeD [OF n] in auto)
    then show "list_all2 (gentle (open_nodes mid)) (ps_nodes mid)
        (update_first (has_binding b) (set_link_status b s vr now) (ps_nodes mid))"
      using n by (intro list_all2_update_found) auto
  qed
  also note keeps_refresh [OF ref]
  also note keeps_terminal
  finally show ?thesis unfolding st' by (rule plan_inv_keeps [OF inv])
qed

end
