(* ===== verification/Plan_Edits.thy ===== *)
theory Plan_Edits
  imports Plan_Preservation
begin

text \<open>
  Edits of the tree keep the invariant of a plan: the builder gives new nodes fresh numbered
  identities, rebuilds only nodes that are still pending, and never touches a node that is in
  progress, so running attempts keep their node.
\<close>

section \<open>What an edit may do to the nodes\<close>

definition mutable :: "PlanNodeSnapshot \<Rightarrow> bool" where
  "mutable n \<longleftrightarrow> ensure_mutable n = Ok ()"

lemma mutable_iff:
  "mutable n \<longleftrightarrow> pn_status n = PlanNodeStatus.Pending
     \<and> \<not> (\<exists>l\<in>set (pn_links n). lk_status l = PlanLinkStatus.Active \<and> lk_superseded_by l = None)"
  by (auto simp: mutable_def ensure_mutable_def list_ex_iff)

lemma mutable_supersede: "mutable n \<Longrightarrow> node_ok n \<Longrightarrow> node_ok (supersede vr n)"
  by (auto simp: mutable_iff node_ok_def supersede_def has_active_link_def list_ex_iff)

definition fresh_ids :: "u64 \<Rightarrow> u64 \<Rightarrow> PlanNodeId set" where
  "fresh_ids s s' = runtime_node_id ` {k. unat s \<le> unat k \<and> unat k < unat s'}"

definition edit_ok :: "node_map \<Rightarrow> u64 \<Rightarrow> u64 \<Rightarrow> node_map \<Rightarrow> bool" where
  "edit_ok ex s s' m \<longleftrightarrow> unat s \<le> unat s'
     \<and> (\<forall>n\<in>snd ` set m. node_ok n) \<and> fst ` set m \<subseteq> fst ` set ex \<union> fresh_ids s s'
     \<and> (\<forall>i n. bt_get ex i = Some n \<longrightarrow> pn_status n = PlanNodeStatus.InProgress \<longrightarrow>
          (\<exists>n'. bt_get m i = Some n' \<and> pn_status n' = PlanNodeStatus.InProgress))"

lemma same_but_deps_node_ok: "same_but_deps a b \<Longrightarrow> node_ok a \<Longrightarrow> node_ok b"
  by (simp add: same_but_deps_fields node_ok_def has_active_link_def)

lemma get_keys: "(\<exists>n. bt_get m i = Some n) \<longleftrightarrow> i \<in> fst ` set m"
  by (metis map_of_eq_None_iff option.exhaust option.distinct(1))

lemma edit_ok_deps:
  assumes "edit_ok ex s s' c" and "only_deps_moved c m" and "nodes_wf c" and "nodes_wf m"
  shows "edit_ok ex s s' m"
proof -
  have old: "\<exists>a. bt_get c i = Some a \<and> same_but_deps a b" if "bt_get m i = Some b" for i b
    using only_deps_moved_get [OF assms(2) that] .
  have new: "\<exists>b. bt_get m i = Some b \<and> same_but_deps a b" if "bt_get c i = Some a" for i a
    using assms(2) that unfolding only_deps_moved_def by (metis option_rel_Some1)
  have "fst ` set m \<subseteq> fst ` set c" by (rule subsetI) (metis get_keys old)
  then have "fst ` set m \<subseteq> fst ` set ex \<union> fresh_ids s s'" using assms(1) unfolding edit_ok_def by (meson order_trans)
  moreover have "\<forall>n\<in>snd ` set m. node_ok n"
  proof
    fix n assume "n \<in> snd ` set m"
    then obtain a where a: "bt_get c (pn_id n) = Some a" "same_but_deps a n"
      using old nodes_wf_value [OF assms(4)] by metis
    then have "a \<in> snd ` set c" using nodes_wf_value [OF assms(3)] nodes_wf_get [OF assms(3)] by metis
    with a(2) assms(1) show "node_ok n" by (auto simp: edit_ok_def intro: same_but_deps_node_ok)
  qed
  moreover have "\<exists>n'. bt_get m i = Some n' \<and> pn_status n' = PlanNodeStatus.InProgress"
    if n: "bt_get ex i = Some n" "pn_status n = PlanNodeStatus.InProgress" for i n
  proof -
    obtain a where "bt_get c i = Some a" "pn_status a = PlanNodeStatus.InProgress"
      using assms(1) n unfolding edit_ok_def by blast
    with new show ?thesis by (metis same_but_deps_fields(4))
  qed
  ultimately show ?thesis using assms(1) by (simp add: edit_ok_def)
qed

lemma edit_inv:
  assumes inv: "plan_inv st" and m: "nodes_wf m"
    and edit: "edit_ok (collect_nodes (ps_nodes (st_snapshot st))) (st_next_node_sequence st) s m"
    and sn: "plan_ok sn" "ps_nodes sn = ordered_nodes m" "ps_attempts sn = ps_attempts (st_snapshot st)"
      "ps_leases sn = ps_leases (st_snapshot st)" "ps_attempt_progress sn = ps_attempt_progress (st_snapshot st)"
      "ps_phase sn = ps_phase (st_snapshot st)"
  shows "plan_inv (st\<lparr>st_snapshot := sn, st_next_node_sequence := s\<rparr>)"
proof -
  let ?old = "st_snapshot st" let ?ex = "collect_nodes (ps_nodes ?old)"
  note ok = plan_invD(1) [OF inv]
  have get: "bt_get ?ex i = find_node ?old i" for i using exec_okD(3) [OF ok] by (simp add: find_node_collect)
  have opn: "open_nodes sn = open_nodes ?old" by (simp add: open_nodes_def sn)
  have "busy sn i" if i: "i \<in> open_nodes ?old" for i
  proof -
    obtain n where n: "n \<in> set (ps_nodes ?old)" "pn_id n = i" "pn_status n = PlanNodeStatus.InProgress"
      using exec_okD(6) [OF ok i] by (auto simp: busy_def)
    then have "bt_get ?ex i = Some n" using get same_node [OF ok n(1)] by simp
    then obtain n' where n': "bt_get m i = Some n'" "pn_status n' = PlanNodeStatus.InProgress"
      using edit n(3) unfolding edit_ok_def by blast
    then have "pn_id n' = i" "n' \<in> set (ps_nodes sn)"
      using nodes_wf_get [OF m n'(1)] nodes_wf_value [OF m] n'(1) by (auto simp: sn(2))
    with n'(2) show ?thesis by (auto simp: busy_def)
  qed
  moreover have "\<forall>n\<in>set (ps_nodes sn). node_ok n" using edit by (simp add: sn(2) edit_ok_def)
  ultimately have "exec_ok sn"
    using exec_okD [OF ok] opn sn by (simp add: exec_ok_def)
  moreover have "node_ids_ok (st\<lparr>st_snapshot := sn, st_next_node_sequence := s\<rparr>)"
  proof -
    have "\<exists>k. unat k < unat s \<and> pn_id n = runtime_node_id k" if "n \<in> set (ps_nodes sn)" for n
    proof -
      have "pn_id n \<in> fst ` set m" using that m by (metis get_keys nodes_wf_value set_ordered_nodes sn(2))
      then consider "pn_id n \<in> fst ` set ?ex" | "pn_id n \<in> fresh_ids (st_next_node_sequence st) s"
        using edit by (auto simp: edit_ok_def)
      then show ?thesis
      proof cases
        case 1
        then obtain n0 where "find_node ?old (pn_id n) = Some n0" using get get_keys by metis
        then have "n0 \<in> set (ps_nodes ?old)" "pn_id n0 = pn_id n" by (auto simp: find_node_def dest: find_SomeD)
        then obtain k where "unat k < unat (st_next_node_sequence st)" "pn_id n = runtime_node_id k"
          using plan_invD(3) [OF inv] unfolding node_ids_ok_def by metis
        with edit show ?thesis unfolding edit_ok_def by (metis order_less_le_trans)
      qed (auto simp: fresh_ids_def)
    qed
    then show ?thesis by (simp add: node_ids_ok_def)
  qed
  moreover have "sequences_ok (st\<lparr>st_snapshot := sn, st_next_node_sequence := s\<rparr>)"
    using plan_invD(2) [OF inv] by (simp add: sequences_ok_def sn Let_def)
  ultimately show ?thesis by (simp add: plan_inv_def)
qed

section \<open>What the builder produces\<close>

definition rebuildable :: "TreeBuilder \<Rightarrow> PlanNodeId \<Rightarrow> bool" where
  "rebuildable b i \<longleftrightarrow> (\<exists>n. bt_get (tb_existing b) i = Some n \<and> (mutable n \<or> tb_allow_existing_node b = Some i))"

definition builder_ok :: "u64 \<Rightarrow> TreeBuilder \<Rightarrow> bool" where
  "builder_ok s b \<longleftrightarrow> builder_wf b \<and> (\<forall>n\<in>snd ` set (tb_existing b). node_ok n)
     \<and> (\<forall>n\<in>snd ` set (tb_nodes b). node_ok n \<and> is_live n)
     \<and> (\<exists>c\<le>length (tb_nodes b). tb_next_node_sequence b = s + of_nat c
          \<and> (\<forall>i\<in>fst ` set (tb_nodes b). rebuildable b i \<or> (\<exists>j<c. i = runtime_node_id (s + of_nat j))))"

lemma builder_ok_new:
  "\<forall>n\<in>snd ` set ex. node_ok n \<Longrightarrow> builder_ok s (new_tree_builder s vr ex)"
  using builder_wf_new [of s vr ex] by (simp add: builder_ok_def new_tree_builder_def)

lemma builder_ok_allow:
  "\<forall>n\<in>snd ` set ex. node_ok n \<Longrightarrow> builder_ok s (allow_existing_node i (new_tree_builder s vr ex))"
  using builder_wf_new [of s vr ex]
  by (simp add: builder_ok_def allow_existing_node_def new_tree_builder_def builder_wf_def)

lemma built_node_ok:
  assumes "flatten_checks inp depth = Ok ()" and "id_inherited_status ident \<noteq> Some PlanNodeStatus.Superseded"
  shows "node_ok (flatten_node b ident inp p k) \<and> is_live (flatten_node b ident inp p k)"
proof -
  have "ni_status inp \<noteq> Some PlanNodeStatus.Superseded"
    using assms(1) by (auto simp: flatten_checks_def validate_authored_status_def result_simps split: if_splits)
  with assms(2) show ?thesis
    by (auto simp: flatten_node_def node_ok_def is_live_def has_active_link_def Let_def split: option.split)
qed

lemma set_bt_insert: "bt_wf m \<Longrightarrow> set (bt_insert k v m) \<subseteq> insert (k, v) (set m)"
  using bt_wf_insert [of m k v] by (auto simp: bt_get_iff [symmetric] get_bt_insert split: if_splits)

lemma length_bt_insert:
  assumes "bt_wf m" and "bt_get m k = None"
  shows "length (bt_insert k v m) = Suc (length m)"
proof -
  have "length (bt_insert k v m) = card (fst ` set (bt_insert k v m))"
    using bt_wf_distinct [OF bt_wf_insert [OF assms(1)]] by (metis distinct_card length_map list.set_map)
  moreover have "length m = card (fst ` set m)"
    using bt_wf_distinct [OF assms(1)] by (metis distinct_card length_map list.set_map)
  moreover have "k \<notin> fst ` set m" using assms(2) get_keys by (metis option.distinct(1))
  ultimately show ?thesis by (simp add: keys_bt_insert')
qed

lemma builder_ok_insert:
  assumes ok: "builder_ok s b" and checks: "flatten_checks inp depth = Ok ()"
    and ident: "flatten_identity b inp = Ok (b1, ident)" and new: "bt_get (tb_nodes b1) (id_id ident) = None"
  shows "builder_ok s (insert_node b1 ident inp parent order)"
proof -
  let ?b = "insert_node b1 ident inp parent order"
  note fr = flatten_identity_frame [OF ident]
  have wf: "builder_wf ?b" using builder_wf_insert [OF _ ident] ok by (simp add: builder_ok_def)
  have bt: "bt_wf (tb_nodes b)" using ok by (simp add: builder_ok_def builder_wf_def nodes_wf_def)
  obtain c where c: "c \<le> length (tb_nodes b)" "tb_next_node_sequence b = s + of_nat c"
    "\<forall>i\<in>fst ` set (tb_nodes b). rebuildable b i \<or> (\<exists>j<c. i = runtime_node_id (s + of_nat j))"
    using ok unfolding builder_ok_def by blast
  have len: "length (tb_nodes ?b) = Suc (length (tb_nodes b))"
    using length_bt_insert [OF bt] new fr by simp
  have reb: "rebuildable ?b = rebuildable b"
    using fr by (simp add: rebuildable_def fun_eq_iff insert_node_def)
  have inh: "id_inherited_status ident \<noteq> Some PlanNodeStatus.Superseded"
    using ident ok
    by (auto simp: flatten_identity_def result_simps Let_def builder_ok_def node_ok_def dest!: map_of_SomeD
        split: option.splits if_splits)
  have "\<forall>n\<in>snd ` set (tb_nodes ?b). node_ok n \<and> is_live n"
    using set_bt_insert [OF bt, of "id_id ident"] built_node_ok [OF checks inh] ok fr
    by (fastforce simp: builder_ok_def)
  moreover have "\<exists>c\<le>length (tb_nodes ?b). tb_next_node_sequence ?b = s + of_nat c
      \<and> (\<forall>i\<in>fst ` set (tb_nodes ?b). rebuildable ?b i \<or> (\<exists>j<c. i = runtime_node_id (s + of_nat j)))"
  proof (cases "ni_id inp")
    case None
    then have "tb_next_node_sequence b1 = tb_next_node_sequence b + 1"
      "id_id ident = runtime_node_id (tb_next_node_sequence b)"
      using ident by (auto simp: flatten_identity_def result_simps Let_def split: option.splits if_splits)
    with c show ?thesis unfolding reb len
      by (intro exI [of _ "Suc c"]) (auto simp: keys_bt_insert' fr less_Suc_eq)
  next
    case (Some i)
    then have "tb_next_node_sequence b1 = tb_next_node_sequence b" "id_id ident = i" "rebuildable b i"
      using ident
      by (auto simp: flatten_identity_def result_simps Let_def rebuildable_def mutable_def
          split: option.splits if_splits)
    with c show ?thesis unfolding reb len
      by (intro exI [of _ c]) (auto simp: keys_bt_insert' fr)
  qed
  ultimately show ?thesis using wf ok fr by (simp add: builder_ok_def)
qed

lemma flatten_builder_ok:
  "flatten b inp parent order depth = Ok (b', i) \<Longrightarrow> builder_ok s b \<Longrightarrow> builder_ok s b'"
  by (erule flatten_invariant) (auto intro: builder_ok_insert)

lemma flatten_children_builder_ok:
  assumes "flatten_children ex parent base nested b children = Ok b'" and "builder_ok s b"
  shows "builder_ok s b'"
  using assms(1) unfolding flatten_children_def
  by (rule fold_res_inv [where I = "builder_ok s"])
    (use assms(2) in \<open>auto simp: result_simps split: option.splits list.splits prod.splits intro: flatten_builder_ok\<close>)

lemma flatten_children_existing:
  assumes "flatten_children ex parent base nested b children = Ok b'"
  shows "tb_existing b' = tb_existing b \<and> tb_allow_existing_node b' = tb_allow_existing_node b"
  using assms unfolding flatten_children_def
  by (rule fold_res_inv [where I = "\<lambda>x. tb_existing x = tb_existing b
      \<and> tb_allow_existing_node x = tb_allow_existing_node b"])
    (auto simp: result_simps split: option.splits list.splits prod.splits dest!: flatten_existing)

lemma unat_plus_small: "unat s + c < 2 ^ 64 \<Longrightarrow> unat (s + of_nat c :: u64) = unat s + c"
  by (simp add: unat_word_ariths(1) unat_of_nat)

lemma builder_fresh:
  assumes "builder_ok s b" and "unat s + length (tb_nodes b) < 2 ^ 64"
  shows "unat s \<le> unat (tb_next_node_sequence b)"
    and "unat (tb_next_node_sequence b) \<le> unat s + length (tb_nodes b)"
    and "i \<in> fst ` set (tb_nodes b) \<Longrightarrow> rebuildable b i \<or> i \<in> fresh_ids s (tb_next_node_sequence b)"
proof -
  obtain c where c: "c \<le> length (tb_nodes b)" "tb_next_node_sequence b = s + of_nat c"
    "\<forall>i\<in>fst ` set (tb_nodes b). rebuildable b i \<or> (\<exists>j<c. i = runtime_node_id (s + of_nat j))"
    using assms(1) unfolding builder_ok_def by blast
  have n: "unat (s + of_nat j :: u64) = unat s + j" if "j \<le> c" for j
    using that c(1) assms(2) by (intro unat_plus_small) simp
  show "unat s \<le> unat (tb_next_node_sequence b)"
    "unat (tb_next_node_sequence b) \<le> unat s + length (tb_nodes b)" using n [of c] c(1,2) by simp_all
  assume "i \<in> fst ` set (tb_nodes b)"
  then consider "rebuildable b i" | j where "j < c" "i = runtime_node_id (s + of_nat j)" using c(3) by blast
  then show "rebuildable b i \<or> i \<in> fresh_ids s (tb_next_node_sequence b)"
  proof cases
    case 2
    then show ?thesis using n [of j] n [of c] c(2) by (auto simp: fresh_ids_def)
  qed simp
qed

lemma node_number_inj: "runtime_node_id a = runtime_node_id b \<longleftrightarrow> a = b"
  by (simp add: runtime_node_id_def show_u64_inj)

definition unnumbered :: "node_map \<Rightarrow> u64 \<Rightarrow> bool" where
  "unnumbered ex s \<longleftrightarrow> (\<forall>i\<in>fst ` set ex. \<exists>k. unat k < unat s \<and> i = runtime_node_id k)"

lemma unnumbered_fresh: "unnumbered ex s \<Longrightarrow> i \<in> fst ` set ex \<Longrightarrow> i \<notin> fresh_ids s s'"
  by (fastforce simp: unnumbered_def fresh_ids_def node_number_inj)

lemma keys_collect: "fst ` set (collect_nodes ns) = pn_id ` set ns"
proof -
  have "fst ` set (foldl (\<lambda>m (k, v). bt_insert k v m) m kvs) = fst ` set m \<union> fst ` set kvs"
    for m :: node_map and kvs
    by (induction kvs arbitrary: m) (simp_all add: keys_bt_insert' case_prod_beta)
  then show ?thesis by (auto simp: collect_nodes_def bt_extend_def image_image)
qed

lemma node_ids_unnumbered:
  "node_ids_ok st \<Longrightarrow> unnumbered (collect_nodes (ps_nodes (st_snapshot st))) (st_next_node_sequence st)"
  by (fastforce simp: node_ids_ok_def unnumbered_def keys_collect)

lemma in_progress_not_rebuilt:
  assumes "builder_ok s b" and "unat s + length (tb_nodes b) < 2 ^ 64" and "unnumbered (tb_existing b) s"
    and "tb_allow_existing_node b \<noteq> Some i"
    and "bt_get (tb_existing b) i = Some n" and "pn_status n = PlanNodeStatus.InProgress"
  shows "bt_get (tb_nodes b) i = None"
proof (rule ccontr)
  assume "bt_get (tb_nodes b) i \<noteq> None"
  then have "i \<in> fst ` set (tb_nodes b)" using get_keys by (metis option.exhaust)
  then consider "rebuildable b i" | "i \<in> fresh_ids s (tb_next_node_sequence b)"
    using builder_fresh(3) [OF assms(1,2)] by blast
  then show False
  proof cases
    case 1
    with assms(4-6) show False by (auto simp: rebuildable_def mutable_iff)
  next
    case 2
    moreover have "i \<in> fst ` set (tb_existing b)" using assms(5) get_keys by metis
    ultimately show False using unnumbered_fresh [OF assms(3)] by blast
  qed
qed

lemma extend_edit_ok:
  assumes b: "builder_ok s b" "unat s + length (tb_nodes b) < 2 ^ 64" and wf: "nodes_wf (tb_existing b)"
    and un: "unnumbered (tb_existing b) s" and none: "tb_allow_existing_node b = None"
  shows "edit_ok (tb_existing b) s (tb_next_node_sequence b) (bt_extend (tb_existing b) (tb_nodes b))"
proof -
  let ?ex = "tb_existing b" let ?c = "bt_extend ?ex (tb_nodes b)"
  have bwf: "builder_wf b" using b(1) by (simp add: builder_ok_def)
  have dist: "distinct (map fst (tb_nodes b))" and wfe: "bt_wf ?ex"
    using bwf wf by (auto simp: builder_wf_def nodes_wf_def bt_wf_distinct)
  have get: "bt_get ?c = bt_get ?ex ++ bt_get (tb_nodes b)" using get_bt_extend [OF wfe dist] .
  have wfc: "nodes_wf ?c" using bwf wf by (intro nodes_wf_extend_map) (auto simp: builder_wf_def)
  have "node_ok n" if "n \<in> snd ` set ?c" for n
  proof -
    have "bt_get ?c (pn_id n) = Some n" using that nodes_wf_value [OF wfc] by simp
    then have "n \<in> snd ` set ?ex \<or> n \<in> snd ` set (tb_nodes b)"
      unfolding get by (auto dest!: map_of_SomeD simp: image_iff) force+
    with b(1) show ?thesis by (auto simp: builder_ok_def)
  qed
  moreover have "fst ` set ?c \<subseteq> fst ` set ?ex \<union> fresh_ids s (tb_next_node_sequence b)"
  proof
    fix i assume "i \<in> fst ` set ?c"
    then obtain n where "bt_get ?c i = Some n" using get_keys by metis
    then have "i \<in> fst ` set ?ex \<or> i \<in> fst ` set (tb_nodes b)"
      unfolding get using get_keys by (metis map_add_Some_iff)
    then show "i \<in> fst ` set ?ex \<union> fresh_ids s (tb_next_node_sequence b)"
      using builder_fresh(3) [OF b] get_keys unfolding rebuildable_def by (metis UnCI)
  qed
  moreover have "bt_get ?c i = Some n"
    if "bt_get ?ex i = Some n" "pn_status n = PlanNodeStatus.InProgress" for i n
    using in_progress_not_rebuilt [OF b un _ that] none that(1) by (simp add: get map_add_def)
  ultimately show ?thesis using builder_fresh(1) [OF b] unfolding edit_ok_def by blast
qed

lemma edit_room:
  assumes b: "builder_ok s b" and room: "unat s + 128 < 2 ^ 64" and m: "nodes_wf m" "validate_graph m r = Ok ()"
    and kept: "\<And>i n. bt_get (tb_nodes b) i = Some n \<Longrightarrow> i \<in> live_set m"
  shows "unat s + length (tb_nodes b) < 2 ^ 64"
    and "unat (tb_next_node_sequence b) \<le> unat s + 128"
proof -
  have fin: "finite (live_set m)" by (rule finite_subset [OF live_set_subset_keys]) simp
  have "fst ` set (tb_nodes b) \<subseteq> live_set m" using kept get_keys by (metis subsetI)
  then have "card (fst ` set (tb_nodes b)) \<le> card (live_set m)" using fin by (rule card_mono [rotated])
  moreover have "card (live_set m) \<le> 128"
    using validate_graph_sound [OF m] by (simp add: valid_plan_graph_def)
  moreover have "length (tb_nodes b) = card (fst ` set (tb_nodes b))"
    using b bt_wf_distinct unfolding builder_ok_def builder_wf_def nodes_wf_def
    by (metis distinct_card length_map list.set_map)
  ultimately have l: "length (tb_nodes b) \<le> 128" by simp
  with room show "unat s + length (tb_nodes b) < 2 ^ 64" by simp
  from builder_fresh(2) [OF b this] l show "unat (tb_next_node_sequence b) \<le> unat s + 128" by simp
qed

lemma deps_live:
  assumes "only_deps_moved c m" and "bt_get c i = Some n" and "is_live n"
  shows "i \<in> live_set m"
proof -
  obtain n' where "bt_get m i = Some n'" "same_but_deps n n'"
    using assms(1,2) unfolding only_deps_moved_def by (metis option_rel_Some1)
  with assms(3) show ?thesis by (auto simp: live_set_def live_node_def is_live_def same_but_deps_fields)
qed

lemma built_live: "builder_ok s b \<Longrightarrow> bt_get (tb_nodes b) i = Some n \<Longrightarrow> is_live n"
  by (force simp: builder_ok_def dest: map_of_SomeD)

section \<open>Each edit\<close>

definition room :: "PlanState \<Rightarrow> bool" where
  "room st \<longleftrightarrow> unat (st_next_node_sequence st) + 128 < 2 ^ 64
     \<and> Suc (length (ps_attempts (st_snapshot st))) < 2 ^ 64"

lemma existing_ok:
  assumes "plan_inv st"
  shows "\<forall>n\<in>snd ` set (collect_nodes (ps_nodes (st_snapshot st))). node_ok n"
proof
  fix n assume "n \<in> snd ` set (collect_nodes (ps_nodes (st_snapshot st)))"
  then have "find_node (st_snapshot st) (pn_id n) = Some n"
    using nodes_wf_value [OF nodes_wf_collect] find_node_collect [OF exec_okD(3) [OF plan_invD(1) [OF assms]]] by metis
  then have "n \<in> set (ps_nodes (st_snapshot st))" by (simp add: find_node_def find_SomeD)
  then show "node_ok n" by (rule exec_okD(4) [OF plan_invD(1) [OF assms]])
qed

lemma edit_finish:
  assumes inv: "plan_inv st" and room: "room st" and b: "builder_ok (st_next_node_sequence st) b"
    and m: "nodes_wf m" "validate_graph m root = Ok ()"
    and kept: "\<And>i n. bt_get (tb_nodes b) i = Some n \<Longrightarrow> i \<in> live_set m"
    and edit: "unat (st_next_node_sequence st) + length (tb_nodes b) < 2 ^ 64 \<Longrightarrow>
      edit_ok (collect_nodes (ps_nodes (st_snapshot st))) (st_next_node_sequence st) (tb_next_node_sequence b) m"
    and sn: "plan_ok sn" "ps_nodes sn = ordered_nodes m" "ps_attempts sn = ps_attempts (st_snapshot st)"
      "ps_leases sn = ps_leases (st_snapshot st)" "ps_attempt_progress sn = ps_attempt_progress (st_snapshot st)"
      "ps_phase sn = ps_phase (st_snapshot st)"
  shows "plan_next st (st\<lparr>st_snapshot := sn, st_next_node_sequence := tb_next_node_sequence b\<rparr>)"
proof -
  have r: "unat (st_next_node_sequence st) + 128 < 2 ^ 64" using room by (simp add: room_def)
  note fit = edit_room [OF b r m kept]
  from edit_inv [OF inv m(1) edit [OF fit(1)] sn] fit(2) sn(3) show ?thesis by (simp add: plan_next_def)
qed

lemma new_builder_fields [simp]:
  "tb_existing (new_tree_builder s vr ex) = ex" "tb_allow_existing_node (new_tree_builder s vr ex) = None"
  "tb_existing (allow_existing_node i b) = tb_existing b" "tb_nodes (new_tree_builder s vr ex) = []"
  "tb_nodes (allow_existing_node i b) = tb_nodes b"
  "tb_allow_existing_node (allow_existing_node i b) = Some i"
  by (simp_all add: new_tree_builder_def allow_existing_node_def)

lemma builder_maps:
  assumes "builder_ok s b"
  shows "distinct (map fst (tb_nodes b))" "nodes_wf (tb_nodes b)" "bt_wf (tb_nodes b)"
  using assms by (auto simp: builder_ok_def builder_wf_def nodes_wf_def bt_wf_distinct)

lemma children_room:
  assumes inv: "plan_inv st" and room: "room st"
    and b: "flatten_children (collect_nodes (ps_nodes (st_snapshot st))) parent base nested
          (new_tree_builder (st_next_node_sequence st) vr (collect_nodes (ps_nodes (st_snapshot st)))) children = Ok b"
    and m: "resolve_all_dependencies (bt_extend (collect_nodes (ps_nodes (st_snapshot st))) (tb_nodes b)) unres keys live = Ok m"
    and v: "validate_graph m root = Ok ()"
  shows "builder_ok (st_next_node_sequence st) b" "tb_existing b = collect_nodes (ps_nodes (st_snapshot st))"
    "tb_allow_existing_node b = None" "nodes_wf (bt_extend (collect_nodes (ps_nodes (st_snapshot st))) (tb_nodes b))"
    "bt_get (tb_nodes b) i = Some n \<Longrightarrow> i \<in> live_set m"
    "unat (st_next_node_sequence st) + length (tb_nodes b) < 2 ^ 64"
proof -
  let ?ex = "collect_nodes (ps_nodes (st_snapshot st))" let ?s = "st_next_node_sequence st"
  let ?c = "bt_extend ?ex (tb_nodes b)"
  show bok: "builder_ok ?s b" using b builder_ok_new [OF existing_ok [OF inv]] by (rule flatten_children_builder_ok)
  show "tb_existing b = ?ex" "tb_allow_existing_node b = None" using flatten_children_existing [OF b] by auto
  have wfe: "nodes_wf ?ex" by (rule nodes_wf_collect)
  show wfc: "nodes_wf ?c" by (intro nodes_wf_extend_map wfe builder_maps(2) [OF bok])
  note m' = resolve_all_dependencies_Ok [OF m wfc]
  show kept: "i \<in> live_set m" if i: "bt_get (tb_nodes b) i = Some n" for i n
  proof (rule deps_live [OF conjunct2 [OF m'], of i n])
    show "bt_get ?c i = Some n"
      using i get_bt_extend [OF _ builder_maps(1) [OF bok], of ?ex] wfe by (simp add: nodes_wf_def)
    show "is_live n" using built_live [OF bok i] .
  qed
  show "unat ?s + length (tb_nodes b) < 2 ^ 64"
    using edit_room(1) [OF bok _ conjunct1 [OF m'] v kept] room by (simp add: room_def)
qed

lemma children_inv:
  assumes inv: "plan_inv st" and room: "room st"
    and b: "flatten_children (collect_nodes (ps_nodes (st_snapshot st))) parent base nested
          (new_tree_builder (st_next_node_sequence st) vr (collect_nodes (ps_nodes (st_snapshot st)))) children = Ok b"
    and m: "resolve_all_dependencies (bt_extend (collect_nodes (ps_nodes (st_snapshot st))) (tb_nodes b)) unres keys live = Ok m"
    and v: "validate_graph m root = Ok ()"
    and sn: "plan_ok sn" "ps_nodes sn = ordered_nodes m" "ps_attempts sn = ps_attempts (st_snapshot st)"
      "ps_leases sn = ps_leases (st_snapshot st)" "ps_attempt_progress sn = ps_attempt_progress (st_snapshot st)"
      "ps_phase sn = ps_phase (st_snapshot st)"
  shows "plan_next st (st\<lparr>st_snapshot := sn, st_next_node_sequence := tb_next_node_sequence b\<rparr>)"
proof -
  let ?ex = "collect_nodes (ps_nodes (st_snapshot st))" let ?s = "st_next_node_sequence st"
  note k = children_room [OF inv room b m v]
  note m' = resolve_all_dependencies_Ok [OF m k(4)]
  show ?thesis
  proof (rule edit_finish [OF inv room k(1) conjunct1 [OF m'] v k(5) _ sn])
    assume "unat ?s + length (tb_nodes b) < 2 ^ 64"
    then have "edit_ok ?ex ?s (tb_next_node_sequence b) (bt_extend ?ex (tb_nodes b))"
      using extend_edit_ok [OF k(1)] k(2,3) nodes_wf_collect node_ids_unnumbered [OF plan_invD(3) [OF inv]] by simp
    then show "edit_ok ?ex ?s (tb_next_node_sequence b) m" using m' k(4) by (blast intro: edit_ok_deps)
  qed
qed

lemma add_decomposition_children_inv:
  assumes op: "add_decomposition_children st parent children vr = Ok (st', keys)" and inv: "plan_inv st" and "room st"
  shows "plan_next st st'"
proof -
  let ?ex = "collect_nodes (ps_nodes (st_snapshot st))"
  from op obtain b m root where
    b: "flatten_children ?ex parent (live_child_count ?ex parent) (Some NestedDecomposition)
          (new_tree_builder (st_next_node_sequence st) vr ?ex) children = Ok b"
    and m: "resolve_all_dependencies (bt_extend ?ex (tb_nodes b)) (tb_unresolved b) (tb_keys b)
          (live_ids (bt_extend ?ex (tb_nodes b))) = Ok m"
    and v: "validate_graph m root = Ok ()"
    and st': "st' = (set_nodes (ordered_nodes m) st)\<lparr>st_next_node_sequence := tb_next_node_sequence b\<rparr>"
    unfolding add_decomposition_children_def by (auto simp: Let_def result_simps split: if_splits)
  have "plan_ok ((st_snapshot st)\<lparr>ps_nodes := ordered_nodes m\<rparr>)"
    using add_decomposition_children_ok [OF op] st' by (simp add: set_nodes_def)
  from children_inv [OF inv assms(3) b m v this] show ?thesis by (simp add: st' set_nodes_def)
qed

section \<open>Replacing a region\<close>

lemma nodes_wf_bt: "nodes_wf m \<Longrightarrow> bt_wf m"
  by (simp add: nodes_wf_def)

lemma combined_get:
  assumes "combine_replacement vr ex region repl (filter (\<lambda>i. i \<notin> set (bt_keys repl)) region) = Ok c"
    and "bt_wf ex" and "bt_wf repl"
  shows "bt_get c i = (case bt_get repl i of Some n \<Rightarrow> Some n
      | None \<Rightarrow> if i \<in> set region then map_option (supersede vr) (bt_get ex i) else bt_get ex i)"
  using combine_replacement_get [OF assms(1,2)] get_bt_extend [OF bt_wf_remove_all [OF assms(2)] bt_wf_distinct [OF assms(3)]]
    get_bt_remove_all [OF assms(2), of region] get_keys [of repl i]
  by (auto simp: map_add_def split: option.splits)

lemma combine_edit_ok:
  assumes b: "builder_ok s b" "unat s + length (tb_nodes b) < 2 ^ 64" and wf: "nodes_wf (tb_existing b)"
    and un: "unnumbered (tb_existing b) s"
    and repl: "bt_wf repl" "fst ` set repl = fst ` set (tb_nodes b)" "\<forall>n\<in>snd ` set repl. node_ok n"
    and c: "combine_replacement vr (tb_existing b) region repl (filter (\<lambda>i. i \<notin> set (bt_keys repl)) region) = Ok c"
    and wfc: "nodes_wf c"
    and region: "\<And>i n. i \<in> set region \<Longrightarrow> bt_get (tb_existing b) i = Some n \<Longrightarrow>
      mutable n \<or> tb_allow_existing_node b = Some i"
    and allowed: "\<And>i n. tb_allow_existing_node b = Some i \<Longrightarrow> bt_get (tb_existing b) i = Some n \<Longrightarrow>
      \<exists>n'. bt_get repl i = Some n' \<and> pn_status n' = pn_status n"
  shows "edit_ok (tb_existing b) s (tb_next_node_sequence b) c"
proof -
  let ?ex = "tb_existing b"
  note get = combined_get [OF c nodes_wf_bt [OF wf] repl(1)]
  have ex_ok: "node_ok n" if "bt_get ?ex i = Some n" for i n
    using b(1) that unfolding builder_ok_def by (force dest: map_of_SomeD)
  have repl_ok: "node_ok n" if "bt_get repl i = Some n" for i n
    using repl(3) that by (force dest: map_of_SomeD)
  have om: "mutable n" if i: "i \<in> set region" "bt_get repl i = None" "bt_get ?ex i = Some n" for i n
    using region [of i n] allowed [of i n] i by auto
  have "\<forall>n\<in>snd ` set c. node_ok n"
  proof
    fix n assume "n \<in> snd ` set c"
    then have "bt_get c (pn_id n) = Some n" using nodes_wf_value [OF wfc] by simp
    then show "node_ok n"
      using ex_ok repl_ok om mutable_supersede unfolding get by (auto split: if_splits option.splits)
  qed
  moreover have "fst ` set c \<subseteq> fst ` set ?ex \<union> fresh_ids s (tb_next_node_sequence b)"
  proof
    fix i assume "i \<in> fst ` set c"
    then obtain n where "bt_get c i = Some n" using get_keys by metis
    then have "(\<exists>n. bt_get ?ex i = Some n) \<or> (\<exists>n. bt_get repl i = Some n)"
      unfolding get by (auto split: if_splits option.splits)
    then have "i \<in> fst ` set ?ex \<or> i \<in> fst ` set (tb_nodes b)" using get_keys repl(2) by metis
    then show "i \<in> fst ` set ?ex \<union> fresh_ids s (tb_next_node_sequence b)"
      using builder_fresh(3) [OF b] get_keys unfolding rebuildable_def by (metis UnCI)
  qed
  moreover have "\<exists>n'. bt_get c i = Some n' \<and> pn_status n' = PlanNodeStatus.InProgress"
    if i: "bt_get ?ex i = Some n" "pn_status n = PlanNodeStatus.InProgress" for i n
  proof (cases "tb_allow_existing_node b = Some i")
    case True
    from allowed [OF this i(1)] i(2) show ?thesis by (auto simp: get)
  next
    case False
    then have "bt_get (tb_nodes b) i = None" using in_progress_not_rebuilt [OF b un False i] by simp
    then have "bt_get repl i = None" using get_keys repl(2) by (metis option.distinct(1) option.exhaust)
    moreover have "i \<notin> set region" using region [of i n] False i by (auto simp: mutable_iff)
    ultimately show ?thesis using i by (simp add: get)
  qed
  ultimately show ?thesis using builder_fresh(1) [OF b] by (simp add: edit_ok_def)
qed

lemma flatten_leaf_length:
  assumes "flatten b inp p k d = Ok (b', i)" and "ni_children inp = []" and "builder_wf b"
  shows "length (tb_nodes b') = Suc (length (tb_nodes b))"
proof -
  from assms(1,2) obtain b1 ident where ident: "flatten_identity b inp = Ok (b1, ident)"
    and new: "bt_get (tb_nodes b1) (id_id ident) = None" and b': "b' = insert_node b1 ident inp p k"
    by (subst (asm) flatten.simps) (auto simp: result_simps split: if_splits)
  then show ?thesis
    using length_bt_insert [of "tb_nodes b1" "id_id ident"] assms(3) flatten_identity_frame [OF ident]
    by (simp add: builder_wf_def nodes_wf_def)
qed

text \<open>Inputs are at most one level deep, so one call of the builder adds at most seventeen nodes.\<close>

lemma flatten_length:
  assumes "flatten b inp p k d = Ok (b', i)" and wf: "builder_wf b"
  shows "length (tb_nodes b') \<le> length (tb_nodes b) + 17"
proof -
  from assms(1) obtain b1 ident where checks: "flatten_checks inp d = Ok ()"
    and ident: "flatten_identity b inp = Ok (b1, ident)"
    and new: "bt_get (tb_nodes b1) (id_id ident) = None"
    and kids: "fold_res (\<lambda>b (order, child). and_then (flatten b child (Some (id_id ident)) (of_nat order) (d + 1)) (\<lambda>(b, _). Ok b))
        (insert_node b1 ident inp p k) (enumerate 0 (ni_children inp)) = Ok b'"
    by (subst (asm) flatten.simps) (auto simp: result_simps split: if_splits)
  have small: "length (ni_children inp) \<le> 16" "\<forall>c\<in>set (ni_children inp). ni_children c = []"
    using checks by (auto simp: flatten_checks_def result_simps list_ex_iff split: if_splits)
  let ?f = "\<lambda>b (order, child). and_then (flatten b child (Some (id_id ident)) (of_nat order) (d + 1)) (\<lambda>(b, _). Ok b)"
  have grow: "length (tb_nodes t) = length (tb_nodes s) + length xs \<and> builder_wf t"
    if "fold_res ?f s xs = Ok t" "builder_wf s" "\<forall>x\<in>set xs. ni_children (snd x) = []" for s t xs
    using that
  proof (induction xs arbitrary: s)
    case (Cons x xs)
    then obtain u j where u: "flatten s (snd x) (Some (id_id ident)) (of_nat (fst x)) (d + 1) = Ok (u, j)"
      and rest: "fold_res ?f u xs = Ok t"
      by (cases x) (auto simp: result_simps)
    have "length (tb_nodes u) = Suc (length (tb_nodes s))"
      using flatten_leaf_length [OF u] Cons.prems by simp
    with Cons.IH [OF rest flatten_wf [OF u Cons.prems(2)]] Cons.prems(3) show ?case by simp
  qed simp
  have "length (tb_nodes (insert_node b1 ident inp p k)) = Suc (length (tb_nodes b))"
    using length_bt_insert [of "tb_nodes b1" "id_id ident"] new wf flatten_identity_frame [OF ident]
    by (simp add: builder_wf_def nodes_wf_def)
  moreover have "\<forall>x\<in>set (enumerate 0 (ni_children inp)). ni_children (snd x) = []"
    using small(2) by (auto dest: enumerate_snd)
  ultimately show ?thesis using grow [OF kids builder_wf_insert [OF wf ident]] small(1) by simp
qed

lemma replacement_inv:
  assumes inv: "plan_inv st" and room: "room st" and bok: "builder_ok (st_next_node_sequence st) b"
    and ex: "tb_existing b = collect_nodes (ps_nodes (st_snapshot st))" and small: "length (tb_nodes b) \<le> 128"
    and repl: "nodes_wf repl" "fst ` set repl = fst ` set (tb_nodes b)" "\<forall>n\<in>snd ` set repl. node_ok n"
    and c: "combine_replacement vr (tb_existing b) region repl (filter (\<lambda>i. i \<notin> set (bt_keys repl)) region) = Ok c"
    and region: "\<And>i n. i \<in> set region \<Longrightarrow> bt_get (tb_existing b) i = Some n \<Longrightarrow>
      mutable n \<or> tb_allow_existing_node b = Some i"
    and allowed: "\<And>i n. tb_allow_existing_node b = Some i \<Longrightarrow> bt_get (tb_existing b) i = Some n \<Longrightarrow>
      \<exists>n'. bt_get repl i = Some n' \<and> pn_status n' = pn_status n"
    and m: "resolve_all_dependencies c unres keys live = Ok m"
    and sn: "plan_ok sn" "ps_nodes sn = ordered_nodes m" "ps_attempts sn = ps_attempts (st_snapshot st)"
      "ps_leases sn = ps_leases (st_snapshot st)" "ps_attempt_progress sn = ps_attempt_progress (st_snapshot st)"
      "ps_phase sn = ps_phase (st_snapshot st)"
  shows "plan_next st (st\<lparr>st_snapshot := sn, st_next_node_sequence := tb_next_node_sequence b\<rparr>)"
proof -
  let ?s = "st_next_node_sequence st" let ?ex = "collect_nodes (ps_nodes (st_snapshot st))"
  have wfe: "nodes_wf (tb_existing b)" using nodes_wf_collect ex by simp
  have wfc: "nodes_wf c" using combine_replacement_wf [OF c wfe repl(1)] .
  have rwf: "bt_wf repl" using repl(1) by (simp add: nodes_wf_def)
  note m' = resolve_all_dependencies_Ok [OF m wfc]
  have fit: "unat ?s + length (tb_nodes b) < 2 ^ 64" using room small by (simp add: room_def)
  have un: "unnumbered (tb_existing b) ?s" using node_ids_unnumbered [OF plan_invD(3) [OF inv]] ex by simp
  have "edit_ok (tb_existing b) ?s (tb_next_node_sequence b) c"
    by (rule combine_edit_ok [OF bok fit wfe un rwf repl(2,3) c wfc region allowed])
  then have "edit_ok ?ex ?s (tb_next_node_sequence b) m" using m' wfc ex by (metis edit_ok_deps)
  with edit_inv [OF inv conjunct1 [OF m'] _ sn] builder_fresh(2) [OF bok fit] small sn(3) show ?thesis by (simp add: plan_next_def)
qed

lemma replace_subtree_inv:
  assumes op: "replace_subtree st target vr subtree = Ok (st', keys)" and inv: "plan_inv st" and "room st"
  shows "plan_next st st'"
proof -
  let ?sn = "st_snapshot st" let ?ex = "collect_nodes (ps_nodes ?sn)"
  let ?base = "new_tree_builder (st_next_node_sequence st) (ps_revision ?sn + 1) ?ex"
  from op obtain p k depth b i c m where
    fl: "flatten ?base subtree p k depth = Ok (b, i)"
    and reg: "for_each (\<lambda>i. and_then (expect (bt_get ?ex i)) (\<lambda>n.
               and_then (ensure_mutable n) (\<lambda>_.
               if pn_result n \<noteq> None then Err (NodeNotMutable (pn_id n) (pn_status n)) else Ok ())))
          (live_subtree_ids ?ex target) = Ok ()"
    and c: "combine_replacement (ps_revision ?sn + 1) ?ex (live_subtree_ids ?ex target) (tb_nodes b)
        (filter (\<lambda>i. i \<notin> set (bt_keys (tb_nodes b))) (live_subtree_ids ?ex target)) = Ok c"
    and m: "resolve_all_dependencies c (tb_unresolved b) (tb_keys b) (live_ids c) = Ok m"
    and st': "st' = st\<lparr>st_snapshot := ?sn\<lparr>ps_revision := ps_revision ?sn + 1, ps_nodes := ordered_nodes m\<rparr>,
               st_next_node_sequence := tb_next_node_sequence b\<rparr>"
    unfolding replace_subtree_def by (auto simp: Let_def result_simps split: if_splits)
  have bok: "builder_ok (st_next_node_sequence st) b"
    using flatten_builder_ok [OF fl builder_ok_new [OF existing_ok [OF inv]]] .
  have ex: "tb_existing b = ?ex" "tb_allow_existing_node b = None" using flatten_existing [OF fl] by auto
  have "plan_ok (st_snapshot st')" using replace_subtree_ok [OF op exec_okD(1) [OF plan_invD(1) [OF inv]]] .
  then have pok: "plan_ok (?sn\<lparr>ps_revision := ps_revision ?sn + 1, ps_nodes := ordered_nodes m\<rparr>)" by (simp add: st')
  have reg': "mutable n" if "i \<in> set (live_subtree_ids ?ex target)" "bt_get ?ex i = Some n" for i n
    using reg that by (fastforce simp: for_each_Ok_iff result_simps mutable_def)
  have "plan_next st (st\<lparr>st_snapshot := ?sn\<lparr>ps_revision := ps_revision ?sn + 1, ps_nodes := ordered_nodes m\<rparr>,
      st_next_node_sequence := tb_next_node_sequence b\<rparr>)"
    by (rule replacement_inv [OF inv assms(3) bok ex(1) _ builder_maps(2) [OF bok] refl _ c [folded ex(1)] _ _ m pok])
      (use bok reg' ex flatten_length [OF fl] in \<open>auto simp: builder_ok_def\<close>)
  then show ?thesis by (simp add: st')
qed

section \<open>Defining the plan\<close>

lemma supersede_rest:
  assumes "fold_res (\<lambda>nodes old. if bt_get nodes (pn_id old) = None \<and> is_live old
       then and_then (ensure_mutable old) (\<lambda>_. Ok (bt_insert (pn_id old) (supersede vr old) nodes)) else Ok nodes)
       m olds = Ok m'" and "bt_wf m"
  shows "bt_wf m'" and "bt_get m \<subseteq>\<^sub>m bt_get m'"
    and "bt_get m' i = Some n \<Longrightarrow> bt_get m i = Some n \<or> (\<exists>old\<in>set olds. mutable old \<and> n = supersede vr old \<and> i = pn_id old)"
    and "distinct (map pn_id olds) \<Longrightarrow> old \<in> set olds \<Longrightarrow> is_live old \<Longrightarrow> \<not> mutable old \<Longrightarrow>
      bt_get m (pn_id old) \<noteq> None"
proof -
  let ?f = "\<lambda>nodes old. if bt_get nodes (pn_id old) = None \<and> is_live old
       then and_then (ensure_mutable old) (\<lambda>_. Ok (bt_insert (pn_id old) (supersede vr old) nodes)) else Ok nodes"
  let ?new = "\<lambda>m m' olds. \<forall>i n. bt_get m' i = Some n \<longrightarrow> bt_get m i = Some n
    \<or> (\<exists>old\<in>set olds. mutable old \<and> n = supersede vr old \<and> i = pn_id old)"
  have "bt_wf m' \<and> bt_get m \<subseteq>\<^sub>m bt_get m' \<and> ?new m m' olds
    \<and> (\<forall>old\<in>set olds. is_live old \<and> bt_get m (pn_id old) = None \<longrightarrow> (\<exists>x\<in>set olds. pn_id x = pn_id old \<and> mutable x))"
    using assms
  proof (induction olds arbitrary: m)
    case (Cons x olds)
    show ?case
    proof (cases "bt_get m (pn_id x) = None \<and> is_live x")
      case True
      with Cons.prems(1) have x: "mutable x"
        and rest: "fold_res ?f (bt_insert (pn_id x) (supersede vr x) m) olds = Ok m'"
        by (auto simp: result_simps mutable_def)
      note IH = Cons.IH [OF rest bt_wf_insert [OF Cons.prems(2)]]
      have get: "bt_get (bt_insert (pn_id x) (supersede vr x) m) = (bt_get m)(pn_id x \<mapsto> supersede vr x)"
        by (rule get_bt_insert [OF Cons.prems(2)])
      have "bt_get m \<subseteq>\<^sub>m bt_get m'"
        using IH True unfolding get map_le_def by (auto simp: dom_def)
      moreover have "?new m m' (x # olds)" using IH x unfolding get by (fastforce split: if_splits)
      moreover have "\<forall>old\<in>set (x # olds). is_live old \<and> bt_get m (pn_id old) = None \<longrightarrow>
          (\<exists>y\<in>set (x # olds). pn_id y = pn_id old \<and> mutable y)"
        using IH x unfolding get by (metis fun_upd_other list.set_intros(1,2) set_ConsD)
      ultimately show ?thesis using IH by blast
    next
      case False
      then have "fold_res ?f m olds = Ok m'" using Cons.prems(1) by auto
      from Cons.IH [OF this Cons.prems(2)] False show ?thesis by auto
    qed
  qed (simp add: map_le_def)
  note * = this
  then show "bt_wf m'" "bt_get m \<subseteq>\<^sub>m bt_get m'"
    "bt_get m' i = Some n \<Longrightarrow> bt_get m i = Some n \<or> (\<exists>old\<in>set olds. mutable old \<and> n = supersede vr old \<and> i = pn_id old)"
    by blast+
  show "distinct (map pn_id olds) \<Longrightarrow> old \<in> set olds \<Longrightarrow> is_live old \<Longrightarrow> \<not> mutable old \<Longrightarrow>
      bt_get m (pn_id old) \<noteq> None"
    using * distinct_map_eq [of pn_id olds] by metis
qed

lemma define_plan_inv:
  assumes op: "define_plan st expected root = Ok (st', keys)" and inv: "plan_inv st" and "room st"
  shows "plan_next st st'"
proof -
  let ?sn = "st_snapshot st" let ?ex = "collect_nodes (ps_nodes ?sn)" let ?s = "st_next_node_sequence st"
  let ?base = "new_tree_builder ?s (ps_revision ?sn + 1) ?ex"
  let ?f = "\<lambda>nodes old. if bt_get nodes (pn_id old) = None \<and> is_live old
             then and_then (ensure_mutable old) (\<lambda>_.
               Ok (bt_insert (pn_id old) (supersede (ps_revision ?sn + 1) old) nodes)) else Ok nodes"
  from op obtain b i m1 m where
    fl: "flatten ?base root None 0 1 = Ok (b, i)"
    and m1: "resolve_all_dependencies (tb_nodes b) (tb_unresolved b) (tb_keys b) (bt_keys (tb_nodes b)) = Ok m1"
    and m: "fold_res ?f m1 (bt_values ?ex) = Ok m"
    and v: "validate_graph m i = Ok ()"
    and st': "st' = st\<lparr>st_snapshot := ?sn\<lparr>ps_revision := ps_revision ?sn + 1, ps_root_node_id := Some i,
          ps_nodes := ordered_nodes m\<rparr>, st_next_node_sequence := tb_next_node_sequence b\<rparr>"
    unfolding define_plan_def by (auto simp: Let_def result_simps split: if_splits)
  have bok: "builder_ok ?s b" using flatten_builder_ok [OF fl builder_ok_new [OF existing_ok [OF inv]]] .
  have ex: "tb_existing b = ?ex" "tb_allow_existing_node b = None" using flatten_existing [OF fl] by auto
  have wfe: "nodes_wf ?ex" by (rule nodes_wf_collect)
  note m1' = resolve_all_dependencies_Ok [OF m1 builder_maps(2) [OF bok]]
  have wf1: "bt_wf m1" using m1' by (simp add: nodes_wf_def)
  note rest = supersede_rest [OF m wf1]
  have wfm: "nodes_wf m"
    using m by (rule fold_res_inv [where I = nodes_wf])
      (use m1' in \<open>auto simp: result_simps supersede_def intro!: nodes_wf_insert split: if_splits\<close>)
  have ids: "distinct (map pn_id (bt_values ?ex))" using nodes_wf_ids [OF wfe] .
  have kept: "j \<in> live_set m" if j: "bt_get (tb_nodes b) j = Some n" for j n
  proof -
    have "j \<in> live_set m1" using deps_live [OF conjunct2 [OF m1'] j built_live [OF bok j]] .
    then show ?thesis using rest(2) by (fastforce simp: live_set_def live_node_def map_le_def dom_def)
  qed
  have pok: "plan_ok (?sn\<lparr>ps_revision := ps_revision ?sn + 1, ps_root_node_id := Some i, ps_nodes := ordered_nodes m\<rparr>)"
    using define_plan_ok [OF op] by (simp add: st')
  have "plan_next st (st\<lparr>st_snapshot := ?sn\<lparr>ps_revision := ps_revision ?sn + 1, ps_root_node_id := Some i,
          ps_nodes := ordered_nodes m\<rparr>, st_next_node_sequence := tb_next_node_sequence b\<rparr>)"
  proof (rule edit_finish [OF inv assms(3) bok wfm v kept _ pok])
    assume fit: "unat ?s + length (tb_nodes b) < 2 ^ 64"
    have un: "unnumbered (tb_existing b) ?s" using node_ids_unnumbered [OF plan_invD(3) [OF inv]] ex by simp
    have old: "\<exists>a. bt_get (tb_nodes b) j = Some a \<and> same_but_deps a n" if "bt_get m1 j = Some n" for j n
      using only_deps_moved_get [OF conjunct2 [OF m1'] that] .
    have "node_ok n" if n: "n \<in> snd ` set m" for n
    proof -
      have "bt_get m (pn_id n) = Some n" using n nodes_wf_value [OF wfm] by simp
      from rest(3) [OF this] show ?thesis
      proof
        assume "bt_get m1 (pn_id n) = Some n"
        then obtain a where a: "bt_get (tb_nodes b) (pn_id n) = Some a" "same_but_deps a n" using old by blast
        then have "node_ok a" using bok unfolding builder_ok_def by (force dest: map_of_SomeD)
        then show ?thesis using same_but_deps_node_ok [OF a(2)] by simp
      next
        assume "\<exists>old\<in>set (bt_values ?ex). mutable old \<and> n = supersede (ps_revision ?sn + 1) old \<and> pn_id n = pn_id old"
        then show ?thesis using existing_ok [OF inv] mutable_supersede by auto
      qed
    qed
    moreover have "fst ` set m \<subseteq> fst ` set ?ex \<union> fresh_ids ?s (tb_next_node_sequence b)"
    proof
      fix j assume "j \<in> fst ` set m"
      then obtain n where "bt_get m j = Some n" using get_keys by metis
      then have "j \<in> fst ` set ?ex \<or> j \<in> fst ` set (tb_nodes b)"
        using rest(3) old get_keys nodes_wf_value [OF wfe] by (metis set_map)
      then show "j \<in> fst ` set ?ex \<union> fresh_ids ?s (tb_next_node_sequence b)"
        using builder_fresh(3) [OF bok fit, of j] get_keys ex unfolding rebuildable_def by (metis UnCI)
    qed
    moreover have False if n: "bt_get ?ex j = Some n" "pn_status n = PlanNodeStatus.InProgress" for j n
    proof -
      have "n \<in> set (bt_values ?ex)" "pn_id n = j"
        using n nodes_wf_get [OF wfe n(1)] nodes_wf_value [OF wfe, of n] by auto
      then have "bt_get m1 j \<noteq> None" using rest(4) [OF ids, of n] n(2) by (auto simp: is_live_def mutable_iff)
      then have "bt_get (tb_nodes b) j \<noteq> None" using old by fastforce
      with in_progress_not_rebuilt [OF bok fit un, of j n] ex n show False by simp
    qed
    ultimately show "edit_ok ?ex ?s (tb_next_node_sequence b) m"
      using builder_fresh(1) [OF bok fit] unfolding edit_ok_def by blast
  qed simp_all
  then show ?thesis by (simp add: st')
qed

section \<open>Scoped edits\<close>

lemma define_scoped_childrenE:
  assumes "define_scoped_children st root expected children = Ok (st', keys)"
  obtains b m r where
    "flatten_children (collect_nodes (ps_nodes (st_snapshot st))) root
        (live_child_count (collect_nodes (ps_nodes (st_snapshot st))) root) None
        (new_tree_builder (st_next_node_sequence st) (ps_revision (st_snapshot st) + 1)
          (collect_nodes (ps_nodes (st_snapshot st)))) children = Ok b"
    "resolve_all_dependencies (bt_extend (collect_nodes (ps_nodes (st_snapshot st))) (tb_nodes b)) (tb_unresolved b)
        (scoped_client_keys (bt_extend (collect_nodes (ps_nodes (st_snapshot st))) (tb_nodes b)) (tb_keys b))
        (live_ids (bt_extend (collect_nodes (ps_nodes (st_snapshot st))) (tb_nodes b))) = Ok m"
    "ps_root_node_id (st_snapshot st) = Some r" "validate_graph m r = Ok ()"
    "validate_authorized_envelope m r (ps_authorized_capability_envelope (st_snapshot st)) = Ok ()"
    "st' = st\<lparr>st_snapshot := (st_snapshot st)\<lparr>ps_revision := ps_revision (st_snapshot st) + 1, ps_nodes := ordered_nodes m\<rparr>,
             st_next_node_sequence := tb_next_node_sequence b\<rparr>"
    "validate_scoped_inputs children (collect_nodes (ps_nodes (st_snapshot st)))
       (live_subtree_ids (collect_nodes (ps_nodes (st_snapshot st))) root) None root = Ok ()"
  using assms unfolding define_scoped_children_def node_map_def by (auto simp: Let_def result_simps split: if_splits)

lemma define_scoped_children_inv:
  assumes op: "define_scoped_children st root expected children = Ok (st', keys)" and inv: "plan_inv st" and "room st"
  shows "plan_next st st'"
proof -
  let ?sn = "st_snapshot st" let ?ex = "collect_nodes (ps_nodes ?sn)"
  obtain b m r where
    b: "flatten_children ?ex root (live_child_count ?ex root) None
          (new_tree_builder (st_next_node_sequence st) (ps_revision ?sn + 1) ?ex) children = Ok b"
    and m: "resolve_all_dependencies (bt_extend ?ex (tb_nodes b)) (tb_unresolved b)
          (scoped_client_keys (bt_extend ?ex (tb_nodes b)) (tb_keys b)) (live_ids (bt_extend ?ex (tb_nodes b))) = Ok m"
    and v: "ps_root_node_id ?sn = Some r" "validate_graph m r = Ok ()"
      "validate_authorized_envelope m r (ps_authorized_capability_envelope ?sn) = Ok ()"
    and st': "st' = st\<lparr>st_snapshot := ?sn\<lparr>ps_revision := ps_revision ?sn + 1, ps_nodes := ordered_nodes m\<rparr>,
             st_next_node_sequence := tb_next_node_sequence b\<rparr>"
    by (rule define_scoped_childrenE [OF op])
  have "builder_wf b" using b by (rule flatten_children_wf) simp
  then have "nodes_wf (bt_extend ?ex (tb_nodes b))" by (intro nodes_wf_extend_map) (auto simp: builder_wf_def)
  then have "nodes_wf m" using resolve_all_dependencies_Ok [OF m] by simp
  then have "plan_ok (?sn\<lparr>ps_revision := ps_revision ?sn + 1, ps_nodes := ordered_nodes m\<rparr>)"
    using v by (auto intro!: plan_ok_nodes [where m = m and r = r])
  from children_inv [OF inv assms(3) b m v(2) this] show ?thesis by (simp add: st')
qed

definition preserved :: "node_map \<Rightarrow> PlanNodeId \<Rightarrow> PlanNodeId \<Rightarrow> u64 \<Rightarrow> PlanNodeId \<Rightarrow> PlanNodeSnapshot \<Rightarrow> PlanNodeSnapshot" where
  "preserved ex scope target vr i n =
     (case bt_get ex i of
        None \<Rightarrow> n
      | Some current \<Rightarrow>
          if i \<noteq> scope then preserve_scoped_runtime_state current vr n
          else if target = scope then preserve_scoped_root current vr n else n)"

lemma preserve_replacement_get:
  assumes "preserve_replacement ex scope target vr repl = Ok repl'" and wf: "bt_wf repl"
  shows "bt_wf repl'" "bt_get repl' i = map_option (preserved ex scope target vr i) (bt_get repl i)"
    "target = scope \<Longrightarrow> bt_get repl scope \<noteq> None"
proof -
  let ?g = "\<lambda>i n. if i \<noteq> scope then (case bt_get ex i of
        Some current \<Rightarrow> preserve_scoped_runtime_state current vr n | None \<Rightarrow> n) else n"
  let ?m = "map (\<lambda>(i, n). (i, ?g i n)) repl"
  have get: "bt_get ?m j = map_option (?g j) (bt_get repl j)" for j
    by (induction repl) (auto split: option.splits)
  have "map fst ?m = map fst repl" by (simp add: case_prod_beta comp_def)
  then have wfm: "bt_wf ?m" using wf by (simp only: bt_wf_def)
  have "bt_wf repl' \<and> bt_get repl' i = map_option (preserved ex scope target vr i) (bt_get repl i)
      \<and> (target = scope \<longrightarrow> bt_get repl scope \<noteq> None)"
  proof (cases "target = scope")
    case False
    then have "repl' = ?m" using assms(1) by (simp add: preserve_replacement_def Let_def)
    then show ?thesis using wfm get False by (auto simp: preserved_def option.map_comp split: option.split intro!: option.map_cong)
  next
    case True
    then obtain current n where "bt_get ex scope = Some current" "bt_get ?m scope = Some n"
      and r: "repl' = bt_insert scope (preserve_scoped_root current vr n) ?m"
      using assms(1) by (auto simp: preserve_replacement_def Let_def result_simps)
    moreover from this(2) have "bt_get repl scope = Some n" unfolding get by auto
    ultimately show ?thesis
      using True wfm get [of i]
      by (cases "bt_get repl i"; cases "bt_get ex i") (auto simp: get_bt_insert bt_wf_insert preserved_def)
  qed
  then show "bt_wf repl'" "bt_get repl' i = map_option (preserved ex scope target vr i) (bt_get repl i)"
    "target = scope \<Longrightarrow> bt_get repl scope \<noteq> None" by auto
qed

lemma preserved_fields [simp]:
  "pn_id (preserved ex scope target vr i n) = pn_id n"
  by (simp add: preserved_def preserve_scoped_runtime_state_def preserve_scoped_root_def split: option.split)

lemma preserved_node_ok:
  assumes "node_ok n" and "\<forall>n\<in>snd ` set ex. node_ok n"
  shows "node_ok (preserved ex scope target vr i n)"
proof (cases "bt_get ex i")
  case (Some current)
  then have "node_ok current" using assms(2) by (force dest: map_of_SomeD)
  with assms(1) Some show ?thesis
    by (simp add: preserved_def preserve_scoped_runtime_state_def preserve_scoped_root_def node_ok_def has_active_link_def)
qed (use assms in \<open>simp add: preserved_def\<close>)

lemma preserved_roots:
  assumes "roots_from ex repl" and "\<And>i. bt_get repl' i = map_option (preserved ex scope target vr i) (bt_get repl i)"
  shows "roots_from ex repl'"
  unfolding roots_from_def
proof (intro allI impI)
  fix i n assume n: "bt_get repl' i = Some n" and p: "pn_parent_id n = None"
  then obtain n1 where n1: "bt_get repl i = Some n1" "n = preserved ex scope target vr i n1" using assms(2) by auto
  show "\<exists>m. bt_get ex i = Some m \<and> pn_harness n = pn_harness m"
  proof (cases "i = scope \<and> target = scope \<and> bt_get ex i \<noteq> None")
    case True
    then show ?thesis using n1(2) by (auto simp: preserved_def preserve_scoped_root_def)
  next
    case False
    then have "pn_parent_id n1 = None" "pn_harness n = pn_harness n1"
      using n1(2) p by (auto simp: preserved_def preserve_scoped_runtime_state_def split: option.splits if_splits)
    with assms(1) n1(1) show ?thesis by (auto simp: roots_from_def)
  qed
qed

lemma scope_outside_region:
  assumes "plan_ok sn" and "target \<in> set (live_subtree_ids (collect_nodes (ps_nodes sn)) scope)" and "target \<noteq> scope"
    and "ps_root_node_id sn \<noteq> None"
  shows "scope \<notin> set (live_subtree_ids (collect_nodes (ps_nodes sn)) target)"
proof -
  let ?ex = "collect_nodes (ps_nodes sn)"
  have wf: "nodes_wf ?ex" by (rule nodes_wf_collect)
  obtain r where "valid_plan_graph ?ex r" using assms(1,4) by (auto simp: plan_ok_def)
  then have "\<forall>i\<in>live_set ?ex. (i, r) \<in> (parent_rel ?ex)\<^sup>*" "parent_of ?ex r = None"
    by (auto simp: valid_plan_graph_def links_ok_def live_set_def parent_of_live)
  then have ac: "acyclic (child_rel ?ex)" by (rule acyclic_child_rel)
  show ?thesis
  proof
    assume "scope \<in> set (live_subtree_ids ?ex target)"
    then have "(scope, target) \<in> (child_rel ?ex)\<^sup>*" "(target, scope) \<in> (child_rel ?ex)\<^sup>*"
      using assms(2) set_live_subtree_ids [OF wf] by (auto simp: below_def)
    then have "(target, target) \<in> (child_rel ?ex)\<^sup>+"
      using assms(3) by (metis rtranclD trancl_trans)
    with ac show False by (simp add: acyclic_def)
  qed
qed

definition scoped_builder :: "u64 \<Rightarrow> u64 \<Rightarrow> node_map \<Rightarrow> PlanNodeId \<Rightarrow> PlanNodeId \<Rightarrow> TreeBuilder" where
  "scoped_builder s vr ex scope target =
     (if target = scope then allow_existing_node scope (new_tree_builder s vr ex) else new_tree_builder s vr ex)"

lemma scoped_builder_ok:
  assumes "\<forall>n\<in>snd ` set ex. node_ok n"
  shows "builder_ok s (scoped_builder s vr ex scope target)" "roots_kept (scoped_builder s vr ex scope target)"
    "builder_wf (scoped_builder s vr ex scope target)" "tb_existing (scoped_builder s vr ex scope target) = ex"
    "tb_nodes (scoped_builder s vr ex scope target) = []"
    "tb_allow_existing_node (scoped_builder s vr ex scope target) = (if target = scope then Some scope else None)"
  using builder_ok_new [OF assms] builder_ok_allow [OF assms] by (auto simp: scoped_builder_def roots_kept_def)

lemma replace_scoped_subtreeE:
  assumes "replace_scoped_subtree st scope target vr subtree = Ok (st', keys)"
  obtains p k depth b i repl c m root where
    "target \<in> set (live_subtree_ids (collect_nodes (ps_nodes (st_snapshot st))) scope)"
    "ni_id subtree = Some target"
    "flatten (scoped_builder (st_next_node_sequence st) (ps_revision (st_snapshot st) + 1)
        (collect_nodes (ps_nodes (st_snapshot st))) scope target) subtree p k depth = Ok (b, i)"
    "for_each (\<lambda>i. and_then (expect (bt_get (collect_nodes (ps_nodes (st_snapshot st))) i)) (\<lambda>n.
        if i \<noteq> scope then ensure_mutable n else Ok ()))
      (live_subtree_ids (collect_nodes (ps_nodes (st_snapshot st))) target) = Ok ()"
    "preserve_replacement (collect_nodes (ps_nodes (st_snapshot st))) scope target (ps_revision (st_snapshot st) + 1) (tb_nodes b) = Ok repl"
    "combine_replacement (ps_revision (st_snapshot st) + 1) (collect_nodes (ps_nodes (st_snapshot st)))
      (live_subtree_ids (collect_nodes (ps_nodes (st_snapshot st))) target) repl
      (filter (\<lambda>i. i \<notin> set (bt_keys repl)) (live_subtree_ids (collect_nodes (ps_nodes (st_snapshot st))) target)) = Ok c"
    "resolve_all_dependencies c (tb_unresolved b) (scoped_client_keys c (tb_keys b)) (live_ids c) = Ok m"
    "ps_root_node_id (st_snapshot st) = Some root" "validate_graph m root = Ok ()"
    "st' = st\<lparr>st_snapshot := (st_snapshot st)\<lparr>ps_revision := ps_revision (st_snapshot st) + 1, ps_nodes := ordered_nodes m\<rparr>,
       st_next_node_sequence := tb_next_node_sequence b\<rparr>"
    "validate_scoped_inputs [subtree] (collect_nodes (ps_nodes (st_snapshot st)))
       (live_subtree_ids (collect_nodes (ps_nodes (st_snapshot st))) scope) (Some target) scope = Ok ()"
  using assms unfolding replace_scoped_subtree_def node_map_def Let_def scoped_builder_def [symmetric]
  by (clarsimp simp only: ok_steps ok_or_simps result.distinct simp_thms not_not de_Morgan_disj ex_unit split: if_split_asm)

lemma replace_scoped_subtree_inv:
  assumes op: "replace_scoped_subtree st scope target vr subtree = Ok (st', keys)" and inv: "plan_inv st" and "room st"
  shows "plan_next st st'"
proof -
  let ?sn = "st_snapshot st" let ?ex = "collect_nodes (ps_nodes ?sn)" let ?vr = "ps_revision ?sn + 1"
  let ?region = "live_subtree_ids ?ex target"
  let ?base = "scoped_builder (st_next_node_sequence st) ?vr ?ex scope target"
  obtain p k depth b i repl c m root where tgt: "target \<in> set (live_subtree_ids ?ex scope)"
    and sub: "ni_id subtree = Some target" and fl: "flatten ?base subtree p k depth = Ok (b, i)"
    and reg: "for_each (\<lambda>i. and_then (expect (bt_get ?ex i)) (\<lambda>n. if i \<noteq> scope then ensure_mutable n else Ok ())) ?region = Ok ()"
    and pres: "preserve_replacement ?ex scope target ?vr (tb_nodes b) = Ok repl"
    and c: "combine_replacement ?vr ?ex ?region repl (filter (\<lambda>i. i \<notin> set (bt_keys repl)) ?region) = Ok c"
    and m: "resolve_all_dependencies c (tb_unresolved b) (scoped_client_keys c (tb_keys b)) (live_ids c) = Ok m"
    and v: "ps_root_node_id ?sn = Some root" "validate_graph m root = Ok ()"
    and st': "st' = st\<lparr>st_snapshot := ?sn\<lparr>ps_revision := ?vr, ps_nodes := ordered_nodes m\<rparr>,
       st_next_node_sequence := tb_next_node_sequence b\<rparr>"
    by (rule replace_scoped_subtreeE [OF op])
  note pok = exec_okD(1) [OF plan_invD(1) [OF inv]]
  note base = scoped_builder_ok [OF existing_ok [OF inv], of "st_next_node_sequence st" ?vr scope target]
  have bok: "builder_ok (st_next_node_sequence st) b" using flatten_builder_ok [OF fl base(1)] .
  have ex: "tb_existing b = ?ex" "tb_allow_existing_node b = (if target = scope then Some scope else None)"
    using flatten_existing [OF fl] base by simp_all
  note bm = builder_maps [OF bok]
  note get = preserve_replacement_get [OF pres bm(3)]
  have kept: "roots_from ?ex (tb_nodes b)"
    using flatten_roots_kept [OF fl base(3,2)] sub ex(1) roots_kept_from [of b] by simp
  have "pn_id n = j" if "bt_get repl j = Some n" for j n
    using that nodes_wf_get [OF bm(2)] unfolding get(2) by auto
  then have rwf: "nodes_wf repl"
    using get(1) by (auto simp: nodes_wf_def bt_get_iff [OF get(1), symmetric])
  have rkeys: "fst ` set repl = fst ` set (tb_nodes b)"
    by (simp only: set_eq_iff get_keys [symmetric] get(2) map_option_eq_Some) blast
  have rok: "\<forall>n\<in>snd ` set repl. node_ok n"
  proof
    fix n assume "n \<in> snd ` set repl"
    then have "bt_get repl (pn_id n) = Some n" using nodes_wf_value [OF rwf] by simp
    then obtain n1 where n1: "bt_get (tb_nodes b) (pn_id n) = Some n1" "n = preserved ?ex scope target ?vr (pn_id n) n1"
      using get(2) by auto
    have "node_ok n1" using bok n1(1) unfolding builder_ok_def by (force dest: map_of_SomeD)
    then show "node_ok n" using preserved_node_ok [OF _ existing_ok [OF inv]] n1(2) by metis
  qed
  have pok': "plan_ok (?sn\<lparr>ps_revision := ?vr, ps_nodes := ordered_nodes m\<rparr>)"
    by (rule replacement_plan_ok [OF pok v(1) c rwf preserved_roots [OF kept get(2)] m v(2)])
  have region: "mutable n \<or> tb_allow_existing_node b = Some j" if j: "j \<in> set ?region" "bt_get (tb_existing b) j = Some n" for j n
  proof (cases "j = scope")
    case True
    then have "target = scope" using scope_outside_region [OF pok tgt] v(1) j(1) by auto
    with True ex show ?thesis by simp
  next
    case False
    then show ?thesis using reg j ex(1) by (auto simp: for_each_Ok_iff result_simps mutable_def)
  qed
  have allowed: "\<exists>n'. bt_get repl j = Some n' \<and> pn_status n' = pn_status n"
    if j: "tb_allow_existing_node b = Some j" "bt_get (tb_existing b) j = Some n" for j n
  proof -
    have eq: "j = scope" "target = scope" using j(1) ex(2) by (auto split: if_splits)
    obtain n1 where "bt_get (tb_nodes b) scope = Some n1" using get(3) [OF eq(2)] by blast
    then have "bt_get repl scope = Some (preserved ?ex scope target ?vr scope n1)" by (simp only: get(2) option.map)
    moreover have "bt_get ?ex scope = Some n" using j(2) eq(1) ex(1) by simp
    then have "pn_status (preserved ?ex scope target ?vr scope n1) = pn_status n"
      using eq(2) by (simp add: preserved_def preserve_scoped_root_def)
    ultimately show ?thesis unfolding eq(1) by blast
  qed
  have "length (tb_nodes b) \<le> 128" using flatten_length [OF fl base(3)] unfolding base(5) by simp
  note * = replacement_inv [OF inv assms(3) bok ex(1) this rwf rkeys rok c [folded ex(1)] region allowed m pok']
  have "plan_next st (st\<lparr>st_snapshot := ?sn\<lparr>ps_revision := ?vr, ps_nodes := ordered_nodes m\<rparr>,
      st_next_node_sequence := tb_next_node_sequence b\<rparr>)"
    by (rule *) (simp_all add: ex(1))
  then show ?thesis by (simp add: st')
qed

section \<open>The gate and the whole update\<close>

definition gate_step :: "PlanState \<Rightarrow> PlanState \<Rightarrow> bool" where
  "gate_step st st' \<longleftrightarrow> only_gate_moved (st_snapshot st) (st_snapshot st')
     \<and> st_next_node_sequence st' = st_next_node_sequence st
     \<and> st_next_attempt_sequence st' = st_next_attempt_sequence st
     \<and> st_next_lease_sequence st' = st_next_lease_sequence st"

lemma gate_step_trans: "gate_step a b \<Longrightarrow> gate_step b c \<Longrightarrow> gate_step a c"
  using only_gate_moved_trans by (auto simp: gate_step_def)

lemma gate_step_basic [simp]:
  "gate_step st st" "gate_step st (set_phase ph st)" "gate_step st (add_review_requirement k st)"
  by (auto simp: gate_step_def) (auto simp: set_phase_def add_review_requirement_def Let_def)

lemma gate_step_contract: "gate_step st (record_root_contract_changes c st)"
proof -
  have "gate_step st (add_review_requirement k (add_review_requirement j st))" for j k
    by (rule gate_step_trans [OF gate_step_basic(3) gate_step_basic(3)])
  then show ?thesis
    by (auto simp: record_root_contract_changes_def Let_def split: option.split prod.split)
qed

lemma gate_step_review: "require_expansion_review st = Ok st' \<Longrightarrow> gate_step st st'"
  by (auto simp: require_expansion_review_def result_simps)

lemma gate_step_execution: "gate_step st (gate_execution E st)"
  by (simp add: gate_step_def gate_execution_frame) (simp add: gate_execution_def set_phase_def Let_def)

lemma gate_step_authorize: "authorize_envelope st = Ok st' \<Longrightarrow> gate_step st st'"
  using gate_step_review
  by (auto simp: authorize_envelope_def result_simps gate_step_def only_gate_moved_def gate_free_def split: option.splits)

lemma gate_step_intent: "apply_execution_intent E intent st = Ok st' \<Longrightarrow> gate_step st st'"
proof (cases intent)
  case ExecuteIfAuthorized
  assume "apply_execution_intent E intent st = Ok st'"
  with ExecuteIfAuthorized obtain st1 where "authorize_envelope st = Ok st1" "st' = gate_execution E st1"
    by (auto simp: apply_execution_intent_def result_simps)
  then show ?thesis using gate_step_trans gate_step_authorize gate_step_execution by blast
next
  case RequestUserReview
  assume "apply_execution_intent E intent st = Ok st'"
  with RequestUserReview obtain st1 where
    "(if ps_authorized_capability_envelope (st_snapshot st) \<noteq> None then require_expansion_review st else Ok st) = Ok st1"
    and st': "st' = set_phase PlanPhase.AwaitingApproval (add_review_requirement UserReviewRequested st1)"
    by (auto simp only: apply_execution_intent_def PlanExecutionIntent.case and_then_Ok_iff result.inject)
  then have "gate_step st st1" by (auto dest: gate_step_review split: if_splits)
  with st' show ?thesis using gate_step_trans gate_step_basic(2,3) by metis
qed (auto simp: apply_execution_intent_def split: if_splits)

lemma gate_step_inv:
  assumes "plan_inv st" and g: "gate_step st st'" and "plan_ok (st_snapshot st')"
    and "ps_phase (st_snapshot st') = PlanPhase.Planning \<Longrightarrow> ps_phase (st_snapshot st) = PlanPhase.Planning
      \<or> open_nodes (st_snapshot st) = {}"
  shows "plan_inv st'"
proof -
  note f = only_gate_moved_fields [OF conjunct1 [OF g [unfolded gate_step_def]]]
  note ok = plan_invD [OF assms(1)]
  have "exec_ok (st_snapshot st')"
    by (rule exec_ok_gate [OF ok(1) assms(3)]) (use f assms(4) exec_okD(7) [OF ok(1)] in auto)
  moreover have "node_ids_ok st'" using ok(3) g f(3) by (simp add: node_ids_ok_def gate_step_def)
  moreover have "sequences_ok st'" using ok(2) g f(4,5) by (simp add: sequences_ok_def gate_step_def Let_def)
  ultimately show ?thesis by (simp add: plan_inv_def)
qed

lemma use_current_plan_inv:
  assumes "use_current_plan st expected = Ok (st', keys)" and "plan_inv st"
  shows "plan_inv st' \<and> st_next_node_sequence st' = st_next_node_sequence st
    \<and> ps_attempts (st_snapshot st') = ps_attempts (st_snapshot st)"
proof -
  obtain v where st': "st' = st\<lparr>st_snapshot := (st_snapshot st)\<lparr>ps_revision := v\<rparr>\<rparr>"
    using assms(1) by (auto simp: use_current_plan_def Let_def split: if_splits)
  have "plan_inv st'" unfolding st'
    by (rule plan_inv_snapshot [OF assms(2)]) (use plan_invD(1) [OF assms(2)] in \<open>simp_all add: same_history_def\<close>)
  then show ?thesis by (simp add: st')
qed

lemma apply_change_inv:
  assumes "apply_change st change = Ok (st', keys)" and "plan_inv st" and "room st"
  shows "plan_next st st'"
  using assms define_plan_inv replace_subtree_inv use_current_plan_inv
  by (fastforce simp: apply_change_def plan_next_def split: PlanChangeInput.splits)

lemma intent_planning:
  assumes "apply_execution_intent E intent st = Ok st'" and "ps_phase (st_snapshot st') = PlanPhase.Planning"
  shows "ps_phase (st_snapshot st) \<noteq> PlanPhase.Executing"
proof (cases intent)
  case ExecuteIfAuthorized
  with assms show ?thesis
    by (auto simp: apply_execution_intent_def result_simps gate_execution_def Let_def split: if_splits)
qed (use assms in \<open>auto simp: apply_execution_intent_def result_simps split: if_splits\<close>)

lemma apply_change_phase:
  "apply_change st change = Ok (st', keys) \<Longrightarrow> ps_phase (st_snapshot st') = ps_phase (st_snapshot st)
     \<and> ps_phase (st_snapshot st) \<in> {PlanPhase.Planning, PlanPhase.Executing}"
  unfolding apply_change_def define_plan_def replace_subtree_def use_current_plan_def
  by (auto simp: Let_def result_simps split: PlanChangeInput.splits if_splits)

lemma record_reason_inv:
  assumes "record_reason E reason st = Ok st'" and "plan_inv st"
  shows "plan_inv st' \<and> st_next_node_sequence st' = st_next_node_sequence st
    \<and> ps_attempts (st_snapshot st') = ps_attempts (st_snapshot st)"
proof -
  obtain x where st': "st' = st\<lparr>st_snapshot := (st_snapshot st)\<lparr>ps_revision_summaries := x\<rparr>\<rparr>"
    using record_reason_frame [OF assms(1)] by blast
  have "plan_inv st'" unfolding st'
    by (rule plan_inv_snapshot [OF assms(2)]) (use plan_invD(1) [OF assms(2)] in \<open>simp_all add: same_history_def\<close>)
  then show ?thesis by (simp add: st')
qed

lemma exec_ok_hints [simp]:
  "exec_ok (sn\<lparr>ps_coordinator_node_id := c, ps_max_concurrency_hint := h\<rparr>) = exec_ok sn"
  by (simp add: exec_ok_def plan_ok_def open_nodes_def busy_def)

lemma update_inv:
  assumes op: "update E st inp = Ok (st', keys)" and inv: "plan_inv st" and room: "room st"
  shows "plan_next st st'"
proof -
  obtain st1 st2 where change: "apply_change st (up_change inp) = Ok (st1, keys)"
    and intent: "apply_execution_intent E (up_execution_intent inp) (record_root_contract_changes
        (if ps_execution_contract_fingerprint (st_snapshot st) \<noteq> None
         then root_contract (st_snapshot st) else None)
        (st1\<lparr>st_snapshot := (st_snapshot st1)\<lparr>ps_coordinator_node_id := up_coordinator_node_id inp,
                    ps_max_concurrency_hint := up_max_concurrency_hint inp\<rparr>\<rparr>)) = Ok st2"
      (is "apply_execution_intent _ _ (record_root_contract_changes ?c ?mid) = _")
    and reason: "record_reason E (up_reason inp) st2 = Ok st'"
    by (rule updateE [OF op])
  let ?rec = "record_root_contract_changes ?c ?mid"
  note i1 = apply_change_inv [OF change inv room]
  have mid: "plan_inv ?mid"
    by (rule plan_inv_snapshot) (use i1 plan_invD(1) [of st1] in \<open>simp_all add: same_history_def plan_next_def\<close>)
  have root: "ps_root_node_id (st_snapshot ?mid) \<noteq> None"
    using apply_change_ok [OF change exec_okD(1) [OF plan_invD(1) [OF inv]]] by simp
  have rec: "plan_inv ?rec"
  proof (rule gate_step_inv [OF mid gate_step_contract])
    show "plan_ok (st_snapshot ?rec)"
      by (rule plan_ok_gate [OF exec_okD(1) [OF plan_invD(1) [OF mid]] record_root_contract_changes_frame(1) root
          record_root_contract_changes_frame(2)])
  qed simp
  have r: "ps_root_node_id (st_snapshot ?rec) \<noteq> None"
    using root only_gate_moved_fields(2) [OF record_root_contract_changes_frame(1), of ?c ?mid] by simp
  have "plan_inv st2"
  proof (rule gate_step_inv [OF rec gate_step_intent [OF intent]])
    show "plan_ok (st_snapshot st2)" using apply_execution_intent_ok [OF intent exec_okD(1) [OF plan_invD(1) [OF rec]] r] by simp
    assume "ps_phase (st_snapshot st2) = PlanPhase.Planning"
    from intent_planning [OF intent this] apply_change_phase [OF change]
    show "ps_phase (st_snapshot ?rec) = PlanPhase.Planning \<or> open_nodes (st_snapshot ?rec) = {}" by auto
  qed
  moreover have "st_next_node_sequence st2 = st_next_node_sequence st1"
    "ps_attempts (st_snapshot st2) = ps_attempts (st_snapshot st1)"
    using gate_step_trans [OF gate_step_contract gate_step_intent [OF intent]]
    by (auto simp: gate_step_def dest: only_gate_moved_fields(4))
  ultimately show ?thesis using record_reason_inv [OF reason] i1 by (simp add: plan_next_def)
qed

lemma update_subagent_inv:
  assumes "update_subagent E st plan_id root binding inp = Ok (st', keys)" and "plan_inv st" and "room st"
  shows "plan_next st st'"
proof -
  obtain st1 where change: "(case sp_change inp of
          DefineChildren expected children \<Rightarrow> define_scoped_children st root expected children
        | SubagentReplaceSubtree target expected subtree \<Rightarrow>
            replace_scoped_subtree st root target expected subtree) = Ok (st1, keys)"
    and reason: "record_reason E (sp_reason inp) st1 = Ok st'"
    using assms(1) by (auto simp: update_subagent_def result_simps)
  have "plan_next st st1"
    using change define_scoped_children_inv [OF _ assms(2,3)] replace_scoped_subtree_inv [OF _ assms(2,3)]
    by (cases "sp_change inp") auto
  then show ?thesis using record_reason_inv [OF reason] by (simp add: plan_next_def)
qed

section \<open>Finishing an attempt\<close>

lemma decompose_inv:
  assumes "decompose st i d vr = Ok (st', keys)" and "plan_inv st" and "room st"
  shows "plan_next st st' \<and> (\<exists>ns. st_snapshot st' = (st_snapshot st)\<lparr>ps_nodes := ns\<rparr>)"
proof (cases d)
  case None
  with assms show ?thesis by (auto simp: decompose_def intro!: plan_next_refl exI [of _ "ps_nodes (st_snapshot st)"])
next
  case (Some x)
  with assms(1) have "add_decomposition_children st i (dn_children x) vr = Ok (st', keys)" by (simp add: decompose_def)
  with add_decomposition_children_inv assms(2,3) add_decomposition_children_ok show ?thesis by blast
qed

lemma finish_node_restatus:
  "s \<noteq> PlanNodeStatus.Superseded \<Longrightarrow> restatus n (finish_node inp s vr n)"
proof -
  assume s: "s \<noteq> PlanNodeStatus.Superseded"
  have eq: "finish_node inp s vr n = n\<lparr>pn_status := s, pn_updated_revision := vr,
      pn_result := (if ra_outcome inp = PlanAttemptOutcome.Completed then ra_result inp else pn_result n)\<rparr>"
    by (simp add: finish_node_def set_status_def Let_def)
  show ?thesis unfolding restatus_def
  proof (intro conjI exI)
    show "is_live (finish_node inp s vr n)" using s by (simp add: eq is_live_def)
  qed (rule eq)
qed

lemma outcome_status_live: "node_status_after_outcome sn i outcome \<noteq> PlanNodeStatus.Superseded"
  by (simp add: node_status_after_outcome_def split: PlanAttemptOutcome.split option.split)

lemma finish_records_keeps:
  assumes k: "k < length (ps_attempts sn)" "is_open (ps_attempts sn ! k)"
    and lease: "lease = None \<and> at_lease_id (ps_attempts sn ! k) = None
      \<or> (\<exists>j<length (ps_leases sn). lease = Some j \<and> at_lease_id (ps_attempts sn ! k) = Some (le_lease_id (ps_leases sn ! j)))"
  shows "keeps sn (finish_records inp vr now k lease a (at_node_id (ps_attempts sn ! k)) sn)"
proof (rule keeps_close [where k = k and a' = "finish_attempt inp now (ps_attempts sn ! k)"
      and f = "finish_node inp (node_status_after_outcome sn (at_node_id (ps_attempts sn ! k)) (ra_outcome inp)) vr", OF k])
  let ?sn = "finish_records inp vr now k lease a (at_node_id (ps_attempts sn ! k)) sn"
  note d = finish_records_def upd_node_def upd_attempt_def upd_lease_def upd_progress_def Let_def
  show "same_attempt (ps_attempts sn ! k) (finish_attempt inp now (ps_attempts sn ! k))"
    "\<not> is_open (finish_attempt inp now (ps_attempts sn ! k))"
    by (simp_all add: finish_attempt_def same_attempt_def is_open_def)
  show "restatus n (finish_node inp (node_status_after_outcome sn (at_node_id (ps_attempts sn ! k)) (ra_outcome inp)) vr n)" for n
    by (rule finish_node_restatus [OF outcome_status_live])
  show "ps_attempts ?sn = (ps_attempts sn)[k := finish_attempt inp now (ps_attempts sn ! k)]"
    "ps_nodes ?sn = update_first (\<lambda>n. pn_id n = at_node_id (ps_attempts sn ! k))
       (finish_node inp (node_status_after_outcome sn (at_node_id (ps_attempts sn ! k)) (ra_outcome inp)) vr) (ps_nodes sn)"
    "ps_root_node_id ?sn = ps_root_node_id sn" "ps_phase ?sn = ps_phase sn"
    "ps_authorized_capability_envelope ?sn = ps_authorized_capability_envelope sn"
    "map pr_attempt_id (ps_attempt_progress ?sn) = map pr_attempt_id (ps_attempt_progress sn)"
    by (auto simp: d split: option.split)
  assume ok: "exec_ok sn"
  show "list_all2 (resolves (ps_attempts sn ! k)) (ps_leases sn) (ps_leases ?sn)"
    using lease
  proof
    assume "lease = None \<and> at_lease_id (ps_attempts sn ! k) = None"
    then show ?thesis using resolves_none by (simp add: d)
  next
    assume "\<exists>j<length (ps_leases sn). lease = Some j \<and> at_lease_id (ps_attempts sn ! k) = Some (le_lease_id (ps_leases sn ! j))"
    then obtain j where j: "j < length (ps_leases sn)" "lease = Some j"
      "at_lease_id (ps_attempts sn ! k) = Some (le_lease_id (ps_leases sn ! j))" by blast
    have "linked (ps_attempts sn ! k) (ps_leases sn ! j)"
      using lease_of_attempt [OF exec_okD(2) [OF ok]] k(1) j by simp
    then have "list_all2 (resolves (ps_attempts sn ! k)) (ps_leases sn)
        ((ps_leases sn)[j := (ps_leases sn ! j)\<lparr>le_status := PlanLeaseStatus.Resolved\<rparr>])"
      by (intro resolves_at [OF exec_okD(2) [OF ok] j(1)]) (simp_all add: same_lease_def)
    then show ?thesis by (simp add: d j(2))
  qed
qed

lemma report_attemptE:
  assumes "report_attempt E st actor inp now = Ok (st', out)"
  obtains k lease sn1 upd st2 keys sn3 sn4 where
    "validate_attempt_report_contract inp = Ok ()"
    "validate_current_attempt (st_snapshot st) actor = Ok (k, lease)"
    "apply_directive_reports (at_attempt_id (ps_attempts (st_snapshot st) ! k)) (ra_acknowledged_directive_ids inp)
       (ra_applied_directive_ids inp) now (st_snapshot st) = Ok (sn1, upd)"
    "decompose (st\<lparr>st_snapshot := sn1\<rparr>) (at_node_id (ps_attempts (st_snapshot st) ! k)) (ra_decomposition inp)
       (saturating_add (ps_revision sn1) 1) = Ok (st2, keys)"
    "append_revision_summary ''plan attempt finished''
       ((st_snapshot st2)\<lparr>ps_revision := saturating_add (ps_revision sn1) 1\<rparr>) = Ok sn3"
    "refresh_parent_states (saturating_add (ps_revision sn1) 1) (fst (expire_attempt_directives
       (at_attempt_id (ps_attempts (st_snapshot st) ! k))
       (finish_records inp (saturating_add (ps_revision sn1) 1) now k lease
         (at_attempt_id (ps_attempts (st_snapshot st) ! k)) (at_node_id (ps_attempts (st_snapshot st) ! k)) sn3))) = Ok sn4"
    "st' = st2\<lparr>st_snapshot := settle_draining_phase (refresh_terminal_phase sn4)\<rparr>"
  using assms unfolding report_attempt_def Let_def case_prod_beta
  by (clarsimp simp only: ok_steps ex_unit fst_conv snd_conv result.distinct simp_thms split: if_split_asm) blast

lemma report_attempt_inv:
  assumes op: "report_attempt E st actor inp now = Ok (st', out)" and inv: "plan_inv st" and room: "room st"
  shows "plan_next st st'"
proof -
  let ?sn = "st_snapshot st"
  obtain k lease sn1 upd st2 keys sn3 sn4 where
    cur: "validate_current_attempt ?sn actor = Ok (k, lease)"
    and dir: "apply_directive_reports (at_attempt_id (ps_attempts ?sn ! k)) (ra_acknowledged_directive_ids inp)
       (ra_applied_directive_ids inp) now ?sn = Ok (sn1, upd)"
    and dec: "decompose (st\<lparr>st_snapshot := sn1\<rparr>) (at_node_id (ps_attempts ?sn ! k)) (ra_decomposition inp)
       (saturating_add (ps_revision sn1) 1) = Ok (st2, keys)"
    and app: "append_revision_summary ''plan attempt finished''
       ((st_snapshot st2)\<lparr>ps_revision := saturating_add (ps_revision sn1) 1\<rparr>) = Ok sn3"
    and ref: "refresh_parent_states (saturating_add (ps_revision sn1) 1) (fst (expire_attempt_directives
       (at_attempt_id (ps_attempts ?sn ! k))
       (finish_records inp (saturating_add (ps_revision sn1) 1) now k lease
         (at_attempt_id (ps_attempts ?sn ! k)) (at_node_id (ps_attempts ?sn ! k)) sn3))) = Ok sn4"
    and st': "st' = st2\<lparr>st_snapshot := settle_draining_phase (refresh_terminal_phase sn4)\<rparr>"
    by (rule report_attemptE [OF op])
  note dk = directives_frame [OF dir]
  note kk = validate_current_attempt_k [OF cur]
  have inv1: "plan_inv (st\<lparr>st_snapshot := sn1\<rparr>)" 
    using plan_inv_keeps [OF inv keeps_directive_reports [OF dir kk(1,2)]] by (simp add: plan_next_def)
  have "room (st\<lparr>st_snapshot := sn1\<rparr>)" using room dk(8) by (simp add: room_def)
  note d2 = decompose_inv [OF dec inv1 this]
  obtain x where sn3: "sn3 = (st_snapshot st2)\<lparr>ps_revision := saturating_add (ps_revision sn1) 1, ps_revision_summaries := x\<rparr>"
    using app by (auto simp: append_revision_summary_def result_simps)
  have as: "ps_attempts sn3 = ps_attempts sn1" "ps_leases sn3 = ps_leases ?sn" using d2 dk(3) by (auto simp: sn3)
  note same = dk(9) [OF kk(1)]
  have node: "at_node_id (ps_attempts sn3 ! k) = at_node_id (ps_attempts ?sn ! k)"
    "at_lease_id (ps_attempts sn3 ! k) = at_lease_id (ps_attempts ?sn ! k)" using same as by (auto simp: same_attempt_def)
  have k3: "k < length (ps_attempts sn3)" "is_open (ps_attempts sn3 ! k)"
    using kk same as dk(8) by (auto simp: is_open_def)
  have l3: "lease = None \<and> at_lease_id (ps_attempts sn3 ! k) = None
      \<or> (\<exists>j<length (ps_leases sn3). lease = Some j \<and> at_lease_id (ps_attempts sn3 ! k) = Some (le_lease_id (ps_leases sn3 ! j)))"
    using cur unfolding node as(2)
    by (elim validate_current_attemptE) (auto dest: validate_live_leaseD)
  have "keeps (st_snapshot st2) sn3" by (simp add: keeps_def same_history_def sn3)
  also note finish_records_keeps [OF k3 l3, of inp "saturating_add (ps_revision sn1) 1" now
      "at_attempt_id (ps_attempts ?sn ! k)", unfolded node]
  also note keeps_expire
  also note keeps_refresh [OF ref]
  also note keeps_terminal
  also note keeps_settle
  finally have last: "keeps (st_snapshot st2) (settle_draining_phase (refresh_terminal_phase sn4))" .
  have inv2: "plan_inv st2" using d2 by (simp add: plan_next_def)
  have "list_all2 evolves (ps_attempts sn1) (ps_attempts (settle_draining_phase (refresh_terminal_phase sn4)))"
    using last plan_invD(1) [OF inv2] d2 by (auto simp: keeps_def same_history_def)
  moreover have "list_all2 evolves (ps_attempts ?sn) (ps_attempts sn1)"
    using keeps_directive_reports [OF dir kk(1,2)] plan_invD(1) [OF inv] by (simp add: keeps_def same_history_def)
  ultimately have "grown (ps_attempts ?sn) (ps_attempts (settle_draining_phase (refresh_terminal_phase sn4)))"
    by (blast intro: grown_evolves list_all2_trans [of evolves evolves evolves] evolves_trans)
  with plan_inv_keeps [OF inv2 last] d2 show ?thesis by (auto simp: st' plan_next_def)
qed

end
