(* ===== verification/Plan_System.thy ===== *)
theory Plan_System
  imports Plan_Edits
begin

text \<open>
  The plan as a transition system: one rule per operation the plan controller runs on the active
  plan, and the runs of a plan from its creation. An operation that returns an error installs
  nothing, so only accepted operations are steps.
\<close>

section \<open>Metered transition systems\<close>

text \<open>
  A system whose counters have a fixed width: \<open>used\<close> says how much of the counters a state has used
  up, and a step uses at most \<open>cost\<close>. The invariant needs room in the counters to survive a step, so
  it holds in every run that is short enough for the capacity.
\<close>

inductive steps_in :: "('s \<Rightarrow> 's \<Rightarrow> bool) \<Rightarrow> nat \<Rightarrow> 's \<Rightarrow> 's \<Rightarrow> bool" for step where
  none: "steps_in step 0 s s"
| more: "steps_in step n s t \<Longrightarrow> step t u \<Longrightarrow> steps_in step (Suc n) s u"

locale metered_system =
  fixes start :: "'s \<Rightarrow> bool" and step :: "'s \<Rightarrow> 's \<Rightarrow> bool" and inv :: "'s \<Rightarrow> bool"
    and used :: "'s \<Rightarrow> nat" and cost :: nat and capacity :: nat
  assumes start_inv: "start s \<Longrightarrow> inv s \<and> used s \<le> cost"
    and step_inv: "inv s \<Longrightarrow> used s + cost \<le> capacity \<Longrightarrow> step s t \<Longrightarrow> inv t \<and> used t \<le> used s + cost"
begin

lemma run_inv:
  "steps_in step n s t \<Longrightarrow> start s \<Longrightarrow> Suc n * cost \<le> capacity \<Longrightarrow> inv t \<and> used t \<le> Suc n * cost"
proof (induction rule: steps_in.induct)
  case (none s)
  then show ?case using start_inv by simp
next
  case (more n s t u)
  then have "inv t \<and> used t \<le> Suc n * cost" by (simp add: algebra_simps)
  with more.hyps(2) more.prems(2) step_inv [of t u] show ?case by (simp add: algebra_simps)
qed

end

section \<open>The operations of a plan\<close>

text \<open>
  The link operations are called by the subagent manager, which this system reduces to what it
  needs of its calls: a subagent is bound to a node that is still live, and the state of a link is
  changed while the node has no open attempt of its own and the link is not superseded.
\<close>

inductive plan_step :: "plan_env \<Rightarrow> PlanState \<Rightarrow> PlanState \<Rightarrow> bool" for E where
  update: "update E st inp = Ok (st', keys) \<Longrightarrow> plan_step E st st'"
| update_subagent: "update_subagent E st plan_id root binding sinp = Ok (st', keys) \<Longrightarrow> plan_step E st st'"
| enter_execution: "enter_execution E st envelope refs = Ok st' \<Longrightarrow> plan_step E st st'"
| approve: "approve E st ap = Ok (st', phase) \<Longrightarrow> plan_step E st st'"
| pause: "pause_scheduling E st reason = Ok (st', phase) \<Longrightarrow> plan_step E st st'"
| resume: "resume_scheduling E st reason = Ok (st', phase) \<Longrightarrow> plan_step E st st'"
| revise: "revise E st reason = Ok (st', phase) \<Longrightarrow> plan_step E st st'"
| request_cancellation: "request_cancellation E st reason now = Ok (st', cancelled) \<Longrightarrow> plan_step E st st'"
| retry: "retry_interrupted_node E st i reason = Ok (st', phase) \<Longrightarrow> plan_step E st st'"
| start: "start_attempt E st i actor now = Ok (st', sout) \<Longrightarrow> plan_step E st st'"
| start_local: "start_local_attempt E st i actor now = Ok (st', lout) \<Longrightarrow> plan_step E st st'"
| report_progress: "report_progress E st actor pinp now = Ok (st', pout) \<Longrightarrow> plan_step E st st'"
| record_effect: "record_runtime_effect E st actor paths now = Ok (st', pout) \<Longrightarrow> plan_step E st st'"
| heartbeat: "heartbeat E st actor lease now pr tc = Ok (st', pout) \<Longrightarrow> plan_step E st st'"
| report: "report_attempt E st actor rinp now = Ok (st', rout) \<Longrightarrow> plan_step E st st'"
| issue: "issue_directive E st dinp now = Ok (st', d) \<Longrightarrow> plan_step E st st'"
| deliver: "deliver_queued_directives E st actor lease now = Ok (st', ds) \<Longrightarrow> plan_step E st st'"
| cancel: "cancel_attempt E st actor lease reason now = Ok (st', cout) \<Longrightarrow> plan_step E st st'"
| review: "review_progress_at_boundary E st actor lease now = Ok (st', p) \<Longrightarrow> plan_step E st st'"
| interrupt: "interrupt_expired_leases E st now = Ok (st', iout) \<Longrightarrow> plan_step E st st'"
| abandon: "abandon_unresumed_execution E st now = Ok (st', b) \<Longrightarrow> plan_step E st st'"
| bind: "bind_subagent E st key agent task now = Ok (st', link) \<Longrightarrow> bindable st key \<Longrightarrow> plan_step E st st'"
| link: "update_subagent_link E st b s now = Ok st' \<Longrightarrow> link_settles st b \<Longrightarrow> plan_step E st st'"

lemma start_attempt_inv:
  assumes "start_attempt E st i actor now = Ok (st', out)" and "plan_inv st" and "room st"
  shows "plan_next st st'"
proof -
  obtain rs where "start_attempt_records E st i actor now True = Ok (st', rs)"
    using assms(1) by (auto simp: start_attempt_def result_simps)
  then show ?thesis by (rule start_attempt_records_inv) (use assms in \<open>simp_all add: room_def\<close>)
qed

lemma start_local_attempt_inv:
  assumes "start_local_attempt E st i actor now = Ok (st', out)" and "plan_inv st" and "room st"
  shows "plan_next st st'"
proof -
  obtain rs where "start_attempt_records E st i actor now False = Ok (st', rs)"
    using assms(1) by (auto simp: start_local_attempt_def result_simps)
  then show ?thesis by (rule start_attempt_records_inv) (use assms in \<open>simp_all add: room_def\<close>)
qed

lemma plan_step_next:
  assumes "plan_step E st st'" and "plan_inv st" and "room st"
  shows "plan_next st st'"
proof -
  note edits = update_inv update_subagent_inv start_attempt_inv start_local_attempt_inv report_attempt_inv
  note others = enter_execution_inv approve_inv revise_inv request_cancellation_inv retry_interrupted_node_inv
    report_progress_inv record_runtime_effect_inv heartbeat_inv issue_directive_inv deliver_queued_directives_inv
    cancel_attempt_inv review_progress_inv interrupt_expired_leases_inv abandon_unresumed_execution_inv
    bind_subagent_inv update_subagent_link_inv change_scheduler_status_inv
  note ops = edits [OF _ assms(2,3)] others [OF _ assms(2)]
  from assms(1) show ?thesis
    by cases (unfold pause_scheduling_def resume_scheduling_def, (rule ops; assumption)+)
qed

definition used_numbers :: "PlanState \<Rightarrow> nat" where
  "used_numbers st = max (unat (st_next_node_sequence st)) (length (ps_attempts (st_snapshot st)))"

definition fresh_plan :: "PlanState \<Rightarrow> bool" where
  "fresh_plan st \<longleftrightarrow> (\<exists>plan_id source policy. st = empty_plan plan_id source policy)"

lemma fresh_plan_inv: "fresh_plan st \<Longrightarrow> plan_inv st \<and> used_numbers st \<le> 128"
  using exec_ok_empty
  by (auto simp: fresh_plan_def plan_inv_def sequences_ok_def node_ids_ok_def used_numbers_def numbered_def)
    (auto simp: empty_plan_def numbered_def)

interpretation plan: metered_system fresh_plan "plan_step E" plan_inv used_numbers 128 "2 ^ 64 - 2"
proof
  fix st st' assume "plan_inv st" "used_numbers st + 128 \<le> 2 ^ 64 - 2" "plan_step E st st'"
  moreover from this(2) have "room st" by (auto simp: room_def used_numbers_def)
  ultimately have "plan_next st st'" by (blast intro: plan_step_next)
  then show "plan_inv st' \<and> used_numbers st' \<le> used_numbers st + 128"
    by (auto simp: plan_next_def used_numbers_def dest: grown_length)
qed (rule fresh_plan_inv)

definition reachable_plan :: "plan_env \<Rightarrow> PlanState \<Rightarrow> bool" where
  "reachable_plan E st \<longleftrightarrow> (\<exists>n start. n < 2 ^ 56 \<and> fresh_plan start \<and> steps_in (plan_step E) n start st)"

lemma reachable_inv: "reachable_plan E st \<Longrightarrow> plan_inv st \<and> used_numbers st \<le> 2 ^ 63"
proof -
  assume "reachable_plan E st"
  then obtain n start where n: "n < 2 ^ 56" "fresh_plan start" "steps_in (plan_step E) n start st"
    by (auto simp: reachable_plan_def)
  then have "Suc n * 128 \<le> 2 ^ 56 * 128" by (intro mult_right_mono) simp_all
  with plan.run_inv [OF n(3,2)] show ?thesis by simp
qed

end
