(* ===== verification/Plan_Ledger.thy ===== *)
theory Plan_Ledger
  imports Plan_System
begin

text \<open>
  What the attempts of a plan promise, and that the operations of the plan refine it. The abstract
  ledger is a list of claims: who works on which node and how it ended. A claim is taken only when
  neither the node nor the executor has an open one, and a claim is ended once. Every operation of
  the plan is a sequence of such steps on the ledger of its attempts.
\<close>

section \<open>The abstract ledger\<close>

type_synonym claim = "PlanNodeId \<times> SessionId \<times> PlanAttemptOutcome option"

definition free_of :: "PlanNodeId \<Rightarrow> SessionId \<Rightarrow> claim \<Rightarrow> bool" where
  "free_of n e c \<longleftrightarrow> (case c of (m, f, r) \<Rightarrow> r = None \<longrightarrow> m \<noteq> n \<and> f \<noteq> e)"

inductive ledger_step :: "claim list \<Rightarrow> claim list \<Rightarrow> bool" where
  take: "list_all (free_of n e) L \<Longrightarrow> ledger_step L (L @ [(n, e, None)])"
| finish: "ledger_step (L @ (n, e, None) # M) (L @ (n, e, Some r) # M)"

text \<open>Claims are never dropped, moved to another node or executor, or given a second outcome.\<close>

inductive_cases ledger_stepE: "ledger_step L M"

definition claim_of :: "PlanAttemptSnapshot \<Rightarrow> claim" where
  "claim_of a = (at_node_id a, at_executor_session_id a, at_outcome a)"

definition ledger :: "PlanState \<Rightarrow> claim list" where
  "ledger st = map claim_of (ps_attempts (st_snapshot st))"

section \<open>Refinement of metered systems\<close>

locale refined_system = metered_system +
  fixes abs :: "'a \<Rightarrow> 'b" and spec_start :: "'b \<Rightarrow> bool" and spec_step :: "'b \<Rightarrow> 'b \<Rightarrow> bool"
  assumes start_sim: "start s \<Longrightarrow> spec_start (abs s)"
    and step_sim: "inv s \<Longrightarrow> used s + cost \<le> capacity \<Longrightarrow> step s t \<Longrightarrow> spec_step\<^sup>*\<^sup>* (abs s) (abs t)"
begin

lemma run_sim:
  "steps_in step n s t \<Longrightarrow> start s \<Longrightarrow> Suc n * cost \<le> capacity \<Longrightarrow>
     spec_start (abs s) \<and> spec_step\<^sup>*\<^sup>* (abs s) (abs t)"
proof (induction rule: steps_in.induct)
  case (none s)
  then show ?case using start_sim by simp
next
  case (more n s t u)
  have fit: "Suc n * cost + cost \<le> capacity" using more.prems(2) by (simp add: algebra_simps)
  with run_inv [OF more.hyps(1) more.prems(1)] have t: "inv t" "used t + cost \<le> capacity" by simp_all
  from more.IH [OF more.prems(1)] fit have "spec_start (abs s) \<and> spec_step\<^sup>*\<^sup>* (abs s) (abs t)" by simp
  with step_sim [OF t more.hyps(2)] show ?case by (metis rtranclp_trans)
qed

end

section \<open>Every operation works on the ledger\<close>

lemma evolves_ledger:
  "list_all2 evolves as bs \<Longrightarrow> ledger_step\<^sup>*\<^sup>* (L @ map claim_of as) (L @ map claim_of bs)"
proof (induction arbitrary: L rule: list_all2_induct)
  case (Cons a as b bs)
  have "ledger_step\<^sup>*\<^sup>* (L @ claim_of a # map claim_of as) (L @ claim_of b # map claim_of as)"
  proof (cases "at_outcome a = at_outcome b")
    case True
    with Cons.hyps(1) have "claim_of a = claim_of b" by (simp add: claim_of_def evolves_def same_attempt_def)
    then show ?thesis by simp
  next
    case False
    with Cons.hyps(1) obtain r where "claim_of a = (at_node_id a, at_executor_session_id a, None)"
      "claim_of b = (at_node_id a, at_executor_session_id a, Some r)"
      by (cases "at_outcome b") (auto simp: claim_of_def evolves_def same_attempt_def is_open_def)
    then show ?thesis using ledger_step.finish by (metis r_into_rtranclp)
  qed
  also have "ledger_step\<^sup>*\<^sup>* \<dots> ((L @ [claim_of b]) @ map claim_of bs)"
    using Cons.IH [of "L @ [claim_of b]"] by simp
  finally show ?case by simp
qed simp

lemma open_is_free:
  assumes "records_ok (as @ [a]) ls" and "is_open a"
  shows "list_all (free_of (at_node_id a) (at_executor_session_id a)) (map claim_of as)"
  using assms by (auto simp: records_ok_def list_all_iff free_of_def claim_of_def is_open_def image_iff)

lemma grown_ledger:
  assumes "grown as as'" and "records_ok as' ls"
  shows "ledger_step\<^sup>*\<^sup>* (map claim_of as) (map claim_of as')"
proof -
  obtain bs cs where as': "as' = bs @ cs" and "list_all2 evolves as bs"
    and cs: "cs = [] \<or> (\<exists>a. cs = [a] \<and> is_open a)" using assms(1) by (auto simp: grown_def)
  then have "ledger_step\<^sup>*\<^sup>* (map claim_of as) (map claim_of bs)" using evolves_ledger [of as bs "[]"] by simp
  moreover have "ledger_step\<^sup>*\<^sup>* (map claim_of bs) (map claim_of (bs @ cs))"
    using cs
  proof
    assume "\<exists>a. cs = [a] \<and> is_open a"
    then obtain a where a: "cs = [a]" "is_open a" by blast
    then have "ledger_step (map claim_of bs) (map claim_of bs @ [(at_node_id a, at_executor_session_id a, None)])"
      using assms(2) as' by (intro ledger_step.take open_is_free) auto
    then show ?thesis using a by (simp add: claim_of_def is_open_def)
  qed simp
  ultimately show ?thesis unfolding as' by (rule rtranclp_trans)
qed

interpretation ledger: refined_system fresh_plan "plan_step E" plan_inv used_numbers 128 "2 ^ 64 - 2"
    ledger "\<lambda>L. L = []" ledger_step
proof unfold_locales
  fix st st' assume inv: "plan_inv st" and "used_numbers st + 128 \<le> 2 ^ 64 - 2" "plan_step E st st'"
  then have "plan_next st st'" by (auto intro: plan_step_next simp: room_def used_numbers_def)
  then show "ledger_step\<^sup>*\<^sup>* (ledger st) (ledger st')"
    unfolding ledger_def plan_next_def using exec_okD(2) [OF plan_invD(1)] by (blast intro: grown_ledger)
qed (auto simp: fresh_plan_def empty_plan_def ledger_def)

section \<open>A plan at work\<close>

text \<open>
  The sample plan with two attempts under way, a subagent's with a lease and the coordinator's own
  without: the states the witnesses use.
\<close>

definition sample_actor :: PlanAttemptActor where
  "sample_actor = \<lparr>aa_executor_session_id = ''child''\<rparr>"

definition started_plan :: PlanState where
  "started_plan =
     (case start_attempt sample_env sample_plan (PlanNodeId ''plan-node-2'') sample_actor 10 of
        Ok (st, _) \<Rightarrow> st | _ \<Rightarrow> sample_plan)"

definition working_plan :: PlanState where
  "working_plan =
     (case start_local_attempt sample_env started_plan (PlanNodeId ''plan-node-3'')
             \<lparr>aa_executor_session_id = ''main''\<rparr> 20 of
        Ok (st, _) \<Rightarrow> st | _ \<Rightarrow> started_plan)"

lemma reachable_run: "steps_in (plan_step E) n start st \<Longrightarrow> fresh_plan start \<Longrightarrow> n < 2 ^ 56 \<Longrightarrow> reachable_plan E st"
  by (auto simp: reachable_plan_def)

lemma sample_defined:
  "\<exists>keys. update sample_env (empty_plan ''p'' User default_resource_policy)
        (sample_update ExecuteIfAuthorized (DefinePlan 0
          (sample_input None (Some ''root'') ''ship'' [sample_input None (Some ''a'') ''build'' [],
             sample_input None (Some ''b'') ''test'' []]))) = Ok (sample_plan, keys)"
    (is "\<exists>keys. ?r = _")
proof -
  have "is_ok ?r" by code_simp
  then show ?thesis by (auto simp: sample_plan_def split: result.splits)
qed

lemma sample_started:
  "\<exists>out. start_attempt sample_env sample_plan (PlanNodeId ''plan-node-2'') sample_actor 10 = Ok (started_plan, out)"
    (is "\<exists>out. ?r = _")
proof -
  have "is_ok ?r" by code_simp
  then show ?thesis by (auto simp: started_plan_def split: result.splits)
qed

lemma sample_started_local:
  "\<exists>out. start_local_attempt sample_env started_plan (PlanNodeId ''plan-node-3'')
     \<lparr>aa_executor_session_id = ''main''\<rparr> 20 = Ok (working_plan, out)"
    (is "\<exists>out. ?r = _")
proof -
  have "is_ok ?r" by code_simp
  then show ?thesis by (auto simp: working_plan_def split: result.splits)
qed

lemma sample_run:
  "steps_in (plan_step sample_env) 1 (empty_plan ''p'' User default_resource_policy) sample_plan"
proof -
  obtain keys where "update sample_env (empty_plan ''p'' User default_resource_policy)
        (sample_update ExecuteIfAuthorized (DefinePlan 0
          (sample_input None (Some ''root'') ''ship'' [sample_input None (Some ''a'') ''build'' [],
             sample_input None (Some ''b'') ''test'' []]))) = Ok (sample_plan, keys)"
    using sample_defined by blast
  then have "plan_step sample_env (empty_plan ''p'' User default_resource_policy) sample_plan"
    by (rule plan_step.update)
  with steps_in.more [OF steps_in.none, of "plan_step sample_env"] show ?thesis by simp
qed

lemma sample_steps: "plan_step sample_env sample_plan started_plan" "plan_step sample_env started_plan working_plan"
  using sample_started sample_started_local plan_step.start plan_step.start_local by blast+

lemma fresh_empty: "fresh_plan (empty_plan plan_id source policy)"
  by (auto simp: fresh_plan_def)

lemma sample_reachable: "reachable_plan sample_env sample_plan"
  by (rule reachable_run [OF sample_run fresh_empty]) simp

lemma working_run:
  "steps_in (plan_step sample_env) 3 (empty_plan ''p'' User default_resource_policy) working_plan"
  using steps_in.more [OF steps_in.more [OF sample_run sample_steps(1)] sample_steps(2)] by (simp add: numeral_3_eq_3)

lemma working_reachable: "reachable_plan sample_env working_plan"
  by (rule reachable_run [OF working_run fresh_empty]) simp

lemma working_attempts:
  "map (\<lambda>a. (claim_of a, at_lease_id a)) (ps_attempts (st_snapshot working_plan))
     = [((PlanNodeId ''plan-node-2'', ''child'', None), Some ''plan-lease-1''),
        ((PlanNodeId ''plan-node-3'', ''main'', None), None)]"
  by code_simp

lemma working_ledger:
  "ledger working_plan = [(PlanNodeId ''plan-node-2'', ''child'', None), (PlanNodeId ''plan-node-3'', ''main'', None)]"
  using arg_cong [OF working_attempts, of "map fst"] by (simp add: ledger_def comp_def)

lemma working_leased:
  obtains a where "a \<in> set (ps_attempts (st_snapshot working_plan))" "at_node_id a = PlanNodeId ''plan-node-2''"
    "at_outcome a = None" "at_lease_id a = Some ''plan-lease-1''"
proof -
  have "((PlanNodeId ''plan-node-2'', ''child'', None), Some ''plan-lease-1'')
      \<in> (\<lambda>a. (claim_of a, at_lease_id a)) ` set (ps_attempts (st_snapshot working_plan))"
    using arg_cong [OF working_attempts, of set] by simp
  then show ?thesis using that by (auto simp: claim_of_def)
qed

lemma sample_facts:
  "ps_authorized_capability_envelope (st_snapshot sample_plan) \<noteq> None
   \<and> ps_root_node_id (st_snapshot sample_plan) \<noteq> None \<and> list_ex is_live (ps_nodes (st_snapshot sample_plan))"
  by code_simp

lemma working_length: "length (ps_attempts (st_snapshot working_plan)) = 2"
  using arg_cong [OF working_ledger, of length] by (simp add: ledger_def)

lemma reachable_exec_ok: "reachable_plan E st \<Longrightarrow> exec_ok (st_snapshot st)"
  using reachable_inv plan_invD(1) by blast

lemma reachable_records: "reachable_plan E st \<Longrightarrow> records_ok (ps_attempts (st_snapshot st)) (ps_leases (st_snapshot st))"
  using reachable_exec_ok exec_okD(2) by blast

lemma reachable_step_next:
  assumes "reachable_plan E st" and "plan_step E st st'"
  shows "plan_next st st'"
proof -
  have "plan_inv st" "used_numbers st \<le> 2 ^ 63" using reachable_inv [OF assms(1)] by auto
  then show ?thesis by (intro plan_step_next [OF assms(2)]) (simp_all add: room_def used_numbers_def)
qed

section \<open>Properties\<close>





text \<open>
  C15. Leases follow attempts: every lease of a reachable plan belongs to an attempt that names it
  and agrees with it on node, node revision and executor, and the lease is live exactly as long as
  the attempt has no outcome. No expired, resolved or cancelled lease can authorize work, and no
  unfinished subagent attempt is without its live lease.
\<close>

theorem lease_live_iff_attempt_open:
  assumes "reachable_plan E st" and "l \<in> set (ps_leases (st_snapshot st))"
  shows "\<exists>a\<in>set (ps_attempts (st_snapshot st)).
    at_attempt_id a = le_attempt_id l \<and> at_lease_id a = Some (le_lease_id l) \<and> at_node_id a = le_node_id l
    \<and> at_node_revision a = le_node_revision l \<and> at_executor_session_id a = le_executor_session_id l
    \<and> (le_status l = PlanLeaseStatus.Live \<longleftrightarrow> at_outcome a = None)"
proof -
  obtain a where "a \<in> set (ps_attempts (st_snapshot st))" "linked a l" "agree a l"
    using reachable_records [OF assms(1)] assms(2) unfolding records_ok_def by blast
  then show ?thesis by (intro bexI [of _ a]) (auto simp: linked_def agree_def is_open_def)
qed

theorem lease_live_iff_attempt_open_witness:
  "\<exists>l\<in>set (ps_leases (st_snapshot working_plan)). le_status l = PlanLeaseStatus.Live
     \<and> (\<exists>a\<in>set (ps_attempts (st_snapshot working_plan)). at_attempt_id a = le_attempt_id l \<and> at_outcome a = None)"
proof -
  obtain a where a: "a \<in> set (ps_attempts (st_snapshot working_plan))" "at_outcome a = None"
    "at_lease_id a = Some ''plan-lease-1''" by (rule working_leased)
  note ok = reachable_records [OF working_reachable]
  obtain l where "l \<in> set (ps_leases (st_snapshot working_plan))" "linked a l"
    using ok a unfolding records_ok_def by blast
  with linked_agree [OF ok a(1)] a have "l \<in> set (ps_leases (st_snapshot working_plan))"
    "le_status l = PlanLeaseStatus.Live" by (auto simp: agree_def is_open_def)
  with lease_live_iff_attempt_open [OF working_reachable] show ?thesis by blast
qed



text \<open>
  C19. The attempt history is append-only: an operation keeps every attempt at its place with its
  identity, node, executor and lease, leaves a finished attempt exactly as it is, and appends at most
  one new unfinished attempt.
\<close>

theorem attempt_history_append_only:
  assumes "reachable_plan E st" and "plan_step E st st'"
  shows "\<exists>kept new. ps_attempts (st_snapshot st') = kept @ new
    \<and> list_all2 (\<lambda>a b. at_attempt_id b = at_attempt_id a \<and> at_node_id b = at_node_id a
        \<and> at_executor_session_id b = at_executor_session_id a \<and> at_lease_id b = at_lease_id a
        \<and> (at_outcome a \<noteq> None \<longrightarrow> b = a)) (ps_attempts (st_snapshot st)) kept
    \<and> length new \<le> 1 \<and> (\<forall>a\<in>set new. at_outcome a = None)"
proof -
  obtain bs cs where *: "ps_attempts (st_snapshot st') = bs @ cs"
    "list_all2 evolves (ps_attempts (st_snapshot st)) bs" "cs = [] \<or> (\<exists>a. cs = [a] \<and> is_open a)"
    using reachable_step_next [OF assms] by (auto simp: plan_next_def grown_def)
  have "list_all2 (\<lambda>a b. at_attempt_id b = at_attempt_id a \<and> at_node_id b = at_node_id a
        \<and> at_executor_session_id b = at_executor_session_id a \<and> at_lease_id b = at_lease_id a
        \<and> (at_outcome a \<noteq> None \<longrightarrow> b = a)) (ps_attempts (st_snapshot st)) bs"
    using *(2) by (rule list_all2_mono) (auto simp: evolves_def same_attempt_def is_open_def)
  with * show ?thesis by (intro exI [of _ bs] exI [of _ cs]) (auto simp: is_open_def)
qed

theorem attempt_history_append_only_witness:
  "\<exists>kept new. ps_attempts (st_snapshot working_plan) = kept @ new \<and> length kept \<ge> 1 \<and> length new \<le> 1"
proof -
  have "reachable_plan sample_env started_plan"
    by (rule reachable_run [OF steps_in.more [OF sample_run sample_steps(1)] fresh_empty]) simp
  from attempt_history_append_only [OF this sample_steps(2)] obtain kept new where
    "ps_attempts (st_snapshot working_plan) = kept @ new" "length new \<le> 1" by blast
  with working_length show ?thesis by (intro exI [of _ kept] exI [of _ new]) simp
qed

text \<open>
  C23. Identifiers: the nodes, attempts and leases of a reachable plan have pairwise distinct ids;
  attempts and leases carry the ids numbered by their position, every node id was handed out by the
  node counter, and the 64-bit counters are the next unused numbers: none of them has wrapped.
\<close>

theorem plan_ids_unique:
  assumes "reachable_plan E st"
  shows "distinct (map pn_id (ps_nodes (st_snapshot st)))
    \<and> distinct (map at_attempt_id (ps_attempts (st_snapshot st)))
    \<and> distinct (map le_lease_id (ps_leases (st_snapshot st)))
    \<and> map at_attempt_id (ps_attempts (st_snapshot st))
        = map (\<lambda>k. plan_attempt_id (of_nat (Suc k))) [0..<length (ps_attempts (st_snapshot st))]
    \<and> unat (st_next_attempt_sequence st) = Suc (length (ps_attempts (st_snapshot st)))
    \<and> unat (st_next_lease_sequence st) = Suc (length (ps_leases (st_snapshot st)))
    \<and> (\<forall>n\<in>set (ps_nodes (st_snapshot st)).
        \<exists>k < st_next_node_sequence st. pn_id n = runtime_node_id k)"
proof -
  have inv: "plan_inv st" and used: "used_numbers st \<le> 2 ^ 63" using reachable_inv [OF assms] by auto
  have l: "length (ps_attempts (st_snapshot st)) \<le> 2 ^ 63" "length (ps_leases (st_snapshot st)) \<le> length (ps_attempts (st_snapshot st))"
    using used plan_invD(2) [OF inv] by (auto simp: used_numbers_def sequences_ok_def Let_def)
  note ok = plan_invD(1) [OF inv]
  have "distinct (map at_attempt_id (ps_attempts (st_snapshot st)))" "distinct (map le_lease_id (ps_leases (st_snapshot st)))"
    using exec_okD(2) [OF ok] by (simp_all add: records_ok_def)
  moreover have "unat (of_nat (Suc m) :: u64) = Suc m" if "m \<le> 2 ^ 63" for m
    using that by (simp add: unat_of_nat del: of_nat_Suc)
  with l have "unat (st_next_attempt_sequence st) = Suc (length (ps_attempts (st_snapshot st)))"
    "unat (st_next_lease_sequence st) = Suc (length (ps_leases (st_snapshot st)))"
    using plan_invD(2) [OF inv] unfolding sequences_ok_def Let_def by (metis le_trans)+
  ultimately show ?thesis
    using exec_okD(3) [OF ok] plan_invD(2,3) [OF inv]
    by (simp add: sequences_ok_def numbered_def Let_def node_ids_ok_def word_less_nat_alt)
qed

theorem plan_ids_unique_witness:
  "distinct (map pn_id (ps_nodes (st_snapshot working_plan))) \<and> unat (st_next_attempt_sequence working_plan) = 3"
  using plan_ids_unique [OF working_reachable] working_length by simp

lemma reachable_within_envelope:
  assumes "reachable_plan E st" and "ps_authorized_capability_envelope (st_snapshot st) = Some e"
    and "ps_root_node_id (st_snapshot st) = Some r"
    and "n \<in> set (ps_nodes (st_snapshot st))" and "is_live n"
  shows "within_envelope (pn_harness n) e"
proof -
  let ?m = "collect_nodes (ps_nodes (st_snapshot st))"
  note ok = reachable_exec_ok [OF assms(1)]
  have "valid_plan_graph ?m r" "validate_authorized_envelope ?m r (Some e) = Ok ()"
    using exec_okD(1) [OF ok] assms(2,3) by (auto simp: plan_ok_def)
  moreover have "live_node ?m (pn_id n) n"
    using same_node [OF ok assms(4)] find_node_collect [OF exec_okD(3) [OF ok]] assms(5) by (simp add: live_node_def)
  ultimately show ?thesis by (rule graph_within_envelope)
qed



end
