(* ===== verification/Plan_Confinement.thy ===== *)
theory Plan_Confinement
  imports Plan_Ledger
begin

text \<open>
  A subagent edits only below its node: an accepted scoped edit leaves every node outside the live
  subtree of the scope root exactly as it was, and the scope root keeps its contract, place,
  policies, status and links.
\<close>

section \<open>Which nodes the builder writes\<close>

text \<open>
  \<open>keyed A s b\<close>: the builder started with counter \<open>s\<close> and every node it holds has an id of \<open>A\<close> or one
  the counter handed out.
\<close>

definition keyed :: "PlanNodeId set \<Rightarrow> u64 \<Rightarrow> TreeBuilder \<Rightarrow> bool" where
  "keyed A s b \<longleftrightarrow> bt_wf (tb_nodes b)
     \<and> (\<exists>c\<le>length (tb_nodes b). tb_next_node_sequence b = s + of_nat c
          \<and> (\<forall>i\<in>fst ` set (tb_nodes b). i \<in> A \<or> (\<exists>j<c. i = runtime_node_id (s + of_nat j))))"

lemma keyed_insert:
  assumes k: "keyed A s b" and ident: "flatten_identity b inp = Ok (b1, ident)"
    and new: "bt_get (tb_nodes b1) (id_id ident) = None" and A: "\<And>i. ni_id inp = Some i \<Longrightarrow> i \<in> A"
  shows "keyed A s (insert_node b1 ident inp parent order)"
proof -
  let ?b = "insert_node b1 ident inp parent order"
  note fr = flatten_identity_frame [OF ident]
  obtain c where c: "bt_wf (tb_nodes b)" "c \<le> length (tb_nodes b)" "tb_next_node_sequence b = s + of_nat c"
    "\<forall>i\<in>fst ` set (tb_nodes b). i \<in> A \<or> (\<exists>j<c. i = runtime_node_id (s + of_nat j))"
    using k unfolding keyed_def by blast
  have len: "length (tb_nodes ?b) = Suc (length (tb_nodes b))" using length_bt_insert [OF c(1)] new fr by simp
  have wf: "bt_wf (tb_nodes ?b)" using c(1) fr by (simp add: bt_wf_insert)
  show ?thesis
  proof (cases "ni_id inp")
    case None
    then have "tb_next_node_sequence b1 = tb_next_node_sequence b + 1"
      "id_id ident = runtime_node_id (tb_next_node_sequence b)"
      using ident by (auto simp: flatten_identity_def result_simps Let_def split: option.splits if_splits)
    with c wf show ?thesis unfolding keyed_def len
      by (intro conjI exI [of _ "Suc c"]) (auto simp: keys_bt_insert' fr less_Suc_eq)
  next
    case (Some i)
    then have "tb_next_node_sequence b1 = tb_next_node_sequence b" "id_id ident = i"
      using ident by (auto simp: flatten_identity_def result_simps Let_def split: option.splits if_splits)
    with c wf A [OF Some] show ?thesis unfolding keyed_def len
      by (intro conjI exI [of _ c]) (auto simp: keys_bt_insert' fr)
  qed
qed

lemma keyed_existing:
  assumes "keyed A s b" and fit: "unat s + length (tb_nodes b) < 2 ^ 64" and un: "unnumbered ex s"
    and "i \<in> fst ` set (tb_nodes b)" and "i \<in> fst ` set ex"
  shows "i \<in> A"
proof -
  obtain c where c: "c \<le> length (tb_nodes b)" "i \<in> A \<or> (\<exists>j<c. i = runtime_node_id (s + of_nat j))"
    using assms(1,4) unfolding keyed_def by blast
  obtain k where k: "unat k < unat s" "i = runtime_node_id k" using un assms(5) unfolding unnumbered_def by blast
  have "unat (s + of_nat j :: u64) = unat s + j" if "j < c" for j
    using that c(1) fit by (intro unat_plus_small) simp
  with c(2) k show ?thesis by (auto simp: node_number_inj)
qed

section \<open>What the scope check lets through\<close>

definition scoped_ok ::
    "node_map \<Rightarrow> PlanNodeId list \<Rightarrow> PlanNodeId option \<Rightarrow> PlanNodeId \<Rightarrow> PlanNodeInput \<Rightarrow> bool" where
  "scoped_ok ex ids target scope inp \<longleftrightarrow>
     (\<exists>top locals keys. validate_scoped_input_node inp top ex ids target scope locals keys = Ok ())"

lemma scoped_ok_id: "scoped_ok ex ids target scope inp \<Longrightarrow> ni_id inp = Some i \<Longrightarrow> target = Some i"
  unfolding scoped_ok_def
  by (subst (asm) validate_scoped_input_node.simps)
    (auto simp: result_simps validate_scoped_identity_def split: option.splits if_splits)

lemma scoped_ok_child: "scoped_ok ex ids target scope inp \<Longrightarrow> c \<in> set (ni_children inp) \<Longrightarrow> scoped_ok ex ids target scope c"
  unfolding scoped_ok_def
  by (subst (asm) validate_scoped_input_node.simps) (auto simp: result_simps for_each_Ok_iff)

lemma validate_scoped_inputs_ok:
  "validate_scoped_inputs inps ex ids target scope = Ok () \<Longrightarrow> inp \<in> set inps \<Longrightarrow> scoped_ok ex ids target scope inp"
  unfolding scoped_ok_def
  by (auto simp: validate_scoped_inputs_def result_simps for_each_Ok_iff Let_def split: if_splits) blast+

lemma flatten_keyed:
  assumes "flatten b inp parent order depth = Ok (b', i)" and "keyed (set_option target) s b"
    and "scoped_ok ex ids target scope inp"
  shows "keyed (set_option target) s b'"
  using assms
  by (rule flatten_invariant_within [where Q = "\<lambda>inp _. scoped_ok ex ids target scope inp"])
    (auto intro: scoped_ok_child keyed_insert dest: scoped_ok_id)

lemma flatten_children_keyed:
  assumes "flatten_children ex' parent base nested b children = Ok b'" and "keyed (set_option target) s b"
    and "\<And>c. c \<in> set children \<Longrightarrow> scoped_ok ex ids target scope c"
  shows "keyed (set_option target) s b'"
  using assms(1) unfolding flatten_children_def
proof (rule fold_res_inv [where I = "keyed (set_option target) s"])
  fix b1 x b2
  assume x: "x \<in> set (enumerate 0 children)" and "keyed (set_option target) s b1"
    and "(case x of (offset, child) \<Rightarrow>
          case (nested, ni_children child) of
            (Some e, _ # _) \<Rightarrow> Err e
          | _ \<Rightarrow>
              and_then (depth_of ex' parent) (\<lambda>depth.
              and_then (flatten b1 child (Some parent) (of_nat (base + offset)) (depth + 1))
                (\<lambda>(b, _). Ok b))) = Ok b2"
  moreover have "snd x \<in> set children" using x enumerate_snd [of "fst x" "snd x"] by simp
  ultimately show "keyed (set_option target) s b2"
    using assms(3) flatten_keyed
    by (auto simp: result_simps case_prod_beta split: option.splits list.splits) blast+
qed (rule assms(2))

lemma keyed_new: "keyed A s (new_tree_builder s vr ex)"
  by (simp add: keyed_def new_tree_builder_def)

lemma keyed_scoped: "keyed A s (scoped_builder s vr ex scope target)"
  using keyed_new [of A s vr ex] by (simp add: keyed_def scoped_builder_def allow_existing_node_def)

lemma resolve_frame:
  assumes "resolve_all_dependencies m unres keys live = Ok m'" and "nodes_wf m" and "i \<notin> fst ` set unres"
  shows "bt_get m' i = bt_get m i"
proof -
  have "bt_wf m' \<and> bt_get m' i = bt_get m i"
    using assms(1) unfolding resolve_all_dependencies_def
  proof (rule fold_res_inv [where I = "\<lambda>x. bt_wf x \<and> bt_get x i = bt_get m i"])
    show "bt_wf m \<and> bt_get m i = bt_get m i" using assms(2) by (simp add: nodes_wf_def)
    fix t x t' assume "x \<in> set unres" and t: "bt_wf t \<and> bt_get t i = bt_get m i"
      and "(case x of (i, refs) \<Rightarrow> and_then (resolve_dependencies refs keys live) (\<lambda>resolved.
          and_then (expect (bt_get t i)) (\<lambda>n. Ok (bt_insert i (n\<lparr>pn_depends_on := resolved\<rparr>) t)))) = Ok t'"
    moreover from this have "fst x \<noteq> i" using assms(3) by auto
    ultimately show "bt_wf t' \<and> bt_get t' i = bt_get m i"
      by (auto simp: result_simps get_bt_insert bt_wf_insert split: prod.splits)
  qed
  then show ?thesis ..
qed

section \<open>The edits\<close>

lemma define_scoped_children_confined:
  assumes op: "define_scoped_children st root expected children = Ok (st', keys)" and inv: "plan_inv st" and room: "room st"
    and n: "find_node (st_snapshot st) i = Some n"
  shows "bt_get (collect_nodes (ps_nodes (st_snapshot st'))) i = Some n"
proof -
  let ?sn = "st_snapshot st" let ?ex = "collect_nodes (ps_nodes ?sn)" let ?s = "st_next_node_sequence st"
  obtain b m r where
    b: "flatten_children ?ex root (live_child_count ?ex root) None (new_tree_builder ?s (ps_revision ?sn + 1) ?ex) children = Ok b"
    and m: "resolve_all_dependencies (bt_extend ?ex (tb_nodes b)) (tb_unresolved b)
          (scoped_client_keys (bt_extend ?ex (tb_nodes b)) (tb_keys b)) (live_ids (bt_extend ?ex (tb_nodes b))) = Ok m"
    and v: "validate_graph m r = Ok ()"
    and st': "st' = st\<lparr>st_snapshot := ?sn\<lparr>ps_revision := ps_revision ?sn + 1, ps_nodes := ordered_nodes m\<rparr>,
             st_next_node_sequence := tb_next_node_sequence b\<rparr>"
    and ins: "validate_scoped_inputs children ?ex (live_subtree_ids ?ex root) None root = Ok ()"
    by (rule define_scoped_childrenE [OF op])
  note k = children_room [OF inv room b m v]
  have keyed: "keyed (set_option None) ?s b"
    by (rule flatten_children_keyed [OF b keyed_new validate_scoped_inputs_ok [OF ins]])
  have ex: "bt_get ?ex i = Some n" using n find_node_collect [OF exec_okD(3) [OF plan_invD(1) [OF inv]]] by simp
  have "i \<notin> fst ` set (tb_nodes b)"
    using keyed_existing [OF keyed k(6) node_ids_unnumbered [OF plan_invD(3) [OF inv]]] ex get_keys by (metis empty_iff option.set(1))
  then have none: "bt_get (tb_nodes b) i = None" "i \<notin> fst ` set (tb_unresolved b)"
    using get_keys k(1) by (metis option.exhaust, simp add: builder_ok_def builder_wf_def)
  have "bt_get (bt_extend ?ex (tb_nodes b)) i = Some n"
    using get_bt_extend [OF _ builder_maps(1) [OF k(1)], of ?ex] nodes_wf_collect ex none(1)
    by (simp add: nodes_wf_def map_add_def)
  then have "bt_get m i = Some n" using resolve_frame [OF m k(4) none(2)] by simp
  then show ?thesis using resolve_all_dependencies_Ok [OF m k(4)] by (simp add: st' collect_ordered_nodes)
qed

definition keeps_contract :: "PlanNodeSnapshot \<Rightarrow> PlanNodeSnapshot \<Rightarrow> bool" where
  "keeps_contract n n' \<longleftrightarrow>
     pn_id n' = pn_id n \<and> pn_parent_id n' = pn_parent_id n \<and> pn_sibling_order n' = pn_sibling_order n
     \<and> pn_objective n' = pn_objective n \<and> pn_acceptance n' = pn_acceptance n
     \<and> pn_executor_policy n' = pn_executor_policy n \<and> pn_harness n' = pn_harness n
     \<and> pn_recovery_policy n' = pn_recovery_policy n \<and> pn_status n' = pn_status n
     \<and> pn_declared_status n' = pn_declared_status n \<and> pn_links n' = pn_links n \<and> pn_result n' = pn_result n"

lemma keeps_contract_refl [simp]: "keeps_contract n n"
  by (simp add: keeps_contract_def)

lemma keeps_contract_trans: "keeps_contract a b \<Longrightarrow> keeps_contract b c \<Longrightarrow> keeps_contract a c"
  by (simp add: keeps_contract_def)

lemma keeps_contract_deps: "same_but_deps a b \<Longrightarrow> keeps_contract a b"
  by (cases a; cases b; simp add: same_but_deps_def keeps_contract_def)

lemma keeps_contract_root: "pn_id n1 = pn_id n \<Longrightarrow> keeps_contract n (preserve_scoped_root n vr n1)"
  by (simp add: keeps_contract_def preserve_scoped_root_def)

text \<open>The maps an accepted replacement goes through, and what each holds.\<close>

lemma replace_scoped_mapsE:
  assumes op: "replace_scoped_subtree st scope target vr subtree = Ok (st', keys)" and inv: "plan_inv st" and room: "room st"
    and ex: "ex = collect_nodes (ps_nodes (st_snapshot st))"
  obtains b repl c m revision names live where
    "target \<in> set (live_subtree_ids ex scope)" "ps_root_node_id (st_snapshot st) \<noteq> None"
    "builder_wf b" "keyed {target} (st_next_node_sequence st) b"
    "unat (st_next_node_sequence st) + length (tb_nodes b) < 2 ^ 64"
    "target = scope \<longrightarrow> bt_get (tb_nodes b) scope \<noteq> None"
    "\<forall>i. bt_get repl i = map_option (preserved ex scope target revision i) (bt_get (tb_nodes b) i)"
    "\<forall>i. bt_get c i = (case bt_get repl i of Some n \<Rightarrow> Some n
      | None \<Rightarrow> if i \<in> set (live_subtree_ids ex target) then map_option (supersede revision) (bt_get ex i) else bt_get ex i)"
    "nodes_wf c" "resolve_all_dependencies c (tb_unresolved b) names live = Ok m"
    "collect_nodes (ps_nodes (st_snapshot st')) = m"
proof -
  let ?sn = "st_snapshot st" let ?vr = "ps_revision ?sn + 1" let ?s = "st_next_node_sequence st"
  obtain p k depth b j repl c m root where tgt: "target \<in> set (live_subtree_ids ex scope)"
    and fl: "flatten (scoped_builder ?s ?vr ex scope target) subtree p k depth = Ok (b, j)"
    and pres: "preserve_replacement ex scope target ?vr (tb_nodes b) = Ok repl"
    and c: "combine_replacement ?vr ex (live_subtree_ids ex target) repl
      (filter (\<lambda>i. i \<notin> set (bt_keys repl)) (live_subtree_ids ex target)) = Ok c"
    and m: "resolve_all_dependencies c (tb_unresolved b) (scoped_client_keys c (tb_keys b)) (live_ids c) = Ok m"
    and root: "ps_root_node_id ?sn = Some root"
    and st': "st' = st\<lparr>st_snapshot := ?sn\<lparr>ps_revision := ?vr, ps_nodes := ordered_nodes m\<rparr>,
       st_next_node_sequence := tb_next_node_sequence b\<rparr>"
    and ins: "validate_scoped_inputs [subtree] ex (live_subtree_ids ex scope) (Some target) scope = Ok ()"
    unfolding ex by (rule replace_scoped_subtreeE [OF op])
  note base = scoped_builder_ok [OF existing_ok [OF inv], folded ex, of ?s ?vr scope target]
  have bwf: "builder_wf b" by (rule flatten_wf [OF fl base(3)])
  then have bt: "nodes_wf (tb_nodes b)" by (simp add: builder_wf_def)
  note get = preserve_replacement_get [OF pres nodes_wf_bt [OF bt]]
  have rwf: "nodes_wf repl"
    using get(1) nodes_wf_get [OF bt] by (auto simp: nodes_wf_def bt_get_iff [OF get(1), symmetric] get(2))
  have wfe: "nodes_wf ex" unfolding ex by (rule nodes_wf_collect)
  have wfc: "nodes_wf c" using combine_replacement_wf [OF c wfe rwf] .
  have keyed: "keyed {target} ?s b"
    using flatten_keyed [OF fl keyed_scoped validate_scoped_inputs_ok [OF ins]] by simp
  have "length (tb_nodes b) \<le> 128" using flatten_length [OF fl base(3)] unfolding base(5) by simp
  then have fit: "unat ?s + length (tb_nodes b) < 2 ^ 64" using room by (simp add: room_def)
  have final: "collect_nodes (ps_nodes (st_snapshot st')) = m"
    using resolve_all_dependencies_Ok [OF m wfc] by (simp add: st' collect_ordered_nodes)
  have "ps_root_node_id ?sn \<noteq> None" "target = scope \<longrightarrow> bt_get (tb_nodes b) scope \<noteq> None"
    "\<forall>i. bt_get repl i = map_option (preserved ex scope target ?vr i) (bt_get (tb_nodes b) i)"
    using root get(2,3) by simp_all
  moreover have "\<forall>i. bt_get c i = (case bt_get repl i of Some n \<Rightarrow> Some n
      | None \<Rightarrow> if i \<in> set (live_subtree_ids ex target) then map_option (supersede ?vr) (bt_get ex i) else bt_get ex i)"
    using combined_get [OF c nodes_wf_bt [OF wfe] get(1)] by blast
  ultimately show ?thesis using tgt bwf keyed fit wfc m final by (intro that)
qed

lemma replace_scoped_subtree_confined:
  assumes op: "replace_scoped_subtree st scope target vr subtree = Ok (st', keys)" and inv: "plan_inv st" and room: "room st"
    and n: "find_node (st_snapshot st) i = Some n"
  shows "i \<notin> set (live_subtree_ids (collect_nodes (ps_nodes (st_snapshot st))) target) \<Longrightarrow>
      bt_get (collect_nodes (ps_nodes (st_snapshot st'))) i = Some n" (is "?out \<Longrightarrow> _")
    and "i = scope \<Longrightarrow> \<exists>n'. bt_get (collect_nodes (ps_nodes (st_snapshot st'))) i = Some n' \<and> keeps_contract n n'"
proof -
  let ?ex = "collect_nodes (ps_nodes (st_snapshot st))"
  obtain b repl c m revision names live where tgt: "target \<in> set (live_subtree_ids ?ex scope)"
    and root: "ps_root_node_id (st_snapshot st) \<noteq> None"
    and b: "builder_wf b" "keyed {target} (st_next_node_sequence st) b"
      "unat (st_next_node_sequence st) + length (tb_nodes b) < 2 ^ 64"
      "target = scope \<longrightarrow> bt_get (tb_nodes b) scope \<noteq> None"
    and repl: "\<forall>i. bt_get repl i = map_option (preserved ?ex scope target revision i) (bt_get (tb_nodes b) i)"
    and c: "\<forall>i. bt_get c i = (case bt_get repl i of Some n \<Rightarrow> Some n
      | None \<Rightarrow> if i \<in> set (live_subtree_ids ?ex target) then map_option (supersede revision) (bt_get ?ex i) else bt_get ?ex i)"
    and m: "nodes_wf c" "resolve_all_dependencies c (tb_unresolved b) names live = Ok m"
    and final: "collect_nodes (ps_nodes (st_snapshot st')) = m"
    by (rule replace_scoped_mapsE [OF op inv room refl])
  have wfe: "nodes_wf ?ex" by (rule nodes_wf_collect)
  have ex: "bt_get ?ex i = Some n" using n find_node_collect [OF exec_okD(3) [OF plan_invD(1) [OF inv]]] by simp
  show out: "bt_get (collect_nodes (ps_nodes (st_snapshot st'))) i = Some n" if "?out"
  proof -
    have "i \<noteq> target" using that set_live_subtree_ids [OF wfe] by (auto simp: below_def)
    then have "i \<notin> fst ` set (tb_nodes b)"
      using keyed_existing [OF b(2,3) node_ids_unnumbered [OF plan_invD(3) [OF inv]]] ex get_keys by (metis singletonD)
    then have none: "bt_get (tb_nodes b) i = None" "i \<notin> fst ` set (tb_unresolved b)"
      using get_keys b(1) by (metis option.exhaust, simp add: builder_wf_def)
    then have "bt_get c i = Some n" using that ex by (simp add: c repl)
    then show ?thesis using resolve_frame [OF m(2,1) none(2)] by (simp add: final)
  qed
  show "\<exists>n'. bt_get (collect_nodes (ps_nodes (st_snapshot st'))) i = Some n' \<and> keeps_contract n n'" if i: "i = scope"
  proof (cases "target = scope")
    case False
    have "scope \<notin> set (live_subtree_ids ?ex target)"
      by (rule scope_outside_region [OF exec_okD(1) [OF plan_invD(1) [OF inv]] tgt False root])
    then show ?thesis using out i by simp
  next
    case True
    obtain n1 where n1: "bt_get (tb_nodes b) scope = Some n1" using b(4) True by blast
    have "bt_get c scope = Some (preserve_scoped_root n revision n1)" using n1 ex i True by (simp add: c repl preserved_def)
    then obtain r' where "bt_get m scope = Some r'" "same_but_deps (preserve_scoped_root n revision n1) r'"
      using resolve_all_dependencies_Ok [OF m(2,1)] unfolding only_deps_moved_def by (metis option_rel_Some1)
    moreover have "pn_id n1 = scope" "pn_id n = scope"
      using nodes_wf_get [OF _ n1] nodes_wf_get [OF wfe ex] b(1) i by (auto simp: builder_wf_def)
    ultimately show ?thesis
      using keeps_contract_trans [OF keeps_contract_root keeps_contract_deps] by (auto simp: final i)
  qed
qed

section \<open>Properties\<close>

lemma reachable_room: "reachable_plan E st \<Longrightarrow> plan_inv st \<and> room st"
  using reachable_inv [of E st] by (auto simp: room_def used_numbers_def)

lemma live_subtree_mono:
  assumes "nodes_wf m" and "target \<in> set (live_subtree_ids m scope)"
  shows "set (live_subtree_ids m target) \<subseteq> set (live_subtree_ids m scope)"
  using assms by (auto simp: set_live_subtree_ids below_def)

text \<open>
  C17. A subagent edits only its own subtree: when a scoped edit is accepted, every node that is not
  in the live subtree of the scope root is exactly as before, and the scope root itself keeps its
  place, objective, acceptance, policies, status, result and links.
\<close>

theorem scoped_update_confined:
  assumes "reachable_plan E st" and "update_subagent E st plan_id scope binding inp = Ok (st', keys)"
    and "find_node (st_snapshot st) i = Some n"
  shows "(i \<notin> set (live_subtree_ids (node_map st) scope) \<longrightarrow> find_node (st_snapshot st') i = Some n)
    \<and> (i = scope \<longrightarrow> (\<exists>n'. find_node (st_snapshot st') i = Some n' \<and> keeps_contract n n'))"
proof -
  let ?ex = "collect_nodes (ps_nodes (st_snapshot st))"
  have inv: "plan_inv st" and room: "room st" using reachable_room [OF assms(1)] by auto
  obtain st1 where change: "(case sp_change inp of
          DefineChildren expected children \<Rightarrow> define_scoped_children st scope expected children
        | SubagentReplaceSubtree target expected subtree \<Rightarrow>
            replace_scoped_subtree st scope target expected subtree) = Ok (st1, keys)"
    and reason: "record_reason E (sp_reason inp) st1 = Ok st'"
    using assms(2) by (auto simp: update_subagent_def result_simps)
  have "(i \<notin> set (live_subtree_ids ?ex scope) \<longrightarrow> bt_get (collect_nodes (ps_nodes (st_snapshot st1))) i = Some n)
    \<and> (i = scope \<longrightarrow> (\<exists>n'. bt_get (collect_nodes (ps_nodes (st_snapshot st1))) i = Some n' \<and> keeps_contract n n'))"
  proof (cases "sp_change inp")
    case (DefineChildren expected children)
    then show ?thesis using define_scoped_children_confined [OF _ inv room assms(3)] change by force
  next
    case (SubagentReplaceSubtree target expected subtree)
    with change have op: "replace_scoped_subtree st scope target expected subtree = Ok (st1, keys)" by simp
    then have "target \<in> set (live_subtree_ids ?ex scope)" by (rule replace_scoped_subtreeE)
    from live_subtree_mono [OF nodes_wf_collect this] replace_scoped_subtree_confined [OF op inv room assms(3)]
    show ?thesis by blast
  qed
  moreover have "find_node (st_snapshot st') i = bt_get (collect_nodes (ps_nodes (st_snapshot st1))) i"
  proof -
    have "plan_inv st'"
      using update_subagent_inv [OF assms(2) inv room] by (simp add: plan_next_def)
    then have "find_node (st_snapshot st') i = bt_get (collect_nodes (ps_nodes (st_snapshot st'))) i"
      using find_node_collect exec_okD(3) plan_invD(1) by blast
    moreover have "ps_nodes (st_snapshot st') = ps_nodes (st_snapshot st1)" using record_reason_frame [OF reason] by auto
    ultimately show ?thesis by simp
  qed
  ultimately show ?thesis by (auto simp: node_map_def)
qed

text \<open>The sample plan with a subagent linked to its first child, which then adds a child of its own.\<close>

definition linked_plan :: PlanState where
  "linked_plan =
     (case bind_subagent sample_env sample_plan ''a'' ''agent'' ''task'' 5 of
        Ok (st, _) \<Rightarrow> st | _ \<Rightarrow> sample_plan)"

definition scoped_sample :: "u64 \<Rightarrow> SubagentPlanUpdateInput" where
  "scoped_sample revision =
     \<lparr>sp_reason = ''split'', sp_change = DefineChildren revision [sample_input None (Some ''a1'') ''part'' []]\<rparr>"

lemma sample_linked:
  "\<exists>link. bind_subagent sample_env sample_plan ''a'' ''agent'' ''task'' 5 = Ok (linked_plan, link) \<and> bindable sample_plan ''a''"
proof -
  have "is_ok (bind_subagent sample_env sample_plan ''a'' ''agent'' ''task'' 5)" by code_simp
  moreover have "case List.find (\<lambda>n. pn_client_key n = Some ''a'') (ps_nodes (st_snapshot sample_plan)) of
        None \<Rightarrow> True | Some n \<Rightarrow> is_live n \<and> pn_links n = []" by code_simp
  ultimately show ?thesis
    by (auto simp: linked_plan_def bindable_def is_ok_iff split: option.splits)
qed

lemma linked_reachable: "reachable_plan sample_env linked_plan"
proof -
  have "plan_step sample_env sample_plan linked_plan" using sample_linked plan_step.bind by blast
  then show ?thesis by (rule reachable_run [OF steps_in.more [OF sample_run] fresh_empty]) simp
qed

theorem scoped_update_confined_witness:
  "\<exists>st' keys n. update_subagent sample_env linked_plan ''p'' (PlanNodeId ''plan-node-2'') ''plan-binding-2'' (scoped_sample 2)
       = Ok (st', keys)
     \<and> find_node (st_snapshot linked_plan) (PlanNodeId ''plan-node-3'') = Some n
     \<and> find_node (st_snapshot st') (PlanNodeId ''plan-node-3'') = Some n"
proof -
  let ?r = "update_subagent sample_env linked_plan ''p'' (PlanNodeId ''plan-node-2'') ''plan-binding-2'' (scoped_sample 2)"
  have "is_ok ?r" by code_simp
  then obtain st' keys where r: "?r = Ok (st', keys)" by (cases ?r) auto
  have "find_node (st_snapshot linked_plan) (PlanNodeId ''plan-node-3'') \<noteq> None
    \<and> PlanNodeId ''plan-node-3'' \<notin> set (live_subtree_ids (node_map linked_plan) (PlanNodeId ''plan-node-2''))"
    by code_simp
  then obtain n where n: "find_node (st_snapshot linked_plan) (PlanNodeId ''plan-node-3'') = Some n"
    and out: "PlanNodeId ''plan-node-3'' \<notin> set (live_subtree_ids (node_map linked_plan) (PlanNodeId ''plan-node-2''))"
    by auto
  from scoped_update_confined [OF linked_reachable r n] r n out show ?thesis by blast
qed

end
