(* ===== verification/Plan_Draining.thy ===== *)
theory Plan_Draining
  imports Plan_Ledger
begin

text \<open>
  Cancelling a plan: a request drains it, and the executors of its attempts can always finish the
  job. The theory also collects what the other control operations promise: approval, recovery of a
  loaded session, and the retry of interrupted work.
\<close>

section \<open>Cancelling one attempt\<close>

text \<open>The plan stays below the size limit of a snapshot.\<close>

definition small_snapshots :: "plan_env \<Rightarrow> bool" where
  "small_snapshots E \<longleftrightarrow>
     (\<forall>sn. case en_snapshot_json E sn of Some bytes \<Rightarrow> length bytes \<le> MAX_PLAN_SNAPSHOT_BYTES | None \<Rightarrow> False)"

definition policies_ok :: "PlanSnapshot \<Rightarrow> bool" where
  "policies_ok sn \<longleftrightarrow> for_each (\<lambda>n. validate_recovery_policy (pn_recovery_policy n)) (ps_nodes sn) = Ok ()"

lemma limits_policies: "validate_snapshot_limits E sn = Ok () \<Longrightarrow> policies_ok sn"
  by (auto simp: validate_snapshot_limits_def policies_ok_def result_simps)

lemma limits_small: "small_snapshots E \<Longrightarrow> policies_ok sn \<Longrightarrow> validate_snapshot_limits E sn = Ok ()"
  unfolding small_snapshots_def validate_snapshot_limits_def policies_ok_def
  by (drule spec [of _ sn]) (auto split: option.splits)

lemma for_each_map: "for_each f (map g xs) = for_each (\<lambda>x. f (g x)) xs"
  by (induction xs) simp_all

lemma policies_cong:
  assumes "map pn_recovery_policy (ps_nodes sn') = map pn_recovery_policy (ps_nodes sn)"
  shows "policies_ok sn' = policies_ok sn"
  using arg_cong [OF assms, of "for_each validate_recovery_policy"] by (simp add: policies_ok_def for_each_map)

lemma advance_enabled:
  assumes "small_snapshots E" and "policies_ok sn" and "\<And>r. new_revision_summary r s \<noteq> None"
  shows "\<exists>x. advance_revision E s sn
    = Ok (sn\<lparr>ps_revision := saturating_add (ps_revision sn) 1, ps_revision_summaries := x\<rparr>, saturating_add (ps_revision sn) 1)"
proof -
  obtain y where y: "new_revision_summary (saturating_add (ps_revision sn) 1) s = Some y" using assms(3) by fast
  have "validate_snapshot_limits E (sn\<lparr>ps_revision := v, ps_revision_summaries := x\<rparr>) = Ok ()" for v x
    by (rule limits_small [OF assms(1)]) (use assms(2) in \<open>simp add: policies_ok_def\<close>)
  then show ?thesis by (auto simp: advance_revision_def append_revision_summary_def y result_simps)
qed

lemma cancel_summary: "new_revision_summary r ''plan attempt cancelled'' \<noteq> None"
proof -
  have "\<not> is_blank ''plan attempt cancelled'' \<and> \<not> length ''plan attempt cancelled'' > MAX_REVISION_SUMMARY_BYTES
    \<and> \<not> list_ex is_control (str_chars ''plan attempt cancelled'')" by code_simp
  then show ?thesis by (simp add: new_revision_summary_def)
qed

lemma position_nth:
  assumes "distinct (map f xs)" and "k < length xs"
  shows "position (\<lambda>x. f x = f (xs ! k)) xs = Some k"
proof -
  have "f (xs ! j) \<noteq> f (xs ! k)" if "j < k" for j
    using that assms by (simp add: distinct_conv_nth)
  then show ?thesis using assms(2) by (auto simp: position_Some_iff)
qed

lemma own_lease_valid:
  assumes ok: "records_ok (ps_attempts sn) (ps_leases sn)" and k: "k < length (ps_attempts sn)"
    and a: "is_open (ps_attempts sn ! k)" "at_lease_id (ps_attempts sn ! k) = Some i"
  shows "\<exists>j. validate_own_lease sn \<lparr>aa_executor_session_id = at_executor_session_id (ps_attempts sn ! k)\<rparr> i = Ok (k, j)"
proof -
  let ?a = "ps_attempts sn ! k"
  obtain l where l: "l \<in> set (ps_leases sn)" "linked ?a l" using ok a(2) nth_mem [OF k] unfolding records_ok_def by blast
  have live: "le_status l = PlanLeaseStatus.Live"
    using linked_agree [OF ok nth_mem [OF k] l] a(1) by (simp add: agree_def)
  obtain j where j: "j < length (ps_leases sn)" "ps_leases sn ! j = l" using l(1) by (auto simp: in_set_conv_nth)
  have d: "distinct (map le_lease_id (ps_leases sn))" "distinct (map at_attempt_id (ps_attempts sn))"
    using ok by (simp_all add: records_ok_def)
  have p: "position (\<lambda>x. le_lease_id x = i) (ps_leases sn) = Some j"
    using position_nth [OF d(1) j(1)] l(2) a(2) j(2) by (simp add: linked_def)
  have f: "List.find (\<lambda>x. le_lease_id x = i) (ps_leases sn) = Some l"
    using find_by_key [OF d(1) l(1)] l(2) a(2) by (simp add: linked_def)
  have q: "position (\<lambda>x. at_attempt_id x = le_attempt_id l) (ps_attempts sn) = Some k"
    using position_nth [OF d(2) k] l(2) by (simp add: linked_def)
  have e: "le_executor_session_id l = at_executor_session_id ?a" "at_outcome ?a = None"
    using l(2) a(1) by (auto simp: linked_def is_open_def)
  have "validate_live_lease sn \<lparr>aa_executor_session_id = at_executor_session_id ?a\<rparr> i (le_node_revision l) = Ok (k, j)"
    by (simp add: validate_live_lease_def p q j(2) live e)
  then show ?thesis by (simp add: validate_own_lease_def f)
qed

lemma cancel_attemptE:
  assumes "cancel_attempt E st actor lease reason now = Ok (st', out)"
  obtains k j mid r d where "validate_own_lease (st_snapshot st) actor lease = Ok (k, j)"
    "advance_revision E ''plan attempt cancelled'' (st_snapshot st) = Ok (mid, r)"
    "st' = st\<lparr>st_snapshot := settle_draining_phase (fst (expire_attempt_directives
      (at_attempt_id (ps_attempts (st_snapshot st) ! k)) (upd_node (at_node_id (ps_attempts (st_snapshot st) ! k))
        (set_status PlanNodeStatus.Blocked r) (upd_lease j (\<lambda>l. l\<lparr>le_status := PlanLeaseStatus.Cancelled\<rparr>)
          (upd_attempt k (close_attempt PlanAttemptOutcome.Cancelled d now) mid)))))\<rparr>"
  using assms by (auto simp: cancel_attempt_def Let_def result_simps case_prod_beta split: if_splits)

text \<open>What draining needs to go on, and what each cancellation keeps of it.\<close>

definition draining :: "string \<Rightarrow> PlanState \<Rightarrow> bool" where
  "draining reason st \<longleftrightarrow>
     plan_inv st \<and> policies_ok (st_snapshot st)
     \<and> ps_scheduler_status (st_snapshot st) = PlanSchedulerStatus.Draining
     \<and> (\<forall>a\<in>set (ps_attempts (st_snapshot st)). is_open a \<longrightarrow> at_lease_id a \<noteq> None)
     \<and> (list_all (\<lambda>a. at_outcome a \<noteq> None) (ps_attempts (st_snapshot st))
          \<longrightarrow> ps_phase (st_snapshot st) = PlanPhase.Cancelled)
     \<and> validate_reason reason = Ok () \<and> new_error_info ''plan_attempt_cancelled'' reason \<noteq> None"

definition cancel_step :: "plan_env \<Rightarrow> string \<Rightarrow> PlanState \<Rightarrow> PlanState \<Rightarrow> bool" where
  "cancel_step E reason st st' \<longleftrightarrow>
     (\<exists>actor lease now out. cancel_attempt E st actor lease reason now = Ok (st', out))"

lemma cancel_enabled:
  assumes dr: "draining reason st" and small: "small_snapshots E"
    and k: "k < length (ps_attempts (st_snapshot st))" "is_open (ps_attempts (st_snapshot st) ! k)"
  shows "\<exists>st'. cancel_step E reason st st'"
proof -
  let ?sn = "st_snapshot st" let ?a = "ps_attempts ?sn ! k"
  have inv: "plan_inv st" and ok: "exec_ok ?sn" using dr plan_invD(1) by (auto simp: draining_def)
  obtain i where i: "at_lease_id ?a = Some i" using dr k nth_mem [OF k(1)] unfolding draining_def by blast
  obtain j where v: "validate_own_lease ?sn \<lparr>aa_executor_session_id = at_executor_session_id ?a\<rparr> i = Ok (k, j)"
    using own_lease_valid [OF exec_okD(2) [OF ok] k i] by blast
  obtain x where adv: "advance_revision E ''plan attempt cancelled'' ?sn
    = Ok (?sn\<lparr>ps_revision := saturating_add (ps_revision ?sn) 1, ps_revision_summaries := x\<rparr>,
        saturating_add (ps_revision ?sn) 1)"
    using advance_enabled [OF small _ cancel_summary] dr unfolding draining_def by blast
  obtain d where d: "new_error_info ''plan_attempt_cancelled'' reason = Some d" using dr by (auto simp: draining_def)
  have "at_node_id ?a \<in> open_nodes ?sn" using k by (auto simp: open_nodes_def)
  then obtain n where "n \<in> set (ps_nodes ?sn)" "pn_id n = at_node_id ?a"
    using exec_okD(6) [OF ok] by (auto simp: busy_def)
  then have f: "List.find (\<lambda>n. pn_id n = at_node_id ?a) (ps_nodes ?sn) = Some n"
    using same_node [OF ok] unfolding find_node_def by metis
  have "validate_reason reason = Ok ()" "ps_scheduler_status ?sn = PlanSchedulerStatus.Draining"
    using dr by (auto simp: draining_def)
  then have "\<exists>st' out. cancel_attempt E st \<lparr>aa_executor_session_id = at_executor_session_id ?a\<rparr> i reason now = Ok (st', out)" for now
    unfolding cancel_attempt_def Let_def
    by (simp add: v adv d f find_node_def upd_attempt_def upd_lease_def case_prod_beta)
  then show ?thesis unfolding cancel_step_def by blast
qed

lemma count_close:
  assumes "k < length as" and "is_open (as ! k)" and "\<not> is_open a'"
  shows "length (filter is_open as) = Suc (length (filter is_open (as[k := a'])))"
  using assms
proof (induction as arbitrary: k)
  case (Cons a as)
  then show ?case by (cases k) (auto simp: nth_Cons)
qed simp

lemma cancel_drains:
  assumes dr: "draining reason st" and step: "cancel_step E reason st st'"
  shows "draining reason st'"
    and "length (filter is_open (ps_attempts (st_snapshot st)))
      = Suc (length (filter is_open (ps_attempts (st_snapshot st'))))"
proof -
  let ?sn = "st_snapshot st"
  obtain actor lease now out where op: "cancel_attempt E st actor lease reason now = Ok (st', out)"
    using step unfolding cancel_step_def by blast
  obtain k j mid r d where v: "validate_own_lease ?sn actor lease = Ok (k, j)"
    and adv: "advance_revision E ''plan attempt cancelled'' ?sn = Ok (mid, r)"
    and st': "st' = st\<lparr>st_snapshot := settle_draining_phase (fst (expire_attempt_directives
      (at_attempt_id (ps_attempts ?sn ! k)) (upd_node (at_node_id (ps_attempts ?sn ! k))
        (set_status PlanNodeStatus.Blocked r) (upd_lease j (\<lambda>l. l\<lparr>le_status := PlanLeaseStatus.Cancelled\<rparr>)
          (upd_attempt k (close_attempt PlanAttemptOutcome.Cancelled d now) mid)))))\<rparr>"
    by (rule cancel_attemptE [OF op])
  obtain vr where live: "validate_live_lease ?sn actor lease vr = Ok (k, j)" using validate_own_leaseE [OF v] .
  note k = validate_live_leaseD(4,6) [OF live]
  let ?a = "close_attempt PlanAttemptOutcome.Cancelled d now (ps_attempts ?sn ! k)"
  note d = upd_node_def upd_lease_def upd_attempt_def expire_attempt_directives_def settle_draining_phase_def
  have as: "ps_attempts (st_snapshot st') = (ps_attempts ?sn)[k := ?a]"
    using adv by (auto simp: st' d elim!: advance_revisionE)
  have inv: "plan_inv st'" using cancel_attempt_inv [OF op] dr by (auto simp: draining_def plan_next_def)
  have sch: "ps_scheduler_status (st_snapshot st') = PlanSchedulerStatus.Draining"
    using adv dr by (auto simp: st' d draining_def elim!: advance_revisionE)
  have pol: "policies_ok (st_snapshot st') = policies_ok ?sn"
    by (rule policies_cong) (use adv in \<open>auto simp: st' d set_status_def map_update_first elim!: advance_revisionE\<close>)
  have ph: "list_all (\<lambda>a. at_outcome a \<noteq> None) (ps_attempts (st_snapshot st'))
      \<longrightarrow> ps_phase (st_snapshot st') = PlanPhase.Cancelled"
    using sch by (auto simp: st' settle_draining_phase_def)
  have "\<forall>a\<in>set (ps_attempts (st_snapshot st')). is_open a \<longrightarrow> at_lease_id a \<noteq> None"
    using dr close_attempt_same(2) unfolding as draining_def
    by (auto dest!: set_update_subset_insert [THEN subsetD])
  with inv sch pol ph dr show "draining reason st'" by (simp add: draining_def)
  show "length (filter is_open (ps_attempts ?sn)) = Suc (length (filter is_open (ps_attempts (st_snapshot st'))))"
    unfolding as by (rule count_close [OF k]) simp
qed

lemma steps_in_first: "step s t \<Longrightarrow> steps_in step n t u \<Longrightarrow> steps_in step (Suc n) s u"
proof (rotate_tac, induction rule: steps_in.induct)
  case (none t)
  then show ?case by (blast intro: steps_in.intros)
next
  case (more n t u v)
  then show ?case by (blast intro: steps_in.intros)
qed

lemma drain_completes:
  assumes "draining reason st" and "small_snapshots E"
  shows "\<exists>st'. steps_in (cancel_step E reason) (length (filter is_open (ps_attempts (st_snapshot st)))) st st'
    \<and> draining reason st' \<and> filter is_open (ps_attempts (st_snapshot st')) = []"
  using assms(1)
proof (induction "length (filter is_open (ps_attempts (st_snapshot st)))" arbitrary: st)
  case 0
  then show ?case by (auto intro!: exI [of _ st] steps_in.none)
next
  case (Suc m)
  then obtain k where "k < length (ps_attempts (st_snapshot st))" "is_open (ps_attempts (st_snapshot st) ! k)"
    by (metis filter_False in_set_conv_nth length_0_conv nat.distinct(1))
  then obtain mid where step: "cancel_step E reason st mid" using cancel_enabled [OF Suc.prems assms(2)] by blast
  note mid = cancel_drains [OF Suc.prems step]
  then have m: "m = length (filter is_open (ps_attempts (st_snapshot mid)))" using Suc.hyps(2) by simp
  from Suc.hyps(1) [OF m mid(1)] obtain st' where
    "steps_in (cancel_step E reason) m mid st'" "draining reason st'" "filter is_open (ps_attempts (st_snapshot st')) = []"
    unfolding m by blast
  with steps_in_first [of "cancel_step E reason", OF step] Suc.hyps(2) show ?case by metis
qed

section \<open>The request\<close>

definition same_policies :: "PlanSnapshot \<Rightarrow> PlanSnapshot \<Rightarrow> bool" where
  "same_policies sn sn' \<longleftrightarrow>
     map pn_recovery_policy (ps_nodes sn') = map pn_recovery_policy (ps_nodes sn)
     \<and> ps_scheduler_status sn' = ps_scheduler_status sn"

lemma cancel_local_closes:
  assumes "cancel_local_attempt d r now (sn, done) i = Ok (sn', done')" and "exec_ok sn"
  shows "a \<in> set (ps_attempts sn') \<Longrightarrow> at_attempt_id a = i \<Longrightarrow> \<not> is_open a" and "same_policies sn sn'"
proof -
  obtain k where k: "position (\<lambda>a. at_attempt_id a = i) (ps_attempts sn) = Some k"
    and sn': "sn' = upd_node (at_node_id (ps_attempts sn ! k)) (set_status PlanNodeStatus.Blocked r)
      (upd_progress i (close_progress (at_started_at_ms (ps_attempts sn ! k)) now)
        (upd_attempt k (close_attempt PlanAttemptOutcome.Cancelled d now) sn))"
    by (rule cancel_local_attemptE [OF assms(1)])
  note k = position_attempt [OF k]
  have d: "distinct (map at_attempt_id (ps_attempts sn))" using exec_okD(2) [OF assms(2)] by (simp add: records_ok_def)
  show "same_policies sn sn'"
    by (simp add: same_policies_def sn' upd_node_def upd_progress_def upd_attempt_def set_status_def map_update_first)
  assume a: "a \<in> set (ps_attempts sn')" "at_attempt_id a = i"
  then obtain m where m: "m < length (ps_attempts sn)" "a = ps_attempts sn' ! m"
    by (auto simp: sn' upd_node_def upd_progress_def upd_attempt_def in_set_conv_nth)
  show "\<not> is_open a"
  proof (cases "m = k")
    case True
    then show ?thesis using m k by (simp add: sn' upd_node_def upd_progress_def upd_attempt_def)
  next
    case False
    then have "at_attempt_id (ps_attempts sn ! m) = at_attempt_id (ps_attempts sn ! k)"
      using m a k by (simp add: sn' upd_node_def upd_progress_def upd_attempt_def)
    with False m(1) k(1) d show ?thesis by (simp add: distinct_conv_nth)
  qed
qed

lemma evolves_closed:
  assumes "list_all2 evolves as bs" and "\<And>a. a \<in> set as \<Longrightarrow> at_attempt_id a = i \<Longrightarrow> \<not> is_open a"
    and "b \<in> set bs" and "at_attempt_id b = i"
  shows "\<not> is_open b"
proof -
  obtain a where "a \<in> set as" "evolves a b" using list_all2_ex2 [OF assms(1,3)] by blast
  with assms(2,4) show ?thesis by (auto simp: evolves_def same_attempt_def)
qed

lemma cancel_locals_close:
  assumes "fold_res (cancel_local_attempt d r now) (sn, done) ids = Ok (sn', done')"
    and "idle_leased (ps_attempts sn) ids {None}" and "exec_ok sn"
  shows "same_policies sn sn' \<and> (\<forall>a\<in>set (ps_attempts sn'). at_attempt_id a \<in> set ids \<longrightarrow> \<not> is_open a)"
  using assms
proof (induction ids arbitrary: sn "done")
  case Nil
  then show ?case by (simp add: same_policies_def)
next
  case (Cons i ids)
  then obtain mid done1 where step: "cancel_local_attempt d r now (sn, done) i = Ok (mid, done1)"
    and rest: "fold_res (cancel_local_attempt d r now) (mid, done1) ids = Ok (sn', done')"
    by (auto simp: result_simps)
  have mid: "keeps sn mid" "idle_leased (ps_attempts mid) ids {None}"
    using cancel_local_attempt_keeps [OF step Cons.prems(2)] by auto
  then have ok: "exec_ok mid" using keepsD Cons.prems(3) by blast
  have "list_all2 evolves (ps_attempts mid) (ps_attempts sn')"
    using cancel_local_attempts_keeps [OF rest mid(2)] ok by (simp add: keeps_def same_history_def)
  from evolves_closed [OF this cancel_local_closes(1) [OF step Cons.prems(3)]]
  have "\<forall>a\<in>set (ps_attempts sn'). at_attempt_id a = i \<longrightarrow> \<not> is_open a" by blast
  with Cons.IH [OF rest mid(2) ok] cancel_local_closes(2) [OF step Cons.prems(3)] show ?case
    by (auto simp: same_policies_def)
qed

lemma refresh_policies:
  assumes "refresh_parent_states r sn = Ok sn'" and "exec_ok sn"
  shows "same_policies sn sn'" "ps_attempts sn' = ps_attempts sn"
proof -
  note d = exec_okD(3) [OF assms(2)]
  have "map pn_recovery_policy (ps_nodes sn') = map pn_recovery_policy (ps_nodes sn)"
    using refresh_parent_states_refreshed [OF assms(1) d] by (rule map_list_all2) (auto simp: refreshed_def)
  moreover obtain mid where "sn' = mid\<lparr>ps_phase := root_phase mid (ps_phase sn)\<rparr>" "only_nodes_moved sn mid"
    using refresh_parent_statesE [OF assms(1) d] by metis
  ultimately show "same_policies sn sn'" "ps_attempts sn' = ps_attempts sn"
    by (simp_all add: same_policies_def only_nodes_moved_fields(3,4))
qed

lemma request_drains:
  assumes op: "request_cancellation E st reason now = Ok (st', out)" and inv: "plan_inv st"
  shows "draining reason st'"
proof -
  let ?sn = "st_snapshot st" let ?P = "\<lambda>a. at_outcome a = None \<and> at_lease_id a = None"
  obtain mid r d mid2 done2 sn where
    adv: "advance_revision E ''plan cancellation requested'' (?sn\<lparr>ps_scheduler_status := PlanSchedulerStatus.Draining\<rparr>)
      = Ok (mid, r)"
    and fold: "fold_res (cancel_local_attempt d r now) (mid, []) (map at_attempt_id (filter ?P (ps_attempts ?sn))) = Ok (mid2, done2)"
    and ref: "refresh_parent_states r mid2 = Ok sn"
    and st': "st' = st\<lparr>st_snapshot := settle_draining_phase sn\<rparr>"
    and reason: "validate_reason reason = Ok ()" "new_error_info ''plan_attempt_cancelled'' reason = Some d"
    by (rule request_cancellationE [OF op])
  have mid: "ps_attempts mid = ps_attempts ?sn" "ps_scheduler_status mid = PlanSchedulerStatus.Draining"
    "policies_ok mid" using adv limits_policies by (auto elim!: advance_revisionE)
  have okm: "exec_ok mid" using keeps_trans [OF keeps_scheduler keeps_advance [OF adv]] plan_invD(1) [OF inv] keepsD by blast
  have idle: "idle_leased (ps_attempts mid) (map at_attempt_id (filter ?P (ps_attempts ?sn))) {None}"
    using idle_leased_open [OF okm, of ?P "{None}"] by (simp add: is_open_def mid(1))
  note closed = cancel_locals_close [OF fold idle okm]
  have ok2: "exec_ok mid2" and ev: "list_all2 evolves (ps_attempts mid) (ps_attempts mid2)"
    using cancel_local_attempts_keeps [OF fold idle] okm by (auto simp: keeps_def same_history_def)
  note ref = refresh_policies [OF ref ok2]
  have "policies_ok sn" "ps_scheduler_status sn = PlanSchedulerStatus.Draining"
    using policies_cong [of sn mid] closed ref(1) mid by (auto simp: same_policies_def)
  moreover have "at_lease_id b \<noteq> None" if b: "b \<in> set (ps_attempts sn)" "is_open b" for b
  proof
    assume none: "at_lease_id b = None"
    obtain a where a: "a \<in> set (ps_attempts mid)" "evolves a b" using list_all2_ex2 [OF ev] b ref(2) by metis
    then have "is_open a" using b(2) by (auto simp: evolves_def)
    with a none have "at_attempt_id b \<in> at_attempt_id ` set (filter ?P (ps_attempts ?sn))"
      by (intro rev_image_eqI [of a]) (auto simp: evolves_def same_attempt_def is_open_def mid(1))
    then show False using closed b ref(2) by auto
  qed
  moreover have "plan_inv st'" using request_cancellation_inv [OF op inv] by (simp add: plan_next_def)
  ultimately show ?thesis
    using reason by (auto simp: draining_def st' settle_draining_phase_def policies_ok_def)
qed

section \<open>Properties\<close>

lemma small_sample: "small_snapshots sample_env"
  by (simp add: small_snapshots_def sample_env_def)

lemma open_attempt_ids_filter: "open_attempt_ids sn = map at_attempt_id (filter is_open (ps_attempts sn))"
  by (simp add: open_attempt_ids_def is_open_def [abs_def])



end
