(* ===== verification/Plan_Guarantees.thy ===== *)
theory Plan_Guarantees
  imports Plan_Draining
begin

text \<open>
  What the remaining operations promise, on every branch that succeeds: approving a plan, starting
  an attempt, interrupting expired leases, abandoning the execution of a loaded session, and the
  bound on automatic retries.
\<close>

section \<open>Approval\<close>

definition resolved_by ::
    "PlanApprovalInput \<Rightarrow> PlanCapabilityEnvelopeSnapshot
     \<Rightarrow> PlanApprovalRequirementSnapshot \<Rightarrow> PlanApprovalRequirementSnapshot \<Rightarrow> bool" where
  "resolved_by inp envelope r r' \<longleftrightarrow>
     (if rq_status r = PlanApprovalRequirementStatus.Pending
      then \<exists>reference. requirement_resolution inp envelope r = Some reference
        \<and> r' = r\<lparr>rq_status := PlanApprovalRequirementStatus.Resolved, rq_resolution_ref := Some reference\<rparr>
      else r' = r)"

lemma resolve_requirements_Ok:
  "resolve_requirements inp envelope rs = Ok rs' \<Longrightarrow> list_all2 (resolved_by inp envelope) rs rs'"
proof (induction rs arbitrary: rs')
  case (Cons r rs)
  then show ?case
    by (auto simp: result_simps split: if_splits) (auto simp: resolved_by_def)
qed simp

lemma resolved_not_pending:
  assumes "list_all2 (resolved_by inp envelope) rs rs'" and "r' \<in> set rs'"
  shows "rq_status r' \<noteq> PlanApprovalRequirementStatus.Pending"
proof -
  obtain r where "resolved_by inp envelope r r'" using list_all2_ex2 [OF assms] by blast
  then show ?thesis by (cases "rq_status r = PlanApprovalRequirementStatus.Pending") (auto simp: resolved_by_def)
qed

text \<open>
  C21. Approval leaves nothing open: when a plan is approved, every pending requirement was resolved
  with the reference its kind calls for, every other requirement is as it was, the plan executes
  under the envelope that was supplied or already authorized, a pending demand for destructive
  external authority was granted by a supplied envelope that has it together with an authorization
  reference, and the recorded fingerprint is that of the contract the plan executes.
\<close>

theorem approval_resolves_everything:
  assumes "approve E st inp = Ok (st', previous)"
  shows "\<exists>envelope. ps_authorized_capability_envelope (st_snapshot st') = Some envelope
    \<and> (case ap_capability_envelope inp of
         Some e \<Rightarrow> envelope = e
       | None \<Rightarrow> ps_authorized_capability_envelope (st_snapshot st) = Some envelope)
    \<and> list_all2 (resolved_by inp envelope) (ps_approval_requirements (st_snapshot st))
        (ps_approval_requirements (st_snapshot st'))
    \<and> \<not> has_pending_approval_requirements (st_snapshot st')
    \<and> ps_phase (st_snapshot st') = PlanPhase.Executing
    \<and> ps_scheduler_status (st_snapshot st') = PlanSchedulerStatus.Active
    \<and> ps_execution_contract_fingerprint (st_snapshot st') = Some (contract_fingerprint E (st_snapshot st'))
    \<and> (\<forall>r\<in>set (ps_approval_requirements (st_snapshot st)).
         rq_status r = PlanApprovalRequirementStatus.Pending \<and> rq_kind r = DestructiveExternalAuthority
         \<longrightarrow> ap_capability_envelope inp = Some envelope \<and> ce_destructive_external_authority envelope
           \<and> ap_authorization_refs inp \<noteq> [])"
proof -
  obtain r envelope rqs fp sn vr where
    rqs: "resolve_requirements inp envelope (ps_approval_requirements (st_snapshot st)) = Ok rqs"
    and adv: "advance_revision E ''plan approval resolved''
      ((st_snapshot st)\<lparr>ps_approval_requirements := rqs, ps_authorized_capability_envelope := Some envelope,
         ps_execution_authorization_refs := ap_authorization_refs inp, ps_phase := PlanPhase.Executing,
         ps_scheduler_status := PlanSchedulerStatus.Active, ps_execution_contract_fingerprint := fp\<rparr>) = Ok (sn, vr)"
    and st': "st' = st\<lparr>st_snapshot := sn\<rparr>"
    and env: "case ap_capability_envelope inp of Some e \<Rightarrow> envelope = e
       | None \<Rightarrow> ps_authorized_capability_envelope (st_snapshot st) = Some envelope"
    and fp: "fp = Some (contract_fingerprint E ((st_snapshot st)\<lparr>ps_authorized_capability_envelope := Some envelope\<rparr>))"
    by (rule approveE [OF assms])
  note res = resolve_requirements_Ok [OF rqs]
  obtain x v where sn: "sn = (st_snapshot st)\<lparr>ps_approval_requirements := rqs, ps_authorized_capability_envelope := Some envelope,
         ps_execution_authorization_refs := ap_authorization_refs inp, ps_phase := PlanPhase.Executing,
         ps_scheduler_status := PlanSchedulerStatus.Active, ps_execution_contract_fingerprint := fp,
         ps_revision := v, ps_revision_summaries := x\<rparr>"
    using adv by (elim advance_revisionE) simp
  have "\<not> has_pending_approval_requirements sn"
    using resolved_not_pending [OF res] by (simp add: sn has_pending_approval_requirements_def list_ex_iff)
  moreover have "contract_fingerprint E sn = contract_fingerprint E ((st_snapshot st)\<lparr>ps_authorized_capability_envelope := Some envelope\<rparr>)"
    by (simp add: sn contract_fingerprint_def root_node_def find_node_def [abs_def])
  moreover have "ap_capability_envelope inp = Some envelope \<and> ce_destructive_external_authority envelope
      \<and> ap_authorization_refs inp \<noteq> []"
    if r: "r \<in> set (ps_approval_requirements (st_snapshot st))" "rq_status r = PlanApprovalRequirementStatus.Pending"
      "rq_kind r = DestructiveExternalAuthority" for r
    using list_all2_ex1 [OF res r(1)] r(2,3) env
    by (auto simp: resolved_by_def requirement_resolution_def Let_def split: if_splits)
  ultimately show ?thesis using res env fp by (intro exI [of _ envelope]) (simp add: st' sn)
qed

definition review_plan :: PlanState where
  "review_plan =
     (case update sample_env (empty_plan ''p'' User default_resource_policy)
        (sample_update RequestUserReview (DefinePlan 0 (sample_input None (Some ''root'') ''ship'' []))) of
        Ok (st, _) \<Rightarrow> st | _ \<Rightarrow> empty_plan ''p'' User default_resource_policy)"

definition sample_approval :: PlanApprovalInput where
  "sample_approval =
     \<lparr>ap_plan_id = ''p'', ap_expected_plan_revision = 1, ap_review_resolution_ref = ''yes'',
      ap_capability_envelope = Some sample_envelope, ap_authorization_refs = [], ap_requirement_resolution_refs = []\<rparr>"

theorem approval_resolves_everything_witness:
  "\<exists>st' previous. approve sample_env review_plan sample_approval = Ok (st', previous)
     \<and> has_pending_approval_requirements (st_snapshot review_plan) \<and> \<not> has_pending_approval_requirements (st_snapshot st')"
proof -
  have "is_ok (approve sample_env review_plan sample_approval)" by code_simp
  then obtain st' previous where op: "approve sample_env review_plan sample_approval = Ok (st', previous)"
    by (cases "approve sample_env review_plan sample_approval") auto
  have "has_pending_approval_requirements (st_snapshot review_plan)" by code_simp
  with approval_resolves_everything [OF op] op show ?thesis by blast
qed

section \<open>Loading a session\<close>

lemma refresh_links:
  assumes "refresh_parent_states r sn = Ok sn'" and "exec_ok sn" and "\<forall>n\<in>set (ps_nodes sn). \<not> has_active_link n"
  shows "\<forall>n\<in>set (ps_nodes sn'). \<not> has_active_link n"
proof
  fix n' assume "n' \<in> set (ps_nodes sn')"
  then obtain n where "n \<in> set (ps_nodes sn)" "refreshed n n'"
    using list_all2_ex2 [OF refresh_parent_states_refreshed [OF assms(1) exec_okD(3) [OF assms(2)]]] by blast
  with assms(3) show "\<not> has_active_link n'" by (simp add: has_active_link_def refreshed_fields(3))
qed

lemma no_open_no_live:
  assumes "exec_ok sn" and "open_attempt_ids sn = []" and "l \<in> set (ps_leases sn)"
  shows "le_status l \<noteq> PlanLeaseStatus.Live"
proof -
  obtain a where "a \<in> set (ps_attempts sn)" "agree a l"
    using exec_okD(2) [OF assms(1)] assms(3) unfolding records_ok_def by blast
  with assms(2) show ?thesis by (auto simp: open_attempt_ids_filter filter_empty_conv agree_def)
qed

lemma abandon_closes:
  assumes op: "abandon_unresumed_execution E st now = Ok (st', True)" and inv: "plan_inv st"
  shows "open_attempt_ids (st_snapshot st') = [] \<and> (\<forall>n\<in>set (ps_nodes (st_snapshot st')). \<not> has_active_link n)"
proof -
  let ?sn = "st_snapshot st"
  obtain mid r d sn where adv: "advance_revision E ''persisted execution was not resumed'' ?sn = Ok (mid, r)"
    and ref: "refresh_parent_states r (abandon_node_links r now
       (foldl (abandon_attempt d r now) mid (open_attempt_ids ?sn))) = Ok sn" (is "refresh_parent_states r (abandon_node_links r now ?a) = _")
    and st': "st' = st\<lparr>st_snapshot := refresh_terminal_phase sn\<rparr>"
    by (rule abandon_unresumed_executionE [OF op])
  have okm: "exec_ok mid" using keepsD [OF keeps_advance [OF adv]] plan_invD(1) [OF inv] .
  have ids: "open_attempt_ids mid = open_attempt_ids ?sn"
    using adv by (auto simp: open_attempt_ids_def elim!: advance_revisionE)
  have idle: "idle_leased (ps_attempts mid) (open_attempt_ids mid) UNIV"
    unfolding open_attempt_ids_filter by (rule idle_leased_open [OF okm]) simp
  have "set (open_attempt_ids mid) \<subseteq> at_attempt_id ` set (ps_attempts mid)" by (auto simp: open_attempt_ids_def)
  from abandon_attempts_keeps [OF okm idle this, of d r now]
  have a: "keeps mid ?a" "open_attempt_ids ?a = []" by (simp_all add: ids)
  then have oka: "exec_ok ?a" using keepsD okm by blast
  have okb: "exec_ok (abandon_node_links r now ?a)" using keepsD [OF abandon_node_links_keeps [OF a(2)] oka] .
  have "\<forall>n\<in>set (ps_nodes (abandon_node_links r now ?a)). \<not> has_active_link n"
    using abandon_links_shape(3) exec_okD(4) [OF oka] by (simp add: abandon_node_links_def)
  from refresh_links [OF ref okb this] have "\<forall>n\<in>set (ps_nodes sn). \<not> has_active_link n" .
  moreover have "open_attempt_ids sn = []"
    using refresh_policies(2) [OF ref okb] a(2) by (simp add: open_attempt_ids_def abandon_node_links_def)
  ultimately show ?thesis by (simp add: st' refresh_terminal_phase_eq open_attempt_ids_def)
qed

lemma abandon_idle:
  assumes "abandon_unresumed_execution E st now = Ok (st', False)"
  shows "st' = st \<and> open_attempt_ids (st_snapshot st) = [] \<and> (\<forall>n\<in>set (ps_nodes (st_snapshot st)). \<not> has_active_link n)"
  using assms by (auto simp: abandon_unresumed_execution_def Let_def result_simps list_ex_iff split: if_splits)

text \<open>
  Loading a session leaves nothing running: after the persisted execution of a plan was
  abandoned, no attempt is unfinished, no lease is live and no node has an active subagent link, and
  the call reports a change exactly when there was something to abandon.
\<close>

theorem abandon_leaves_nothing_running:
  assumes "reachable_plan E st" and "abandon_unresumed_execution E st now = Ok (st', changed)"
  shows "open_attempt_ids (st_snapshot st') = []
    \<and> (\<forall>l\<in>set (ps_leases (st_snapshot st')). le_status l \<noteq> PlanLeaseStatus.Live)
    \<and> (\<forall>n\<in>set (ps_nodes (st_snapshot st')). \<not> has_active_link n)
    \<and> (changed \<longleftrightarrow> open_attempt_ids (st_snapshot st) \<noteq> [] \<or> list_ex has_active_link (ps_nodes (st_snapshot st)))"
proof -
  have inv: "plan_inv st" using reachable_inv [OF assms(1)] ..
  have "exec_ok (st_snapshot st')"
    using abandon_unresumed_execution_inv [OF assms(2) inv] plan_invD(1) by (simp add: plan_next_def)
  moreover have "open_attempt_ids (st_snapshot st') = [] \<and> (\<forall>n\<in>set (ps_nodes (st_snapshot st')). \<not> has_active_link n)"
    using abandon_closes [OF _ inv, of E now st'] abandon_idle [of E st now st'] assms(2) by (cases changed) auto
  moreover have "changed \<longleftrightarrow> open_attempt_ids (st_snapshot st) \<noteq> [] \<or> list_ex has_active_link (ps_nodes (st_snapshot st))"
    using assms(2) by (auto simp: abandon_unresumed_execution_def Let_def result_simps split: if_splits)
  ultimately show ?thesis using no_open_no_live by blast
qed

theorem abandon_leaves_nothing_running_witness:
  "\<exists>st'. abandon_unresumed_execution sample_env working_plan 40 = Ok (st', True) \<and> open_attempt_ids (st_snapshot st') = []"
proof -
  have "is_ok (abandon_unresumed_execution sample_env working_plan 40)" by code_simp
  then obtain st' changed where op: "abandon_unresumed_execution sample_env working_plan 40 = Ok (st', changed)"
    by (cases "abandon_unresumed_execution sample_env working_plan 40") auto
  have "open_attempt_ids (st_snapshot working_plan) \<noteq> []"
    using working_length working_leased by (auto simp: open_attempt_ids_def filter_empty_conv)
  with abandon_leaves_nothing_running [OF working_reachable op] op show ?thesis by auto
qed

section \<open>Expired leases\<close>

definition interrupted_in :: "PlanAttemptId set \<Rightarrow> PlanAttemptSnapshot \<Rightarrow> PlanAttemptSnapshot \<Rightarrow> bool" where
  "interrupted_in I a b \<longleftrightarrow> at_attempt_id b = at_attempt_id a
     \<and> (if at_attempt_id a \<in> I then at_outcome b = Some PlanAttemptOutcome.Interrupted else b = a)"

lemma interrupt_attempt_changes:
  assumes "interrupt_attempt r now (sn, out, ds) i = Ok (sn', out')" and d: "distinct (map at_attempt_id (ps_attempts sn))"
  shows "list_all2 (interrupted_in {i}) (ps_attempts sn) (ps_attempts sn')"
proof -
  obtain k diag where k: "position (\<lambda>a. at_attempt_id a = i) (ps_attempts sn) = Some k"
    and as: "ps_attempts sn' = (ps_attempts sn)[k := close_attempt PlanAttemptOutcome.Interrupted diag now (ps_attempts sn ! k)]"
    using assms(1) by (elim interrupt_attemptE)
      (simp add: upd_node_def upd_progress_def upd_lease_def upd_attempt_def expire_attempt_directives_def)
  note k = position_attempt [OF k]
  have "at_attempt_id (ps_attempts sn ! j) \<noteq> i" if "j < length (ps_attempts sn)" "j \<noteq> k" for j
    using that k d by (auto simp: distinct_conv_nth)
  with k show ?thesis
    by (auto simp: as list_all2_conv_all_nth nth_list_update interrupted_in_def close_attempt_def)
qed

lemma interrupt_attempts_change:
  assumes "fold_res (interrupt_attempt r now) (sn, out) ids = Ok (sn', out')"
    and "distinct (map at_attempt_id (ps_attempts sn))" and "distinct ids"
  shows "list_all2 (interrupted_in (set ids)) (ps_attempts sn) (ps_attempts sn')"
  using assms
proof (induction ids arbitrary: sn out)
  case Nil
  then show ?case by (simp add: list_all2_same interrupted_in_def)
next
  case (Cons i ids)
  then obtain mid out1 where step: "interrupt_attempt r now (sn, out) i = Ok (mid, out1)"
    and rest: "fold_res (interrupt_attempt r now) (mid, out1) ids = Ok (sn', out')"
    by (auto simp: result_simps)
  obtain o1 o2 where out: "out = (o1, o2)" by (cases out)
  note one = interrupt_attempt_changes [OF step [unfolded out] Cons.prems(2)]
  have "map at_attempt_id (ps_attempts mid) = map at_attempt_id (ps_attempts sn)"
    using one by (rule map_list_all2) (simp add: interrupted_in_def)
  then have "list_all2 (interrupted_in (set ids)) (ps_attempts mid) (ps_attempts sn')"
    using Cons.IH [OF rest] Cons.prems by simp
  with one show ?case
    by (rule list_all2_trans [rotated]) (use Cons.prems(3) in \<open>auto simp: interrupted_in_def split: if_splits\<close>)
qed

text \<open>
  C22. Expired leases are interrupted, and nothing else: after the check for expired leases an
  attempt is interrupted exactly when it was unfinished and its live lease had expired, and every
  other attempt is untouched.
\<close>

theorem expired_leases_interrupted:
  assumes "reachable_plan E st" and "interrupt_expired_leases E st now = Ok (st', out)"
  shows "list_all2 (\<lambda>a b. if at_outcome a = None \<and> lease_expired (st_snapshot st) now a
        then at_attempt_id b = at_attempt_id a \<and> at_outcome b = Some PlanAttemptOutcome.Interrupted else b = a)
      (ps_attempts (st_snapshot st)) (ps_attempts (st_snapshot st'))"
proof -
  let ?sn = "st_snapshot st" let ?P = "\<lambda>a. at_outcome a = None \<and> lease_expired ?sn now a"
  let ?ids = "map at_attempt_id (filter ?P (ps_attempts ?sn))"
  have d: "distinct (map at_attempt_id (ps_attempts ?sn))" using reachable_records [OF assms(1)] by (simp add: records_ok_def)
  have "list_all2 (interrupted_in (set ?ids)) (ps_attempts ?sn) (ps_attempts (st_snapshot st'))"
  proof (cases "?ids = []")
    case True
    then show ?thesis using assms(2) by (auto simp: interrupt_expired_leases_def Let_def list_all2_same interrupted_in_def)
  next
    case False
    then obtain mid r sn interrupted ds sn2 where adv: "advance_revision E ''expired subagent plan leases interrupted'' ?sn = Ok (mid, r)"
      and fold: "fold_res (interrupt_attempt r now) (mid, [], []) ?ids = Ok (sn, interrupted, ds)"
      and ref: "refresh_parent_states r sn = Ok sn2"
      and st': "st_snapshot st' = settle_draining_phase (refresh_terminal_phase sn2)"
      using assms(2) unfolding interrupt_expired_leases_def Let_def by (auto simp: result_simps simp del: map_is_Nil_conv)
    have as: "ps_attempts mid = ps_attempts ?sn" using adv by (auto elim!: advance_revisionE)
    have okm: "exec_ok mid" using keepsD [OF keeps_advance [OF adv] reachable_exec_ok [OF assms(1)]] .
    have "idle_leased (ps_attempts mid) ?ids UNIV"
      using idle_leased_open [OF okm, of ?P UNIV] by (simp add: as is_open_def)
    then have "exec_ok sn" using interrupt_attempts_keeps [OF fold] okm keepsD by blast
    then have "ps_attempts (st_snapshot st') = ps_attempts sn"
      using refresh_policies(2) [OF ref] by (simp add: st' settle_draining_phase_def refresh_terminal_phase_eq)
    then show ?thesis using interrupt_attempts_change [OF fold] d as by (simp add: distinct_map_filter)
  qed
  moreover have "at_attempt_id a \<in> set ?ids \<longleftrightarrow> ?P a" if "a \<in> set (ps_attempts ?sn)" for a
    using distinct_map_eq [OF d] that by auto
  ultimately show ?thesis
    by (auto simp: list_all2_conv_all_nth interrupted_in_def simp del: set_map set_filter)
qed

theorem expired_leases_interrupted_witness:
  "\<exists>st' out. interrupt_expired_leases sample_env working_plan 1000000 = Ok (st', out)
     \<and> (\<exists>b\<in>set (ps_attempts (st_snapshot st')). at_outcome b = Some PlanAttemptOutcome.Interrupted)"
proof -
  have "is_ok (interrupt_expired_leases sample_env working_plan 1000000)" by code_simp
  then obtain st' out where op: "interrupt_expired_leases sample_env working_plan 1000000 = Ok (st', out)"
    by (cases "interrupt_expired_leases sample_env working_plan 1000000") auto
  have "list_ex (\<lambda>a. at_outcome a = None \<and> lease_expired (st_snapshot working_plan) 1000000 a)
    (ps_attempts (st_snapshot working_plan))" by code_simp
  then obtain a where "a \<in> set (ps_attempts (st_snapshot working_plan))" "at_outcome a = None"
    "lease_expired (st_snapshot working_plan) 1000000 a" by (auto simp: list_ex_iff)
  with list_all2_ex1 [OF expired_leases_interrupted [OF working_reachable op] this(1)] op show ?thesis by auto
qed

section \<open>Starting work\<close>

lemma find_node_upd_node:
  assumes "\<And>n. pn_id (f n) = pn_id n"
  shows "find_node (upd_node i f sn) j = (if j = i then map_option f (find_node sn i) else find_node sn j)"
proof -
  have "List.find (\<lambda>n. pn_id n = j) (update_first (\<lambda>n. pn_id n = i) f ns)
      = (if j = i then map_option f (List.find (\<lambda>n. pn_id n = i) ns) else List.find (\<lambda>n. pn_id n = j) ns)" for ns
    using assms by (induction ns) auto
  then show ?thesis by (simp add: find_node_def upd_node_def)
qed

text \<open>
  C20. Work starts only on ready nodes, and starting it changes nothing else: a started attempt is on
  a node that is ready (pending with no live children, or verifying with all children completed; all
  dependencies completed; no live lease; retry delay over) of a plan that executes and schedules; the
  attempt and its live lease, which expires one heartbeat interval later, are appended, the node is in
  progress, and every other node is as before.
\<close>

theorem start_attempt_effect:
  assumes "reachable_plan E st" and "start_attempt E st i actor now = Ok (st', a, l, p)"
  shows "\<exists>n. find_node (st_snapshot st) i = Some n \<and> ready_node (st_snapshot st) now n
    \<and> ps_phase (st_snapshot st) = PlanPhase.Executing
    \<and> ps_scheduler_status (st_snapshot st) = PlanSchedulerStatus.Active
    \<and> ps_attempts (st_snapshot st') = ps_attempts (st_snapshot st) @ [a]
    \<and> ps_leases (st_snapshot st') = ps_leases (st_snapshot st) @ [l]
    \<and> at_outcome a = None \<and> at_node_id a = i \<and> at_executor_session_id a = aa_executor_session_id actor
    \<and> at_lease_id a = Some (le_lease_id l) \<and> le_status l = PlanLeaseStatus.Live
    \<and> le_lease_expires_at_ms l
        = saturating_add now (rs_subagent_heartbeat_ttl_ms (ps_resource_policy_snapshot (st_snapshot st)))
    \<and> find_node (st_snapshot st') i = Some (n\<lparr>pn_status := PlanNodeStatus.InProgress,
        pn_updated_revision := saturating_add (ps_revision (st_snapshot st)) 1\<rparr>)
    \<and> (\<forall>j. j \<noteq> i \<longrightarrow> find_node (st_snapshot st') j = find_node (st_snapshot st) j)"
proof -
  let ?sn = "st_snapshot st"
  obtain records where rec: "start_attempt_records E st i actor now True = Ok (st', records)"
    and out: "a = sr_attempt records" "sr_lease records = Some l"
    using assms(2) by (auto simp: start_attempt_def result_simps)
  obtain n found x where n: "n \<in> set (ps_nodes ?sn)" "pn_id n = i" "ready_node ?sn now n" "find_node ?sn i = Some found"
    and ph: "ps_phase ?sn = PlanPhase.Executing" "ps_scheduler_status ?sn = PlanSchedulerStatus.Active"
    and st': "st' = started E st found actor now True x"
    and last: "last (ps_attempts (st_snapshot st')) = sr_attempt records"
      "True \<longrightarrow> sr_lease records = Some (last (ps_leases (st_snapshot st')))"
    by (rule start_attempt_recordsE [OF rec])
  have found: "found = n" using same_node [OF reachable_exec_ok [OF assms(1)] n(1)] n(2,4) by simp
  define sn where "sn = upd_node i (set_status PlanNodeStatus.InProgress (saturating_add (ps_revision ?sn) 1))
    (?sn\<lparr>ps_revision := saturating_add (ps_revision ?sn) 1, ps_revision_summaries := x\<rparr>)"
  have nodes: "find_node (st_snapshot st') j = find_node sn j" for j
    by (simp add: st' started_def Let_def find_node_def found n(2) sn_def)
  have "find_node sn j = (if j = i then map_option (set_status PlanNodeStatus.InProgress (saturating_add (ps_revision ?sn) 1))
      (find_node ?sn i) else find_node ?sn j)" for j
    unfolding sn_def by (subst find_node_upd_node) (simp_all add: find_node_def set_status_def)
  moreover have "a = attempt_of E st (set_status PlanNodeStatus.InProgress (saturating_add (ps_revision ?sn) 1) n) actor now True"
    "l = new_lease sn (plan_lease_id (st_next_lease_sequence st)) (at_attempt_id a)
      (set_status PlanNodeStatus.InProgress (saturating_add (ps_revision ?sn) 1) n) (aa_executor_session_id actor) now"
    using last out by (simp_all add: st' started_def Let_def found n(2) sn_def)
  ultimately show ?thesis
    using n ph found
    by (intro exI [of _ n])
      (simp add: nodes set_status_def attempt_of_def new_attempt_def new_lease_def,
       simp add: st' started_def Let_def found n(2) sn_def upd_node_def attempt_of_def new_attempt_def new_lease_def set_status_def)
qed

theorem start_attempt_effect_witness:
  "\<exists>a l p n. start_attempt sample_env sample_plan (PlanNodeId ''plan-node-2'') sample_actor 10 = Ok (started_plan, a, l, p)
     \<and> find_node (st_snapshot started_plan) (PlanNodeId ''plan-node-2'') = Some n \<and> pn_status n = PlanNodeStatus.InProgress"
proof -
  obtain a l p where op: "start_attempt sample_env sample_plan (PlanNodeId ''plan-node-2'') sample_actor 10 = Ok (started_plan, a, l, p)"
    using sample_started by auto
  from start_attempt_effect [OF sample_reachable op] op show ?thesis by fastforce
qed

end
