(* ===== verification/Plan_Subagent.thy ===== *)
theory Plan_Subagent
  imports Plan_Ledger
begin

text \<open>
  The control handle a child runtime holds (\<^verbatim>\<open>plan/subagent.rs\<close>): it names one attempt of one
  plan, and before every tool call the runtime asks it for the harness to enforce. The handle looks the
  attempt up in the current snapshot each time, so a child whose attempt has been resolved, cancelled
  or taken over gets an error instead of a harness.
\<close>

section \<open>The handle\<close>

text \<open>Errors of the controller; those of the session store and the runtime carry their message.\<close>

datatype PlanControllerError =
    Plan PlanError
  | SessionStore string
  | CommandChannelClosed
  | NoActivePlan
  | StaleTransaction
  | Runtime string

record PlanSubagentControl =
  sc_plan_id :: PlanId
  sc_node_id :: PlanNodeId
  sc_attempt_id :: PlanAttemptId
  sc_lease_id :: PlanLeaseId
  sc_executor_session_id :: SessionId

text \<open>The snapshot the controller answers with is an argument: the actor around it is asynchronous.\<close>

definition control_snapshot ::
    "PlanSubagentControl \<Rightarrow> (PlanSnapshot option, PlanControllerError) result \<Rightarrow> (PlanSnapshot, PlanControllerError) result" where
  "control_snapshot self answer =
     and_then answer (\<lambda>active.
     and_then (ok_or active NoActivePlan) (\<lambda>snapshot.
     if ps_plan_id snapshot \<noteq> sc_plan_id self then Err (Plan (UnknownAttempt (sc_attempt_id self)))
     else Ok snapshot))"

definition active_harness ::
    "PlanSubagentControl \<Rightarrow> (PlanSnapshot option, PlanControllerError) result
     \<Rightarrow> (PlanHarnessSnapshot, PlanControllerError) result" where
  "active_harness self answer =
     and_then (control_snapshot self answer) (\<lambda>snapshot.
     and_then (ok_or (List.find (\<lambda>a. at_attempt_id a = sc_attempt_id self) (ps_attempts snapshot))
                (Plan (UnknownAttempt (sc_attempt_id self)))) (\<lambda>attempt.
     if at_outcome attempt \<noteq> None then Err (Plan (AttemptAlreadyResolved (sc_attempt_id self)))
     else if at_node_id attempt \<noteq> sc_node_id self \<or> at_lease_id attempt \<noteq> Some (sc_lease_id self)
         \<or> at_executor_session_id attempt \<noteq> sc_executor_session_id self
     then Err (Plan (AttemptOwnershipMismatch (sc_attempt_id self)))
     else
       and_then (ok_or (List.find (\<lambda>l. le_lease_id l = sc_lease_id self) (ps_leases snapshot))
                  (Plan (UnknownLease (sc_lease_id self)))) (\<lambda>lease.
       if le_status lease \<noteq> PlanLeaseStatus.Live then Err (Plan (LeaseNotLive (sc_lease_id self)))
       else if le_attempt_id lease \<noteq> sc_attempt_id self \<or> le_node_id lease \<noteq> sc_node_id self
           \<or> le_executor_session_id lease \<noteq> sc_executor_session_id self
       then Err (Plan (AttemptOwnershipMismatch (sc_attempt_id self)))
       else if le_node_revision lease \<noteq> at_node_revision attempt
       then Err (Plan (AttemptNodeRevisionMismatch (at_node_revision attempt) (le_node_revision lease)))
       else
         ok_or (map_option pn_harness (List.find (\<lambda>n. pn_id n = sc_node_id self) (ps_nodes snapshot)))
           (Plan (UnknownNode (sc_node_id self))))))"

section \<open>What the handle answers\<close>

text \<open>A harness is only handed out for an open attempt of this child, under its own live lease.\<close>

lemma active_harness_Ok:
  assumes "active_harness self (Ok (Some sn)) = Ok h"
  obtains a l n where "a \<in> set (ps_attempts sn)" "at_attempt_id a = sc_attempt_id self" "is_open a"
      "at_node_id a = sc_node_id self" "at_executor_session_id a = sc_executor_session_id self"
    and "l \<in> set (ps_leases sn)" "le_lease_id l = sc_lease_id self" "le_status l = PlanLeaseStatus.Live"
      "le_attempt_id l = sc_attempt_id self" "le_node_revision l = at_node_revision a"
    and "n \<in> set (ps_nodes sn)" "pn_id n = sc_node_id self" "pn_harness n = h"
  using assms
  by (auto simp: active_harness_def control_snapshot_def is_open_def find_Some_iff result_simps
      split: if_split_asm option.split_asm dest!: nth_mem elim!: that)

text \<open>The node of an open attempt is at work, so it is part of the live tree.\<close>

lemma active_harness_live_node:
  assumes "reachable_plan E st" and "active_harness self (Ok (Some (st_snapshot st))) = Ok h"
  obtains n where "n \<in> set (ps_nodes (st_snapshot st))" "is_live n" "pn_harness n = h"
proof -
  let ?sn = "st_snapshot st"
  note ok = reachable_exec_ok [OF assms(1)]
  from active_harness_Ok [OF assms(2)] obtain a n where a: "a \<in> set (ps_attempts ?sn)" "is_open a"
      "at_node_id a = sc_node_id self"
    and n: "n \<in> set (ps_nodes ?sn)" "pn_id n = sc_node_id self" "pn_harness n = h" by metis
  then have "busy ?sn (pn_id n)" by (intro exec_okD(6) [OF ok]) (force simp: open_nodes_def)
  then obtain m where m: "m \<in> set (ps_nodes ?sn)" "pn_id m = pn_id n" "pn_status m = PlanNodeStatus.InProgress"
    by (auto simp: busy_def)
  with exec_okD(3) [OF ok] n(1) have "m = n" by (simp add: distinct_map inj_on_def)
  with m n that show thesis by (simp add: is_live_def)
qed

lemma planned_root: "exec_ok sn \<Longrightarrow> n \<in> set (ps_nodes sn) \<Longrightarrow> \<exists>r. ps_root_node_id sn = Some r"
  by (auto simp: exec_ok_def plan_ok_def split: option.split_asm)

text \<open>The harness a child gets is within the envelope that was authorized for the plan.\<close>

lemma active_harness_within_envelope:
  assumes "reachable_plan E st" and "active_harness self (Ok (Some (st_snapshot st))) = Ok h"
    and "ps_authorized_capability_envelope (st_snapshot st) = Some e"
  shows "within_envelope h e"
proof -
  from active_harness_live_node [OF assms(1,2)] obtain n where
    n: "n \<in> set (ps_nodes (st_snapshot st))" "is_live n" "pn_harness n = h" by blast
  with planned_root [OF reachable_exec_ok [OF assms(1)]] obtain r where "ps_root_node_id (st_snapshot st) = Some r" by blast
  from reachable_within_envelope [OF assms(1,3) this n(1,2)] n(3) show ?thesis by simp
qed

section \<open>A child that edits files\<close>

definition patch_harness :: PlanHarnessSnapshot where
  "patch_harness = default_harness\<lparr>ha_allowed_tools := [''apply_patch''], ha_read_scope := [''.''],
     ha_write_scope := [''.''], ha_forbidden_paths := [''secret'']\<rparr>"

definition patch_input :: "string \<Rightarrow> string \<Rightarrow> PlanNodeInput list \<Rightarrow> PlanNodeInput" where
  "patch_input key objective children =
     PlanNodeInput None (Some key) objective [] None Auto patch_harness default_recovery_policy [] children"

definition patch_update :: UpdatePlanInput where
  "patch_update = sample_update ExecuteIfAuthorized (DefinePlan 0 (patch_input ''root'' ''ship'' [patch_input ''a'' ''edit'' []]))"

definition patch_plan :: PlanState where
  "patch_plan = (case update sample_env (empty_plan ''p'' User default_resource_policy) patch_update of
     Ok (st, _) \<Rightarrow> st | _ \<Rightarrow> empty_plan ''p'' User default_resource_policy)"

definition patching_plan :: PlanState where
  "patching_plan = (case start_attempt sample_env patch_plan (PlanNodeId ''plan-node-2'') sample_actor 10 of
     Ok (st, _) \<Rightarrow> st | _ \<Rightarrow> patch_plan)"

definition patching_control :: PlanSubagentControl where
  "patching_control = \<lparr>sc_plan_id = ''p'', sc_node_id = PlanNodeId ''plan-node-2'', sc_attempt_id = ''plan-attempt-1'',
     sc_lease_id = ''plan-lease-1'', sc_executor_session_id = ''child''\<rparr>"

lemma patching_reachable: "reachable_plan sample_env patching_plan"
proof -
  let ?start = "empty_plan ''p'' User default_resource_policy"
  have "is_ok (update sample_env ?start patch_update)" by code_simp
  then have "plan_step sample_env ?start patch_plan"
    by (auto simp: patch_plan_def intro: plan_step.update split: result.splits)
  with steps_in.more [OF steps_in.none, of "plan_step sample_env"]
  have one: "steps_in (plan_step sample_env) 1 ?start patch_plan" by simp
  have "is_ok (start_attempt sample_env patch_plan (PlanNodeId ''plan-node-2'') sample_actor 10)" by code_simp
  then have "plan_step sample_env patch_plan patching_plan"
    by (auto simp: patching_plan_def intro: plan_step.start split: result.splits)
  from steps_in.more [OF one this] show ?thesis by (rule reachable_run [OF _ fresh_empty]) simp
qed

lemma patching_harness: "active_harness patching_control (Ok (Some (st_snapshot patching_plan))) = Ok patch_harness"
    (is "?r = _")
proof -
  have "case ?r of Ok h \<Rightarrow> h = patch_harness | _ \<Rightarrow> False" by code_simp
  then show ?thesis by (simp split: result.splits)
qed

lemma patching_envelope:
  "map_option (\<lambda>e. (ce_write_scope e, ce_forbidden_paths e)) (ps_authorized_capability_envelope (st_snapshot patching_plan))
     = Some ([''.''], [''secret''])"
  by code_simp

end
