(* ===== verification/Tool_Text.thy ===== *)
theory Tool_Text
  imports Prelude
begin

text \<open>
  Text as the workspace tools handle it. A Rust \<^verbatim>\<open>str\<close> is its list of UTF-8 bytes, so byte offsets
  and byte counts are list positions and lengths. This theory holds the functions of
  \<^verbatim>\<open>std::str\<close> that \<^verbatim>\<open>merry-tools\<close> calls: searching, splitting into lines, trimming and the UTF-8
  check, with the facts the patch components use.
\<close>

abbreviation LF :: char where "LF \<equiv> CHR 0x0A"
abbreviation CR :: char where "CR \<equiv> CHR 0x0D"

section \<open>Prefixes and search\<close>

fun strip_prefix :: "string \<Rightarrow> string \<Rightarrow> string option" where
  "strip_prefix [] s = Some s"
| "strip_prefix (p # ps) [] = None"
| "strip_prefix (p # ps) (c # cs) = (if p = c then strip_prefix ps cs else None)"

definition starts_with :: "string \<Rightarrow> string \<Rightarrow> bool" where
  "starts_with s p \<longleftrightarrow> strip_prefix p s \<noteq> None"

definition ends_with_char :: "string \<Rightarrow> char \<Rightarrow> bool" where
  "ends_with_char s c \<longleftrightarrow> s \<noteq> [] \<and> last s = c"

definition strip_suffix_char :: "char \<Rightarrow> string \<Rightarrow> string" where
  "strip_suffix_char c s = (if ends_with_char s c then butlast s else s)"

text \<open>\<^verbatim>\<open>str::find\<close>: the offset of the first occurrence of the pattern.\<close>

fun str_find :: "string \<Rightarrow> string \<Rightarrow> nat option" where
  "str_find [] pat = (if pat = [] then Some 0 else None)"
| "str_find (c # cs) pat =
     (if starts_with (c # cs) pat then Some 0 else map_option Suc (str_find cs pat))"

definition str_contains :: "string \<Rightarrow> string \<Rightarrow> bool" where
  "str_contains s pat \<longleftrightarrow> str_find s pat \<noteq> None"

lemma strip_prefix_iff: "strip_prefix p s = Some t \<longleftrightarrow> s = p @ t"
  by (induction p s rule: strip_prefix.induct) auto

lemma strip_prefix_append [simp]: "strip_prefix p (p @ t) = Some t"
  by (simp add: strip_prefix_iff)

lemma strip_prefix_NoneD: "strip_prefix p s = None \<Longrightarrow> s \<noteq> p @ t"
  using strip_prefix_iff [of p s t] by auto

lemma starts_with_iff: "starts_with s p \<longleftrightarrow> (\<exists>t. s = p @ t)"
  by (auto simp: starts_with_def strip_prefix_iff)

lemma starts_with_Nil [simp]: "starts_with s []"
  by (simp add: starts_with_iff)

lemma str_find_starts [simp]: "starts_with s pat \<Longrightarrow> str_find s pat = Some 0"
  by (cases s) (auto simp: starts_with_iff)

text \<open>The first occurrence, as a decomposition of the text.\<close>

lemma str_find_SomeD:
  "str_find s pat = Some i \<Longrightarrow>
     \<exists>post. s = take i s @ pat @ post \<and> i \<le> length s \<and> post = drop (i + length pat) s"
proof (induction s pat arbitrary: i rule: str_find.induct)
  case (2 c cs pat)
  show ?case
  proof (cases "starts_with (c # cs) pat")
    case True
    then obtain t where "c # cs = pat @ t" by (auto simp: starts_with_iff)
    moreover have "i = 0" using "2.prems" True by (metis option.inject str_find_starts)
    ultimately show ?thesis by simp
  next
    case False
    with "2.prems" obtain j where "str_find cs pat = Some j" and "i = Suc j"
      by (auto simp: map_option_case split: option.splits)
    with "2.IH" [OF False] show ?thesis by fastforce
  qed
qed (simp split: if_splits)

lemma str_find_first:
  "str_find s pat = Some i \<Longrightarrow> s = pre @ pat @ post \<Longrightarrow> i \<le> length pre"
proof (induction s pat arbitrary: i pre rule: str_find.induct)
  case (2 c cs pat)
  show ?case
  proof (cases "starts_with (c # cs) pat")
    case False
    with "2.prems" obtain x pre' where "pre = x # pre'" and "cs = pre' @ pat @ post"
      by (cases pre) (auto simp: starts_with_iff)
    with 2 False show ?thesis by (auto simp: map_option_case split: option.splits)
  qed (use "2.prems" in simp)
qed (simp split: if_splits)

lemma str_find_None_iff: "str_find s pat = None \<longleftrightarrow> (\<nexists>pre post. s = pre @ pat @ post)"
proof (induction s pat rule: str_find.induct)
  case (2 c cs pat)
  show ?case
  proof (cases "starts_with (c # cs) pat")
    case True
    then show ?thesis by (metis append_Nil option.distinct(1) starts_with_iff str_find.simps(2))
  next
    case False
    then have "(\<exists>pre post. c # cs = pre @ pat @ post) \<longleftrightarrow> (\<exists>pre post. cs = pre @ pat @ post)"
      by (metis append_Cons append_eq_Cons_conv append_Nil starts_with_iff)
    with 2 False show ?thesis by simp
  qed
qed simp

lemma str_contains_iff: "str_contains s pat \<longleftrightarrow> (\<exists>pre post. s = pre @ pat @ post)"
  by (simp add: str_contains_def str_find_None_iff)

section \<open>Lines\<close>

text \<open>
  \<^verbatim>\<open>str::lines\<close> splits after every line feed, drops the line feed and one carriage return in front of
  it; a last line without a line feed is kept as it is, carriage return included.
\<close>

lemma length_after_dropWhile:
  "dropWhile P xs = y # ys \<Longrightarrow> length ys < length xs"
  using length_dropWhile_le [of P xs] by simp

function (sequential) str_lines :: "string \<Rightarrow> string list" where
  "str_lines [] = []"
| "str_lines (c # cs) =
     (let line = takeWhile (\<lambda>x. x \<noteq> LF) (c # cs) in
      case dropWhile (\<lambda>x. x \<noteq> LF) (c # cs) of
        [] \<Rightarrow> [line]
      | _ # rest \<Rightarrow> strip_suffix_char CR line # str_lines rest)"
  by pat_completeness auto
termination
  by (relation "measure length") (simp, metis in_measure length_after_dropWhile)

lemma takeWhile_no_LF: "LF \<notin> set l \<Longrightarrow> takeWhile (\<lambda>x. x \<noteq> LF) (l @ LF # r) = l"
  and dropWhile_no_LF: "LF \<notin> set l \<Longrightarrow> dropWhile (\<lambda>x. x \<noteq> LF) (l @ LF # r) = LF # r"
  and takeWhile_all_LF: "LF \<notin> set l \<Longrightarrow> takeWhile (\<lambda>x. x \<noteq> LF) l = l"
  and dropWhile_all_LF: "LF \<notin> set l \<Longrightarrow> dropWhile (\<lambda>x. x \<noteq> LF) l = []"
  by (induction l) auto

lemma str_lines_terminated:
  "LF \<notin> set line \<Longrightarrow> str_lines (line @ LF # rest) = strip_suffix_char CR line # str_lines rest"
  by (cases line) (auto simp: takeWhile_no_LF dropWhile_no_LF)

lemma str_lines_unterminated:
  "LF \<notin> set line \<Longrightarrow> line \<noteq> [] \<Longrightarrow> str_lines line = [line]"
  by (cases line) (auto simp: takeWhile_all_LF dropWhile_all_LF)

declare str_lines.simps [simp del]

lemma str_lines_Nil [simp]: "str_lines [] = []"
  by (simp add: str_lines.simps)

definition unlines :: "string list \<Rightarrow> string" where
  "unlines ls = concat (map (\<lambda>l. l @ [LF]) ls)"

lemma unlines_simps [simp]: "unlines [] = []" "unlines (l # ls) = l @ LF # unlines ls"
  by (simp_all add: unlines_def)

lemma unlines_append [simp]: "unlines (ls @ ms) = unlines ls @ unlines ms"
  by (simp add: unlines_def)

text \<open>A line that survives a trip through a text file: no line feed, no final carriage return.\<close>

definition plain_line :: "string \<Rightarrow> bool" where
  "plain_line l \<longleftrightarrow> LF \<notin> set l \<and> \<not> ends_with_char l CR"

lemma str_lines_unlines: "list_all plain_line ls \<Longrightarrow> str_lines (unlines ls) = ls"
  by (induction ls) (simp_all add: plain_line_def str_lines_terminated strip_suffix_char_def)

lemma str_lines_no_LF: "l \<in> set (str_lines s) \<Longrightarrow> LF \<notin> set l"
proof (induction s rule: str_lines.induct)
  case (2 c cs)
  let ?t = "takeWhile (\<lambda>x. x \<noteq> LF) (c # cs)" and ?d = "dropWhile (\<lambda>x. x \<noteq> LF) (c # cs)"
  have "LF \<notin> set ?t" by (metis (mono_tags, lifting) set_takeWhileD)
  then have line: "LF \<notin> set ?t \<and> LF \<notin> set (strip_suffix_char CR ?t)"
    by (auto simp: strip_suffix_char_def dest: in_set_butlastD)
  show ?case
  proof (cases ?d)
    case Nil
    with "2.prems" line show ?thesis by (auto simp: str_lines.simps(2) Let_def)
  next
    case (Cons d rest)
    with "2.prems" have "l = strip_suffix_char CR ?t \<or> l \<in> set (str_lines rest)"
      by (simp add: str_lines.simps(2) Let_def)
    with line "2.IH" [OF refl Cons] show ?thesis by blast
  qed
qed simp

section \<open>Characters and trimming\<close>

text \<open>The bytes of one character, by the lead byte, and the text cut into such groups.\<close>

definition char_width :: "char \<Rightarrow> nat" where
  "char_width a = (let x = byte_of a in if x < 192 then 1 else if x < 224 then 2 else if x < 240 then 3 else 4)"

lemma char_width_pos [simp]: "0 < char_width a" "char_width a \<noteq> 0"
  by (simp_all add: char_width_def Let_def)

fun str_pieces :: "string \<Rightarrow> string list" where
  "str_pieces [] = []"
| "str_pieces (a # bs) =
     (a # take (char_width a - 1) bs) # str_pieces (drop (char_width a - 1) bs)"

definition code_point :: "string \<Rightarrow> int" where
  "code_point piece = hd (str_chars piece)"

abbreviation space_piece :: "string \<Rightarrow> bool" where
  "space_piece p \<equiv> is_whitespace (code_point p)"

definition trim_start :: "string \<Rightarrow> string" where
  "trim_start s = concat (dropWhile space_piece (str_pieces s))"

definition trim_end :: "string \<Rightarrow> string" where
  "trim_end s = concat (rev (dropWhile space_piece (rev (str_pieces s))))"

definition str_trim :: "string \<Rightarrow> string" where
  "str_trim s = concat (rev (dropWhile space_piece (rev (dropWhile space_piece (str_pieces s)))))"

lemma concat_str_pieces [simp]: "concat (str_pieces s) = s"
  by (induction s rule: str_pieces.induct) simp_all

lemma str_trim_Nil [simp]: "str_trim [] = []"
  by (simp add: str_trim_def)

text \<open>A text that begins with a visible ASCII character is not blank.\<close>

definition ascii_visible :: "char \<Rightarrow> bool" where
  "ascii_visible c \<longleftrightarrow> byte_of c < 128 \<and> \<not> is_whitespace (byte_of c)"

lemma code_point_ascii: "byte_of c < 128 \<Longrightarrow> code_point [c] = byte_of c"
  by (simp add: code_point_def)

lemma str_pieces_ascii: "byte_of c < 128 \<Longrightarrow> str_pieces (c # cs) = [c] # str_pieces cs"
  by (simp add: char_width_def)

lemma str_trim_visible:
  assumes "ascii_visible c"
  shows "str_trim (c # cs) \<noteq> []"
proof -
  have p: "str_pieces (c # cs) = [c] # str_pieces cs" and n: "\<not> space_piece [c]"
    using assms by (simp_all add: ascii_visible_def str_pieces_ascii code_point_ascii del: str_pieces.simps)
  have "[c] \<in> set (dropWhile space_piece (rev (str_pieces cs) @ [[c]]))"
    using n by (simp add: dropWhile_append)
  then have "[c] \<in> set (rev (dropWhile space_piece (rev ([c] # str_pieces cs))))" by simp
  then show ?thesis
    using n unfolding str_trim_def p by (auto simp del: str_pieces.simps)
qed

section \<open>Valid UTF-8\<close>

definition is_continuation :: "char \<Rightarrow> bool" where
  "is_continuation c \<longleftrightarrow> 128 \<le> byte_of c \<and> byte_of c < 192"

text \<open>
  \<^verbatim>\<open>String::from_utf8\<close>: every character is a well-formed byte sequence, without overlong forms and
  surrogates.
\<close>

fun utf8_piece :: "string \<Rightarrow> bool" where
  "utf8_piece [a] \<longleftrightarrow> byte_of a < 128"
| "utf8_piece [a, b] \<longleftrightarrow> 194 \<le> byte_of a \<and> byte_of a < 224 \<and> is_continuation b"
| "utf8_piece [a, b, c] \<longleftrightarrow>
     224 \<le> byte_of a \<and> byte_of a < 240 \<and> is_continuation b \<and> is_continuation c
     \<and> (byte_of a = 224 \<longrightarrow> 160 \<le> byte_of b) \<and> (byte_of a = 237 \<longrightarrow> byte_of b < 160)"
| "utf8_piece [a, b, c, d] \<longleftrightarrow>
     240 \<le> byte_of a \<and> byte_of a < 245
     \<and> is_continuation b \<and> is_continuation c \<and> is_continuation d
     \<and> (byte_of a = 240 \<longrightarrow> 144 \<le> byte_of b) \<and> (byte_of a = 244 \<longrightarrow> byte_of b < 144)"
| "utf8_piece _ \<longleftrightarrow> False"

definition is_utf8 :: "string \<Rightarrow> bool" where
  "is_utf8 s \<longleftrightarrow> list_all utf8_piece (str_pieces s)"

lemma utf8_piece_width:
  "utf8_piece p \<Longrightarrow> p \<noteq> [] \<and> length p = char_width (hd p) \<and> (\<forall>y\<in>set (tl p). is_continuation y)"
  by (induction p rule: utf8_piece.induct) (simp_all add: char_width_def)

lemma str_chars_piece: "utf8_piece p \<Longrightarrow> str_chars (p @ s) = code_point p # str_chars s"
  by (induction p rule: utf8_piece.induct) (simp_all add: code_point_def)

lemma str_pieces_piece:
  assumes "utf8_piece p"
  shows "str_pieces (p @ s) = p # str_pieces s"
proof -
  obtain a t where "p = a # t" and "length t = char_width a - 1"
    using utf8_piece_width [OF assms] by (cases p) auto
  then show ?thesis by simp
qed

lemma pieces_concat: "list_all utf8_piece ps \<Longrightarrow> str_pieces (concat ps @ s) = ps @ str_pieces s"
  by (induction ps) (simp_all add: str_pieces_piece)

lemma chars_concat: "list_all utf8_piece ps \<Longrightarrow> str_chars (concat ps @ s) = map code_point ps @ str_chars s"
  by (induction ps) (simp_all add: str_chars_piece)

lemma str_pieces_append: "is_utf8 a \<Longrightarrow> str_pieces (a @ b) = str_pieces a @ str_pieces b"
  using pieces_concat [of "str_pieces a" b] by (simp add: is_utf8_def)

lemma str_chars_pieces: "is_utf8 s \<Longrightarrow> str_chars s = map code_point (str_pieces s)"
  using chars_concat [of "str_pieces s" "[]"] by (simp add: is_utf8_def)

lemma str_chars_append: "is_utf8 a \<Longrightarrow> str_chars (a @ b) = str_chars a @ str_chars b"
  using chars_concat [of "str_pieces a" b] chars_concat [of "str_pieces a" "[]"] by (simp add: is_utf8_def)

lemma is_utf8_Nil [simp]: "is_utf8 []"
  by (simp add: is_utf8_def)

lemma is_utf8_append: "is_utf8 a \<Longrightarrow> is_utf8 (a @ b) \<longleftrightarrow> is_utf8 b"
  using str_pieces_append [of a b] by (auto simp: is_utf8_def)

lemma is_utf8_ascii: "byte_of c < 128 \<Longrightarrow> is_utf8 (c # cs) \<longleftrightarrow> is_utf8 cs"
  by (simp add: is_utf8_def str_pieces_ascii del: str_pieces.simps)

text \<open>An ASCII byte is never inside a character, so cutting there leaves valid text.\<close>

lemma is_utf8_cut: "is_utf8 (a @ c # b) \<Longrightarrow> byte_of c < 128 \<Longrightarrow> is_utf8 a \<and> is_utf8 b"
proof (induction a rule: str_pieces.induct)
  case 1
  then show ?case by (simp add: is_utf8_ascii)
next
  case (2 x xs)
  let ?w = "char_width x - 1"
  have piece: "utf8_piece (x # take ?w (xs @ c # b))" using "2.prems"(1) by (simp add: is_utf8_def)
  have "?w \<le> length xs"
  proof (rule ccontr)
    assume "\<not> ?w \<le> length xs"
    then have "0 < ?w - length xs" by simp
    then have "c \<in> set (take ?w (xs @ c # b))" by (cases "?w - length xs") simp_all
    then have "is_continuation c" using utf8_piece_width [OF piece] by (metis list.sel(3))
    with "2.prems"(2) show False by (simp add: is_continuation_def)
  qed
  with "2.prems" "2.IH" piece show ?case by (simp add: is_utf8_def)
qed

end
