(* ===== verification/Tool_Paths.thy ===== *)
theory Tool_Paths
  imports Tool_Text Workspace_Scope
begin

text \<open>
  Path arguments of the workspace tools: \<^verbatim>\<open>merry-tools/src/errors.rs\<close> (error values),
  \<^verbatim>\<open>path/validate.rs\<close> (lexical normalization) and the scope rules of \<^verbatim>\<open>state.rs\<close> and
  \<^verbatim>\<open>patch/plan.rs\<close>. Nothing here touches a file system. A path is its text; its components are
  those of \<^verbatim>\<open>std::path\<close> on Unix, as in the theory of workspace scopes. Paths built from a \<^verbatim>\<open>str\<close>
  are UTF-8, so the branches for other component text do not arise for them.
\<close>

section \<open>Errors\<close>

definition ERROR_INVALID_ARGUMENTS :: string where "ERROR_INVALID_ARGUMENTS = ''workspace_invalid_arguments''"
definition ERROR_PATH_DENIED :: string where "ERROR_PATH_DENIED = ''workspace_path_denied''"
definition ERROR_FILE_NOT_FOUND :: string where "ERROR_FILE_NOT_FOUND = ''workspace_file_not_found''"
definition ERROR_FILE_ALREADY_EXISTS :: string where "ERROR_FILE_ALREADY_EXISTS = ''workspace_file_already_exists''"
definition ERROR_NOT_FILE :: string where "ERROR_NOT_FILE = ''workspace_path_not_file''"
definition ERROR_NOT_DIRECTORY :: string where "ERROR_NOT_DIRECTORY = ''workspace_path_not_directory''"
definition ERROR_FILE_TOO_LARGE :: string where "ERROR_FILE_TOO_LARGE = ''workspace_file_too_large''"
definition ERROR_NOT_UTF8 :: string where "ERROR_NOT_UTF8 = ''workspace_file_not_utf8''"
definition ERROR_READ_FAILED :: string where "ERROR_READ_FAILED = ''workspace_read_failed''"
definition ERROR_WRITE_FAILED :: string where "ERROR_WRITE_FAILED = ''workspace_write_failed''"
definition ERROR_PROPOSAL_MISMATCH :: string where "ERROR_PROPOSAL_MISMATCH = ''apply_patch_approved_mismatch''"
definition ERROR_PATCH_SYNTAX :: string where "ERROR_PATCH_SYNTAX = ''apply_patch_syntax''"
definition ERROR_PATCH_NOOP :: string where "ERROR_PATCH_NOOP = ''apply_patch_noop''"
definition ERROR_PREIMAGE_ABSENT :: string where "ERROR_PREIMAGE_ABSENT = ''apply_patch_preimage_absent''"
definition ERROR_PREIMAGE_AMBIGUOUS :: string where "ERROR_PREIMAGE_AMBIGUOUS = ''apply_patch_preimage_ambiguous''"

record DomainError =
  de_code :: string
  de_message :: string

record PathValidationError =
  pe_code :: string
  pe_message :: string
  pe_path :: "string option"

datatype BlockingToolError = Domain DomainError | Cancelled

definition domain_error :: "string \<Rightarrow> string \<Rightarrow> DomainError" where
  "domain_error code message = \<lparr>de_code = code, de_message = message\<rparr>"

definition path_denied :: "string \<Rightarrow> PathValidationError" where
  "path_denied message = \<lparr>pe_code = ERROR_PATH_DENIED, pe_message = message, pe_path = None\<rparr>"

section \<open>Configuration\<close>

type_synonym PathBuf = string

record WorkspaceToolLimits =
  max_read_bytes :: nat
  max_read_lines :: nat
  max_write_bytes :: nat
  max_patch_bytes :: nat

definition default_limits :: WorkspaceToolLimits where
  "default_limits = \<lparr>max_read_bytes = 1024 * 1024, max_read_lines = 2000,
     max_write_bytes = 1024 * 1024, max_patch_bytes = 128 * 1024\<rparr>"

record WorkspaceToolsConfig =
  cf_root :: PathBuf
  cf_readonly_resource_roots :: "PathBuf list"
  cf_limits :: WorkspaceToolLimits
  cf_patch_write_scope :: "PathBuf list option"
  cf_forbidden_paths :: "PathBuf list"

definition new_config :: "PathBuf \<Rightarrow> WorkspaceToolsConfig" where
  "new_config root = \<lparr>cf_root = root, cf_readonly_resource_roots = [], cf_limits = default_limits,
     cf_patch_write_scope = None, cf_forbidden_paths = []\<rparr>"

datatype WorkspaceToolConfigError =
    RootNotFound PathBuf
  | RootCanonicalize PathBuf
  | RootNotDirectory PathBuf
  | InvalidScopePath PathBuf
  | InvalidLimit string

record WorkspaceToolState =
  ws_root :: PathBuf
  ws_readonly_resource_roots :: "PathBuf list"
  ws_limits :: WorkspaceToolLimits
  ws_patch_write_scope :: "string list option"
  ws_forbidden_paths :: "string list"

definition validate_limits :: "WorkspaceToolLimits \<Rightarrow> (unit, WorkspaceToolConfigError) result" where
  "validate_limits limits =
     for_each (\<lambda>(name, value). if value = 0 then Err (InvalidLimit name) else Ok ())
       [(''max_read_bytes'', max_read_bytes limits), (''max_read_lines'', max_read_lines limits),
        (''max_write_bytes'', max_write_bytes limits), (''max_patch_bytes'', max_patch_bytes limits)]"

definition normalize_scope_path :: "PathBuf \<Rightarrow> (string, WorkspaceToolConfigError) result" where
  "normalize_scope_path path =
     (if \<not> is_utf8 path then Err (InvalidScopePath path)
      else if path = ''.'' then Ok []
      else if path = [] \<or> path_is_absolute path \<or> CHR 0x5C \<in> set path
          \<or> list_ex is_control (str_chars path)
          \<or> list_ex (\<lambda>segment. segment \<in> {'''', ''.'', ''..''}) (split_on (CHR ''/'') path)
      then Err (InvalidScopePath path)
      else
        and_then
          (fold_res (\<lambda>cs c. case c of Normal value \<Rightarrow> Ok (cs @ [value]) | _ \<Rightarrow> Err (InvalidScopePath path))
             [] (components path)) (\<lambda>parts.
        if parts = [] then Err (InvalidScopePath path) else Ok (join_strings ''/'' parts)))"

definition normalize_scope_paths :: "PathBuf list \<Rightarrow> (string list, WorkspaceToolConfigError) result" where
  "normalize_scope_paths paths =
     and_then (fold_res (\<lambda>ps p. and_then (normalize_scope_path p) (\<lambda>s. Ok (ps @ [s]))) [] paths)
       (\<lambda>ps. Ok (bs_collect ps))"

definition forbidden_with_git :: "string list \<Rightarrow> string list" where
  "forbidden_with_git paths = (if list_ex (\<lambda>p. p = ''.git'') paths then paths else paths @ [''.git''])"

definition matches_scope_path :: "string \<Rightarrow> string \<Rightarrow> bool" where
  "matches_scope_path relative scope_path \<longleftrightarrow>
     scope_path = [] \<or> relative = scope_path
     \<or> (case strip_prefix scope_path relative of
          Some suffix \<Rightarrow> starts_with suffix ''/'' | None \<Rightarrow> False)"

definition matches_any_scope_path :: "string \<Rightarrow> string list \<Rightarrow> bool" where
  "matches_any_scope_path relative scope_paths \<longleftrightarrow> list_ex (matches_scope_path relative) scope_paths"

section \<open>Path arguments\<close>

record ValidatedToolPath =
  vp_anchored :: "PathBuf option"
  vp_components :: "string list"
  vp_display :: string

definition anchors :: "ValidatedToolPath \<Rightarrow> PathBuf list \<Rightarrow> (PathBuf \<times> string list) list" where
  "anchors path roots =
     (case vp_anchored path of
        Some anchor \<Rightarrow> [(anchor, vp_components path)]
      | None \<Rightarrow> map (\<lambda>root. (root, vp_components path)) roots)"

definition denies_symlinks :: "ValidatedToolPath \<Rightarrow> bool" where
  "denies_symlinks path \<longleftrightarrow> vp_anchored path = None"

definition relative_spelling :: "ValidatedToolPath \<Rightarrow> string option" where
  "relative_spelling path = (if vp_anchored path = None then Some (vp_display path) else None)"

text \<open>\<^verbatim>\<open>PathBuf::push\<close> and \<^verbatim>\<open>Path::join\<close>.\<close>

definition path_push :: "PathBuf \<Rightarrow> string \<Rightarrow> PathBuf" where
  "path_push p c =
     (if path_is_absolute c then c
      else if p = [] \<or> ends_with_char p (CHR ''/'') then p @ c else p @ ''/'' @ c)"

fun component_text :: "Component \<Rightarrow> string" where
  "component_text RootDir = ''/''"
| "component_text CurDir = ''.''"
| "component_text ParentDir = ''..''"
| "component_text (Normal s) = s"

text \<open>
  The text below the root is given by its components: the caller only reads the components of it
  again and whether it is empty.
\<close>

definition strip_workspace_root :: "PathBuf \<Rightarrow> PathBuf \<Rightarrow> (string option, PathValidationError) result" where
  "strip_workspace_root requested workspace_root =
     (if \<not> path_starts_with requested workspace_root then Ok None
      else
        let stripped = join_strings ''/''
              (map component_text (drop (length (components workspace_root)) (components requested))) in
        if stripped = []
        then Err (path_denied ''workspace path must name a file inside the workspace root, not the root itself'')
        else Ok (Some stripped))"

fun split_root_step :: "PathBuf \<times> string list \<Rightarrow> Component \<Rightarrow> PathBuf \<times> string list" where
  "split_root_step (anchor, remainder) RootDir = (path_push anchor ''/'', remainder)"
| "split_root_step (anchor, remainder) (Normal value) = (anchor, remainder @ [value])"
| "split_root_step (anchor, remainder) CurDir = (anchor, remainder)"
| "split_root_step (anchor, remainder) ParentDir = (anchor, butlast remainder)"

definition split_filesystem_root :: "PathBuf \<Rightarrow> (PathBuf \<times> string, PathValidationError) result" where
  "split_filesystem_root requested =
     (let (anchor, remainder) = foldl split_root_step ([], []) (components requested) in
      if remainder = []
      then Err (path_denied ''workspace path must name a file, not a filesystem root'')
      else Ok (anchor, join_strings ''/'' remainder))"

text \<open>One step of the normalization loop: \<^verbatim>\<open>.\<close> is dropped, \<^verbatim>\<open>..\<close> pops or is kept.\<close>

fun normalize_step :: "bool \<Rightarrow> string list \<Rightarrow> Component \<Rightarrow> (string list, PathValidationError) result" where
  "normalize_step clamp parts (Normal value) = Ok (parts @ [value])"
| "normalize_step clamp parts CurDir = Ok parts"
| "normalize_step clamp parts ParentDir =
     Ok (if parts \<noteq> [] then (if last parts = ''..'' then parts @ [''..''] else butlast parts)
         else if clamp then parts else [''..''])"
| "normalize_step clamp parts RootDir =
     Err (path_denied ''workspace path must be relative to a workspace root or absolute'')"

definition argument_anchor ::
    "string \<Rightarrow> PathBuf \<Rightarrow> (PathBuf option \<times> string \<times> bool, PathValidationError) result" where
  "argument_anchor raw_path workspace_root =
     (if path_is_absolute raw_path then
        and_then (strip_workspace_root raw_path workspace_root) (\<lambda>s.
        case s of
          Some stripped \<Rightarrow> Ok (None, stripped, False)
        | None \<Rightarrow>
            and_then (split_filesystem_root raw_path) (\<lambda>(anchor, remainder).
            Ok (Some anchor, remainder, True)))
      else Ok (None, raw_path, False))"

definition reported :: "PathBuf option \<Rightarrow> string \<Rightarrow> string" where
  "reported anchored text = (case anchored of Some anchor \<Rightarrow> path_push anchor text | None \<Rightarrow> text)"

definition validate_workspace_path_argument ::
    "string \<Rightarrow> PathBuf \<Rightarrow> (ValidatedToolPath, PathValidationError) result" where
  "validate_workspace_path_argument raw_path workspace_root =
     (if raw_path = [] then Err (path_denied ''workspace path must not be empty'')
      else if list_ex is_control (str_chars raw_path)
      then Err (path_denied ''workspace path must not contain control characters'')
      else
        and_then (argument_anchor raw_path workspace_root) (\<lambda>(anchored, relative_text, clamp).
        and_then (fold_res (normalize_step clamp) [] (components relative_text)) (\<lambda>parts.
        Ok \<lparr>vp_anchored = anchored, vp_components = parts,
            vp_display = (if parts = [] \<and> anchored = None then ''.''
                          else reported anchored (join_strings ''/'' parts))\<rparr>)))"

section \<open>The write boundary of a patch\<close>

definition validate_patch_write_boundary ::
    "WorkspaceToolState \<Rightarrow> ValidatedToolPath \<Rightarrow> (unit, DomainError) result" where
  "validate_patch_write_boundary state path =
     (let scope_path = relative_spelling path in
      if (case scope_path of
            Some s \<Rightarrow> matches_any_scope_path s (ws_forbidden_paths state) | None \<Rightarrow> False)
      then Err (domain_error ERROR_PATH_DENIED
             ''workspace patch path is forbidden by the child workspace scope'')
      else
        case ws_patch_write_scope state of
          None \<Rightarrow> Ok ()
        | Some write_scope \<Rightarrow>
            if (case scope_path of
                  Some s \<Rightarrow> matches_any_scope_path s write_scope | None \<Rightarrow> False)
            then Ok ()
            else Err (domain_error ERROR_PATH_DENIED
                   ''workspace patch path is outside the child write scope''))"

section \<open>Segments\<close>

text \<open>A segment that names an entry of a directory.\<close>

definition is_name :: "string \<Rightarrow> bool" where
  "is_name s \<longleftrightarrow> s \<noteq> [] \<and> s \<noteq> ''.'' \<and> s \<noteq> ''..'' \<and> CHR ''/'' \<notin> set s"

definition plain_segment :: "string \<Rightarrow> bool" where
  "plain_segment s \<longleftrightarrow> s = ''..'' \<or> is_name s"

lemma split_on_no_sep: "s \<in> set (split_on c t) \<Longrightarrow> c \<notin> set s"
proof (induction t arbitrary: s)
  case (Cons x xs)
  then show ?case
    by (cases "split_on c xs") (auto split: if_splits)
qed simp

lemma split_on_append_sep: "c \<notin> set a \<Longrightarrow> split_on c (a @ c # b) = a # split_on c b"
  by (induction a) auto

lemma split_on_single: "c \<notin> set a \<Longrightarrow> split_on c a = [a]"
  by (induction a) auto

lemma split_on_join:
  "ss \<noteq> [] \<Longrightarrow> \<forall>s\<in>set ss. c \<notin> set s \<Longrightarrow> split_on c (join_strings [c] ss) = ss"
  by (induction "[c]" ss rule: join_strings.induct) (simp_all add: split_on_single split_on_append_sep)

lemma join_split_on: "join_strings [c] (split_on c t) = t"
proof (induction t)
  case (Cons x xs)
  then show ?case
    using split_on_not_Nil [of c xs] by (cases "split_on c xs"; cases "tl (split_on c xs)") auto
qed simp

lemma join_strings_append:
  "ss \<noteq> [] \<Longrightarrow> ts \<noteq> [] \<Longrightarrow> join_strings sep (ss @ ts) = join_strings sep ss @ sep @ join_strings sep ts"
  by (induction sep ss rule: join_strings.induct) (auto simp: neq_Nil_conv)

lemma join_strings_Cons: "ts \<noteq> [] \<Longrightarrow> join_strings sep (s # ts) = s @ sep @ join_strings sep ts"
  by (cases ts) simp_all

definition segment_of :: "string \<Rightarrow> Component" where
  "segment_of s = (if s = ''..'' then ParentDir else Normal s)"

lemma segment_component_plain: "plain_segment s \<Longrightarrow> segment_component s = Some (segment_of s)"
  by (auto simp: plain_segment_def segment_of_def is_name_def)

lemma map_filter_plain:
  "list_all plain_segment ss \<Longrightarrow> List.map_filter segment_component ss = map segment_of ss"
  by (induction ss) (simp_all add: segment_component_plain map_filter_simps del: segment_component.simps)

lemma plain_segment_no_slash: "plain_segment s \<Longrightarrow> CHR ''/'' \<notin> set s \<and> s \<noteq> [] \<and> s \<noteq> ''.''"
  by (auto simp: plain_segment_def is_name_def)

lemma join_starts:
  assumes "list_all plain_segment ss" and "ss \<noteq> []"
  shows "join_strings ''/'' ss \<noteq> [] \<and> hd (join_strings ''/'' ss) \<noteq> CHR ''/''"
proof -
  obtain s ts where ss: "ss = s # ts" using assms by (cases ss) auto
  then obtain a r where "s = a # r" and "a \<noteq> CHR ''/''"
    using assms plain_segment_no_slash [of s] by (cases s) auto
  with ss show ?thesis by (cases ts) simp_all
qed

lemma components_join:
  assumes "list_all plain_segment ss" and "ss \<noteq> []"
  shows "components (join_strings ''/'' ss) = map segment_of ss"
proof -
  have split: "split_on (CHR ''/'') (join_strings ''/'' ss) = ss"
    using assms by (intro split_on_join) (auto simp: list_all_iff dest: plain_segment_no_slash)
  have "hd ss \<noteq> ''.''" using assms by (cases ss) (auto dest: plain_segment_no_slash)
  then show ?thesis
    unfolding components_def split Let_def
    using join_starts [OF assms] map_filter_plain [OF assms(1)] by simp
qed

lemma components_NormalD:
  assumes "Normal s \<in> set (components p)"
  shows "s \<in> set (split_on (CHR ''/'') p) \<and> is_name s"
proof -
  have "Normal s \<in> set (List.map_filter segment_component (split_on (CHR ''/'') p))"
    using assms by (auto simp: components_def Let_def split: if_splits)
  then obtain t where t: "t \<in> set (split_on (CHR ''/'') p)" "segment_component t = Some (Normal s)"
    by (auto simp: map_filter_def split: if_splits)
  then have "t = s" by (auto split: if_splits)
  with t split_on_no_sep [OF t(1)] show ?thesis by (auto simp: is_name_def split: if_splits)
qed

lemmas components_Normal = components_NormalD [THEN conjunct2]

section \<open>What normalization yields\<close>

text \<open>Leading parent steps, then names.\<close>

definition normal_parts :: "string list \<Rightarrow> bool" where
  "normal_parts ps \<longleftrightarrow> (\<exists>k names. ps = replicate k ''..'' @ names \<and> list_all is_name names)"

lemma normal_parts_plain: "normal_parts ps \<Longrightarrow> list_all plain_segment ps"
  by (auto simp: normal_parts_def list_all_iff plain_segment_def)

lemma normal_parts_butlast:
  assumes "normal_parts ps" and "ps \<noteq> []" and "last ps \<noteq> ''..''"
  shows "normal_parts (butlast ps)"
proof -
  obtain k names where ps: "ps = replicate k ''..'' @ names" and names: "list_all is_name names"
    using assms(1) by (auto simp: normal_parts_def)
  have "names \<noteq> []"
    using assms(2,3) ps by (cases k) (auto simp: last_replicate simp del: replicate.simps)
  then have "butlast ps = replicate k ''..'' @ butlast names" by (simp add: ps butlast_append)
  with names show ?thesis
    unfolding normal_parts_def by (metis in_set_butlastD list_all_iff)
qed

lemma normal_parts_last_parent:
  assumes "normal_parts ps" and "ps \<noteq> []" and "last ps = ''..''"
  shows "ps = replicate (length ps) ''..''"
proof -
  obtain k names where ps: "ps = replicate k ''..'' @ names" and names: "list_all is_name names"
    using assms(1) by (auto simp: normal_parts_def)
  have "names = []"
    using names assms(3) ps by (cases names rule: rev_cases) (auto simp: is_name_def)
  with ps show ?thesis by simp
qed

lemma normalize_step_normal:
  assumes "normalize_step clamp ps c = Ok qs" and "normal_parts ps" and "\<And>s. c = Normal s \<Longrightarrow> is_name s"
  shows "normal_parts qs"
proof (cases c)
  case (Normal s)
  then obtain k names where "qs = replicate k ''..'' @ (names @ [s])" and "list_all is_name (names @ [s])"
    using assms by (auto simp: normal_parts_def)
  then show ?thesis unfolding normal_parts_def by blast
next
  case ParentDir
  consider "ps = []" | "ps \<noteq> []" "last ps = ''..''" | "ps \<noteq> []" "last ps \<noteq> ''..''" by blast
  then show ?thesis
  proof cases
    case 1
    with ParentDir assms(1) have "qs = [] \<or> qs = replicate 1 ''..''"
      by (auto split: if_splits)
    then show ?thesis unfolding normal_parts_def by (metis append_Nil2 list.pred_inject(1) replicate_0)
  next
    case 2
    from normal_parts_last_parent [OF assms(2) 2] have "ps @ [''..''] = replicate (Suc (length ps)) ''..''"
      by (metis replicate_append_same replicate_Suc)
    moreover have "qs = ps @ [''..'']" using ParentDir 2 assms(1) by simp
    ultimately have "qs = replicate (Suc (length ps)) ''..'' @ []" by simp
    then show ?thesis unfolding normal_parts_def by (metis list.pred_inject(1))
  next
    case 3
    with ParentDir assms normal_parts_butlast show ?thesis by auto
  qed
qed (use assms in auto)

lemma normalize_normal:
  assumes "fold_res (normalize_step clamp) [] (components p) = Ok ps"
  shows "normal_parts ps"
  using assms
proof (rule fold_res_inv [where I = normal_parts])
  show "normal_parts []" by (simp add: normal_parts_def)
qed (auto intro: normalize_step_normal components_Normal)

text \<open>Running normalization on its own result changes nothing.\<close>

lemma normalize_names:
  "list_all is_name names \<Longrightarrow>
     fold_res (normalize_step clamp) ps (map segment_of names) = Ok (ps @ names)"
  by (induction names arbitrary: ps) (auto simp: segment_of_def is_name_def)

lemma normalize_parents:
  "fold_res (normalize_step False) (replicate j ''..'') (map segment_of (replicate k ''..''))
     = Ok (replicate (j + k) ''..'')"
proof (induction k arbitrary: j)
  case (Suc k)
  have "normalize_step False (replicate j ''..'') ParentDir = Ok (replicate (Suc j) ''..'')"
    by (cases j) (auto simp: last_replicate replicate_append_same)
  with Suc [of "Suc j"] show ?case
    by (simp add: segment_of_def del: replicate.simps(2) normalize_step.simps add: replicate.simps(2) [of k])
qed simp

lemma normalize_idem:
  "normal_parts ps \<Longrightarrow> fold_res (normalize_step False) [] (map segment_of ps) = Ok ps"
  using normalize_parents [of 0]
  by (auto simp: normal_parts_def fold_res_append normalize_names)

end
