(* ===== verification/Patch_Types.thy ===== *)
theory Patch_Types
  imports Tool_Paths
begin

text \<open>
  The edit engine of the \<^verbatim>\<open>apply_patch\<close> tool: \<^verbatim>\<open>merry-tools/src/patch/types.rs\<close> (patch data, the
  replacement of hunks), \<^verbatim>\<open>patch/diagnostic.rs\<close> (the explanations of a failed match) and the line
  records of \<^verbatim>\<open>patch/envelope.rs\<close>. Counts are natural numbers: they are lengths of text in memory.
\<close>

section \<open>Patch data\<close>

definition count_file_lines :: "string \<Rightarrow> nat" where
  "count_file_lines content = length (str_lines content)"

datatype WorkspacePatchLine = Context string | Remove string | Add string

record WorkspacePatchHunk =
  hk_lines :: "WorkspacePatchLine list"

datatype WorkspacePatchOperation =
    AddFile "string list"
  | UpdateFile "WorkspacePatchHunk list"
  | DeleteFile

record WorkspacePatchFile =
  pf_path :: string
  pf_operation :: WorkspacePatchOperation
  pf_ignored_context_hunks :: nat

record WorkspacePatch =
  wp_files :: "WorkspacePatchFile list"

fun is_edit_line :: "WorkspacePatchLine \<Rightarrow> bool" where
  "is_edit_line (Context _) = False"
| "is_edit_line _ = True"

definition hunk_has_edit :: "WorkspacePatchHunk \<Rightarrow> bool" where
  "hunk_has_edit h \<longleftrightarrow> list_ex is_edit_line (hk_lines h)"

fun file_has_edit :: "WorkspacePatchFile \<Rightarrow> bool" where
  "file_has_edit f =
     (case pf_operation f of
        AddFile _ \<Rightarrow> True
      | DeleteFile \<Rightarrow> True
      | UpdateFile hunks \<Rightarrow> list_ex hunk_has_edit hunks)"

definition collect_patch_hunk_text :: "string list \<Rightarrow> bool \<Rightarrow> string" where
  "collect_patch_hunk_text lines trailing_newline =
     (let output = concat (map (\<lambda>line. line @ [LF]) lines) in
      if length lines > 0 \<and> \<not> trailing_newline then butlast output else output)"

fun old_line :: "WorkspacePatchLine \<Rightarrow> string option" where
  "old_line (Context t) = Some t"
| "old_line (Remove t) = Some t"
| "old_line (Add t) = None"

fun new_line :: "WorkspacePatchLine \<Rightarrow> string option" where
  "new_line (Context t) = Some t"
| "new_line (Add t) = Some t"
| "new_line (Remove t) = None"

definition old_text :: "WorkspacePatchHunk \<Rightarrow> bool \<Rightarrow> string" where
  "old_text h trailing_newline =
     collect_patch_hunk_text (List.map_filter old_line (hk_lines h)) trailing_newline"

definition new_text :: "WorkspacePatchHunk \<Rightarrow> bool \<Rightarrow> string" where
  "new_text h trailing_newline =
     collect_patch_hunk_text (List.map_filter new_line (hk_lines h)) trailing_newline"

section \<open>Diagnostics\<close>

definition PREVIEW_CHARS :: nat where "PREVIEW_CHARS = 96"
definition MIN_CLOSEST_PREFIX_CHARS :: nat where "MIN_CLOSEST_PREFIX_CHARS = 12"
definition MAX_REPORTED_MATCHES :: nat where "MAX_REPORTED_MATCHES = 5"
definition MAX_MATCH_CANDIDATES :: nat where "MAX_MATCH_CANDIDATES = 64"

definition ellipsis :: string where
  "ellipsis = [CHR 0xE2, CHR 0x80, CHR 0xA6]"

fun preview_pieces :: "nat \<Rightarrow> string list \<Rightarrow> string" where
  "preview_pieces left [] = []"
| "preview_pieces 0 (p # ps) = ellipsis"
| "preview_pieces (Suc left) (p # ps) =
     (if is_control (code_point p) then '' '' else p) @ preview_pieces left ps"

definition single_line_preview :: "string \<Rightarrow> nat \<Rightarrow> string" where
  "single_line_preview t max_chars = preview_pieces max_chars (str_pieces t)"

definition line_number_at_byte :: "string \<Rightarrow> nat \<Rightarrow> nat" where
  "line_number_at_byte content byte_index =
     length (filter (\<lambda>b. b = LF) (take byte_index content)) + 1"

definition quoted :: "string \<Rightarrow> string" where
  "quoted t = [CHR 0x22] @ single_line_preview t PREVIEW_CHARS @ [CHR 0x22]"

text \<open>The first line where a candidate stops matching, from the offset on.\<close>

fun divergence_from ::
    "string list \<Rightarrow> nat \<Rightarrow> nat \<Rightarrow> string list \<Rightarrow> (nat \<times> string) option" where
  "divergence_from content_lines start offset [] = None"
| "divergence_from content_lines start offset (hunk_line # rest) =
     (if start + offset < length content_lines then
        (let line = content_lines ! (start + offset) in
         if line = hunk_line then divergence_from content_lines start (Suc offset) rest
         else Some (offset, ''line '' @ show_nat (start + offset + 1) @ '' differs: the patch has ''
                @ quoted hunk_line @ '' but the file has '' @ quoted line))
      else Some (offset, ''the hunk runs past the end of the file, which has ''
             @ show_nat (length content_lines) @ '' line(s)''))"

definition first_divergence :: "string list \<Rightarrow> string list \<Rightarrow> nat \<Rightarrow> (nat \<times> string) option" where
  "first_divergence content_lines hunk_lines start =
     divergence_from content_lines start 1 (tl hunk_lines)"

definition shared_prefix_chars :: "string \<Rightarrow> string \<Rightarrow> nat" where
  "shared_prefix_chars a b =
     length (takeWhile (\<lambda>(x, y). x = y) (zip (str_pieces a) (str_pieces b)))"

fun closest_from ::
    "string \<Rightarrow> nat \<Rightarrow> (nat \<times> string \<times> nat) option \<Rightarrow> string list \<Rightarrow> (nat \<times> string \<times> nat) option" where
  "closest_from target index best [] = best"
| "closest_from target index best (line # rest) =
     (let shared = shared_prefix_chars target (str_trim line) in
      if shared < MIN_CLOSEST_PREFIX_CHARS then closest_from target (Suc index) best rest
      else closest_from target (Suc index)
        (if (case best of None \<Rightarrow> True | Some (_, _, best_shared) \<Rightarrow> shared > best_shared)
         then Some (index, line, shared) else best) rest)"

definition closest_line :: "string list \<Rightarrow> string \<Rightarrow> (nat \<times> string) option" where
  "closest_line content_lines first =
     map_option (\<lambda>(index, line, _). (index, line)) (closest_from (str_trim first) 0 None content_lines)"

text \<open>
  The scan for the first hunk line: the exact matches, then the first line equal up to trailing white
  space and the first equal up to surrounding white space. It stops at 64 exact matches.
\<close>

record line_scan =
  sc_exact :: "nat list"
  sc_trailing :: "nat option"
  sc_space :: "nat option"

fun scan_lines :: "string \<Rightarrow> nat \<Rightarrow> line_scan \<Rightarrow> string list \<Rightarrow> line_scan" where
  "scan_lines first index sc [] = sc"
| "scan_lines first index sc (line # rest) =
     (if line = first then
        (let sc = sc\<lparr>sc_exact := sc_exact sc @ [index]\<rparr> in
         if length (sc_exact sc) \<ge> MAX_MATCH_CANDIDATES then sc
         else scan_lines first (Suc index) sc rest)
      else
        let sc = (if sc_trailing sc = None \<and> trim_end line = trim_end first
                  then sc\<lparr>sc_trailing := Some index\<rparr> else sc);
            sc = (if sc_space sc = None \<and> str_trim line = str_trim first
                  then sc\<lparr>sc_space := Some index\<rparr> else sc) in
        scan_lines first (Suc index) sc rest)"

definition best_candidate ::
    "string list \<Rightarrow> string list \<Rightarrow> (nat \<times> nat \<times> string option) option \<Rightarrow> nat
     \<Rightarrow> (nat \<times> nat \<times> string option) option" where
  "best_candidate content_lines hunk_lines best start =
     (let divergence = first_divergence content_lines hunk_lines start;
          matched = (case divergence of Some (offset, _) \<Rightarrow> offset | None \<Rightarrow> length hunk_lines) in
      if (case best of None \<Rightarrow> True | Some (best_matched, _) \<Rightarrow> matched > best_matched)
      then Some (matched, start, map_option snd divergence) else best)"

definition describe_preimage_miss :: "string \<Rightarrow> string \<Rightarrow> string" where
  "describe_preimage_miss content old =
     (let hunk_lines = str_lines old; content_lines = str_lines content in
      case hunk_lines of
        [] \<Rightarrow> []
      | first # _ \<Rightarrow>
          if content_lines = [] then ''; the target file is empty''
          else
            let sc = scan_lines first 0 \<lparr>sc_exact = [], sc_trailing = None, sc_space = None\<rparr> content_lines in
            case foldl (best_candidate content_lines hunk_lines) None (sc_exact sc) of
              Some (_, start, Some clause) \<Rightarrow>
                ''; the hunk'' @ [CHR 0x27] @ ''s first line matches at line '' @ show_nat (start + 1) @ '', but '' @ clause
            | Some (_, start, None) \<Rightarrow>
                ''; all '' @ show_nat (length hunk_lines) @ '' hunk line(s) match at line '' @ show_nat (start + 1)
                @ '', but the file uses CRLF line endings and this tool matches bytes exactly; convert the file to LF first (for example with a process command) or edit it without apply_patch''
            | None \<Rightarrow>
                (case sc_trailing sc of
                   Some index \<Rightarrow>
                     ''; a line matching the hunk'' @ [CHR 0x27] @ ''s first line is at line '' @ show_nat (index + 1)
                     @ '' but differs in trailing whitespace''
                 | None \<Rightarrow>
                     (case sc_space sc of
                        Some index \<Rightarrow>
                          ''; a line matching the hunk'' @ [CHR 0x27] @ ''s first line is at line '' @ show_nat (index + 1)
                          @ '' but differs in leading or trailing whitespace''
                      | None \<Rightarrow>
                          (case closest_line content_lines first of
                             Some (index, line) \<Rightarrow>
                               ''; the hunk'' @ [CHR 0x27] @ ''s first line '' @ quoted first @ '' was not found; line ''
                               @ show_nat (index + 1) @ '' is the closest match: '' @ quoted line
                           | None \<Rightarrow>
                               ''; the hunk'' @ [CHR 0x27] @ ''s first line '' @ quoted first @ '' was not found in the file''))))"

text \<open>The lines where an ambiguous preimage was found, at most five, searching on after each match.\<close>

fun more_matches :: "nat \<Rightarrow> string \<Rightarrow> string \<Rightarrow> nat \<Rightarrow> nat list" where
  "more_matches 0 content old search_from = []"
| "more_matches (Suc left) content old search_from =
     (case (if search_from \<le> length content then str_find (drop search_from content) old else None) of
        None \<Rightarrow> []
      | Some offset \<Rightarrow>
          line_number_at_byte content (search_from + offset)
          # more_matches left content old (search_from + offset + length old))"

definition describe_preimage_ambiguity :: "string \<Rightarrow> string \<Rightarrow> nat \<Rightarrow> string" where
  "describe_preimage_ambiguity content old first_match =
     (let lines = line_number_at_byte content first_match
            # more_matches (MAX_REPORTED_MATCHES - 1) content old (first_match + length old) in
      ''; it matches at lines '' @ join_strings '', '' (map show_nat lines) @ '' ''
      @ (if length lines \<ge> MAX_REPORTED_MATCHES then ''and possibly more places''
         else ''so make the preimage unique''))"

section \<open>Replacements\<close>

datatype WorkspacePatchSuccessLineKind = LineContext | LineRemove | LineAdd | LineUnknown

record WorkspacePatchSuccessLine =
  sl_kind :: WorkspacePatchSuccessLineKind
  sl_old_line :: "nat option"
  sl_new_line :: "nat option"
  sl_text :: string

record WorkspacePatchReplacement =
  rp_text :: string
  rp_preimage_bytes :: nat
  rp_replacement_bytes :: nat
  rp_lines :: "WorkspacePatchSuccessLine list"

fun success_lines_from :: "nat \<Rightarrow> nat \<Rightarrow> WorkspacePatchLine list \<Rightarrow> WorkspacePatchSuccessLine list" where
  "success_lines_from old_no new_no [] = []"
| "success_lines_from old_no new_no (Context t # ls) =
     \<lparr>sl_kind = LineContext, sl_old_line = Some old_no, sl_new_line = Some new_no, sl_text = t\<rparr>
     # success_lines_from (old_no + 1) (new_no + 1) ls"
| "success_lines_from old_no new_no (Remove t # ls) =
     \<lparr>sl_kind = LineRemove, sl_old_line = Some old_no, sl_new_line = None, sl_text = t\<rparr>
     # success_lines_from (old_no + 1) new_no ls"
| "success_lines_from old_no new_no (Add t # ls) =
     \<lparr>sl_kind = LineAdd, sl_old_line = None, sl_new_line = Some new_no, sl_text = t\<rparr>
     # success_lines_from old_no (new_no + 1) ls"

definition success_lines_for_hunk :: "nat \<Rightarrow> nat \<Rightarrow> WorkspacePatchHunk \<Rightarrow> WorkspacePatchSuccessLine list" where
  "success_lines_for_hunk old_start_line new_start_line h =
     success_lines_from old_start_line new_start_line (hk_lines h)"

definition old_line_number_before_applied_delta :: "nat \<Rightarrow> int \<Rightarrow> nat" where
  "old_line_number_before_applied_delta new_line_no applied_line_delta =
     nat (max (int new_line_no - applied_line_delta) 1)"

definition line_delta_for_hunk :: "WorkspacePatchHunk \<Rightarrow> int" where
  "line_delta_for_hunk h =
     foldl (\<lambda>delta line. case line of Context _ \<Rightarrow> delta | Remove _ \<Rightarrow> delta - 1 | Add _ \<Rightarrow> delta + 1)
       0 (hk_lines h)"

definition build_replacement ::
    "string \<Rightarrow> string \<Rightarrow> string \<Rightarrow> WorkspacePatchHunk \<Rightarrow> int
     \<Rightarrow> (string \<times> WorkspacePatchSuccessLine list, DomainError) result" where
  "build_replacement content old new h applied_line_delta =
     (case str_find content old of
        None \<Rightarrow> Err (domain_error ERROR_PREIMAGE_ABSENT
          (''workspace patch preimage was not found'' @ describe_preimage_miss content old))
      | Some start \<Rightarrow>
          let after_start = start + length old in
          if str_contains (drop after_start content) old
          then Err (domain_error ERROR_PREIMAGE_AMBIGUOUS
            (''workspace patch preimage matched more than once''
             @ describe_preimage_ambiguity content old start))
          else
            let new_start_line = line_number_at_byte content start;
                old_start_line = old_line_number_before_applied_delta new_start_line applied_line_delta in
            Ok (take start content @ new @ drop after_start content,
                success_lines_for_hunk old_start_line new_start_line h))"

record replacement_state =
  rs_replacement :: string
  rs_preimage :: nat
  rs_added :: nat
  rs_lines :: "WorkspacePatchSuccessLine list"
  rs_delta :: int

definition apply_hunk ::
    "bool \<Rightarrow> replacement_state \<Rightarrow> WorkspacePatchHunk \<Rightarrow> (replacement_state, DomainError) result" where
  "apply_hunk trailing_newline rs h =
     (let old = old_text h trailing_newline; new = new_text h trailing_newline in
      if old = [] then Err (domain_error ERROR_PATCH_SYNTAX
        ''workspace patch hunk has only + lines and no anchor; include at least one context line or removed line so the insert position is unambiguous'')
      else
        and_then (build_replacement (rs_replacement rs) old new h (rs_delta rs)) (\<lambda>(replaced, lines).
        Ok \<lparr>rs_replacement = replaced, rs_preimage = rs_preimage rs + length old,
            rs_added = rs_added rs + length new, rs_lines = rs_lines rs @ lines,
            rs_delta = rs_delta rs + line_delta_for_hunk h\<rparr>))"

definition start_replacement :: "string \<Rightarrow> replacement_state" where
  "start_replacement content =
     \<lparr>rs_replacement = content, rs_preimage = 0, rs_added = 0, rs_lines = [], rs_delta = 0\<rparr>"

definition build_patch_replacement ::
    "string \<Rightarrow> WorkspacePatchHunk list \<Rightarrow> (WorkspacePatchReplacement, DomainError) result" where
  "build_patch_replacement content hunks =
     and_then (fold_res (apply_hunk (ends_with_char content LF)) (start_replacement content) hunks) (\<lambda>rs.
     Ok \<lparr>rp_text = rs_replacement rs, rp_preimage_bytes = rs_preimage rs,
         rp_replacement_bytes = rs_added rs, rp_lines = rs_lines rs\<rparr>)"

fun new_file_lines :: "nat \<Rightarrow> string list \<Rightarrow> WorkspacePatchSuccessLine list" where
  "new_file_lines index [] = []"
| "new_file_lines index (line # rest) =
     \<lparr>sl_kind = LineAdd, sl_old_line = None, sl_new_line = Some (index + 1), sl_text = line\<rparr>
     # new_file_lines (index + 1) rest"

definition build_new_file_replacement :: "string list \<Rightarrow> WorkspacePatchReplacement" where
  "build_new_file_replacement lines =
     (let t = concat (map (\<lambda>line. line @ [LF]) lines) in
      \<lparr>rp_text = t, rp_preimage_bytes = 0, rp_replacement_bytes = length t, rp_lines = new_file_lines 0 lines\<rparr>)"

end
