(* ===== verification/Patch_Parse.thy ===== *)
theory Patch_Parse
  imports Patch_Types
begin

text \<open>
  The parser of the \<^verbatim>\<open>apply_patch\<close> envelope: \<^verbatim>\<open>merry-tools/src/patch/parse.rs\<close>. The source walks
  an index over the list of lines; the model passes the lines from that index on, so the end of the
  list is the index at its length and every loop is recursion on the list.
\<close>

section \<open>Grammar\<close>

definition BEGIN_WORKSPACE :: string where "BEGIN_WORKSPACE = ''*** Begin Workspace Patch''"
definition END_WORKSPACE :: string where "END_WORKSPACE = ''*** End Workspace Patch''"
definition BEGIN_STANDARD :: string where "BEGIN_STANDARD = ''*** Begin Patch''"
definition END_STANDARD :: string where "END_STANDARD = ''*** End Patch''"
definition ADD_PREFIX :: string where "ADD_PREFIX = ''*** Add File: ''"
definition UPDATE_PREFIX :: string where "UPDATE_PREFIX = ''*** Update File: ''"
definition DELETE_PREFIX :: string where "DELETE_PREFIX = ''*** Delete File: ''"

datatype SectionKind = SectionAdd | SectionUpdate | SectionDelete

fun marker :: "SectionKind \<Rightarrow> string" where
  "marker SectionAdd = ADD_PREFIX"
| "marker SectionUpdate = UPDATE_PREFIX"
| "marker SectionDelete = DELETE_PREFIX"

fun header_from :: "SectionKind list \<Rightarrow> string \<Rightarrow> (SectionKind \<times> string) option" where
  "header_from [] line = None"
| "header_from (kind # kinds) line =
     (case strip_prefix (marker kind) line of
        Some path \<Rightarrow> Some (kind, path)
      | None \<Rightarrow> header_from kinds line)"

definition from_header :: "string \<Rightarrow> (SectionKind \<times> string) option" where
  "from_header line = header_from [SectionAdd, SectionUpdate, SectionDelete] line"

record WorkspacePatchParseError =
  pp_code :: string
  pp_message :: string
  pp_path :: "string option"

type_synonym 'a parse_result = "('a, WorkspacePatchParseError) result"

definition syntax_error :: "string \<Rightarrow> string option \<Rightarrow> WorkspacePatchParseError" where
  "syntax_error message path = \<lparr>pp_code = ERROR_PATCH_SYNTAX, pp_message = message, pp_path = path\<rparr>"

definition noop_error :: "string \<Rightarrow> string option \<Rightarrow> WorkspacePatchParseError" where
  "noop_error message path = \<lparr>pp_code = ERROR_PATCH_NOOP, pp_message = message, pp_path = path\<rparr>"

definition ticked :: "string \<Rightarrow> string" where
  "ticked t = [CHR 0x60] @ t @ [CHR 0x60]"

abbreviation preview :: "string \<Rightarrow> string" where
  "preview line \<equiv> ticked (single_line_preview line PREVIEW_CHARS)"

definition patch_line :: "string \<Rightarrow> string" where
  "patch_line line = strip_suffix_char CR line"

fun skip_blank_patch_lines :: "string list \<Rightarrow> string list" where
  "skip_blank_patch_lines [] = []"
| "skip_blank_patch_lines (line # rest) =
     (if str_trim (patch_line line) = [] then skip_blank_patch_lines rest else line # rest)"

section \<open>Sections\<close>

definition section_ends :: "string \<Rightarrow> string \<Rightarrow> bool" where
  "section_ends end_marker line \<longleftrightarrow> line = end_marker \<or> from_header line \<noteq> None"

definition push_apply_patch_hunk ::
    "WorkspacePatchHunk list \<Rightarrow> WorkspacePatchLine list \<Rightarrow> WorkspacePatchHunk list" where
  "push_apply_patch_hunk hunks current =
     (if current = [] then hunks else hunks @ [\<lparr>hk_lines = current\<rparr>])"

text \<open>
  \<^verbatim>\<open>split_at_checked(1)\<close> gives nothing for an empty line and for a line whose first character is
  longer than one byte.
\<close>

fun split_first :: "string \<Rightarrow> (char \<times> string) option" where
  "split_first [] = None"
| "split_first (c # cs) = (if byte_of c < 128 then Some (c, cs) else None)"

fun hunk_lines_loop ::
    "string \<Rightarrow> string \<Rightarrow> WorkspacePatchHunk list \<Rightarrow> WorkspacePatchLine list \<Rightarrow> string list
     \<Rightarrow> (WorkspacePatchHunk list \<times> string list) parse_result" where
  "hunk_lines_loop path end_marker hunks current [] = Ok (push_apply_patch_hunk hunks current, [])"
| "hunk_lines_loop path end_marker hunks current (raw # rest) =
     (let line = patch_line raw in
      if section_ends end_marker line then Ok (push_apply_patch_hunk hunks current, raw # rest)
      else if str_trim line = [] \<and> current = [] then hunk_lines_loop path end_marker hunks current rest
      else if starts_with line ''@@''
      then hunk_lines_loop path end_marker (push_apply_patch_hunk hunks current) [] rest
      else
        case split_first line of
          None \<Rightarrow> Err (syntax_error
            (''workspace patch hunk line must start with a space, '' @ ticked ''+'' @ '', or '' @ ticked ''-''
             @ ''; found a blank line where a hunk line was expected (prefix context lines with one space)'')
            (Some path))
        | Some (prefix, t) \<Rightarrow>
            if prefix = CHR '' '' then hunk_lines_loop path end_marker hunks (current @ [Context t]) rest
            else if prefix = CHR ''-'' then hunk_lines_loop path end_marker hunks (current @ [Remove t]) rest
            else if prefix = CHR ''+'' then hunk_lines_loop path end_marker hunks (current @ [Add t]) rest
            else Err (syntax_error
              (''workspace patch hunk line must start with a space, '' @ ticked ''+'' @ '', or '' @ ticked ''-''
               @ ''; found '' @ preview line) (Some path)))"

definition parse_apply_patch_update_hunks ::
    "string list \<Rightarrow> string \<Rightarrow> string \<Rightarrow> (WorkspacePatchHunk list \<times> string list) parse_result" where
  "parse_apply_patch_update_hunks lines path end_marker =
     and_then (hunk_lines_loop path end_marker [] [] lines) (\<lambda>(hunks, rest).
     if hunks = [] then Err (syntax_error
       (''workspace patch update section for '' @ ticked path @ '' contains no hunk lines; send ''
        @ ticked ''@@'' @ '' followed by context, '' @ ticked ''+'' @ '', or '' @ ticked ''-'' @ '' lines'')
       (Some path))
     else Ok (hunks, rest))"

fun add_lines_loop ::
    "string \<Rightarrow> string \<Rightarrow> string list \<Rightarrow> string list \<Rightarrow> (string list \<times> string list) parse_result" where
  "add_lines_loop path end_marker contents [] = Ok (contents, [])"
| "add_lines_loop path end_marker contents (raw # rest) =
     (let line = patch_line raw in
      if section_ends end_marker line then Ok (contents, raw # rest)
      else if str_trim line = [] then add_lines_loop path end_marker contents rest
      else
        case split_first line of
          None \<Rightarrow> Err (syntax_error
            (''workspace patch add lines must start with '' @ ticked ''+'' @ ''; found a blank line'') (Some path))
        | Some (prefix, t) \<Rightarrow>
            if prefix \<noteq> CHR ''+'' then Err (syntax_error
              (''workspace patch add lines must start with '' @ ticked ''+'' @ ''; found '' @ preview line)
              (Some path))
            else add_lines_loop path end_marker (contents @ [t]) rest)"

definition parse_apply_patch_add_lines ::
    "string list \<Rightarrow> string \<Rightarrow> string \<Rightarrow> (string list \<times> string list) parse_result" where
  "parse_apply_patch_add_lines lines path end_marker =
     and_then (add_lines_loop path end_marker [] lines) (\<lambda>(contents, rest).
     if contents = [] then Err (syntax_error
       (''workspace patch add section for '' @ ticked path @ '' contains no '' @ ticked ''+''
        @ '' lines; every line of the new file needs a '' @ ticked ''+'' @ '' prefix'') (Some path))
     else Ok (contents, rest))"

fun parse_apply_patch_delete_section ::
    "string list \<Rightarrow> string \<Rightarrow> string \<Rightarrow> string list parse_result" where
  "parse_apply_patch_delete_section [] path end_marker = Ok []"
| "parse_apply_patch_delete_section (raw # rest) path end_marker =
     (let line = patch_line raw in
      if section_ends end_marker line then Ok (raw # rest)
      else if str_trim line = [] then parse_apply_patch_delete_section rest path end_marker
      else Err (syntax_error
        (''workspace patch delete section for '' @ ticked path @ '' must not contain content lines; found ''
         @ preview line) (Some path)))"

definition parse_section ::
    "SectionKind \<Rightarrow> string list \<Rightarrow> string \<Rightarrow> string \<Rightarrow> (WorkspacePatchOperation \<times> string list) parse_result" where
  "parse_section kind lines path end_marker =
     (case kind of
        SectionAdd \<Rightarrow>
          and_then (parse_apply_patch_add_lines lines path end_marker) (\<lambda>(ls, rest). Ok (AddFile ls, rest))
      | SectionUpdate \<Rightarrow>
          and_then (parse_apply_patch_update_hunks lines path end_marker) (\<lambda>(hs, rest). Ok (UpdateFile hs, rest))
      | SectionDelete \<Rightarrow>
          and_then (parse_apply_patch_delete_section lines path end_marker) (\<lambda>rest. Ok (DeleteFile, rest)))"

section \<open>Files\<close>

text \<open>
  Merging a section into the files read so far. The source keeps an index by path; the files are
  looked up by their path here, and the index holds each path once.
\<close>

fun merge_operation ::
    "string \<Rightarrow> WorkspacePatchOperation \<Rightarrow> WorkspacePatchOperation \<Rightarrow> WorkspacePatchOperation parse_result" where
  "merge_operation path (UpdateFile hunks) (UpdateFile additional) = Ok (UpdateFile (hunks @ additional))"
| "merge_operation path (AddFile _) (AddFile _) = Err (syntax_error
     (''workspace patch adds '' @ ticked path @ '' more than once; use one '' @ ADD_PREFIX @ ''section per new file'')
     (Some path))"
| "merge_operation path _ _ = Err (syntax_error
     (''workspace patch mixes Add File, Update File, or Delete File sections for '' @ ticked path
      @ ''; use one section per file and merge its hunks into that section'') (Some path))"

fun add_section ::
    "string \<Rightarrow> WorkspacePatchOperation \<Rightarrow> WorkspacePatchFile list \<Rightarrow> WorkspacePatchFile list parse_result" where
  "add_section path operation [] =
     Ok [\<lparr>pf_path = path, pf_operation = operation, pf_ignored_context_hunks = 0\<rparr>]"
| "add_section path operation (f # fs) =
     (if pf_path f = path then
        and_then (merge_operation path (pf_operation f) operation) (\<lambda>merged.
        Ok (f\<lparr>pf_operation := merged\<rparr> # fs))
      else and_then (add_section path operation fs) (\<lambda>fs'. Ok (f # fs')))"

text \<open>What follows a section is never longer than what it started with.\<close>

lemma skip_blank_length [termination_simp]: "length (skip_blank_patch_lines ls) \<le> length ls"
  by (induction ls) auto

lemma hunk_lines_loop_length:
  "hunk_lines_loop path e hs cur ls = Ok (hs', rest) \<Longrightarrow> length rest \<le> length ls"
  by (induction path e hs cur ls rule: hunk_lines_loop.induct)
    (fastforce simp: Let_def split: if_splits option.splits)+

lemma add_lines_loop_length:
  "add_lines_loop path e cs ls = Ok (cs', rest) \<Longrightarrow> length rest \<le> length ls"
  by (induction path e cs ls rule: add_lines_loop.induct)
    (fastforce simp: Let_def split: if_splits option.splits)+

lemma delete_section_length:
  "parse_apply_patch_delete_section ls path e = Ok rest \<Longrightarrow> length rest \<le> length ls"
  by (induction ls path e rule: parse_apply_patch_delete_section.induct)
    (fastforce simp: Let_def split: if_splits)+

lemma parse_section_length [termination_simp]:
  "parse_section kind ls path e = Ok (operation, rest) \<Longrightarrow> length rest \<le> length ls"
  by (auto simp: parse_section_def parse_apply_patch_update_hunks_def parse_apply_patch_add_lines_def
      result_simps split: SectionKind.splits if_splits
      dest: hunk_lines_loop_length add_lines_loop_length delete_section_length)

section \<open>Envelopes\<close>

function (sequential) parse_files_loop ::
    "string \<Rightarrow> WorkspacePatchFile list \<Rightarrow> string list \<Rightarrow> WorkspacePatchFile list parse_result" where
  "parse_files_loop end_marker files lines =
     (case skip_blank_patch_lines lines of
        [] \<Rightarrow> Err (syntax_error (''workspace patch must end with '' @ ticked end_marker) None)
      | raw # rest \<Rightarrow>
          let line = patch_line raw in
          if line = end_marker then
            (case skip_blank_patch_lines rest of
               [] \<Rightarrow> Ok files
             | trailing # _ \<Rightarrow> Err (syntax_error
                 (''workspace patch must not contain text after '' @ ticked end_marker @ ''; found ''
                  @ preview trailing) None))
          else if line = BEGIN_WORKSPACE \<or> line = BEGIN_STANDARD
          then Err (syntax_error
            ''workspace patch contains a duplicate begin marker; provide exactly one patch envelope'' None)
          else
            case from_header line of
              None \<Rightarrow> Err (syntax_error
                (''workspace patch expected '' @ ticked ''*** Add File: <path>'' @ '', ''
                 @ ticked ''*** Update File: <path>'' @ '', or '' @ ticked ''*** Delete File: <path>''
                 @ ''; found '' @ preview line) None)
            | Some (kind, raw_path) \<Rightarrow>
                let path = str_trim raw_path in
                if path = [] then Err (syntax_error
                  (''workspace patch '' @ str_trim (marker kind)
                   @ '' section must name a path inside the workspace'') None)
                else
                  and_then (parse_section kind rest path end_marker) (\<lambda>(operation, rest').
                  and_then (add_section path operation files) (\<lambda>files'.
                  parse_files_loop end_marker files' rest')))"
  by pat_completeness auto
termination
proof (relation "measure (\<lambda>(_, _, lines). length lines)")
  fix end_marker :: string and files files' :: "WorkspacePatchFile list" and lines rest rest' :: "string list"
    and raw line raw_path path :: string and h kind and x :: "WorkspacePatchOperation \<times> string list" and operation
  assume skip: "skip_blank_patch_lines lines = raw # rest"
    and parsed: "parse_section kind rest path end_marker = Ok x" and x: "(operation, rest') = x"
  have "length rest < length lines" using skip skip_blank_length [of lines] by simp
  moreover have "length rest' \<le> length rest" using parse_section_length parsed x by blast
  ultimately show "((end_marker, files', rest'), end_marker, files, lines)
      \<in> measure (\<lambda>(_, _, lines). length lines)" by simp
qed simp

declare parse_files_loop.simps [simp del]

text \<open>The end marker that goes with a begin marker.\<close>

definition end_marker_of :: "string \<Rightarrow> string option" where
  "end_marker_of line =
     (if line = BEGIN_WORKSPACE then Some END_WORKSPACE
      else if line = BEGIN_STANDARD then Some END_STANDARD else None)"

definition drop_context_hunks :: "WorkspacePatchFile \<Rightarrow> WorkspacePatchFile" where
  "drop_context_hunks f =
     (case pf_operation f of
        UpdateFile hunks \<Rightarrow>
          let retained = filter hunk_has_edit hunks in
          f\<lparr>pf_operation := UpdateFile retained,
            pf_ignored_context_hunks := length hunks - length retained\<rparr>
      | _ \<Rightarrow> f)"

definition strip_bom :: "string \<Rightarrow> string" where
  "strip_bom s = (case strip_prefix [CHR 0xEF, CHR 0xBB, CHR 0xBF] s of Some t \<Rightarrow> t | None \<Rightarrow> s)"

definition parse_apply_patch :: "string \<Rightarrow> WorkspacePatch parse_result" where
  "parse_apply_patch raw_patch =
     (case skip_blank_patch_lines (str_lines (strip_bom raw_patch)) of
        [] \<Rightarrow> Err (syntax_error
          (''workspace patch must not be empty; send one '' @ ticked ''*** Begin Patch'' @ '' ... ''
           @ ticked ''*** End Patch'' @ '' envelope with the file sections inside it'') None)
      | first # rest \<Rightarrow>
          (case end_marker_of (patch_line first) of
             None \<Rightarrow> Err (syntax_error
               (''workspace patch must start with '' @ ticked ''*** Begin Patch'' @ '' (or ''
                @ ticked ''*** Begin Workspace Patch'' @ ''); the first non-blank line is ''
                @ preview (patch_line first)) None)
           | Some end_marker \<Rightarrow>
               and_then (parse_files_loop end_marker [] rest) (\<lambda>files.
               if files = [] then Err (syntax_error
                 (''workspace patch must contain at least one file section ('' @ ticked ''*** Add File:''
                  @ '', '' @ ticked ''*** Update File:'' @ '', or '' @ ticked ''*** Delete File:'' @ '')'') None)
               else if \<not> list_ex file_has_edit files then Err (noop_error
                 (''workspace patch contains no '' @ ticked ''+'' @ '' or '' @ ticked ''-''
                  @ '' lines, so nothing would change. Send the added or removed lines as '' @ ticked ''+''
                  @ ''/'' @ ticked ''-'' @ '' hunk lines to edit the file, or use '' @ ticked ''read_text''
                  @ '' when you only need to inspect the current content'')
                 (case files of [f] \<Rightarrow> Some (pf_path f) | _ \<Rightarrow> None))
               else Ok \<lparr>wp_files = filter file_has_edit (map drop_context_hunks files)\<rparr>)))"

end
