(* ===== verification/Process_Shell.thy ===== *)
theory Process_Shell
  imports Tool_Text
begin

text \<open>
  Recognition of shell wrappers: \<^verbatim>\<open>merry-runtime/src/process/classification/shell.rs\<close> on Unix. The
  source walks a \<^verbatim>\<open>Peekable<Chars>\<close>; here the remaining characters are a list of pieces, one piece per
  character of the script, so that a collected word is the concatenation of its pieces.
\<close>

section \<open>Wrappers\<close>

record ShellProcessInput =
  si_shell :: string
  si_flag :: string
  si_script :: string

definition is_ascii_digit :: "char \<Rightarrow> bool" where
  "is_ascii_digit c \<longleftrightarrow> 48 \<le> byte_of c \<and> byte_of c \<le> 57"

definition is_ascii_alphabetic :: "char \<Rightarrow> bool" where
  "is_ascii_alphabetic c \<longleftrightarrow> (65 \<le> byte_of c \<and> byte_of c \<le> 90) \<or> (97 \<le> byte_of c \<and> byte_of c \<le> 122)"

definition is_ascii_alphanumeric :: "char \<Rightarrow> bool" where
  "is_ascii_alphanumeric c \<longleftrightarrow> is_ascii_alphabetic c \<or> is_ascii_digit c"

definition to_ascii_lowercase :: "char \<Rightarrow> char" where
  "to_ascii_lowercase c = (if 65 \<le> byte_of c \<and> byte_of c \<le> 90 then char_of (byte_of c + 32) else c)"

definition executable_name :: "string \<Rightarrow> string" where
  "executable_name argument =
     map to_ascii_lowercase (rev (takeWhile (\<lambda>c. c \<noteq> CHR ''/'' \<and> c \<noteq> CHR 0x5C) (rev argument)))"

definition executable_token_is :: "string \<Rightarrow> string \<Rightarrow> bool" where
  "executable_token_is argument expected \<longleftrightarrow> argument = expected"

definition is_supported_plain_shell_token :: "string \<Rightarrow> bool" where
  "is_supported_plain_shell_token shell \<longleftrightarrow> shell \<in> {''bash'', ''sh'', ''zsh''}"

definition is_supported_shell_executable_name :: "string \<Rightarrow> bool" where
  "is_supported_shell_executable_name shell \<longleftrightarrow> executable_name shell \<in> {''bash'', ''sh'', ''zsh''}"

definition shell_process_input_from_argv :: "string list \<Rightarrow> ShellProcessInput option" where
  "shell_process_input_from_argv argv =
     (case argv of
        [shell, flag, script] \<Rightarrow>
          if \<not> is_supported_plain_shell_token shell \<or> flag \<notin> {''-c'', ''-lc''} then None
          else Some \<lparr>si_shell = shell, si_flag = flag, si_script = script\<rparr>
      | _ \<Rightarrow> None)"

definition shell_like_process_input_from_argv :: "string list \<Rightarrow> ShellProcessInput option" where
  "shell_like_process_input_from_argv argv =
     (case argv of
        [shell, flag, script] \<Rightarrow>
          if \<not> is_supported_shell_executable_name shell \<or> flag \<notin> {''-c'', ''-lc''} then None
          else Some \<lparr>si_shell = shell, si_flag = flag, si_script = script\<rparr>
      | _ \<Rightarrow> None)"

definition shell_command_argv :: "string \<Rightarrow> string list" where
  "shell_command_argv command = [''bash'', ''-lc'', command]"

definition shell_command_from_argv :: "string list \<Rightarrow> string option" where
  "shell_command_from_argv argv =
     (case argv of
        [shell, flag, command] \<Rightarrow>
          if shell = ''bash'' \<and> flag \<in> {''-c'', ''-lc''} then Some command else None
      | _ \<Rightarrow> None)"

definition is_safe_shell_word_byte :: "char \<Rightarrow> bool" where
  "is_safe_shell_word_byte c \<longleftrightarrow> is_ascii_alphanumeric c \<or> c \<in> set ''_-./:=@%+''"

abbreviation QUOTE :: char where "QUOTE \<equiv> CHR 0x27"

definition shell_quote_argument :: "string \<Rightarrow> string" where
  "shell_quote_argument argument =
     (if argument \<noteq> [] \<and> list_all is_safe_shell_word_byte argument then argument
      else [QUOTE] @ concat (map (\<lambda>c. if c = QUOTE then [QUOTE, CHR 0x5C, QUOTE, QUOTE] else [c]) argument)
           @ [QUOTE])"

definition shell_command_for_argv :: "string list \<Rightarrow> string" where
  "shell_command_for_argv argv =
     (case shell_command_from_argv argv of
        Some command \<Rightarrow> command
      | None \<Rightarrow> join_strings '' '' (map shell_quote_argument argv))"

section \<open>Plain command sequences\<close>

definition is_shell_sequence_operator_start :: "string \<Rightarrow> bool" where
  "is_shell_sequence_operator_start character \<longleftrightarrow> character \<in> {'';'', ''|'', ''&''}"

definition shell_word_character_is_disallowed :: "string \<Rightarrow> bool" where
  "shell_word_character_is_disallowed character \<longleftrightarrow>
     character \<in> {''$'', [CHR 0x60], [CHR 0x5C], ''<'', ''>'', ''('', '')'', ''{'', ''}'', ''['', '']'', ''*'', ''?'',
       ''~'', ''#'', ''!''}"

definition skip_shell_whitespace :: "string list \<Rightarrow> string list" where
  "skip_shell_whitespace chars = dropWhile space_piece chars"

fun parse_shell_sequence_operator :: "string list \<Rightarrow> string list option" where
  "parse_shell_sequence_operator [] = None"
| "parse_shell_sequence_operator (c # chars) =
     (let peek = (case chars of [] \<Rightarrow> None | d # _ \<Rightarrow> Some d) in
      if c \<in> {'';'', ''|''} \<and> peek \<noteq> Some ''|'' then Some chars
      else if c = ''|'' \<and> peek = Some ''|'' then Some (tl chars)
      else if c = ''&'' \<and> peek = Some ''&'' then Some (tl chars)
      else None)"

fun parse_plain_single_quoted_shell_fragment :: "string \<Rightarrow> string list \<Rightarrow> (string \<times> string list) option" where
  "parse_plain_single_quoted_shell_fragment word [] = None"
| "parse_plain_single_quoted_shell_fragment word (c # chars) =
     (if c = [QUOTE] then Some (word, chars)
      else parse_plain_single_quoted_shell_fragment (word @ c) chars)"

fun parse_plain_double_quoted_shell_fragment :: "string \<Rightarrow> string list \<Rightarrow> (string \<times> string list) option" where
  "parse_plain_double_quoted_shell_fragment word [] = None"
| "parse_plain_double_quoted_shell_fragment word (c # chars) =
     (if c = [CHR 0x22] then Some (word, chars)
      else if c \<in> {''$'', [CHR 0x60], [CHR 0x5C], ''!''} then None
      else parse_plain_double_quoted_shell_fragment (word @ c) chars)"

lemma single_quoted_shorter:
  "parse_plain_single_quoted_shell_fragment word chars = Some (w, rest) \<Longrightarrow> length rest < length chars"
  by (induction word chars rule: parse_plain_single_quoted_shell_fragment.induct) (auto split: if_splits)

lemma double_quoted_shorter:
  "parse_plain_double_quoted_shell_fragment word chars = Some (w, rest) \<Longrightarrow> length rest < length chars"
  by (induction word chars rule: parse_plain_double_quoted_shell_fragment.induct) (auto split: if_splits)

function (sequential) plain_shell_word_loop :: "string \<Rightarrow> string list \<Rightarrow> (string \<times> string list) option" where
  "plain_shell_word_loop word [] = Some (word, [])"
| "plain_shell_word_loop word (c # chars) =
     (if space_piece c \<or> is_shell_sequence_operator_start c then Some (word, c # chars)
      else if c = [QUOTE] then
        case parse_plain_single_quoted_shell_fragment word chars of
          None \<Rightarrow> None | Some (w, rest) \<Rightarrow> plain_shell_word_loop w rest
      else if c = [CHR 0x22] then
        case parse_plain_double_quoted_shell_fragment word chars of
          None \<Rightarrow> None | Some (w, rest) \<Rightarrow> plain_shell_word_loop w rest
      else if shell_word_character_is_disallowed c then None
      else plain_shell_word_loop (word @ c) chars)"
  by pat_completeness auto
termination
  by (relation "measure (\<lambda>(word, chars). length chars)")
    (auto dest: single_quoted_shorter double_quoted_shorter)

definition parse_plain_shell_word :: "string list \<Rightarrow> (string \<times> string list) option" where
  "parse_plain_shell_word chars = plain_shell_word_loop [] chars"

lemma word_loop_shorter:
  "plain_shell_word_loop word chars = Some (w, rest) \<Longrightarrow> length rest \<le> length chars"
proof (induction word chars rule: plain_shell_word_loop.induct)
  case (2 word c chars)
  then show ?case
    by (fastforce split: if_splits option.splits dest: single_quoted_shorter double_quoted_shorter)
qed simp

lemma word_shorter:
  assumes "parse_plain_shell_word (c # chars) = Some (w, rest)"
    and "\<not> space_piece c" and "\<not> is_shell_sequence_operator_start c"
  shows "length rest < length (c # chars)"
  using assms
  by (fastforce simp: parse_plain_shell_word_def split: if_splits option.splits
      dest: word_loop_shorter single_quoted_shorter double_quoted_shorter)

lemma operator_shorter: "parse_shell_sequence_operator chars = Some rest \<Longrightarrow> length rest < length chars"
  by (cases chars) (auto simp: Let_def split: if_splits list.splits)

lemma skip_shorter: "skip_shell_whitespace chars = c # rest \<Longrightarrow> length rest < length chars \<and> \<not> space_piece c"
  unfolding skip_shell_whitespace_def
  using length_dropWhile_le [of space_piece chars] hd_dropWhile [of space_piece chars] by auto

function command_sequence_loop ::
    "string list list \<Rightarrow> string list \<Rightarrow> bool \<Rightarrow> string list \<Rightarrow> string list list option" where
  "command_sequence_loop commands current last_op chars =
     (case skip_shell_whitespace chars of
        [] \<Rightarrow>
          if last_op then None
          else if current \<noteq> [] then Some (commands @ [current])
          else if commands = [] then None
          else Some commands
      | next # rest \<Rightarrow>
          if is_shell_sequence_operator_start next then
            case parse_shell_sequence_operator (next # rest) of
              None \<Rightarrow> None
            | Some chars' \<Rightarrow>
                if current = [] then None else command_sequence_loop (commands @ [current]) [] True chars'
          else
            case parse_plain_shell_word (next # rest) of
              None \<Rightarrow> None
            | Some (word, chars') \<Rightarrow>
                if word = [] then None else command_sequence_loop commands (current @ [word]) False chars')"
  by pat_completeness auto
termination
  by (relation "measure (\<lambda>(commands, current, last_op, chars). length chars)")
    (auto simp del: parse_shell_sequence_operator.simps dest!: skip_shorter operator_shorter word_shorter)

declare command_sequence_loop.simps [simp del]

definition parse_plain_shell_command_sequence :: "string \<Rightarrow> string list list option" where
  "parse_plain_shell_command_sequence script = command_sequence_loop [] [] False (str_pieces script)"

section \<open>Rough words\<close>

definition is_plain_shell_assignment_word :: "string \<Rightarrow> bool" where
  "is_plain_shell_assignment_word word \<longleftrightarrow>
     CHR ''='' \<in> set word
     \<and> (let name = takeWhile (\<lambda>c. c \<noteq> CHR ''='') word; value = tl (dropWhile (\<lambda>c. c \<noteq> CHR ''='') word) in
        name \<noteq> [] \<and> value \<noteq> []
        \<and> list_all (\<lambda>(index, c). c = CHR ''_'' \<or> is_ascii_alphabetic c \<or> (index > 0 \<and> is_ascii_digit c))
            (zip [0..<length name] name))"

definition shell_command_without_assignment_prefix :: "string list \<Rightarrow> string list" where
  "shell_command_without_assignment_prefix command = dropWhile is_plain_shell_assignment_word command"

text \<open>\<^verbatim>\<open>str::split\<close> with a predicate on characters.\<close>

fun split_pieces :: "(string \<Rightarrow> bool) \<Rightarrow> string \<Rightarrow> string list \<Rightarrow> string list" where
  "split_pieces sep word [] = [word]"
| "split_pieces sep word (c # chars) =
     (if sep c then word # split_pieces sep [] chars else split_pieces sep (word @ c) chars)"

definition rough_separator :: "string \<Rightarrow> bool" where
  "rough_separator c \<longleftrightarrow> space_piece c
     \<or> c \<in> {'';'', ''|'', ''&'', ''<'', ''>'', ''('', '')'', ''{'', ''}'', ''['', '']'', [QUOTE], [CHR 0x22]}"

definition rough_shell_words :: "string \<Rightarrow> string list" where
  "rough_shell_words script =
     filter (\<lambda>word. word \<noteq> []) (split_pieces rough_separator [] (str_pieces script))"

end
