(* ===== verification/Process_Intent.thy ===== *)
theory Process_Intent
  imports Process_Shell Workspace_Scope
begin

text \<open>
  Validated process intents: \<^verbatim>\<open>merry-runtime/src/process/validation.rs\<close> and the value types of
  \<^verbatim>\<open>merry-runtime/src/process/contracts.rs\<close>. The runner traits of the latter are not modelled; an
  intent is only a value that policy looks at.
\<close>

section \<open>Limits and errors\<close>

definition MAX_PROCESS_ARG_BYTES :: int where "MAX_PROCESS_ARG_BYTES = 4096"
definition MAX_PROCESS_ARGV_ITEMS :: int where "MAX_PROCESS_ARGV_ITEMS = 256"
definition MAX_PROCESS_CWD_BYTES :: int where "MAX_PROCESS_CWD_BYTES = 4096"
definition MAX_PROCESS_STDIN_TEXT_BYTES :: int where "MAX_PROCESS_STDIN_TEXT_BYTES = 64 * 1024"
definition MAX_PROCESS_OUTPUT_LIMIT_BYTES :: int where "MAX_PROCESS_OUTPUT_LIMIT_BYTES = 1024 * 1024"

datatype ProcessActionError =
    InvalidArgv string
  | InvalidArgument nat string
  | InvalidCwd string
  | InvalidStdinText string
  | InvalidOutputLimit string string
  | InvalidExecutionEvidence string string

section \<open>Validation\<close>

definition disallowed_argv_control_character :: "int \<Rightarrow> bool" where
  "disallowed_argv_control_character c \<longleftrightarrow> is_control c \<and> c \<notin> {10, 9}"

definition validate_argument :: "nat \<times> string \<Rightarrow> (unit, ProcessActionError) result" where
  "validate_argument = (\<lambda>(index, argument).
     if argument = [] then Err (InvalidArgument index ''must not be empty'')
     else if int (length argument) > MAX_PROCESS_ARG_BYTES
     then Err (InvalidArgument index ''exceeds the byte limit'')
     else if list_ex disallowed_argv_control_character (str_chars argument)
     then Err (InvalidArgument index ''must not contain control characters other than newline or tab'')
     else Ok ())"

definition validate_argv :: "string list \<Rightarrow> (unit, ProcessActionError) result" where
  "validate_argv argv =
     (if argv = [] then Err (InvalidArgv ''must not be empty'')
      else if int (length argv) > MAX_PROCESS_ARGV_ITEMS then Err (InvalidArgv ''contains too many arguments'')
      else for_each validate_argument (zip [0..<length argv] argv))"

definition validate_cwd_component :: "string \<Rightarrow> bool \<Rightarrow> Component \<Rightarrow> (bool, ProcessActionError) result" where
  "validate_cwd_component value saw_component c =
     (case c of
        Normal _ \<Rightarrow> Ok True
      | CurDir \<Rightarrow> if value = ''.'' then Ok saw_component else Err (InvalidCwd ''must not contain dot segments'')
      | ParentDir \<Rightarrow> Err (InvalidCwd ''must not contain dot segments'')
      | RootDir \<Rightarrow> Err (InvalidCwd ''must be relative''))"

definition validate_cwd :: "string option \<Rightarrow> (string option, ProcessActionError) result" where
  "validate_cwd cwd =
     (case cwd of
        None \<Rightarrow> Ok None
      | Some value \<Rightarrow>
          if str_trim value = [] then Err (InvalidCwd ''must not be blank'')
          else if int (length value) > MAX_PROCESS_CWD_BYTES then Err (InvalidCwd ''exceeds the byte limit'')
          else if list_ex is_control (str_chars value)
          then Err (InvalidCwd ''must not contain control characters'')
          else if list_ex (\<lambda>s. s = []) (split_on (CHR ''/'') value)
          then Err (InvalidCwd ''must not contain empty path segments'')
          else if value \<noteq> ''.'' \<and> list_ex (\<lambda>s. s \<in> {''.'', ''..''}) (split_on (CHR ''/'') value)
          then Err (InvalidCwd ''must not contain dot segments'')
          else if path_is_absolute value then Err (InvalidCwd ''must be relative'')
          else
            and_then (fold_res (validate_cwd_component value) False (components value)) (\<lambda>saw_component.
            if \<not> saw_component \<and> value \<noteq> ''.'' then Err (InvalidCwd ''must name a workspace directory'')
            else Ok (Some value)))"

definition validate_stdin_text :: "string option \<Rightarrow> (unit, ProcessActionError) result" where
  "validate_stdin_text stdin_text =
     (case stdin_text of
        Some t \<Rightarrow> if int (length t) > MAX_PROCESS_STDIN_TEXT_BYTES
                  then Err (InvalidStdinText ''exceeds the byte limit'') else Ok ()
      | None \<Rightarrow> Ok ())"

definition validate_output_limit :: "string \<Rightarrow> nat \<Rightarrow> (unit, ProcessActionError) result" where
  "validate_output_limit field limit =
     (if limit = 0 then Err (InvalidOutputLimit field ''must be greater than zero'')
      else if int limit > MAX_PROCESS_OUTPUT_LIMIT_BYTES then Err (InvalidOutputLimit field ''exceeds the byte limit'')
      else Ok ())"

definition validate_captured_bytes :: "string \<Rightarrow> nat \<Rightarrow> nat \<Rightarrow> (unit, ProcessActionError) result" where
  "validate_captured_bytes field bytes limit =
     (if bytes > limit then Err (InvalidExecutionEvidence field ''must not exceed the intent output limit'')
      else Ok ())"

definition summarize_intent :: "string list \<Rightarrow> string option \<Rightarrow> string" where
  "summarize_intent argv cwd =
     ''process argv[0]='' @ hd argv @ ''; argc='' @ show_nat (length argv) @ ''; cwd=''
     @ (case cwd of Some c \<Rightarrow> c | None \<Rightarrow> ''.'')"

section \<open>Intents and evidence\<close>

text \<open>The second policy exists in test builds only; production intents carry the empty one.\<close>

datatype ProcessEnvPolicy = EmptyEnv | NonEmptyForTest

record ProcessActionIntent =
  pi_summary :: string
  pi_argv :: "string list"
  pi_cwd :: "string option"
  pi_env_policy :: ProcessEnvPolicy
  pi_stdin_text :: "string option"
  pi_stdout_limit_bytes :: nat
  pi_stderr_limit_bytes :: nat

definition new_process_intent ::
    "string list \<Rightarrow> string option \<Rightarrow> ProcessEnvPolicy \<Rightarrow> string option \<Rightarrow> nat \<Rightarrow> nat
     \<Rightarrow> (ProcessActionIntent, ProcessActionError) result" where
  "new_process_intent argv cwd env_policy stdin_text stdout_limit_bytes stderr_limit_bytes =
     and_then (validate_argv argv) (\<lambda>_.
     and_then (validate_cwd cwd) (\<lambda>cwd.
     and_then (validate_stdin_text stdin_text) (\<lambda>_.
     and_then (validate_output_limit ''stdout_limit_bytes'' stdout_limit_bytes) (\<lambda>_.
     and_then (validate_output_limit ''stderr_limit_bytes'' stderr_limit_bytes) (\<lambda>_.
     Ok \<lparr>pi_summary = summarize_intent argv cwd, pi_argv = argv, pi_cwd = cwd, pi_env_policy = env_policy,
         pi_stdin_text = stdin_text, pi_stdout_limit_bytes = stdout_limit_bytes,
         pi_stderr_limit_bytes = stderr_limit_bytes\<rparr>)))))"

definition without_stdin_text :: "ProcessActionIntent \<Rightarrow> ProcessActionIntent" where
  "without_stdin_text intent = intent\<lparr>pi_stdin_text := None\<rparr>"

datatype ProcessPermissionProfileId =
    READ_ONLY | LOCAL_WORKSPACE | LOCAL_WORKSPACE_HOST | SHELL_READ_ONLY | APPROVED_PERMISSION_REQUEST

fun profile_str :: "ProcessPermissionProfileId \<Rightarrow> string" where
  "profile_str READ_ONLY = ''process.read_only''"
| "profile_str LOCAL_WORKSPACE = ''process.local_workspace''"
| "profile_str LOCAL_WORKSPACE_HOST = ''process.local_workspace.host''"
| "profile_str SHELL_READ_ONLY = ''process.shell.read_only''"
| "profile_str APPROVED_PERMISSION_REQUEST = ''process.permission_request.approved''"

definition deserialize_profile :: "string \<Rightarrow> ProcessPermissionProfileId option" where
  "deserialize_profile value =
     (if value = ''process.read_only'' then Some READ_ONLY
      else if value = ''process.local_workspace'' then Some LOCAL_WORKSPACE
      else if value = ''process.local_workspace.host'' then Some LOCAL_WORKSPACE_HOST
      else if value = ''process.shell.read_only'' then Some SHELL_READ_ONLY
      else if value = ''process.permission_request.approved'' then Some APPROVED_PERMISSION_REQUEST
      else None)"

lemma deserialize_profile_roundtrip: "deserialize_profile (profile_str p) = Some p"
  by (cases p) (simp_all add: deserialize_profile_def)

datatype LocalWorkspaceProcessSandboxProfile = SandboxLocalWorkspace | SandboxHost

record AcceptedLocalWorkspaceProcessAdmission =
  ad_sandbox_profile :: LocalWorkspaceProcessSandboxProfile
  ad_permission_profile_id :: ProcessPermissionProfileId

definition accept_local_workspace :: AcceptedLocalWorkspaceProcessAdmission where
  "accept_local_workspace =
     \<lparr>ad_sandbox_profile = SandboxLocalWorkspace, ad_permission_profile_id = LOCAL_WORKSPACE\<rparr>"

definition accept_host :: AcceptedLocalWorkspaceProcessAdmission where
  "accept_host = \<lparr>ad_sandbox_profile = SandboxHost, ad_permission_profile_id = LOCAL_WORKSPACE_HOST\<rparr>"

datatype ProcessExitStatus = Exited int | ProcessCancelled | FailedToStart | DomainFailed

record ProcessExecutionEvidence =
  pe_intent_summary :: string
  pe_argv :: "string list"
  pe_cwd :: "string option"
  pe_permission_profile_id :: ProcessPermissionProfileId
  pe_status :: ProcessExitStatus
  pe_stdout_bytes :: nat
  pe_stdout_truncated :: bool
  pe_stderr_bytes :: nat
  pe_stderr_truncated :: bool

definition new_process_evidence ::
    "ProcessActionIntent \<Rightarrow> ProcessPermissionProfileId \<Rightarrow> ProcessExitStatus \<Rightarrow> nat \<Rightarrow> bool \<Rightarrow> nat \<Rightarrow> bool
     \<Rightarrow> (ProcessExecutionEvidence, ProcessActionError) result" where
  "new_process_evidence intent profile status stdout_bytes stdout_truncated stderr_bytes stderr_truncated =
     and_then (validate_captured_bytes ''stdout_bytes'' stdout_bytes (pi_stdout_limit_bytes intent)) (\<lambda>_.
     and_then (validate_captured_bytes ''stderr_bytes'' stderr_bytes (pi_stderr_limit_bytes intent)) (\<lambda>_.
     Ok \<lparr>pe_intent_summary = pi_summary intent, pe_argv = pi_argv intent, pe_cwd = pi_cwd intent,
         pe_permission_profile_id = profile, pe_status = status, pe_stdout_bytes = stdout_bytes,
         pe_stdout_truncated = stdout_truncated, pe_stderr_bytes = stderr_bytes,
         pe_stderr_truncated = stderr_truncated\<rparr>))"

definition evidence_matches_intent :: "ProcessExecutionEvidence \<Rightarrow> ProcessActionIntent \<Rightarrow> bool" where
  "evidence_matches_intent evidence intent \<longleftrightarrow>
     pe_intent_summary evidence = pi_summary intent \<and> pe_argv evidence = pi_argv intent
     \<and> pe_cwd evidence = pi_cwd intent \<and> pe_stdout_bytes evidence \<le> pi_stdout_limit_bytes intent
     \<and> pe_stderr_bytes evidence \<le> pi_stderr_limit_bytes intent"

text \<open>Evidence built for an intent is evidence of that intent, whatever the outcome.\<close>

lemma new_evidence_matches:
  "new_process_evidence intent profile status so st se sr = Ok evidence \<Longrightarrow> evidence_matches_intent evidence intent"
  by (auto simp: new_process_evidence_def evidence_matches_intent_def validate_captured_bytes_def
      result_simps split: if_splits)

end
