(* ===== verification/Action_Proposal.thy ===== *)
theory Action_Proposal
  imports Patch_Parse Process_Intent
begin

text \<open>
  Proposals of mutating actions: \<^verbatim>\<open>merry-runtime/src/tool/proposal.rs\<close> and the evidence of a patch,
  \<^verbatim>\<open>merry-runtime/src/tool/patch_evidence.rs\<close>. A proposal names the tool call, the kind of action and
  what exactly would be done; policy decides on it before anything runs.
\<close>

section \<open>Tool calls\<close>

datatype json =
    JNull | JBool bool | JNumber int | JString string | JArray "json list" | JObject "(string \<times> json) list"

record PendingToolCall =
  tc_id :: string
  tc_name :: string
  tc_arguments :: "(string \<times> json) list"

datatype ToolActionKind = ReadOnly | RuntimeControl | WorkspaceWrite | CommandExec | Network | TrustedExternal

definition is_mutating :: "ToolActionKind \<Rightarrow> bool" where
  "is_mutating kind \<longleftrightarrow> kind \<in> {WorkspaceWrite, CommandExec, Network}"

datatype ActionProposalError =
    ReadOnlyAction
  | InvalidText string string
  | InvalidWorkspacePatch string string
  | EvidenceActionKindMismatch ToolActionKind
  | InvalidProcessAction ProcessActionError

section \<open>Evidence of a patch\<close>

record WorkspacePatchChangeEvidence =
  ev_relative_path :: string
  ev_preimage_bytes :: nat
  ev_replacement_bytes :: nat
  ev_file_bytes_before :: nat
  ev_file_bytes_after :: nat
  ev_fingerprint_before :: string
  ev_fingerprint_after :: string

definition USIZE_MAX :: int where "USIZE_MAX = 2 ^ 64 - 1"

definition usize_saturating_add :: "nat \<Rightarrow> nat \<Rightarrow> nat" where
  "usize_saturating_add a b = (if int (a + b) \<le> USIZE_MAX then a + b else nat USIZE_MAX)"

definition validate_apply_patch_counts ::
    "nat \<Rightarrow> nat \<Rightarrow> nat \<Rightarrow> nat \<Rightarrow> (unit, ActionProposalError) result" where
  "validate_apply_patch_counts preimage_bytes replacement_bytes file_bytes_before file_bytes_after =
     (if preimage_bytes = 0 \<and> file_bytes_before \<noteq> 0
      then Err (InvalidWorkspacePatch ''preimage_bytes'' ''must be greater than zero unless the file is new'')
      else if preimage_bytes > file_bytes_before
          \<or> int (file_bytes_before - preimage_bytes + replacement_bytes) > USIZE_MAX
      then Err (InvalidWorkspacePatch ''file_bytes_after''
             ''must be consistent with before, preimage, and replacement byte counts'')
      else if file_bytes_before - preimage_bytes + replacement_bytes \<noteq> file_bytes_after
      then Err (InvalidWorkspacePatch ''file_bytes_after''
             ''must equal file_bytes_before - preimage_bytes + replacement_bytes'')
      else Ok ())"

definition is_ascii_hexdigit :: "char \<Rightarrow> bool" where
  "is_ascii_hexdigit c \<longleftrightarrow> (48 \<le> byte_of c \<and> byte_of c \<le> 57) \<or> (65 \<le> byte_of c \<and> byte_of c \<le> 70)
     \<or> (97 \<le> byte_of c \<and> byte_of c \<le> 102)"

definition validate_apply_patch_fingerprint ::
    "string \<Rightarrow> string \<Rightarrow> (string, ActionProposalError) result" where
  "validate_apply_patch_fingerprint field value =
     (if str_trim value = [] then Err (InvalidWorkspacePatch field ''must not be blank'')
      else if int (length value) > 128 then Err (InvalidWorkspacePatch field ''exceeds the byte limit'')
      else if CHR '':'' \<notin> set value then Err (InvalidWorkspacePatch field ''must include an algorithm prefix'')
      else
        let algorithm = takeWhile (\<lambda>c. c \<noteq> CHR '':'') value;
            digest = tl (dropWhile (\<lambda>c. c \<noteq> CHR '':'') value) in
        if algorithm \<noteq> ''fnv1a64''
        then Err (InvalidWorkspacePatch field ''must use the fnv1a64 fingerprint prefix'')
        else if length digest \<noteq> 16 \<or> \<not> list_all is_ascii_hexdigit digest
        then Err (InvalidWorkspacePatch field ''must include 16 hexadecimal digest characters'')
        else Ok value)"

definition MAX_WORKSPACE_PATCH_RELATIVE_PATH_BYTES :: int where
  "MAX_WORKSPACE_PATCH_RELATIVE_PATH_BYTES = 4096"

definition validate_apply_patch_path :: "string \<Rightarrow> (string, ActionProposalError) result" where
  "validate_apply_patch_path value =
     (if str_trim value = [] then Err (InvalidWorkspacePatch ''relative_path'' ''must not be blank'')
      else if int (length value) > MAX_WORKSPACE_PATCH_RELATIVE_PATH_BYTES
      then Err (InvalidWorkspacePatch ''relative_path'' ''exceeds the byte limit'')
      else if list_ex is_control (str_chars value)
      then Err (InvalidWorkspacePatch ''relative_path'' ''must not contain control characters'')
      else
        let segments = (case strip_prefix ''/'' value of Some s \<Rightarrow> s | None \<Rightarrow> value) in
        if list_ex (\<lambda>s. s = []) (split_on (CHR ''/'') segments)
        then Err (InvalidWorkspacePatch ''relative_path'' ''must not contain empty path segments'')
        else if \<not> path_is_absolute value \<and> starts_with value [CHR 0x5C]
        then Err (InvalidWorkspacePatch ''relative_path'' (''must use '' @ ticked ''/'' @ '' separators''))
        else if list_ex (\<lambda>c. c = CurDir \<or> c = ParentDir) (components value)
        then Err (InvalidWorkspacePatch ''relative_path'' ''must not contain dot segments'')
        else if \<not> list_ex (\<lambda>c. case c of Normal _ \<Rightarrow> True | _ \<Rightarrow> False) (components value)
        then Err (InvalidWorkspacePatch ''relative_path'' ''must name a file'')
        else Ok value)"

definition new_change_evidence ::
    "string \<Rightarrow> nat \<Rightarrow> nat \<Rightarrow> nat \<Rightarrow> nat \<Rightarrow> string \<Rightarrow> string
     \<Rightarrow> (WorkspacePatchChangeEvidence, ActionProposalError) result" where
  "new_change_evidence path preimage_bytes replacement_bytes bytes_before bytes_after before after =
     and_then (validate_apply_patch_path path) (\<lambda>relative_path.
     and_then (validate_apply_patch_counts preimage_bytes replacement_bytes bytes_before bytes_after) (\<lambda>_.
     and_then (validate_apply_patch_fingerprint ''file_fingerprint_before'' before) (\<lambda>fingerprint_before.
     and_then (validate_apply_patch_fingerprint ''file_fingerprint_after'' after) (\<lambda>fingerprint_after.
     Ok \<lparr>ev_relative_path = relative_path, ev_preimage_bytes = preimage_bytes,
         ev_replacement_bytes = replacement_bytes, ev_file_bytes_before = bytes_before,
         ev_file_bytes_after = bytes_after, ev_fingerprint_before = fingerprint_before,
         ev_fingerprint_after = fingerprint_after\<rparr>))))"

definition validate_apply_patch_changes ::
    "WorkspacePatchChangeEvidence list \<Rightarrow> (unit, ActionProposalError) result" where
  "validate_apply_patch_changes changes =
     (if changes = [] then Err (InvalidWorkspacePatch ''changes'' ''must contain at least one file change'')
      else Ok ())"

text \<open>A proposal and the evidence of an execution are both a validated list of changes.\<close>

definition from_changes ::
    "WorkspacePatchChangeEvidence list \<Rightarrow> (WorkspacePatchChangeEvidence list, ActionProposalError) result" where
  "from_changes changes = and_then (validate_apply_patch_changes changes) (\<lambda>_. Ok changes)"

section \<open>Proposals\<close>

datatype ActionProposalEvidence =
    WorkspacePatchEvidence "WorkspacePatchChangeEvidence list"
  | ProcessAction ProcessActionIntent

fun evidence_matches_action_kind :: "ToolActionKind \<Rightarrow> ActionProposalEvidence \<Rightarrow> bool" where
  "evidence_matches_action_kind WorkspaceWrite (WorkspacePatchEvidence _) = True"
| "evidence_matches_action_kind CommandExec (ProcessAction _) = True"
| "evidence_matches_action_kind _ _ = False"

record ActionProposal =
  ap_tool_call_id :: string
  ap_tool_name :: string
  ap_action_kind :: ToolActionKind
  ap_label :: string
  ap_subject :: string
  ap_summary :: string
  ap_evidence :: ActionProposalEvidence

definition MAX_ACTION_PROPOSAL_TEXT_BYTES :: int where "MAX_ACTION_PROPOSAL_TEXT_BYTES = 512"

definition validate_compact_proposal_text :: "string \<Rightarrow> string \<Rightarrow> (string, ActionProposalError) result" where
  "validate_compact_proposal_text field value =
     (if str_trim value = [] then Err (InvalidText field ''must not be blank'')
      else if int (length value) > MAX_ACTION_PROPOSAL_TEXT_BYTES
      then Err (InvalidText field ''exceeds the byte limit'')
      else if list_ex is_control (str_chars value)
      then Err (InvalidText field ''must not contain control characters'')
      else Ok value)"

definition validate_proposal_evidence_matches_action_kind ::
    "ToolActionKind \<Rightarrow> ActionProposalEvidence \<Rightarrow> (unit, ActionProposalError) result" where
  "validate_proposal_evidence_matches_action_kind kind evidence =
     (if evidence_matches_action_kind kind evidence then Ok () else Err (EvidenceActionKindMismatch kind))"

definition new_action_proposal ::
    "PendingToolCall \<Rightarrow> ToolActionKind \<Rightarrow> string \<Rightarrow> string \<Rightarrow> string \<Rightarrow> ActionProposalEvidence
     \<Rightarrow> (ActionProposal, ActionProposalError) result" where
  "new_action_proposal call kind label subject summary evidence =
     (if kind = ReadOnly then Err ReadOnlyAction
      else
        and_then (validate_proposal_evidence_matches_action_kind kind evidence) (\<lambda>_.
        and_then (validate_compact_proposal_text ''label'' label) (\<lambda>label.
        and_then (validate_compact_proposal_text ''subject'' subject) (\<lambda>subject.
        and_then (validate_compact_proposal_text ''summary'' summary) (\<lambda>summary.
        Ok \<lparr>ap_tool_call_id = tc_id call, ap_tool_name = tc_name call, ap_action_kind = kind, ap_label = label,
            ap_subject = subject, ap_summary = summary, ap_evidence = evidence\<rparr>)))))"

definition audit_sanitized :: "ActionProposal \<Rightarrow> ActionProposal" where
  "audit_sanitized proposal = proposal\<lparr>ap_evidence :=
     (case ap_evidence proposal of
        WorkspacePatchEvidence patch \<Rightarrow> WorkspacePatchEvidence patch
      | ProcessAction intent \<Rightarrow> ProcessAction (without_stdin_text intent))\<rparr>"

definition validate_for_call :: "ActionProposal \<Rightarrow> PendingToolCall \<Rightarrow> ToolActionKind \<Rightarrow> (unit, string) result" where
  "validate_for_call proposal call kind =
     (if ap_tool_call_id proposal \<noteq> tc_id call then Err ''proposal tool call id does not match pending call''
      else if ap_tool_name proposal \<noteq> tc_name call then Err ''proposal tool name does not match pending call''
      else if ap_action_kind proposal \<noteq> kind then Err ''proposal action kind does not match registered tool''
      else if \<not> evidence_matches_action_kind kind (ap_evidence proposal)
      then Err ''proposal evidence does not match registered tool action kind''
      else Ok ())"

text \<open>A proposal built for a call and a mutating kind passes the check the runtime makes before it decides.\<close>

lemma new_proposal_valid_for_call:
  "new_action_proposal call kind label subject summary evidence = Ok p \<Longrightarrow> validate_for_call p call kind = Ok ()"
  by (auto simp: new_action_proposal_def validate_for_call_def validate_proposal_evidence_matches_action_kind_def
      result_simps split: if_splits)

datatype ActionExecutionEvidence =
    ExecutedPatch "WorkspacePatchChangeEvidence list"
  | ExecutedProcess ProcessExecutionEvidence

fun execution_matches_action_kind :: "ToolActionKind \<Rightarrow> ActionExecutionEvidence \<Rightarrow> bool" where
  "execution_matches_action_kind WorkspaceWrite (ExecutedPatch _) = True"
| "execution_matches_action_kind CommandExec (ExecutedProcess _) = True"
| "execution_matches_action_kind _ _ = False"

fun action_execution_evidence_matches_proposal :: "ActionProposalEvidence \<Rightarrow> ActionExecutionEvidence \<Rightarrow> bool" where
  "action_execution_evidence_matches_proposal (WorkspacePatchEvidence proposed) (ExecutedPatch executed) =
     (proposed = executed)"
| "action_execution_evidence_matches_proposal (ProcessAction proposed) (ExecutedProcess executed) =
     evidence_matches_intent executed proposed"
| "action_execution_evidence_matches_proposal _ _ = False"

end
