(* ===== verification/Tool_Files.thy ===== *)
theory Tool_Files
  imports Tool_Paths
begin

text \<open>
  Files as the workspace tools reach them: a Unix file system as a store, the system calls the tools
  make, and on top of them \<^verbatim>\<open>merry-tools/src/path/open.rs\<close> (walking and opening a path),
  \<^verbatim>\<open>file.rs\<close> (bounded reads) and \<^verbatim>\<open>WorkspaceToolState::new\<close> of \<^verbatim>\<open>state.rs\<close>.

  The store maps the absolute name of an entry, a list of segments, to a file with its bytes, a
  directory or a symbolic link. A call resolves its path as the kernel does: \<^verbatim>\<open>..\<close> leaves a directory,
  a link in the middle is followed, at most 40 of them, and a link at the end only when the call says
  so. Which calls fail for reasons outside the store (permissions, a full disk) and how much a failing
  write has already written is decided by the operating system, a parameter. An open file is the name
  it was resolved to.
\<close>

section \<open>The file system\<close>

datatype fs_node = FsFile string | FsDir | FsLink PathBuf

type_synonym fs_name = "string list"
type_synonym file_system = "fs_name \<Rightarrow> fs_node option"

datatype io_error = NotFound | NotADirectory | TooManyLinks | AlreadyExists | IsADirectory | OtherError

datatype io_call = StatCall | FstatCall | CanonicalizeCall | OpenCall | CreateCall | MakeDirCall | RemoveCall
  | SeekCall | ReadCall | WriteCall | TruncateCall | SyncCall

record os_env =
  os_fails :: "io_call \<Rightarrow> PathBuf \<Rightarrow> bool"
  os_written :: "PathBuf \<Rightarrow> nat"

definition MAX_LINKS :: nat where "MAX_LINKS = 40"

text \<open>The root directory always exists.\<close>

definition node_at :: "file_system \<Rightarrow> fs_name \<Rightarrow> fs_node option" where
  "node_at fs q = (if q = [] then Some FsDir else fs q)"

fun resolve_name ::
    "file_system \<Rightarrow> nat \<Rightarrow> bool \<Rightarrow> fs_name \<Rightarrow> Component list \<Rightarrow> (fs_name, io_error) result" where
  "resolve_name fs fuel follow cur [] = Ok cur"
| "resolve_name fs fuel follow cur (RootDir # cs) = resolve_name fs fuel follow [] cs"
| "resolve_name fs fuel follow cur (CurDir # cs) = resolve_name fs fuel follow cur cs"
| "resolve_name fs fuel follow cur (ParentDir # cs) = resolve_name fs fuel follow (butlast cur) cs"
| "resolve_name fs fuel follow cur (Normal s # cs) =
     (case fs (cur @ [s]) of
        None \<Rightarrow> if cs = [] then Ok (cur @ [s]) else Err NotFound
      | Some FsDir \<Rightarrow> resolve_name fs fuel follow (cur @ [s]) cs
      | Some (FsFile _) \<Rightarrow> if cs = [] then Ok (cur @ [s]) else Err NotADirectory
      | Some (FsLink target) \<Rightarrow>
          if cs = [] \<and> \<not> follow then Ok (cur @ [s])
          else
            case fuel of
              0 \<Rightarrow> Err TooManyLinks
            | Suc fuel' \<Rightarrow> resolve_name fs fuel' follow cur (components target @ cs))"

definition locate :: "file_system \<Rightarrow> bool \<Rightarrow> PathBuf \<Rightarrow> (fs_name, io_error) result" where
  "locate fs follow path = resolve_name fs MAX_LINKS follow [] (components path)"

section \<open>System calls\<close>

text \<open>\<^verbatim>\<open>fs::symlink_metadata\<close>: the node itself, a final link not followed.\<close>

definition symlink_metadata :: "os_env \<Rightarrow> file_system \<Rightarrow> PathBuf \<Rightarrow> (fs_node, io_error) result" where
  "symlink_metadata os fs path =
     (if os_fails os StatCall path then Err OtherError
      else and_then (locate fs False path) (\<lambda>q. ok_or (node_at fs q) NotFound))"

text \<open>\<^verbatim>\<open>open\<close> with \<^verbatim>\<open>O_NOFOLLOW\<close> for reading, for reading and writing, and to create a new file.\<close>

definition os_open_read :: "os_env \<Rightarrow> file_system \<Rightarrow> PathBuf \<Rightarrow> (fs_name, io_error) result" where
  "os_open_read os fs path =
     (if os_fails os OpenCall path then Err OtherError
      else
        and_then (locate fs False path) (\<lambda>q.
        case node_at fs q of
          None \<Rightarrow> Err NotFound
        | Some (FsLink _) \<Rightarrow> Err TooManyLinks
        | Some _ \<Rightarrow> Ok q))"

definition os_open_write :: "os_env \<Rightarrow> file_system \<Rightarrow> PathBuf \<Rightarrow> (fs_name, io_error) result" where
  "os_open_write os fs path =
     and_then (os_open_read os fs path) (\<lambda>q.
     if node_at fs q = Some FsDir then Err IsADirectory else Ok q)"

definition os_create_new ::
    "os_env \<Rightarrow> file_system \<Rightarrow> PathBuf \<Rightarrow> (file_system \<times> fs_name, io_error) result" where
  "os_create_new os fs path =
     (if os_fails os CreateCall path then Err OtherError
      else
        and_then (locate fs False path) (\<lambda>q.
        if node_at fs q \<noteq> None then Err AlreadyExists else Ok (fs(q \<mapsto> FsFile []), q)))"

definition os_create_dir :: "os_env \<Rightarrow> file_system \<Rightarrow> PathBuf \<Rightarrow> (file_system, io_error) result" where
  "os_create_dir os fs path =
     (if os_fails os MakeDirCall path then Err OtherError
      else
        and_then (locate fs False path) (\<lambda>q.
        if node_at fs q \<noteq> None then Err AlreadyExists else Ok (fs(q \<mapsto> FsDir))))"

definition os_remove_file :: "os_env \<Rightarrow> file_system \<Rightarrow> PathBuf \<Rightarrow> (file_system, io_error) result" where
  "os_remove_file os fs path =
     (if os_fails os RemoveCall path then Err OtherError
      else
        and_then (locate fs False path) (\<lambda>q.
        case node_at fs q of
          None \<Rightarrow> Err NotFound
        | Some FsDir \<Rightarrow> Err IsADirectory
        | Some _ \<Rightarrow> Ok (fs(q := None))))"

text \<open>Writing from the start of an open file, and cutting it to a length.\<close>

definition overwrite :: "string \<Rightarrow> string \<Rightarrow> string" where
  "overwrite bytes contents = bytes @ drop (length bytes) contents"

definition file_bytes :: "file_system \<Rightarrow> fs_name \<Rightarrow> string" where
  "file_bytes fs q = (case fs q of Some (FsFile b) \<Rightarrow> b | _ \<Rightarrow> [])"

definition os_write_all ::
    "os_env \<Rightarrow> PathBuf \<Rightarrow> fs_name \<Rightarrow> string \<Rightarrow> file_system \<Rightarrow> file_system \<times> bool" where
  "os_write_all os path q bytes fs =
     (let fails = os_fails os WriteCall path;
          written = (if fails then take (os_written os path) bytes else bytes) in
      (fs(q \<mapsto> FsFile (overwrite written (file_bytes fs q))), \<not> fails))"

definition os_set_len ::
    "os_env \<Rightarrow> PathBuf \<Rightarrow> fs_name \<Rightarrow> nat \<Rightarrow> file_system \<Rightarrow> file_system \<times> bool" where
  "os_set_len os path q len fs =
     (if os_fails os TruncateCall path then (fs, False)
      else
        let b = file_bytes fs q in
        (fs(q \<mapsto> FsFile (take len b @ replicate (len - length b) (CHR 0x00))), True))"

section \<open>Cancellation\<close>

text \<open>
  The tools poll a cancellation flag that another thread sets. Every program point that polls has a
  name here, and the model takes the answer at each point: any flag is such a function.
\<close>

datatype poll_point =
    PlanStart | PlanFile string | PlanResolve string | PlanPreimage PathBuf | PlanRead PathBuf nat
  | PlanEdit PathBuf | ExecStart | ExecFile string | ExecOpen PathBuf | ExecRead PathBuf nat

type_synonym cancellation = "poll_point \<Rightarrow> bool"

section \<open>Bounded reads\<close>

definition read_bounded ::
    "os_env \<Rightarrow> (nat \<Rightarrow> bool) \<Rightarrow> file_system \<Rightarrow> PathBuf \<Rightarrow> fs_name \<Rightarrow> nat
     \<Rightarrow> (string, BlockingToolError) result" where
  "read_bounded os is_cancelled fs path q max_bytes =
     (if is_cancelled 0 then Err Cancelled
      else if os_fails os FstatCall path
      then Err (Domain (domain_error ERROR_READ_FAILED ''could not inspect workspace file metadata''))
      else
        case node_at fs q of
          Some (FsFile b) \<Rightarrow>
            if length b > max_bytes
            then Err (Domain (domain_error ERROR_FILE_TOO_LARGE ''workspace file exceeds the configured read limit''))
            else if os_fails os SeekCall path
            then Err (Domain (domain_error ERROR_READ_FAILED ''could not seek workspace file''))
            else if is_cancelled 1 then Err Cancelled
            else if os_fails os ReadCall path
            then Err (Domain (domain_error ERROR_READ_FAILED ''could not read workspace file''))
            else Ok b
        | _ \<Rightarrow> Err (Domain (domain_error ERROR_NOT_FILE ''workspace path is not a regular file'')))"

definition decode_utf8 :: "string \<Rightarrow> (string, DomainError) result" where
  "decode_utf8 bytes =
     (if is_utf8 bytes then Ok bytes
      else Err (domain_error ERROR_NOT_UTF8 ''workspace file is not valid UTF-8''))"

section \<open>Walking a path\<close>

definition is_link :: "fs_node \<Rightarrow> bool" where
  "is_link n \<longleftrightarrow> (case n of FsLink _ \<Rightarrow> True | _ \<Rightarrow> False)"

abbreviation inspect_failed :: DomainError where
  "inspect_failed \<equiv> domain_error ERROR_READ_FAILED ''could not inspect workspace path''"

abbreviation uses_symlink :: DomainError where
  "uses_symlink \<equiv> domain_error ERROR_PATH_DENIED ''workspace path uses a symlink''"

fun walk_existing_path ::
    "os_env \<Rightarrow> file_system \<Rightarrow> PathBuf \<Rightarrow> string list \<Rightarrow> bool \<Rightarrow> (PathBuf option, DomainError) result" where
  "walk_existing_path os fs current [] deny_symlinks = Ok (Some current)"
| "walk_existing_path os fs current (c # cs) deny_symlinks =
     (let next = path_push current c in
      case symlink_metadata os fs next of
        Ok metadata \<Rightarrow>
          if deny_symlinks \<and> is_link metadata then Err uses_symlink
          else walk_existing_path os fs next cs deny_symlinks
      | Err NotFound \<Rightarrow> Ok None
      | _ \<Rightarrow> Err inspect_failed)"

fun resolve_existing_from ::
    "os_env \<Rightarrow> file_system \<Rightarrow> bool \<Rightarrow> (PathBuf \<times> string list) list \<Rightarrow> (PathBuf option, DomainError) result" where
  "resolve_existing_from os fs deny [] = Ok None"
| "resolve_existing_from os fs deny ((anchor, cs) # rest) =
     and_then (walk_existing_path os fs anchor cs deny) (\<lambda>r.
     case r of Some resolved \<Rightarrow> Ok (Some resolved) | None \<Rightarrow> resolve_existing_from os fs deny rest)"

definition resolve_existing_path ::
    "os_env \<Rightarrow> file_system \<Rightarrow> ValidatedToolPath \<Rightarrow> PathBuf list \<Rightarrow> (PathBuf option, DomainError) result" where
  "resolve_existing_path os fs path roots =
     resolve_existing_from os fs (denies_symlinks path) (anchors path roots)"

datatype NewWorkspacePath = Missing PathBuf | Existing

fun walk_new_loop ::
    "os_env \<Rightarrow> file_system \<Rightarrow> PathBuf \<Rightarrow> PathBuf \<Rightarrow> string list \<Rightarrow> bool
     \<Rightarrow> (NewWorkspacePath option, DomainError) result" where
  "walk_new_loop os fs target current [] deny_symlinks = Ok None"
| "walk_new_loop os fs target current (c # cs) deny_symlinks =
     (let next = path_push current c in
      case symlink_metadata os fs next of
        Ok metadata \<Rightarrow>
          if deny_symlinks \<and> is_link metadata then Err uses_symlink
          else if cs \<noteq> [] \<and> metadata \<noteq> FsDir
          then Err (domain_error ERROR_NOT_DIRECTORY ''workspace path parent is not a directory'')
          else if cs = [] then Ok (Some Existing)
          else walk_new_loop os fs target next cs deny_symlinks
      | Err NotFound \<Rightarrow> Ok (Some (Missing target))
      | _ \<Rightarrow> Err inspect_failed)"

definition walk_new_path ::
    "os_env \<Rightarrow> file_system \<Rightarrow> PathBuf \<Rightarrow> string list \<Rightarrow> bool \<Rightarrow> (NewWorkspacePath option, DomainError) result" where
  "walk_new_path os fs anchor cs deny_symlinks =
     walk_new_loop os fs (foldl path_push anchor cs) anchor cs deny_symlinks"

fun resolve_new_from ::
    "os_env \<Rightarrow> file_system \<Rightarrow> bool \<Rightarrow> (PathBuf \<times> string list) list \<Rightarrow> (NewWorkspacePath, DomainError) result" where
  "resolve_new_from os fs deny [] =
     Err (domain_error ERROR_READ_FAILED ''could not resolve workspace file path'')"
| "resolve_new_from os fs deny ((anchor, cs) # rest) =
     and_then (walk_new_path os fs anchor cs deny) (\<lambda>r.
     case r of Some outcome \<Rightarrow> Ok outcome | None \<Rightarrow> resolve_new_from os fs deny rest)"

definition resolve_new_file_path ::
    "os_env \<Rightarrow> file_system \<Rightarrow> ValidatedToolPath \<Rightarrow> PathBuf list \<Rightarrow> (NewWorkspacePath, DomainError) result" where
  "resolve_new_file_path os fs path roots =
     resolve_new_from os fs (denies_symlinks path) (anchors path roots)"

section \<open>Opening\<close>

definition open_error :: "io_error \<Rightarrow> DomainError \<Rightarrow> DomainError" where
  "open_error e other = (if e = TooManyLinks then uses_symlink else other)"

definition map_open_error ::
    "('a, io_error) result \<Rightarrow> (io_error \<Rightarrow> DomainError) \<Rightarrow> ('a, DomainError) result" where
  "map_open_error r f = (case r of Ok x \<Rightarrow> Ok x | Err e \<Rightarrow> Err (f e) | Panic \<Rightarrow> Panic | Diverge \<Rightarrow> Diverge)"

definition open_file_for_read :: "os_env \<Rightarrow> file_system \<Rightarrow> PathBuf \<Rightarrow> (fs_name, DomainError) result" where
  "open_file_for_read os fs path =
     map_open_error (os_open_read os fs path)
       (\<lambda>e. open_error e (domain_error ERROR_READ_FAILED ''could not open workspace file''))"

definition open_file_for_patch :: "os_env \<Rightarrow> file_system \<Rightarrow> PathBuf \<Rightarrow> (fs_name, DomainError) result" where
  "open_file_for_patch os fs path =
     map_open_error (os_open_write os fs path)
       (\<lambda>e. open_error e (domain_error ERROR_WRITE_FAILED ''could not open workspace file for patching''))"

definition validate_patch_parent_metadata :: "fs_node \<Rightarrow> (unit, DomainError) result" where
  "validate_patch_parent_metadata metadata =
     (if is_link metadata then Err uses_symlink
      else if metadata \<noteq> FsDir
      then Err (domain_error ERROR_NOT_DIRECTORY ''workspace file parent is not a directory'')
      else Ok ())"

definition create_patch_parent ::
    "os_env \<Rightarrow> file_system \<Rightarrow> PathBuf \<Rightarrow> file_system \<times> (unit, DomainError) result" where
  "create_patch_parent os fs current =
     (case symlink_metadata os fs current of
        Ok metadata \<Rightarrow> (fs, validate_patch_parent_metadata metadata)
      | Err NotFound \<Rightarrow>
          (case os_create_dir os fs current of
             Ok fs' \<Rightarrow> (fs', Ok ())
           | Err AlreadyExists \<Rightarrow>
               (fs, and_then
                  (map_open_error (symlink_metadata os fs current)
                     (\<lambda>_. domain_error ERROR_WRITE_FAILED ''could not inspect workspace file parent directory''))
                  validate_patch_parent_metadata)
           | _ \<Rightarrow> (fs, Err (domain_error ERROR_WRITE_FAILED ''could not create workspace file parent directories'')))
      | _ \<Rightarrow> (fs, Err (domain_error ERROR_WRITE_FAILED ''could not inspect workspace file parent directory'')))"

fun create_parents_loop ::
    "os_env \<Rightarrow> file_system \<Rightarrow> PathBuf \<Rightarrow> Component list \<Rightarrow> file_system \<times> (unit, DomainError) result" where
  "create_parents_loop os fs current [] = (fs, Ok ())"
| "create_parents_loop os fs current (c # cs) =
     (let next = path_push current (component_text c) in
      case create_patch_parent os fs next of
        (fs', Ok _) \<Rightarrow> create_parents_loop os fs' next cs
      | (fs', Err e) \<Rightarrow> (fs', Err e)
      | (fs', Panic) \<Rightarrow> (fs', Panic)
      | (fs', Diverge) \<Rightarrow> (fs', Diverge))"

definition create_patch_parent_directories ::
    "os_env \<Rightarrow> file_system \<Rightarrow> PathBuf \<Rightarrow> file_system \<times> (unit, DomainError) result" where
  "create_patch_parent_directories os fs path =
     (if components path = [] \<or> components path = [RootDir]
      then (fs, Err (domain_error ERROR_WRITE_FAILED ''could not determine workspace file parent directory''))
      else create_parents_loop os fs [] (butlast (components path)))"

definition open_file_for_patch_create_new ::
    "os_env \<Rightarrow> file_system \<Rightarrow> PathBuf \<Rightarrow> file_system \<times> (fs_name, DomainError) result" where
  "open_file_for_patch_create_new os fs path =
     (case create_patch_parent_directories os fs path of
        (fs', Ok _) \<Rightarrow>
          (case os_create_new os fs' path of
             Ok (fs'', q) \<Rightarrow> (fs'', Ok q)
           | Err TooManyLinks \<Rightarrow> (fs', Err uses_symlink)
           | Err AlreadyExists \<Rightarrow> (fs', Err (domain_error ERROR_FILE_ALREADY_EXISTS ''workspace file already exists''))
           | _ \<Rightarrow> (fs', Err (domain_error ERROR_WRITE_FAILED ''could not create workspace file'')))
      | (fs', Err e) \<Rightarrow> (fs', Err e)
      | (fs', _) \<Rightarrow> (fs', Panic))"

section \<open>The state of the tools\<close>

definition name_path :: "fs_name \<Rightarrow> PathBuf" where
  "name_path q = ''/'' @ join_strings ''/'' q"

definition canonical_root ::
    "os_env \<Rightarrow> file_system \<Rightarrow> PathBuf \<Rightarrow> (PathBuf, WorkspaceToolConfigError) result" where
  "canonical_root os fs root =
     (case locate fs True root of
        Ok q \<Rightarrow>
          (case node_at fs q of
             None \<Rightarrow> Err (RootNotFound root)
           | Some n \<Rightarrow>
               if os_fails os StatCall root then Err (RootNotFound root)
               else if os_fails os CanonicalizeCall root then Err (RootCanonicalize root)
               else if n \<noteq> FsDir then Err (RootNotDirectory root)
               else Ok (name_path q))
      | _ \<Rightarrow> Err (RootNotFound root))"

definition canonical_optional_root ::
    "os_env \<Rightarrow> file_system \<Rightarrow> PathBuf \<Rightarrow> (PathBuf option, WorkspaceToolConfigError) result" where
  "canonical_optional_root os fs root =
     (case canonical_root os fs root of
        Ok canonical \<Rightarrow> Ok (Some canonical)
      | Err (RootNotFound _) \<Rightarrow> Ok None
      | Err (RootNotDirectory _) \<Rightarrow> Ok None
      | Err e \<Rightarrow> Err e
      | _ \<Rightarrow> Panic)"

definition new_tool_state ::
    "os_env \<Rightarrow> file_system \<Rightarrow> WorkspaceToolsConfig \<Rightarrow> (WorkspaceToolState, WorkspaceToolConfigError) result" where
  "new_tool_state os fs config =
     and_then (validate_limits (cf_limits config)) (\<lambda>_.
     and_then (canonical_root os fs (cf_root config)) (\<lambda>root.
     and_then (fold_res (\<lambda>roots resource_root.
         and_then (canonical_optional_root os fs resource_root) (\<lambda>c.
         Ok (case c of
               Some canonical \<Rightarrow> if \<not> path_eq canonical root then roots @ [canonical] else roots
             | None \<Rightarrow> roots)))
       [] (cf_readonly_resource_roots config)) (\<lambda>resources.
     and_then (case cf_patch_write_scope config of
                 Some paths \<Rightarrow> and_then (normalize_scope_paths paths) (\<lambda>ps. Ok (Some ps))
               | None \<Rightarrow> Ok None) (\<lambda>patch_write_scope.
     and_then (normalize_scope_paths (cf_forbidden_paths config)) (\<lambda>forbidden.
     Ok \<lparr>ws_root = root, ws_readonly_resource_roots = resources, ws_limits = cf_limits config,
         ws_patch_write_scope = patch_write_scope, ws_forbidden_paths = forbidden_with_git forbidden\<rparr>)))))"

definition read_roots :: "WorkspaceToolState \<Rightarrow> PathBuf list" where
  "read_roots state = ws_root state # ws_readonly_resource_roots state"

end
