(* ===== verification/Patch_Plan.thy ===== *)
theory Patch_Plan
  imports Action_Proposal Tool_Files Plan_Refresh
begin

text \<open>
  Planning and approving a patch: \<^verbatim>\<open>merry-tools/src/patch/plan.rs\<close>. Planning reads the file system
  and changes nothing. A failed outcome is its code, message and path; the serialized envelopes around
  it are not modelled.
\<close>

section \<open>Fingerprints\<close>

definition stable_content_fingerprint :: "string \<Rightarrow> string" where
  "stable_content_fingerprint bytes =
     ''fnv1a64:'' @ show_hex16
       (foldl (\<lambda>hash byte. (hash XOR of_char byte) * FNV_PRIME) FNV_OFFSET_BASIS bytes)"

section \<open>Plans\<close>

datatype WorkspacePatchFileMode = CreateNew | UpdateExisting | DeleteExisting

datatype WorkspacePatchOperationKind = OpAdd | OpUpdate | OpDelete | OpUnknown

fun operation_kind :: "WorkspacePatchFileMode \<Rightarrow> WorkspacePatchOperationKind" where
  "operation_kind CreateNew = OpAdd"
| "operation_kind UpdateExisting = OpUpdate"
| "operation_kind DeleteExisting = OpDelete"

record WorkspacePatchFilePlan =
  fp_relative :: ValidatedToolPath
  fp_path :: PathBuf
  fp_content_before :: string
  fp_replacement :: string
  fp_preimage_bytes :: nat
  fp_replacement_bytes :: nat
  fp_bytes_before :: nat
  fp_bytes_after :: nat
  fp_lines_before :: nat
  fp_lines_after :: nat
  fp_hunks :: nat
  fp_ignored_context_hunks :: nat
  fp_lines :: "WorkspacePatchSuccessLine list"
  fp_max_read_bytes :: nat
  fp_mode :: WorkspacePatchFileMode

record WorkspacePatchPlan =
  pl_changes :: "WorkspacePatchFilePlan list"

definition change_evidence ::
    "WorkspacePatchFilePlan \<Rightarrow> (WorkspacePatchChangeEvidence, ActionProposalError) result" where
  "change_evidence f =
     new_change_evidence (vp_display (fp_relative f)) (fp_preimage_bytes f) (fp_replacement_bytes f)
       (fp_bytes_before f) (fp_bytes_after f) (stable_content_fingerprint (fp_content_before f))
       (stable_content_fingerprint (fp_replacement f))"

definition file_summary :: "WorkspacePatchFilePlan \<Rightarrow> string" where
  "file_summary f =
     (if fp_mode f = DeleteExisting
      then ''Delete '' @ vp_display (fp_relative f) @ '' ('' @ show_nat (fp_lines_before f) @ '' lines, ''
        @ show_nat (fp_bytes_before f) @ '' bytes).''
      else ''Apply '' @ show_nat (fp_hunks f) @ '' hunk(s) in '' @ vp_display (fp_relative f) @ '' (''
        @ show_nat (fp_lines_before f) @ '' -> '' @ show_nat (fp_lines_after f) @ '' lines, ''
        @ show_nat (fp_bytes_before f) @ '' -> '' @ show_nat (fp_bytes_after f) @ '' bytes).'')"

definition plan_subject :: "WorkspacePatchPlan \<Rightarrow> string" where
  "plan_subject plan =
     (case pl_changes plan of
        [change] \<Rightarrow> vp_display (fp_relative change)
      | changes \<Rightarrow> show_nat (length changes) @ '' files'')"

definition plan_summary :: "WorkspacePatchPlan \<Rightarrow> string" where
  "plan_summary plan =
     (case pl_changes plan of
        [change] \<Rightarrow> file_summary change
      | changes \<Rightarrow>
          let total = (\<lambda>count. foldl (\<lambda>sum change. usize_saturating_add sum (count change)) 0 changes) in
          ''Apply workspace patch to '' @ show_nat (length changes) @ '' files (''
          @ show_nat (total fp_lines_before) @ '' -> '' @ show_nat (total fp_lines_after) @ '' lines, ''
          @ show_nat (total fp_bytes_before) @ '' -> '' @ show_nat (total fp_bytes_after) @ '' bytes).'')"

definition collect_evidence ::
    "WorkspacePatchFilePlan list \<Rightarrow> (WorkspacePatchChangeEvidence list, ActionProposalError) result" where
  "collect_evidence changes =
     fold_res (\<lambda>es change. and_then (change_evidence change) (\<lambda>e. Ok (es @ [e]))) [] changes"

definition match_approved_patch_proposal ::
    "WorkspacePatchChangeEvidence list \<Rightarrow> WorkspacePatchPlan \<Rightarrow> bool" where
  "match_approved_patch_proposal approved plan \<longleftrightarrow>
     (case collect_evidence (pl_changes plan) of Ok planned \<Rightarrow> approved = planned | _ \<Rightarrow> False)"

section \<open>Planning a file\<close>

datatype WorkspacePatchFilePlanError =
    PathError PathValidationError
  | DomainFailure DomainError string
  | PlanCancelled

fun file_plan_error :: "BlockingToolError \<Rightarrow> string \<Rightarrow> WorkspacePatchFilePlanError" where
  "file_plan_error (Domain e) path = DomainFailure e path"
| "file_plan_error BlockingToolError.Cancelled path = PlanCancelled"

definition map_err :: "('e \<Rightarrow> 'f) \<Rightarrow> ('a, 'e) result \<Rightarrow> ('a, 'f) result" where
  "map_err f r = (case r of Ok x \<Rightarrow> Ok x | Err e \<Rightarrow> Err (f e) | Panic \<Rightarrow> Panic | Diverge \<Rightarrow> Diverge)"

definition read_patch_preimage_for_path ::
    "os_env \<Rightarrow> (nat \<Rightarrow> bool) \<Rightarrow> bool \<Rightarrow> file_system \<Rightarrow> PathBuf \<Rightarrow> nat
     \<Rightarrow> (string, BlockingToolError) result" where
  "read_patch_preimage_for_path os read_cancelled cancelled fs path max_bytes =
     (if cancelled then Err BlockingToolError.Cancelled
      else
        case symlink_metadata os fs path of
          Ok metadata \<Rightarrow>
            if is_link metadata then Err (Domain uses_symlink)
            else if \<not> (case metadata of FsFile _ \<Rightarrow> True | _ \<Rightarrow> False)
            then Err (Domain (domain_error ERROR_NOT_FILE ''workspace path is not a regular file''))
            else
              and_then (map_err Domain (open_file_for_read os fs path)) (\<lambda>file.
              and_then (read_bounded os read_cancelled fs path file max_bytes) (\<lambda>bytes.
              if CHR 0x00 \<in> set bytes
              then Err (Domain (domain_error ERROR_NOT_UTF8 ''workspace file appears to be binary''))
              else map_err Domain (decode_utf8 bytes)))
        | _ \<Rightarrow> Err (Domain (domain_error ERROR_READ_FAILED ''could not inspect workspace file metadata'')))"

definition read_patch_preimage ::
    "os_env \<Rightarrow> cancellation \<Rightarrow> file_system \<Rightarrow> WorkspaceToolState \<Rightarrow> PathBuf
     \<Rightarrow> (string, BlockingToolError) result" where
  "read_patch_preimage os cancel fs state path =
     read_patch_preimage_for_path os (\<lambda>k. cancel (PlanRead path k)) (cancel (PlanPreimage path)) fs path
       (max_read_bytes (ws_limits state))"

definition write_limit_error :: BlockingToolError where
  "write_limit_error =
     Domain (domain_error ERROR_FILE_TOO_LARGE ''workspace patch result exceeds the configured write limit'')"

definition plan_resolved_apply_patch_file ::
    "os_env \<Rightarrow> cancellation \<Rightarrow> file_system \<Rightarrow> WorkspaceToolState \<Rightarrow> ValidatedToolPath \<Rightarrow> PathBuf
     \<Rightarrow> WorkspacePatchHunk list \<Rightarrow> nat \<Rightarrow> (WorkspacePatchFilePlan, BlockingToolError) result" where
  "plan_resolved_apply_patch_file os cancel fs state relative path hunks ignored_context_hunks =
     and_then (read_patch_preimage os cancel fs state path) (\<lambda>content.
     if cancel (PlanEdit path) then Err BlockingToolError.Cancelled
     else
       and_then (map_err Domain (build_patch_replacement content hunks)) (\<lambda>r.
       if length (rp_text r) > max_write_bytes (ws_limits state) then Err write_limit_error
       else Ok \<lparr>fp_relative = relative, fp_path = path, fp_content_before = content,
         fp_replacement = rp_text r, fp_preimage_bytes = rp_preimage_bytes r,
         fp_replacement_bytes = rp_replacement_bytes r, fp_bytes_before = length content,
         fp_bytes_after = length (rp_text r), fp_lines_before = count_file_lines content,
         fp_lines_after = count_file_lines (rp_text r), fp_hunks = length hunks,
         fp_ignored_context_hunks = ignored_context_hunks, fp_lines = rp_lines r,
         fp_max_read_bytes = max_read_bytes (ws_limits state), fp_mode = UpdateExisting\<rparr>))"

definition plan_resolved_apply_patch_delete ::
    "os_env \<Rightarrow> cancellation \<Rightarrow> file_system \<Rightarrow> WorkspaceToolState \<Rightarrow> ValidatedToolPath \<Rightarrow> PathBuf
     \<Rightarrow> (WorkspacePatchFilePlan, BlockingToolError) result" where
  "plan_resolved_apply_patch_delete os cancel fs state relative path =
     and_then (read_patch_preimage os cancel fs state path) (\<lambda>content.
     if cancel (PlanEdit path) then Err BlockingToolError.Cancelled
     else Ok \<lparr>fp_relative = relative, fp_path = path, fp_content_before = content,
         fp_replacement = [], fp_preimage_bytes = length content,
         fp_replacement_bytes = 0, fp_bytes_before = length content,
         fp_bytes_after = 0, fp_lines_before = count_file_lines content,
         fp_lines_after = 0, fp_hunks = 0,
         fp_ignored_context_hunks = 0, fp_lines = [],
         fp_max_read_bytes = max_read_bytes (ws_limits state), fp_mode = DeleteExisting\<rparr>)"

definition plan_new_apply_patch_file ::
    "cancellation \<Rightarrow> WorkspaceToolState \<Rightarrow> ValidatedToolPath \<Rightarrow> PathBuf \<Rightarrow> string list
     \<Rightarrow> (WorkspacePatchFilePlan, BlockingToolError) result" where
  "plan_new_apply_patch_file cancel state relative path lines =
     (if cancel (PlanEdit path) then Err BlockingToolError.Cancelled
      else
        let r = build_new_file_replacement lines in
        if length (rp_text r) > max_write_bytes (ws_limits state) then Err write_limit_error
        else Ok \<lparr>fp_relative = relative, fp_path = path, fp_content_before = [],
         fp_replacement = rp_text r, fp_preimage_bytes = rp_preimage_bytes r,
         fp_replacement_bytes = rp_replacement_bytes r, fp_bytes_before = 0,
         fp_bytes_after = length (rp_text r), fp_lines_before = 0,
         fp_lines_after = count_file_lines (rp_text r), fp_hunks = 1,
         fp_ignored_context_hunks = 0, fp_lines = rp_lines r,
         fp_max_read_bytes = max_read_bytes (ws_limits state), fp_mode = CreateNew\<rparr>)"

definition resolve_existing_patch_path ::
    "os_env \<Rightarrow> cancellation \<Rightarrow> file_system \<Rightarrow> WorkspaceToolState \<Rightarrow> string
     \<Rightarrow> (ValidatedToolPath \<times> PathBuf, WorkspacePatchFilePlanError) result" where
  "resolve_existing_patch_path os cancel fs state requested =
     and_then (map_err PathError (validate_workspace_path_argument requested (ws_root state))) (\<lambda>relative.
     and_then (map_err (\<lambda>e. DomainFailure e (vp_display relative)) (validate_patch_write_boundary state relative)) (\<lambda>_.
     if cancel (PlanResolve requested) then Err PlanCancelled
     else
       and_then (map_err (\<lambda>e. DomainFailure e (vp_display relative))
                  (resolve_existing_path os fs relative [ws_root state])) (\<lambda>r.
       case r of
         Some path \<Rightarrow> Ok (relative, path)
       | None \<Rightarrow> Err (DomainFailure (domain_error ERROR_FILE_NOT_FOUND ''workspace file was not found'')
                   (vp_display relative)))))"

definition plan_apply_patch_file ::
    "os_env \<Rightarrow> cancellation \<Rightarrow> file_system \<Rightarrow> WorkspaceToolState \<Rightarrow> WorkspacePatchFile
     \<Rightarrow> (WorkspacePatchFilePlan, WorkspacePatchFilePlanError) result" where
  "plan_apply_patch_file os cancel fs state file_patch =
     (case pf_operation file_patch of
        AddFile lines \<Rightarrow>
          and_then (map_err PathError (validate_workspace_path_argument (pf_path file_patch) (ws_root state)))
            (\<lambda>relative.
          let display = vp_display relative in
          and_then (map_err (\<lambda>e. DomainFailure e display) (validate_patch_write_boundary state relative)) (\<lambda>_.
          if cancel (PlanResolve (pf_path file_patch)) then Err PlanCancelled
          else
            and_then (map_err (\<lambda>e. DomainFailure e display)
                       (resolve_new_file_path os fs relative [ws_root state])) (\<lambda>r.
            case r of
              Missing path \<Rightarrow>
                map_err (\<lambda>e. file_plan_error e display) (plan_new_apply_patch_file cancel state relative path lines)
            | Existing \<Rightarrow>
                Err (DomainFailure (domain_error ERROR_FILE_ALREADY_EXISTS ''workspace file already exists'') display))))
      | UpdateFile hunks \<Rightarrow>
          and_then (resolve_existing_patch_path os cancel fs state (pf_path file_patch)) (\<lambda>(relative, path).
          map_err (\<lambda>e. file_plan_error e (vp_display relative))
            (plan_resolved_apply_patch_file os cancel fs state relative path hunks
               (pf_ignored_context_hunks file_patch)))
      | DeleteFile \<Rightarrow>
          and_then (resolve_existing_patch_path os cancel fs state (pf_path file_patch)) (\<lambda>(relative, path).
          map_err (\<lambda>e. file_plan_error e (vp_display relative))
            (plan_resolved_apply_patch_delete os cancel fs state relative path)))"

section \<open>Planning a patch\<close>

record tool_failure =
  tf_code :: string
  tf_message :: string
  tf_path :: "string option"

definition failed_outcome :: "string \<Rightarrow> string \<Rightarrow> string option \<Rightarrow> tool_failure" where
  "failed_outcome code message path = \<lparr>tf_code = code, tf_message = message, tf_path = path\<rparr>"

datatype WorkspacePatchPlanOutcome = Planned WorkspacePatchPlan | Failure tool_failure

datatype ToolExecutionError = ExecutionCancelled | Infrastructure ActionProposalError

fun failure_of_plan_error ::
    "WorkspacePatchFilePlanError \<Rightarrow> (WorkspacePatchPlanOutcome, ToolExecutionError) result" where
  "failure_of_plan_error (DomainFailure e path) = Ok (Failure (failed_outcome (de_code e) (de_message e) (Some path)))"
| "failure_of_plan_error (PathError e) = Ok (Failure (failed_outcome (pe_code e) (pe_message e) (pe_path e)))"
| "failure_of_plan_error PlanCancelled = Err ExecutionCancelled"

fun plan_files ::
    "os_env \<Rightarrow> cancellation \<Rightarrow> file_system \<Rightarrow> WorkspaceToolState \<Rightarrow> WorkspacePatchFilePlan list
     \<Rightarrow> WorkspacePatchFile list \<Rightarrow> (WorkspacePatchPlanOutcome, ToolExecutionError) result" where
  "plan_files os cancel fs state changes [] = Ok (Planned \<lparr>pl_changes = changes\<rparr>)"
| "plan_files os cancel fs state changes (f # files) =
     (if cancel (PlanFile (pf_path f)) then Err ExecutionCancelled
      else
        case plan_apply_patch_file os cancel fs state f of
          Ok change \<Rightarrow> plan_files os cancel fs state (changes @ [change]) files
        | Err e \<Rightarrow> failure_of_plan_error e
        | Panic \<Rightarrow> Panic
        | Diverge \<Rightarrow> Diverge)"

definition plan_apply_patch_blocking_checked ::
    "os_env \<Rightarrow> cancellation \<Rightarrow> file_system \<Rightarrow> WorkspaceToolState \<Rightarrow> string
     \<Rightarrow> (WorkspacePatchPlanOutcome, ToolExecutionError) result" where
  "plan_apply_patch_blocking_checked os cancel fs state patch =
     (if cancel PlanStart then Err ExecutionCancelled
      else if str_trim patch = []
      then Ok (Failure (failed_outcome ERROR_INVALID_ARGUMENTS ''workspace patch must not be empty'' None))
      else if CHR 0x00 \<in> set patch
      then Ok (Failure (failed_outcome ERROR_INVALID_ARGUMENTS ''workspace patch must not contain NUL bytes'' None))
      else if length patch > max_patch_bytes (ws_limits state)
      then Ok (Failure (failed_outcome ERROR_INVALID_ARGUMENTS
             ''workspace patch payload exceeds the configured byte limit; retry with the smallest unique hunk needed for the edit''
             None))
      else
        case parse_apply_patch patch of
          Ok p \<Rightarrow> plan_files os cancel fs state [] (wp_files p)
        | Err e \<Rightarrow> Ok (Failure (failed_outcome (pp_code e) (pp_message e) (pp_path e)))
        | Panic \<Rightarrow> Panic
        | Diverge \<Rightarrow> Diverge)"

datatype ToolActionPreflight =
    NoProposal
  | Proposal ActionProposal
  | Outcome tool_failure

definition propose_apply_patch_blocking_checked ::
    "os_env \<Rightarrow> cancellation \<Rightarrow> file_system \<Rightarrow> WorkspaceToolState \<Rightarrow> PendingToolCall \<Rightarrow> string
     \<Rightarrow> (ToolActionPreflight, ToolExecutionError) result" where
  "propose_apply_patch_blocking_checked os cancel fs state call patch =
     and_then (plan_apply_patch_blocking_checked os cancel fs state patch) (\<lambda>r.
     case r of
       Planned plan \<Rightarrow>
         and_then (map_err Infrastructure (collect_evidence (pl_changes plan))) (\<lambda>changes.
         and_then (map_err Infrastructure (from_changes changes)) (\<lambda>proposed.
         and_then (map_err Infrastructure
           (new_action_proposal call WorkspaceWrite ''workspace patch'' (plan_subject plan) (plan_summary plan)
              (WorkspacePatchEvidence proposed))) (\<lambda>proposal.
         Ok (Proposal proposal))))
     | Failure outcome \<Rightarrow> Ok (Outcome outcome))"

end
