(* ===== verification/Patch_Apply.thy ===== *)
theory Patch_Apply
  imports Patch_Plan
begin

text \<open>
  Executing a patch plan: \<^verbatim>\<open>merry-tools/src/patch/apply.rs\<close> and the entry point
  \<^verbatim>\<open>apply_patch_blocking_checked\<close> of \<^verbatim>\<open>patch/plan.rs\<close>. Execution threads the file system; every
  early return gives the file system as it is at that point.
\<close>

section \<open>Success envelope\<close>

record WorkspacePatchSuccessChange =
  sc_path :: string
  sc_op :: "WorkspacePatchOperationKind option"
  sc_hunks :: nat
  sc_lines_before :: "nat option"
  sc_lines_after :: "nat option"
  sc_bytes_before :: nat
  sc_bytes_after :: nat
  sc_ignored_context_hunks :: nat
  sc_lines :: "WorkspacePatchSuccessLine list"

definition change_operation :: "WorkspacePatchSuccessChange \<Rightarrow> WorkspacePatchOperationKind" where
  "change_operation c = (case sc_op c of Some op \<Rightarrow> op | None \<Rightarrow> OpUpdate)"

fun operation_word :: "WorkspacePatchOperationKind \<Rightarrow> string" where
  "operation_word OpAdd = ''added''"
| "operation_word OpUpdate = ''updated''"
| "operation_word OpDelete = ''deleted''"
| "operation_word OpUnknown = ''changed''"

definition model_text :: "WorkspacePatchSuccessChange list \<Rightarrow> string" where
  "model_text changes =
     ''Applied patch:'' @ concat (map (\<lambda>c.
        [LF] @ operation_word (change_operation c) @ '' '' @ sc_path c
        @ (if sc_ignored_context_hunks c > 0
           then '' (ignored '' @ show_nat (sc_ignored_context_hunks c) @ '' context-only hunks)'' else [])) changes)"

datatype ToolExecutionOutcome =
    Succeeded "WorkspacePatchSuccessChange list" "WorkspacePatchChangeEvidence list"
  | Failed tool_failure

section \<open>One file\<close>

datatype PatchFileWriteError = WriteOutcome tool_failure | WriteCancelled

definition write_failure :: "string \<Rightarrow> string \<Rightarrow> string \<Rightarrow> PatchFileWriteError" where
  "write_failure code message path = WriteOutcome (failed_outcome code message (Some path))"

fun blocking_write_error :: "string \<Rightarrow> BlockingToolError \<Rightarrow> PatchFileWriteError" where
  "blocking_write_error path (Domain e) = write_failure (de_code e) (de_message e) path"
| "blocking_write_error path BlockingToolError.Cancelled = WriteCancelled"

definition open_planned_patch_file ::
    "os_env \<Rightarrow> file_system \<Rightarrow> WorkspacePatchFilePlan \<Rightarrow> file_system \<times> (fs_name, DomainError) result" where
  "open_planned_patch_file os fs plan =
     (case fp_mode plan of
        CreateNew \<Rightarrow> open_file_for_patch_create_new os fs (fp_path plan)
      | UpdateExisting \<Rightarrow> (fs, open_file_for_patch os fs (fp_path plan))
      | DeleteExisting \<Rightarrow> (fs, open_file_for_read os fs (fp_path plan)))"

definition delete_apply_patch_file ::
    "os_env \<Rightarrow> WorkspacePatchFilePlan \<Rightarrow> string \<Rightarrow> file_system
     \<Rightarrow> file_system \<times> (string, PatchFileWriteError) result" where
  "delete_apply_patch_file os plan display fs =
     (case os_remove_file os fs (fp_path plan) of
        Ok fs' \<Rightarrow>
          (case symlink_metadata os fs' (fp_path plan) of
             Err NotFound \<Rightarrow> (fs', Ok [])
           | _ \<Rightarrow> (fs', Err (write_failure ERROR_WRITE_FAILED ''workspace file still exists after delete'' display)))
      | _ \<Rightarrow> (fs, Err (write_failure ERROR_WRITE_FAILED ''could not delete workspace file'' display)))"

text \<open>The preimage check immediately before the mutation; a new file has none.\<close>

definition check_preimage ::
    "os_env \<Rightarrow> cancellation \<Rightarrow> WorkspacePatchFilePlan \<Rightarrow> string \<Rightarrow> fs_name \<Rightarrow> file_system
     \<Rightarrow> (unit, PatchFileWriteError) result" where
  "check_preimage os cancel plan display q fs =
     (if fp_mode plan = CreateNew then Ok ()
      else
        and_then (map_err (blocking_write_error display)
          (read_bounded os (\<lambda>k. cancel (ExecRead (fp_path plan) k)) fs (fp_path plan) q (fp_max_read_bytes plan)))
          (\<lambda>bytes.
        if bytes = fp_content_before plan then Ok ()
        else Err (write_failure ERROR_WRITE_FAILED
          ''workspace file changed after the patch was planned; re-read the target file and submit a fresh patch''
          display)))"

text \<open>Writing, truncating, syncing and reading back.\<close>

definition write_planned_bytes ::
    "os_env \<Rightarrow> WorkspacePatchFilePlan \<Rightarrow> string \<Rightarrow> fs_name \<Rightarrow> file_system
     \<Rightarrow> file_system \<times> (string, PatchFileWriteError) result" where
  "write_planned_bytes os plan display q fs =
     (let path = fp_path plan; failure = write_failure ERROR_WRITE_FAILED in
      if os_fails os SeekCall path then (fs, Err (failure ''could not seek workspace file'' display))
      else
        let (fs1, written) = os_write_all os path q (fp_replacement plan) fs in
        if \<not> written then (fs1, Err (failure ''could not write workspace file'' display))
        else
          let (fs2, cut) = os_set_len os path q (length (fp_replacement plan)) fs1 in
          if \<not> cut then (fs2, Err (failure ''could not truncate workspace file'' display))
          else if os_fails os SyncCall path
          then (fs2, Err (failure ''could not sync workspace file'' display))
          else
            (fs2,
             and_then (map_err (blocking_write_error display)
               (read_patch_preimage_for_path os (\<lambda>_. False) False fs2 path (length (fp_replacement plan))))
               (\<lambda>content_after.
             if content_after \<noteq> fp_replacement plan
             then Err (failure ''workspace patch verification failed after write'' display)
             else Ok content_after)))"

definition execute_apply_patch_file_plan ::
    "os_env \<Rightarrow> cancellation \<Rightarrow> WorkspacePatchFilePlan \<Rightarrow> file_system
     \<Rightarrow> file_system \<times> (string, PatchFileWriteError) result" where
  "execute_apply_patch_file_plan os cancel plan fs =
     (let display = vp_display (fp_relative plan) in
      if cancel (ExecOpen (fp_path plan)) then (fs, Err WriteCancelled)
      else
        case open_planned_patch_file os fs plan of
          (fs', Ok q) \<Rightarrow>
            (case check_preimage os cancel plan display q fs' of
               Ok _ \<Rightarrow>
                 if fp_mode plan = DeleteExisting then delete_apply_patch_file os plan display fs'
                 else write_planned_bytes os plan display q fs'
             | Err e \<Rightarrow> (fs', Err e)
             | Panic \<Rightarrow> (fs', Panic)
             | Diverge \<Rightarrow> (fs', Diverge))
        | (fs', Err e) \<Rightarrow> (fs', Err (write_failure (de_code e) (de_message e) display))
        | (fs', Panic) \<Rightarrow> (fs', Panic)
        | (fs', Diverge) \<Rightarrow> (fs', Diverge))"

section \<open>A plan\<close>

definition executed_evidence ::
    "WorkspacePatchFilePlan \<Rightarrow> string \<Rightarrow> (WorkspacePatchChangeEvidence, ActionProposalError) result" where
  "executed_evidence change content_after =
     new_change_evidence (vp_display (fp_relative change)) (fp_preimage_bytes change)
       (fp_replacement_bytes change) (fp_bytes_before change) (length content_after)
       (stable_content_fingerprint (fp_content_before change)) (stable_content_fingerprint content_after)"

definition success_change :: "WorkspacePatchFilePlan \<Rightarrow> string \<Rightarrow> WorkspacePatchSuccessChange" where
  "success_change change content_after =
     \<lparr>sc_path = vp_display (fp_relative change), sc_op = Some (operation_kind (fp_mode change)),
      sc_hunks = fp_hunks change, sc_lines_before = Some (fp_lines_before change),
      sc_lines_after = Some (count_file_lines content_after), sc_bytes_before = fp_bytes_before change,
      sc_bytes_after = length content_after, sc_ignored_context_hunks = fp_ignored_context_hunks change,
      sc_lines = fp_lines change\<rparr>"

fun execute_changes ::
    "os_env \<Rightarrow> cancellation \<Rightarrow> WorkspacePatchSuccessChange list \<Rightarrow> WorkspacePatchChangeEvidence list
     \<Rightarrow> WorkspacePatchFilePlan list \<Rightarrow> file_system
     \<Rightarrow> file_system \<times> (ToolExecutionOutcome, ToolExecutionError) result" where
  "execute_changes os cancel written evidence [] fs =
     (fs, and_then (map_err Infrastructure (from_changes evidence)) (\<lambda>ev. Ok (Succeeded written ev)))"
| "execute_changes os cancel written evidence (change # changes) fs =
     (if cancel (ExecFile (vp_display (fp_relative change))) then (fs, Err ExecutionCancelled)
      else
        case execute_apply_patch_file_plan os cancel change fs of
          (fs', Ok content_after) \<Rightarrow>
            (case executed_evidence change content_after of
               Ok ev \<Rightarrow>
                 execute_changes os cancel (written @ [success_change change content_after])
                   (evidence @ [ev]) changes fs'
             | Err e \<Rightarrow> (fs', Err (Infrastructure e))
             | Panic \<Rightarrow> (fs', Panic)
             | Diverge \<Rightarrow> (fs', Diverge))
        | (fs', Err (WriteOutcome outcome)) \<Rightarrow> (fs', Ok (Failed outcome))
        | (fs', Err WriteCancelled) \<Rightarrow> (fs', Err ExecutionCancelled)
        | (fs', Panic) \<Rightarrow> (fs', Panic)
        | (fs', Diverge) \<Rightarrow> (fs', Diverge))"

definition execute_apply_patch_plan ::
    "os_env \<Rightarrow> cancellation \<Rightarrow> WorkspacePatchPlan \<Rightarrow> file_system
     \<Rightarrow> file_system \<times> (ToolExecutionOutcome, ToolExecutionError) result" where
  "execute_apply_patch_plan os cancel plan fs =
     (if cancel ExecStart then (fs, Err ExecutionCancelled)
      else execute_changes os cancel [] [] (pl_changes plan) fs)"

definition WORKSPACE_PATCH_PLAN_CHANGED_MESSAGE :: string where
  "WORKSPACE_PATCH_PLAN_CHANGED_MESSAGE = ''workspace patch plan changed before execution''"

definition proposal_mismatch_outcome :: "string \<Rightarrow> ToolExecutionOutcome" where
  "proposal_mismatch_outcome path =
     Failed (failed_outcome ERROR_PROPOSAL_MISMATCH WORKSPACE_PATCH_PLAN_CHANGED_MESSAGE (Some path))"

text \<open>
  Other processes may change the file system between planning and execution: planning sees \<^verbatim>\<open>seen\<close>,
  execution starts on \<^verbatim>\<open>fs\<close>.
\<close>

definition apply_patch_blocking_checked ::
    "os_env \<Rightarrow> cancellation \<Rightarrow> WorkspaceToolState \<Rightarrow> string \<Rightarrow> WorkspacePatchChangeEvidence list option
     \<Rightarrow> file_system \<Rightarrow> file_system \<Rightarrow> file_system \<times> (ToolExecutionOutcome, ToolExecutionError) result" where
  "apply_patch_blocking_checked os cancel state patch approved seen fs =
     (case plan_apply_patch_blocking_checked os cancel seen state patch of
        Ok (Planned plan) \<Rightarrow>
          (case approved of
             Some proposal \<Rightarrow>
               if match_approved_patch_proposal proposal plan then execute_apply_patch_plan os cancel plan fs
               else (fs, Ok (proposal_mismatch_outcome (plan_subject plan)))
           | None \<Rightarrow> execute_apply_patch_plan os cancel plan fs)
      | Ok (Failure outcome) \<Rightarrow> (fs, Ok (Failed outcome))
      | Err e \<Rightarrow> (fs, Err e)
      | Panic \<Rightarrow> (fs, Panic)
      | Diverge \<Rightarrow> (fs, Diverge))"

end
