(* ===== verification/Patch_Safety.thy ===== *)
theory Patch_Safety
  imports Patch_Apply
begin

text \<open>
  What executing a patch does to the file system: an existing file changes only if it is the target of
  a planned update or deletion and holds the bytes that were planned against, everything else is left
  alone, and a change reported as done is exactly the planned one.
\<close>

section \<open>Effects on the store\<close>

text \<open>Creating parent directories only adds directories.\<close>

definition adds_dirs :: "file_system \<Rightarrow> file_system \<Rightarrow> bool" where
  "adds_dirs fs fs' \<longleftrightarrow> (\<forall>p. fs' p = fs p \<or> fs p = None \<and> fs' p = Some FsDir)"

lemma adds_dirs_refl: "adds_dirs fs fs"
  by (simp add: adds_dirs_def)

lemma adds_dirs_trans: "adds_dirs a b \<Longrightarrow> adds_dirs b c \<Longrightarrow> adds_dirs a c"
  unfolding adds_dirs_def by metis

lemma node_at_None: "node_at fs q = None \<longleftrightarrow> q \<noteq> [] \<and> fs q = None"
  by (simp add: node_at_def)

lemma node_at_file: "node_at fs q = Some (FsFile b) \<Longrightarrow> fs q = Some (FsFile b)"
  by (auto simp: node_at_def split: if_splits)

lemma create_dir_adds: "os_create_dir os fs path = Ok fs' \<Longrightarrow> adds_dirs fs fs'"
  by (auto simp: os_create_dir_def adds_dirs_def result_simps node_at_None split: if_splits)

lemma create_parent_adds: "create_patch_parent os fs path = (fs', r) \<Longrightarrow> adds_dirs fs fs'"
  by (auto simp: create_patch_parent_def adds_dirs_refl dest: create_dir_adds
      split: result.splits io_error.splits)

lemma create_parents_adds: "create_parents_loop os fs cur cs = (fs', r) \<Longrightarrow> adds_dirs fs fs'"
proof (induction os fs cur cs rule: create_parents_loop.induct)
  case (2 os fs cur c cs)
  let ?next = "path_push cur (component_text c)"
  obtain fs1 r1 where p: "create_patch_parent os fs ?next = (fs1, r1)" by fastforce
  note first = create_parent_adds [OF p]
  show ?case
  proof (cases r1)
    case (Ok u)
    with "2.prems" p have "create_parents_loop os fs1 ?next cs = (fs', r)" by (simp add: Let_def)
    from "2.IH" [OF refl p [symmetric] Ok this] first show ?thesis by (blast intro: adds_dirs_trans)
  qed (use "2.prems" p first in \<open>auto simp: Let_def\<close>)
qed (simp add: adds_dirs_refl)

lemma create_new_effect:
  assumes "open_file_for_patch_create_new os fs path = (fs', r)"
  shows "\<exists>fs1. adds_dirs fs fs1 \<and>
    (fs' = fs1 \<and> (\<forall>q. r \<noteq> Ok q)
     \<or> (\<exists>q. r = Ok q \<and> locate fs1 False path = Ok q \<and> fs1 q = None \<and> q \<noteq> [] \<and> fs' = fs1(q \<mapsto> FsFile [])))"
proof -
  obtain fs1 r1 where p: "create_patch_parent_directories os fs path = (fs1, r1)" by fastforce
  then have a: "adds_dirs fs fs1"
    by (auto simp: create_patch_parent_directories_def adds_dirs_refl dest: create_parents_adds split: if_splits)
  show ?thesis
  proof (cases "\<exists>u f q. r1 = Ok u \<and> os_create_new os fs1 path = Ok (f, q)")
    case True
    then obtain u f q where "r1 = Ok u" and c: "os_create_new os fs1 path = Ok (f, q)" by blast
    then have "fs' = f" "r = Ok q" using assms p by (auto simp: open_file_for_patch_create_new_def)
    moreover have "locate fs1 False path = Ok q \<and> fs1 q = None \<and> q \<noteq> [] \<and> f = fs1(q \<mapsto> FsFile [])"
      using c by (auto simp: os_create_new_def result_simps node_at_None split: if_splits)
    ultimately show ?thesis using a by blast
  next
    case False
    then have "fs' = fs1 \<and> (\<forall>q. r \<noteq> Ok q)"
      using assms p
      by (auto simp: open_file_for_patch_create_new_def split: result.splits io_error.splits)
    with a show ?thesis by blast
  qed
qed

lemma os_open_read_located: "os_open_read os fs path = Ok q \<Longrightarrow> locate fs False path = Ok q"
proof -
  assume "os_open_read os fs path = Ok q"
  then obtain x where "locate fs False path = Ok x"
    and "(case node_at fs x of None \<Rightarrow> Err NotFound | Some (FsLink _) \<Rightarrow> Err TooManyLinks | Some _ \<Rightarrow> Ok x) = Ok q"
    by (auto simp: os_open_read_def and_then_Ok_iff simp del: case_prod_conv split: if_split_asm)
  then show ?thesis by (auto split: option.split_asm fs_node.split_asm)
qed

lemma open_write_located: "open_file_for_patch os fs path = Ok q \<Longrightarrow> locate fs False path = Ok q"
  by (auto simp: open_file_for_patch_def map_open_error_def os_open_write_def and_then_Ok_iff
      dest: os_open_read_located split: result.split_asm if_split_asm)

lemma open_read_located: "open_file_for_read os fs path = Ok q \<Longrightarrow> locate fs False path = Ok q"
  by (auto simp: open_file_for_read_def map_open_error_def dest: os_open_read_located split: result.split_asm)

lemma read_bounded_Ok:
  "read_bounded os c fs path q limit = Ok b \<Longrightarrow> fs q = Some (FsFile b) \<and> q \<noteq> [] \<and> length b \<le> limit"
  by (auto simp: read_bounded_def node_at_def split: if_splits option.splits fs_node.splits)

lemma check_preimage_Ok:
  "check_preimage os cancel plan display q fs = Ok u \<Longrightarrow> fp_mode plan \<noteq> CreateNew \<Longrightarrow>
     fs q = Some (FsFile (fp_content_before plan)) \<and> q \<noteq> []"
  by (auto simp: check_preimage_def map_err_def result_simps dest: read_bounded_Ok
      split: if_splits result.splits)

text \<open>The write steps touch the opened file only, and a completed write leaves the planned bytes.\<close>

lemma write_planned_effect:
  assumes "write_planned_bytes os plan display q fs = (fs', r)"
  shows "(fs' = fs \<or> (\<exists>b. fs' = fs(q \<mapsto> FsFile b)))
    \<and> (\<forall>c. r = Ok c \<longrightarrow> c = fp_replacement plan \<and> fs' = fs(q \<mapsto> FsFile (fp_replacement plan)))"
proof -
  let ?n = "fp_replacement plan"
  have cut: "take (length ?n) (overwrite ?n b) @ replicate (length ?n - length (overwrite ?n b)) z = ?n" for b and z :: char
    by (simp add: overwrite_def)
  show ?thesis
    using assms cut
    by (auto simp: write_planned_bytes_def os_write_all_def os_set_len_def Let_def file_bytes_def
        map_err_def result_simps split: if_splits prod.splits result.splits)
qed

lemma delete_effect:
  assumes "delete_apply_patch_file os plan display fs = (fs', r)"
  shows "(fs' = fs \<and> (\<forall>c. r \<noteq> Ok c)) \<or>
    (\<exists>q. locate fs False (fp_path plan) = Ok q \<and> q \<noteq> [] \<and> fs' = fs(q := None) \<and> (\<forall>c. r = Ok c \<longrightarrow> c = []))"
proof (cases "os_remove_file os fs (fp_path plan)")
  case (Ok f)
  then obtain q where "locate fs False (fp_path plan) = Ok q" and "q \<noteq> []" and "f = fs(q := None)"
    by (auto simp: os_remove_file_def result_simps node_at_def split: if_splits option.splits fs_node.splits)
  with assms Ok show ?thesis
    by (auto simp: delete_apply_patch_file_def split: result.splits io_error.splits)
qed (use assms in \<open>auto simp: delete_apply_patch_file_def\<close>)

section \<open>One planned change\<close>

text \<open>
  The effect of executing one planned change, by its mode. The target is the name the path resolves to;
  an update or deletion happens only where the planned preimage is.
\<close>

definition change_effect :: "WorkspacePatchFilePlan \<Rightarrow> file_system \<Rightarrow> file_system \<Rightarrow> bool" where
  "change_effect c fs fs' \<longleftrightarrow>
     (case fp_mode c of
        CreateNew \<Rightarrow>
          (\<exists>fs1. adds_dirs fs fs1 \<and> (fs' = fs1 \<or>
             (\<exists>q b. locate fs1 False (fp_path c) = Ok q \<and> fs1 q = None \<and> fs' = fs1(q \<mapsto> FsFile b))))
      | UpdateExisting \<Rightarrow>
          fs' = fs \<or> (\<exists>q b. locate fs False (fp_path c) = Ok q \<and> fs q = Some (FsFile (fp_content_before c))
            \<and> fs' = fs(q \<mapsto> FsFile b))
      | DeleteExisting \<Rightarrow>
          fs' = fs \<or> (\<exists>q. locate fs False (fp_path c) = Ok q \<and> fs q = Some (FsFile (fp_content_before c))
            \<and> fs' = fs(q := None)))"

definition change_done :: "WorkspacePatchFilePlan \<Rightarrow> file_system \<Rightarrow> file_system \<Rightarrow> bool" where
  "change_done c fs fs' \<longleftrightarrow>
     (case fp_mode c of
        CreateNew \<Rightarrow>
          (\<exists>fs1 q. adds_dirs fs fs1 \<and> locate fs1 False (fp_path c) = Ok q \<and> fs1 q = None
             \<and> fs' = fs1(q \<mapsto> FsFile (fp_replacement c)))
      | UpdateExisting \<Rightarrow>
          (\<exists>q. locate fs False (fp_path c) = Ok q \<and> fs q = Some (FsFile (fp_content_before c))
             \<and> fs' = fs(q \<mapsto> FsFile (fp_replacement c)))
      | DeleteExisting \<Rightarrow>
          (\<exists>q. locate fs False (fp_path c) = Ok q \<and> fs q = Some (FsFile (fp_content_before c))
             \<and> fs' = fs(q := None)))"

lemma execute_create:
  assumes "execute_apply_patch_file_plan os cancel c fs = (fs', r)" and m: "fp_mode c = CreateNew"
  shows "change_effect c fs fs' \<and> (\<forall>t. r = Ok t \<longrightarrow> t = fp_replacement c \<and> change_done c fs fs')"
proof (cases "cancel (ExecOpen (fp_path c))")
  case True
  with assms show ?thesis
    by (auto simp: execute_apply_patch_file_plan_def change_effect_def intro: adds_dirs_refl)
next
  case False
  let ?d = "vp_display (fp_relative c)"
  obtain f o1 where o: "open_file_for_patch_create_new os fs (fp_path c) = (f, o1)" by fastforce
  from create_new_effect [OF o] obtain fs1 where a: "adds_dirs fs fs1"
    and e: "f = fs1 \<and> (\<forall>q. o1 \<noteq> Ok q)
      \<or> (\<exists>q. o1 = Ok q \<and> locate fs1 False (fp_path c) = Ok q \<and> fs1 q = None \<and> q \<noteq> [] \<and> f = fs1(q \<mapsto> FsFile []))"
    by blast
  from e show ?thesis
  proof
    assume "f = fs1 \<and> (\<forall>q. o1 \<noteq> Ok q)"
    with assms False o a show ?thesis
      by (cases o1) (auto simp: execute_apply_patch_file_plan_def open_planned_patch_file_def change_effect_def)
  next
    assume "\<exists>q. o1 = Ok q \<and> locate fs1 False (fp_path c) = Ok q \<and> fs1 q = None \<and> q \<noteq> [] \<and> f = fs1(q \<mapsto> FsFile [])"
    then obtain q where q: "o1 = Ok q" "locate fs1 False (fp_path c) = Ok q" "fs1 q = None" "f = fs1(q \<mapsto> FsFile [])"
      by blast
    with assms False o have w: "write_planned_bytes os c ?d q f = (fs', r)"
      by (simp add: execute_apply_patch_file_plan_def open_planned_patch_file_def check_preimage_def)
    from write_planned_effect [OF w] q a m show ?thesis
      by (fastforce simp: change_effect_def change_done_def)
  qed
qed

lemma execute_existing:
  assumes "execute_apply_patch_file_plan os cancel c fs = (fs', r)" and m: "fp_mode c \<noteq> CreateNew"
  shows "change_effect c fs fs' \<and>
    (\<forall>t. r = Ok t \<longrightarrow> t = (if fp_mode c = DeleteExisting then [] else fp_replacement c) \<and> change_done c fs fs')"
proof -
  let ?d = "vp_display (fp_relative c)"
  obtain o1 where o: "open_planned_patch_file os fs c = (fs, o1)" and loc: "\<forall>q. o1 = Ok q \<longrightarrow> locate fs False (fp_path c) = Ok q"
    using m by (cases "fp_mode c") (auto simp: open_planned_patch_file_def dest: open_write_located open_read_located)
  show ?thesis
  proof (cases "\<not> cancel (ExecOpen (fp_path c)) \<and> (\<exists>q. o1 = Ok q \<and> check_preimage os cancel c ?d q fs = Ok ())")
    case False
    then have "fs' = fs \<and> (\<forall>t. r \<noteq> Ok t)"
      using assms(1) o
      by (auto simp: execute_apply_patch_file_plan_def Let_def split: if_splits result.splits)
    with m show ?thesis by (cases "fp_mode c") (simp_all add: change_effect_def)
  next
    case True
    then obtain q where q: "o1 = Ok q" "check_preimage os cancel c ?d q fs = Ok ()" by blast
    have pre: "fs q = Some (FsFile (fp_content_before c))" "locate fs False (fp_path c) = Ok q"
      using check_preimage_Ok [OF q(2) m] loc q(1) by blast+
    show ?thesis
    proof (cases "fp_mode c")
      case UpdateExisting
      with assms(1) True o q have "write_planned_bytes os c ?d q fs = (fs', r)"
        by (simp add: execute_apply_patch_file_plan_def)
      from write_planned_effect [OF this] pre UpdateExisting show ?thesis
        by (auto simp: change_effect_def change_done_def)
    next
      case DeleteExisting
      with assms(1) True o q have "delete_apply_patch_file os c ?d fs = (fs', r)"
        by (simp add: execute_apply_patch_file_plan_def)
      from delete_effect [OF this] pre DeleteExisting show ?thesis
        by (auto simp: change_effect_def change_done_def)
    qed (use m in simp)
  qed
qed

lemma execute_file_exact:
  assumes "execute_apply_patch_file_plan os cancel c fs = (fs', Ok content)"
  shows "content = (if fp_mode c = DeleteExisting then [] else fp_replacement c) \<and> change_done c fs fs'"
  using execute_create [OF assms] execute_existing [OF assms] by (cases "fp_mode c") auto

section \<open>A whole patch\<close>

lemma change_effect_preserves:
  assumes "change_effect c fs fs'" and "fs p = Some n" and "fs' p \<noteq> Some n"
  shows "fp_mode c \<noteq> CreateNew \<and> n = FsFile (fp_content_before c)"
proof (cases "fp_mode c")
  case CreateNew
  with assms(1) obtain fs1 where a: "adds_dirs fs fs1"
    and f: "fs' = fs1 \<or> (\<exists>q b. fs1 q = None \<and> fs' = fs1(q \<mapsto> FsFile b))"
    by (auto simp: change_effect_def)
  have "fs1 p = Some n" using a assms(2) unfolding adds_dirs_def by (metis option.distinct(1))
  with f assms(3) show ?thesis by (auto split: if_splits)
qed (use assms in \<open>auto simp: change_effect_def split: if_splits\<close>)

lemma execute_file_effect: "execute_apply_patch_file_plan os cancel c fs = (fs', r) \<Longrightarrow> change_effect c fs fs'"
  using execute_create execute_existing by (cases "fp_mode c = CreateNew") blast+

lemma execute_changes_preserves:
  assumes "execute_changes os cancel written evidence cs fs = (fs', r)" and "fs p = Some n" and "fs' p \<noteq> Some n"
  shows "\<exists>c\<in>set cs. fp_mode c \<noteq> CreateNew \<and> n = FsFile (fp_content_before c)"
  using assms
proof (induction cs arbitrary: written evidence fs)
  case (Cons c cs)
  obtain fs1 r1 where e: "execute_apply_patch_file_plan os cancel c fs = (fs1, r1)" by fastforce
  show ?case
  proof (cases "fs1 p = Some n")
    case False
    with change_effect_preserves [OF execute_file_effect [OF e] Cons.prems(2)] show ?thesis by simp
  next
    case True
    with Cons.prems(3) have "fs' \<noteq> fs1" and "fs' \<noteq> fs" using Cons.prems(2) by auto
    then obtain w ev where next_changes: "execute_changes os cancel w ev cs fs1 = (fs', r)"
      using Cons.prems(1) e
      by (auto split: if_splits result.splits PatchFileWriteError.splits)
    from Cons.IH [OF next_changes] True Cons.prems(3) show ?thesis by auto
  qed
qed simp

section \<open>What planning establishes\<close>

text \<open>A planned change: where it may write, what it was planned against, and the sizes it records.\<close>

definition planned_against :: "file_system \<Rightarrow> WorkspacePatchFilePlan \<Rightarrow> bool" where
  "planned_against seen c \<longleftrightarrow>
     (\<exists>q. locate seen False (fp_path c) = Ok q \<and> seen q = Some (FsFile (fp_content_before c))
        \<and> is_utf8 (fp_content_before c) \<and> CHR 0x00 \<notin> set (fp_content_before c)
        \<and> length (fp_content_before c) \<le> fp_max_read_bytes c)"

definition planned_ok :: "WorkspaceToolState \<Rightarrow> file_system \<Rightarrow> WorkspacePatchFilePlan \<Rightarrow> bool" where
  "planned_ok state seen c \<longleftrightarrow>
     (\<exists>requested. validate_workspace_path_argument requested (ws_root state) = Ok (fp_relative c))
     \<and> validate_patch_write_boundary state (fp_relative c) = Ok ()
     \<and> length (fp_replacement c) \<le> max_write_bytes (ws_limits state)
     \<and> fp_bytes_after c = length (fp_replacement c) \<and> fp_bytes_before c = length (fp_content_before c)
     \<and> fp_max_read_bytes c = max_read_bytes (ws_limits state)
     \<and> (case fp_mode c of
          CreateNew \<Rightarrow> fp_content_before c = []
        | UpdateExisting \<Rightarrow> planned_against seen c
            \<and> (\<exists>hunks r. build_patch_replacement (fp_content_before c) hunks = Ok r \<and> rp_text r = fp_replacement c)
        | DeleteExisting \<Rightarrow> planned_against seen c \<and> fp_replacement c = [])"

lemma map_err_Ok_iff [result_simps]: "map_err f r = Ok x \<longleftrightarrow> r = Ok x"
  by (cases r) (auto simp: map_err_def)

lemma read_preimage_Ok:
  assumes "read_patch_preimage os cancel fs state path = Ok b"
  shows "\<exists>q. locate fs False path = Ok q \<and> fs q = Some (FsFile b) \<and> is_utf8 b \<and> CHR 0x00 \<notin> set b
    \<and> length b \<le> max_read_bytes (ws_limits state)"
proof -
  obtain q bytes where "open_file_for_read os fs path = Ok q"
    and "read_bounded os (\<lambda>k. cancel (PlanRead path k)) fs path q (max_read_bytes (ws_limits state)) = Ok bytes"
    and "CHR 0x00 \<notin> set bytes" and "decode_utf8 bytes = Ok b"
    using assms
    by (auto simp: read_patch_preimage_def read_patch_preimage_for_path_def result_simps
        split: if_split_asm result.split_asm)
  then show ?thesis
    using open_read_located read_bounded_Ok by (fastforce simp: decode_utf8_def split: if_split_asm)
qed

lemma resolve_existing_Ok:
  "resolve_existing_patch_path os cancel fs state requested = Ok (relative, path) \<Longrightarrow>
     validate_workspace_path_argument requested (ws_root state) = Ok relative
     \<and> validate_patch_write_boundary state relative = Ok ()"
  by (auto simp: resolve_existing_patch_path_def result_simps split: if_split_asm option.split_asm)

lemma plan_file_ok:
  assumes "plan_apply_patch_file os cancel fs state f = Ok c"
  shows "planned_ok state fs c"
proof (cases "pf_operation f")
  case (AddFile lines)
  then obtain relative path where v: "validate_workspace_path_argument (pf_path f) (ws_root state) = Ok relative"
    "validate_patch_write_boundary state relative = Ok ()"
    and p: "plan_new_apply_patch_file cancel state relative path lines = Ok c"
    using assms AddFile by (clarsimp simp: plan_apply_patch_file_def result_simps Let_def split: if_split_asm)
      (case_tac xa; auto simp: result_simps)
  from p v show ?thesis
    by (auto simp: plan_new_apply_patch_file_def planned_ok_def Let_def split: if_split_asm)
next
  case (UpdateFile hunks)
  then obtain relative path where r: "resolve_existing_patch_path os cancel fs state (pf_path f) = Ok (relative, path)"
    and p: "plan_resolved_apply_patch_file os cancel fs state relative path hunks (pf_ignored_context_hunks f) = Ok c"
    using assms by (auto simp: plan_apply_patch_file_def result_simps)
  from p obtain content rp where content: "read_patch_preimage os cancel fs state path = Ok content"
    and b: "build_patch_replacement content hunks = Ok rp" "length (rp_text rp) \<le> max_write_bytes (ws_limits state)"
    and c: "fp_relative c = relative" "fp_path c = path" "fp_content_before c = content"
      "fp_replacement c = rp_text rp" "fp_bytes_before c = length content" "fp_bytes_after c = length (rp_text rp)"
      "fp_max_read_bytes c = max_read_bytes (ws_limits state)" "fp_mode c = UpdateExisting"
    by (auto simp: plan_resolved_apply_patch_file_def result_simps split: if_split_asm)
  have "planned_against fs c" using read_preimage_Ok [OF content] c by (simp add: planned_against_def)
  with resolve_existing_Ok [OF r] b c show ?thesis by (auto simp: planned_ok_def)
next
  case DeleteFile
  then obtain relative path where r: "resolve_existing_patch_path os cancel fs state (pf_path f) = Ok (relative, path)"
    and p: "plan_resolved_apply_patch_delete os cancel fs state relative path = Ok c"
    using assms by (auto simp: plan_apply_patch_file_def result_simps)
  from p obtain content where content: "read_patch_preimage os cancel fs state path = Ok content"
    and c: "fp_relative c = relative" "fp_path c = path" "fp_content_before c = content"
      "fp_replacement c = []" "fp_bytes_before c = length content" "fp_bytes_after c = 0"
      "fp_max_read_bytes c = max_read_bytes (ws_limits state)" "fp_mode c = DeleteExisting"
    by (auto simp: plan_resolved_apply_patch_delete_def result_simps split: if_split_asm)
  have "planned_against fs c" using read_preimage_Ok [OF content] c by (simp add: planned_against_def)
  with resolve_existing_Ok [OF r] c show ?thesis by (auto simp: planned_ok_def)
qed

lemma plan_files_ok:
  "plan_files os cancel fs state changes files = Ok (Planned plan) \<Longrightarrow>
     list_all (planned_ok state fs) changes \<Longrightarrow> list_all (planned_ok state fs) (pl_changes plan)"
proof (induction files arbitrary: changes)
  case (Cons f files)
  show ?case
  proof (cases "plan_apply_patch_file os cancel fs state f")
    case (Ok c)
    with Cons.prems Cons.IH [of "changes @ [c]"] plan_file_ok [OF Ok] show ?thesis by (simp split: if_split_asm)
  next
    case (Err e)
    with Cons.prems show ?thesis by (cases e) (auto split: if_split_asm)
  qed (use Cons.prems in \<open>auto split: if_split_asm\<close>)
qed auto

lemma planned_changes_ok:
  assumes "plan_apply_patch_blocking_checked os cancel seen state patch = Ok (Planned plan)"
  shows "list_all (planned_ok state seen) (pl_changes plan) \<and> length patch \<le> max_patch_bytes (ws_limits state)"
  using assms plan_files_ok [of os cancel seen state "[]"]
  by (auto simp: plan_apply_patch_blocking_checked_def split: if_split_asm result.split_asm)

end
