(* ===== verification/Patch_Edits.thy ===== *)
theory Patch_Edits
  imports Patch_Types
begin

text \<open>
  What the edit engine of \<^verbatim>\<open>apply_patch\<close> guarantees: a specification of applying hunks one after the
  other, that the engine computes exactly it, byte accounting, undoing a hunk, new files and line
  counts, and the inputs where the engine departs from the tool's description.
\<close>

section \<open>Specification\<close>

text \<open>
  The engine's notion of a unique match: the preimage occurs, the occurrence used is the first one, and
  the text after it has no other.
\<close>

definition replaces :: "string \<Rightarrow> string \<Rightarrow> string \<Rightarrow> string \<Rightarrow> bool" where
  "replaces old new before after \<longleftrightarrow>
     (\<exists>pre post. before = pre @ old @ post \<and> after = pre @ new @ post
        \<and> (\<forall>pre' post'. before = pre' @ old @ post' \<longrightarrow> length pre \<le> length pre')
        \<and> (\<nexists>pre' post'. post = pre' @ old @ post'))"

inductive edit_chain :: "bool \<Rightarrow> string \<Rightarrow> WorkspacePatchHunk list \<Rightarrow> string \<Rightarrow> bool" where
  unchanged: "edit_chain nl content [] content"
| hunk: "old_text h nl \<noteq> [] \<Longrightarrow> replaces (old_text h nl) (new_text h nl) content between \<Longrightarrow>
    edit_chain nl between hs after \<Longrightarrow> edit_chain nl content (h # hs) after"

inductive_cases edit_chain_NilE: "edit_chain nl content [] after"
inductive_cases edit_chain_ConsE: "edit_chain nl content (h # hs) after"

lemma build_replacement_Ok_iff:
  "(\<exists>lines. build_replacement content old new h d = Ok (after, lines)) \<longleftrightarrow> replaces old new content after"
proof
  assume "\<exists>lines. build_replacement content old new h d = Ok (after, lines)"
  then obtain start where f: "str_find content old = Some start"
    and u: "\<not> str_contains (drop (start + length old) content) old"
    and a: "after = take start content @ new @ drop (start + length old) content"
    by (auto simp: build_replacement_def Let_def split: option.splits if_splits)
  from str_find_SomeD [OF f] have c: "content = take start content @ old @ drop (start + length old) content"
    and "start \<le> length content" by blast+
  then have len: "length (take start content) = start" by simp
  show "replaces old new content after"
    unfolding replaces_def
    by (intro exI [of _ "take start content"] exI [of _ "drop (start + length old) content"] conjI)
      (use c a u len str_find_first [OF f] in \<open>auto simp: str_contains_iff\<close>)
next
  assume "replaces old new content after"
  then obtain pre post where c: "content = pre @ old @ post" and a: "after = pre @ new @ post"
    and first: "\<forall>pre' post'. content = pre' @ old @ post' \<longrightarrow> length pre \<le> length pre'"
    and u: "\<nexists>pre' post'. post = pre' @ old @ post'"
    by (auto simp: replaces_def)
  obtain start where f: "str_find content old = Some start"
    using c str_find_None_iff [of content old] by (cases "str_find content old") auto
  have "start = length pre"
    using str_find_first [OF f c] str_find_SomeD [OF f] first
    by (metis append_eq_conv_conj le_antisym length_take min.absorb2)
  with c a u f show "\<exists>lines. build_replacement content old new h d = Ok (after, lines)"
    by (auto simp: build_replacement_def str_contains_iff Let_def)
qed

lemma build_replacement_OkD:
  "build_replacement content old new h d = Ok (after, lines) \<Longrightarrow> replaces old new content after"
  using build_replacement_Ok_iff by blast

lemma apply_hunk_Ok_iff:
  "apply_hunk nl rs h = Ok rs' \<Longrightarrow>
     old_text h nl \<noteq> [] \<and> replaces (old_text h nl) (new_text h nl) (rs_replacement rs) (rs_replacement rs')
     \<and> rs_preimage rs' = rs_preimage rs + length (old_text h nl)
     \<and> rs_added rs' = rs_added rs + length (new_text h nl)"
  by (auto simp: apply_hunk_def Let_def result_simps split: if_splits dest: build_replacement_OkD)

lemma apply_hunk_Some:
  assumes "old_text h nl \<noteq> []" and "replaces (old_text h nl) (new_text h nl) (rs_replacement rs) after"
  shows "\<exists>rs'. apply_hunk nl rs h = Ok rs' \<and> rs_replacement rs' = after"
  using assms build_replacement_Ok_iff [of "rs_replacement rs" "old_text h nl" "new_text h nl" h "rs_delta rs" after]
  by (auto simp: apply_hunk_def Let_def)

lemma fold_hunks_iff:
  "(\<exists>rs'. fold_res (apply_hunk nl) rs hs = Ok rs' \<and> rs_replacement rs' = after) \<longleftrightarrow>
     edit_chain nl (rs_replacement rs) hs after"
proof (induction hs arbitrary: rs)
  case Nil
  show ?case by (auto intro: edit_chain.intros elim: edit_chain_NilE)
next
  case (Cons h hs)
  show ?case
  proof
    assume "\<exists>rs'. fold_res (apply_hunk nl) rs (h # hs) = Ok rs' \<and> rs_replacement rs' = after"
    then obtain r where r: "apply_hunk nl rs h = Ok r"
      and "\<exists>rs'. fold_res (apply_hunk nl) r hs = Ok rs' \<and> rs_replacement rs' = after"
      by (auto simp: result_simps)
    with Cons.IH [of r] apply_hunk_Ok_iff [OF r] show "edit_chain nl (rs_replacement rs) (h # hs) after"
      by (blast intro: edit_chain.hunk)
  next
    assume "edit_chain nl (rs_replacement rs) (h # hs) after"
    then obtain mid where "old_text h nl \<noteq> []"
      and "replaces (old_text h nl) (new_text h nl) (rs_replacement rs) mid" and "edit_chain nl mid hs after"
      by (blast elim: edit_chain_ConsE)
    then obtain r where "apply_hunk nl rs h = Ok r" and "rs_replacement r = mid" and "edit_chain nl mid hs after"
      using apply_hunk_Some by blast
    with Cons.IH [of r] show "\<exists>rs'. fold_res (apply_hunk nl) rs (h # hs) = Ok rs' \<and> rs_replacement rs' = after"
      by auto
  qed
qed

lemma build_patch_replacement_chain:
  "(\<exists>r. build_patch_replacement content hunks = Ok r \<and> rp_text r = after) \<longleftrightarrow>
     edit_chain (ends_with_char content LF) content hunks after"
  using fold_hunks_iff [of "ends_with_char content LF" "start_replacement content" hunks after]
  by (auto simp: build_patch_replacement_def start_replacement_def result_simps)

lemma replaces_functional:
  assumes "replaces old new before after" and "replaces old new before after'"
  shows "after = after'"
proof -
  obtain pre post where 1: "before = pre @ old @ post" "after = pre @ new @ post"
      "\<forall>p q. before = p @ old @ q \<longrightarrow> length pre \<le> length p"
    using assms(1) unfolding replaces_def by blast
  obtain pre' post' where 2: "before = pre' @ old @ post'" "after' = pre' @ new @ post'"
      "\<forall>p q. before = p @ old @ q \<longrightarrow> length pre' \<le> length p"
    using assms(2) unfolding replaces_def by blast
  have "length pre = length pre'" using 1 2 by (metis le_antisym)
  then have "pre = pre' \<and> post = post'" using 1(1) 2(1) by simp
  with 1 2 show ?thesis by simp
qed

lemma edit_chain_functional: "edit_chain nl c hs a \<Longrightarrow> edit_chain nl c hs b \<Longrightarrow> a = b"
proof (induction arbitrary: b rule: edit_chain.induct)
  case (unchanged nl content)
  then show ?case by (auto elim: edit_chain_NilE)
next
  case (hunk h nl content between hs after)
  then show ?case by (metis edit_chain_ConsE replaces_functional)
qed

text \<open>
  C32. The edit engine implements its specification. Planning an update succeeds with a text exactly when
  the hunks, taken in order on the text produced so far, each replace the first occurrence of their
  preimage and that preimage does not occur again after it; the resulting text is then determined. The
  byte counts recorded with it account for the change of length.
\<close>

theorem build_patch_replacement_refines:
  "(\<forall>after. (\<exists>r. build_patch_replacement content hunks = Ok r \<and> rp_text r = after)
      \<longleftrightarrow> edit_chain (ends_with_char content LF) content hunks after)
   \<and> (\<forall>r. build_patch_replacement content hunks = Ok r \<longrightarrow>
        length (rp_text r) + rp_preimage_bytes r = length content + rp_replacement_bytes r)"
proof -
  have "length (rs_replacement rs') + rs_preimage rs' + rs_added rs
      = length (rs_replacement rs) + rs_preimage rs + rs_added rs'"
    if "fold_res (apply_hunk nl) rs hs = Ok rs'" for nl hs rs rs'
    using that
  proof (induction hs arbitrary: rs)
    case (Cons h hs)
    then obtain r where r: "apply_hunk nl rs h = Ok r" and f: "fold_res (apply_hunk nl) r hs = Ok rs'"
      by (auto simp: result_simps)
    from Cons.IH [OF f] apply_hunk_Ok_iff [OF r] show ?case by (auto simp: replaces_def)
  qed simp
  then have "length (rp_text r) + rp_preimage_bytes r = length content + rp_replacement_bytes r"
    if "build_patch_replacement content hunks = Ok r" for r
    using that by (fastforce simp: build_patch_replacement_def start_replacement_def result_simps)
  with build_patch_replacement_chain show ?thesis by blast
qed

definition sample_hunk :: WorkspacePatchHunk where
  "sample_hunk = \<lparr>hk_lines = [Context ''a'', Remove ''b'', Add ''c'']\<rparr>"

definition sample_content :: string where
  "sample_content = unlines [''a'', ''b'', ''d'']"

theorem build_patch_replacement_refines_witness:
  "edit_chain True sample_content [sample_hunk] (unlines [''a'', ''c'', ''d''])
   \<and> length (unlines [''a'', ''c'', ''d'']) + 4 = length sample_content + 4"
proof -
  have "ok_value (build_patch_replacement sample_content [sample_hunk]) =
      Some \<lparr>rp_text = unlines [''a'', ''c'', ''d''], rp_preimage_bytes = 4, rp_replacement_bytes = 4,
        rp_lines = success_lines_from 1 1 (hk_lines sample_hunk)\<rparr>"
    by code_simp
  then have b: "build_patch_replacement sample_content [sample_hunk] =
      Ok \<lparr>rp_text = unlines [''a'', ''c'', ''d''], rp_preimage_bytes = 4, rp_replacement_bytes = 4,
        rp_lines = success_lines_from 1 1 (hk_lines sample_hunk)\<rparr>"
    by (simp add: ok_value_iff)
  have nl: "ends_with_char sample_content LF" by code_simp
  note spec = build_patch_replacement_refines [of sample_content "[sample_hunk]"]
  have "edit_chain (ends_with_char sample_content LF) sample_content [sample_hunk] (unlines [''a'', ''c'', ''d''])"
    using spec b by (metis WorkspacePatchReplacement.select_convs(1))
  moreover have "length (unlines [''a'', ''c'', ''d'']) + 4 = length sample_content + 4"
    using spec b by (metis WorkspacePatchReplacement.select_convs(1,2,3))
  ultimately show ?thesis using nl by simp
qed

section \<open>Undoing a hunk\<close>

fun reverse_line :: "WorkspacePatchLine \<Rightarrow> WorkspacePatchLine" where
  "reverse_line (Context t) = Context t"
| "reverse_line (Remove t) = Add t"
| "reverse_line (Add t) = Remove t"

definition reverse_hunk :: "WorkspacePatchHunk \<Rightarrow> WorkspacePatchHunk" where
  "reverse_hunk h = \<lparr>hk_lines = map reverse_line (hk_lines h)\<rparr>"

lemma reverse_hunk_lines:
  "List.map_filter old_line (map reverse_line ls) = List.map_filter new_line ls"
  "List.map_filter new_line (map reverse_line ls) = List.map_filter old_line ls"
proof (induction ls)
  case (Cons l ls)
  {
    case 1
    with Cons show ?case by (cases l) (simp_all add: map_filter_simps)
  next
    case 2
    with Cons show ?case by (cases l) (simp_all add: map_filter_simps)
  }
qed (simp_all add: map_filter_simps)

lemma reverse_hunk_text:
  "old_text (reverse_hunk h) nl = new_text h nl" "new_text (reverse_hunk h) nl = old_text h nl"
  by (simp_all add: old_text_def new_text_def reverse_hunk_def reverse_hunk_lines)

definition occurs_once :: "string \<Rightarrow> string \<Rightarrow> bool" where
  "occurs_once s pat \<longleftrightarrow> pat \<noteq> [] \<and> (\<forall>pre post pre' post'. s = pre @ pat @ post \<longrightarrow> s = pre' @ pat @ post' \<longrightarrow> pre = pre')"

lemma replaces_reverse:
  assumes "replaces old new before after" and "occurs_once after new"
  shows "replaces new old after before"
proof -
  obtain pre post where b: "before = pre @ old @ post" and a: "after = pre @ new @ post"
    using assms(1) by (auto simp: replaces_def)
  have first: "pre' = pre" if "after = pre' @ new @ post'" for pre' post'
    using assms(2) a that unfolding occurs_once_def by blast
  have "\<nexists>pre' post'. post = pre' @ new @ post'"
  proof
    assume "\<exists>pre' post'. post = pre' @ new @ post'"
    then obtain pre' post' where "post = pre' @ new @ post'" by blast
    then have "after = (pre @ new @ pre') @ new @ post'" using a by simp
    from first [OF this] assms(2) show False by (simp add: occurs_once_def)
  qed
  with a b first show ?thesis unfolding replaces_def by blast
qed

text \<open>
  A one-hunk update can be undone: when the new text occurs once in the result and the result ends
  the way the original did, the reversed hunk restores the original bytes.
\<close>

theorem reverse_hunk_restores:
  assumes "build_patch_replacement content [h] = Ok r"
    and "ends_with_char (rp_text r) LF = ends_with_char content LF"
    and "occurs_once (rp_text r) (new_text h (ends_with_char content LF))"
  shows "\<exists>r'. build_patch_replacement (rp_text r) [reverse_hunk h] = Ok r' \<and> rp_text r' = content"
proof -
  let ?nl = "ends_with_char content LF"
  have "edit_chain ?nl content [h] (rp_text r)"
    using assms(1) build_patch_replacement_chain by blast
  then have "replaces (old_text h ?nl) (new_text h ?nl) content (rp_text r)"
    by (auto elim!: edit_chain_ConsE edit_chain_NilE)
  from replaces_reverse [OF this assms(3)]
  have "replaces (old_text (reverse_hunk h) ?nl) (new_text (reverse_hunk h) ?nl) (rp_text r) content"
    by (simp only: reverse_hunk_text)
  moreover have "old_text (reverse_hunk h) ?nl \<noteq> []"
    using assms(3) unfolding reverse_hunk_text occurs_once_def by (rule conjunct1)
  ultimately have "edit_chain ?nl (rp_text r) [reverse_hunk h] content"
    by (blast intro: edit_chain.intros)
  then show ?thesis
    using build_patch_replacement_chain [of "rp_text r" "[reverse_hunk h]" content] assms(2) by simp
qed

text \<open>Uniqueness of an occurrence can be read off the search.\<close>

lemma occurs_onceI:
  assumes "pat \<noteq> []" and "str_find s pat = Some i" and "str_find (drop (Suc i) s) pat = None"
  shows "occurs_once s pat"
proof -
  have "length pre = i" if s: "s = pre @ pat @ post" for pre post
  proof (rule ccontr)
    assume "length pre \<noteq> i"
    with str_find_first [OF assms(2) s] have "Suc i \<le> length pre" by simp
    then have "drop (Suc i) s = drop (Suc i) pre @ pat @ post" by (simp add: s)
    with assms(3) show False by (metis str_find_None_iff)
  qed
  then show ?thesis
    using assms(1) unfolding occurs_once_def by (metis append_eq_append_conv)
qed

theorem reverse_hunk_restores_witness:
  "\<exists>r'. build_patch_replacement (unlines [''a'', ''c'', ''d'']) [reverse_hunk sample_hunk] = Ok r'
     \<and> rp_text r' = sample_content"
proof -
  have "map_option rp_text (ok_value (build_patch_replacement sample_content [sample_hunk])) =
      Some (unlines [''a'', ''c'', ''d''])"
    by code_simp
  then obtain r where r: "build_patch_replacement sample_content [sample_hunk] = Ok r"
    and t: "rp_text r = unlines [''a'', ''c'', ''d'']"
    by (auto simp: ok_value_iff)
  have nl: "ends_with_char sample_content LF" by code_simp
  have new: "new_text sample_hunk True = unlines [''a'', ''c'']" by code_simp
  have "occurs_once (unlines [''a'', ''c'', ''d'']) (unlines [''a'', ''c''])"
    by (rule occurs_onceI [where i = 0]; code_simp)
  moreover have "ends_with_char (unlines [''a'', ''c'', ''d'']) LF" by code_simp
  ultimately show ?thesis
    using reverse_hunk_restores [OF r] by (simp add: t nl new)
qed

section \<open>New files and line counts\<close>

lemma str_lines_cases:
  obtains "s = []" | line rest where "s = line @ LF # rest" "LF \<notin> set line"
  | "s \<noteq> []" "LF \<notin> set s"
  by (metis split_list_first)

lemma count_file_lines_eq:
  "count_file_lines s = count_list s LF + (if s = [] \<or> ends_with_char s LF then 0 else 1)"
proof (induction s rule: measure_induct_rule [of length])
  case (less s)
  show ?case
  proof (rule str_lines_cases [of s])
    fix line rest
    assume s: "s = line @ LF # rest" and l: "LF \<notin> set line"
    then have "count_list line LF = 0" by (simp add: count_list_0_iff)
    moreover have "ends_with_char s LF \<longleftrightarrow> rest = [] \<or> ends_with_char rest LF"
      by (auto simp: s ends_with_char_def)
    ultimately show ?thesis
      using less [of rest] by (simp add: s count_file_lines_def str_lines_terminated [OF l])
  next
    assume "s \<noteq> []" and "LF \<notin> set s"
    moreover from this have "last s \<noteq> LF" by (metis last_in_set)
    ultimately show ?thesis
      by (simp add: count_file_lines_def str_lines_unterminated count_list_0_iff ends_with_char_def)
  qed (simp add: count_file_lines_def ends_with_char_def)
qed

text \<open>The text with every line feed preceded by a carriage return.\<close>

definition crlf :: "string \<Rightarrow> string" where
  "crlf s = concat (map (\<lambda>c. if c = LF then [CR, LF] else [c]) s)"

lemma crlf_facts:
  "count_list (crlf s) LF = count_list s LF" "crlf s = [] \<longleftrightarrow> s = []"
  "ends_with_char (crlf s) LF \<longleftrightarrow> ends_with_char s LF"
proof -
  show "count_list (crlf s) LF = count_list s LF"
    by (induction s) (auto simp: crlf_def)
  show "crlf s = [] \<longleftrightarrow> s = []" by (cases s) (auto simp: crlf_def)
  show "ends_with_char (crlf s) LF \<longleftrightarrow> ends_with_char s LF"
    by (cases s rule: rev_cases) (auto simp: crlf_def ends_with_char_def)
qed

text \<open>
  Line counts and new files. The lines of an added file read back as exactly the lines of the patch
  section, so the file has one line per \<^verbatim>\<open>+\<close> line; and the reported line count of any text is its
  number of line feeds, plus one for an unterminated last line, the same for its CRLF form.
\<close>

theorem new_file_lines_roundtrip:
  assumes "list_all plain_line lines"
  shows "str_lines (rp_text (build_new_file_replacement lines)) = lines
    \<and> count_file_lines (rp_text (build_new_file_replacement lines)) = length lines
    \<and> count_file_lines content = count_list content LF + (if content = [] \<or> ends_with_char content LF then 0 else 1)
    \<and> count_file_lines (crlf content) = count_file_lines content"
proof -
  have "rp_text (build_new_file_replacement lines) = unlines lines"
    by (simp add: build_new_file_replacement_def unlines_def Let_def)
  then have "str_lines (rp_text (build_new_file_replacement lines)) = lines"
    using str_lines_unlines [OF assms] by simp
  then show ?thesis
    by (simp only: count_file_lines_eq [of content] count_file_lines_eq [of "crlf content"] crlf_facts)
      (simp add: count_file_lines_def)
qed

theorem new_file_lines_roundtrip_witness:
  "str_lines (rp_text (build_new_file_replacement [''a'', '''', ''b''])) = [''a'', '''', ''b'']
   \<and> count_file_lines (crlf [CHR ''x'', LF]) = 1"
proof -
  have "list_all plain_line [''a'', '''', ''b'']" by code_simp
  from new_file_lines_roundtrip [OF this, of "[CHR ''x'', LF]"] show ?thesis
    by (simp add: ends_with_char_def)
qed

section \<open>Where a match is not a match of lines\<close>

definition replaced_text :: "string \<Rightarrow> WorkspacePatchLine list \<Rightarrow> string option" where
  "replaced_text content ls = map_option rp_text (ok_value (build_patch_replacement content [\<lparr>hk_lines = ls\<rparr>]))"

text \<open>
  The preimage is matched as bytes, and the search for a second match starts after the first. So a
  preimage that occurs twice with an overlap is accepted as unique; a removed line matches the end of a
  longer line and joins it with the next one; and in a file without a final line feed removing a line
  that is not the last leaves an empty line in its place.
\<close>

theorem hunk_match_is_not_a_line_match:
  "replaced_text (unlines [''a'', ''a'', ''a'']) [Remove ''a'', Remove ''a'', Add ''b''] = Some (unlines [''b'', ''a''])
   \<and> \<not> occurs_once (unlines [''a'', ''a'', ''a'']) (unlines [''a'', ''a''])
   \<and> replaced_text (unlines [''xb'', ''c'']) [Remove ''b''] = Some (unlines [''xc''])
   \<and> replaced_text ([CHR ''a'', LF, CHR ''b'']) [Remove ''a''] = Some [LF, CHR ''b'']"
proof -
  have "unlines [''a'', ''a'', ''a''] = [] @ unlines [''a'', ''a''] @ unlines [''a'']"
    and "unlines [''a'', ''a'', ''a''] = unlines [''a''] @ unlines [''a'', ''a''] @ []"
    by simp_all
  moreover have "unlines [''a''] \<noteq> []" by simp
  ultimately have "\<not> occurs_once (unlines [''a'', ''a'', ''a'']) (unlines [''a'', ''a''])"
    unfolding occurs_once_def by metis
  moreover have "replaced_text (unlines [''a'', ''a'', ''a'']) [Remove ''a'', Remove ''a'', Add ''b'']
      = Some (unlines [''b'', ''a''])" by code_simp
  moreover have "replaced_text (unlines [''xb'', ''c'']) [Remove ''b''] = Some (unlines [''xc''])" by code_simp
  moreover have "replaced_text ([CHR ''a'', LF, CHR ''b'']) [Remove ''a''] = Some [LF, CHR ''b'']" by code_simp
  ultimately show ?thesis by blast
qed

end
