(* ===== verification/Patch_Grammar.thy ===== *)
theory Patch_Grammar
  imports Patch_Parse
begin

text \<open>
  What the patch parser guarantees: every accepted envelope is a well-formed patch, and the parser
  inverts a printer of patches.
\<close>

section \<open>Well-formed patches\<close>

definition one_line :: "string \<Rightarrow> bool" where
  "one_line s \<longleftrightarrow> LF \<notin> set s"

fun line_text :: "WorkspacePatchLine \<Rightarrow> string" where
  "line_text (Context t) = t"
| "line_text (Remove t) = t"
| "line_text (Add t) = t"

definition wf_hunk :: "WorkspacePatchHunk \<Rightarrow> bool" where
  "wf_hunk h \<longleftrightarrow> hk_lines h \<noteq> [] \<and> list_all (\<lambda>l. one_line (line_text l)) (hk_lines h)"

text \<open>A section as it is read, and as it is kept: context-only hunks are gone.\<close>

fun wf_section :: "WorkspacePatchOperation \<Rightarrow> bool" where
  "wf_section (AddFile ls) \<longleftrightarrow> ls \<noteq> [] \<and> list_all one_line ls"
| "wf_section (UpdateFile hs) \<longleftrightarrow> hs \<noteq> [] \<and> list_all wf_hunk hs"
| "wf_section DeleteFile \<longleftrightarrow> True"

fun wf_operation :: "WorkspacePatchOperation \<Rightarrow> bool" where
  "wf_operation (UpdateFile hs) \<longleftrightarrow> hs \<noteq> [] \<and> list_all wf_hunk hs \<and> list_all hunk_has_edit hs"
| "wf_operation operation \<longleftrightarrow> wf_section operation"

definition wf_patch :: "WorkspacePatch \<Rightarrow> bool" where
  "wf_patch p \<longleftrightarrow> wp_files p \<noteq> [] \<and> distinct (map pf_path (wp_files p))
     \<and> list_all (\<lambda>f. pf_path f \<noteq> [] \<and> one_line (pf_path f) \<and> wf_operation (pf_operation f)) (wp_files p)"

lemma one_line_patch_line: "one_line raw \<Longrightarrow> one_line (patch_line raw)"
  by (auto simp: one_line_def patch_line_def strip_suffix_char_def dest: in_set_butlastD)

lemma split_first_one_line: "split_first line = Some (c, t) \<Longrightarrow> one_line line \<Longrightarrow> one_line t"
  by (cases line) (auto simp: one_line_def split: if_splits)

lemma set_concat_dropWhile: "set (concat (dropWhile P xs)) \<subseteq> set (concat xs)"
  using set_dropWhileD by fastforce

lemma one_line_trim: "one_line s \<Longrightarrow> one_line (str_trim s)"
proof -
  let ?d = "dropWhile space_piece (str_pieces s)"
  have "set (str_trim s) \<subseteq> set (concat (rev ?d))"
    using set_concat_dropWhile [of space_piece "rev ?d"] by (simp add: str_trim_def)
  also have "\<dots> \<subseteq> set (concat (str_pieces s))"
    using set_concat_dropWhile [of space_piece "str_pieces s"] by simp
  finally show "one_line s \<Longrightarrow> one_line (str_trim s)" by (auto simp: one_line_def)
qed

lemma skip_blank_set: "set (skip_blank_patch_lines ls) \<subseteq> set ls"
  by (induction ls) auto

lemma push_hunk_wf:
  "list_all wf_hunk hs \<Longrightarrow> list_all (\<lambda>l. one_line (line_text l)) cur \<Longrightarrow>
     list_all wf_hunk (push_apply_patch_hunk hs cur)"
  by (simp add: push_apply_patch_hunk_def wf_hunk_def)

lemma hunk_lines_loop_wf:
  assumes "hunk_lines_loop path e hs cur ls = Ok (hs', rest)" and "list_all one_line ls"
    and "list_all wf_hunk hs" and "list_all (\<lambda>l. one_line (line_text l)) cur"
  shows "list_all wf_hunk hs' \<and> set rest \<subseteq> set ls"
  using assms
proof (induction ls arbitrary: hs cur)
  case Nil
  then show ?case using push_hunk_wf [of hs cur] by auto
next
  case (Cons raw ls)
  let ?t = "snd (the (split_first (patch_line raw)))"
  have rest_line: "one_line t" if "split_first (patch_line raw) = Some (c, t)" for c t
    using that split_first_one_line one_line_patch_line Cons.prems(2) by force
  have "list_all wf_hunk (push_apply_patch_hunk hs cur)" using Cons.prems push_hunk_wf by blast
  then have "list_all wf_hunk hs' \<and> (rest = raw # ls \<or> set rest \<subseteq> set ls)"
    using Cons.prems rest_line Cons.IH [of hs cur] Cons.IH [of "push_apply_patch_hunk hs cur" "[]"]
      Cons.IH [of hs "cur @ [Context ?t]"] Cons.IH [of hs "cur @ [Remove ?t]"] Cons.IH [of hs "cur @ [Add ?t]"]
    by (auto simp: Let_def split: if_splits option.splits)
  then show ?case by auto
qed

lemma add_lines_loop_wf:
  assumes "add_lines_loop path e cs ls = Ok (cs', rest)" and "list_all one_line ls" and "list_all one_line cs"
  shows "list_all one_line cs' \<and> set rest \<subseteq> set ls"
  using assms
proof (induction ls arbitrary: cs)
  case (Cons raw ls)
  have rest_line: "one_line t" if "split_first (patch_line raw) = Some (c, t)" for c t
    using that split_first_one_line one_line_patch_line Cons.prems(2) by force
  then have "list_all one_line cs' \<and> (rest = raw # ls \<or> set rest \<subseteq> set ls)"
    using Cons.prems Cons.IH [of cs] Cons.IH [of "cs @ [snd (the (split_first (patch_line raw)))]"]
    by (auto simp: Let_def split: if_splits option.splits)
  then show ?case by auto
qed auto

lemma delete_section_rest:
  "parse_apply_patch_delete_section ls path e = Ok rest \<Longrightarrow> set rest \<subseteq> set ls"
  by (induction ls path e rule: parse_apply_patch_delete_section.induct)
    (auto simp: Let_def split: if_splits)

lemma parse_section_wf:
  assumes "parse_section kind ls path e = Ok (operation, rest)" and "list_all one_line ls"
  shows "wf_section operation \<and> set rest \<subseteq> set ls"
proof (cases kind)
  case SectionAdd
  then obtain cs where "add_lines_loop path e [] ls = Ok (cs, rest)" and "cs \<noteq> []" and "operation = AddFile cs"
    using assms(1) by (auto simp: parse_section_def parse_apply_patch_add_lines_def result_simps split: if_splits)
  with add_lines_loop_wf [of path e "[]" ls] assms(2) show ?thesis by simp
next
  case SectionUpdate
  then obtain hs where "hunk_lines_loop path e [] [] ls = Ok (hs, rest)" and "hs \<noteq> []" and "operation = UpdateFile hs"
    using assms(1) by (auto simp: parse_section_def parse_apply_patch_update_hunks_def result_simps split: if_splits)
  with hunk_lines_loop_wf [of path e "[]" "[]" ls] assms(2) show ?thesis by simp
next
  case SectionDelete
  then show ?thesis
    using assms(1) delete_section_rest by (fastforce simp: parse_section_def result_simps)
qed

lemma merge_operation_wf:
  "merge_operation path a b = Ok c \<Longrightarrow> wf_section a \<Longrightarrow> wf_section b \<Longrightarrow> wf_section c"
  by (induction path a b rule: merge_operation.induct) auto

definition wf_files :: "WorkspacePatchFile list \<Rightarrow> bool" where
  "wf_files fs \<longleftrightarrow> distinct (map pf_path fs)
     \<and> list_all (\<lambda>f. pf_path f \<noteq> [] \<and> one_line (pf_path f) \<and> wf_section (pf_operation f)) fs"

lemma add_section_paths:
  "add_section path operation fs = Ok fs' \<Longrightarrow>
     map pf_path fs' = (if path \<in> pf_path ` set fs then map pf_path fs else map pf_path fs @ [path])"
  by (induction path operation fs arbitrary: fs' rule: add_section.induct)
    (fastforce simp: result_simps split: if_splits)+

lemma add_section_wf:
  assumes "add_section path operation fs = Ok fs'" and "wf_files fs" and "wf_section operation"
    and "path \<noteq> []" and "one_line path"
  shows "wf_files fs'"
proof -
  have "list_all (\<lambda>f. pf_path f \<noteq> [] \<and> one_line (pf_path f) \<and> wf_section (pf_operation f)) fs'"
    using assms(1) assms(2) [unfolded wf_files_def, THEN conjunct2] assms(3-5)
    by (induction path operation fs arbitrary: fs' rule: add_section.induct)
      (auto simp: result_simps intro: merge_operation_wf split: if_splits)
  moreover have "distinct (map pf_path fs')"
    using add_section_paths [OF assms(1)] assms(2) by (auto simp: wf_files_def)
  ultimately show ?thesis by (simp add: wf_files_def)
qed

lemma from_header_one_line:
  "from_header line = Some (kind, path) \<Longrightarrow> one_line line \<Longrightarrow> one_line path"
  by (auto simp: from_header_def one_line_def strip_prefix_iff split: option.splits)

lemma parse_files_loop_wf:
  "parse_files_loop e fs ls = Ok fs' \<Longrightarrow> wf_files fs \<Longrightarrow> list_all one_line ls \<Longrightarrow> wf_files fs'"
proof (induction e fs ls rule: parse_files_loop.induct)
  case (1 e fs ls)
  show ?case
  proof (cases "skip_blank_patch_lines ls")
    case Nil
    with "1.prems" show ?thesis by (simp add: parse_files_loop.simps [of e fs ls])
  next
    case (Cons raw rest)
    have lines: "one_line raw" "list_all one_line rest"
      using skip_blank_set [of ls] Cons "1.prems"(3) by (auto simp: list_all_iff)
    show ?thesis
    proof (cases "patch_line raw = e")
      case True
      with "1.prems" Cons show ?thesis
        by (simp add: parse_files_loop.simps [of e fs ls] split: list.splits)
    next
      case end_line: False
      then obtain kind raw_path operation rest' fs1 where begin_line: "\<not> (patch_line raw = BEGIN_WORKSPACE \<or> patch_line raw = BEGIN_STANDARD)"
        and header: "from_header (patch_line raw) = Some (kind, raw_path)" and path: "str_trim raw_path \<noteq> []"
        and sec: "parse_section kind rest (str_trim raw_path) e = Ok (operation, rest')"
        and add: "add_section (str_trim raw_path) operation fs = Ok fs1"
        and loop: "parse_files_loop e fs1 rest' = Ok fs'"
        using "1.prems"(1) Cons
        by (auto simp: parse_files_loop.simps [of e fs ls] Let_def result_simps split: if_splits option.splits)
      have "one_line (str_trim raw_path)"
        using from_header_one_line [OF header] one_line_patch_line [OF lines(1)] one_line_trim by blast
      with add_section_wf [OF add "1.prems"(2)] parse_section_wf [OF sec lines(2)] path have "wf_files fs1" by blast
      moreover have "list_all one_line rest'"
        using parse_section_wf [OF sec lines(2)] lines(2) by (auto simp: list_all_iff)
      ultimately show ?thesis
        using "1.IH" [OF Cons refl end_line begin_line header refl refl path sec refl add loop] by simp
    qed
  qed
qed

lemma drop_context_hunks_wf:
  assumes "wf_section (pf_operation f)" and "file_has_edit (drop_context_hunks f)"
  shows "wf_operation (pf_operation (drop_context_hunks f))"
  using assms
  by (cases "pf_operation f") (auto simp: drop_context_hunks_def Let_def list_all_iff list_ex_iff filter_empty_conv)

lemma drop_context_hunks_path: "pf_path (drop_context_hunks f) = pf_path f"
  by (simp add: drop_context_hunks_def Let_def split: WorkspacePatchOperation.splits)

lemma drop_context_hunks_edit: "file_has_edit (drop_context_hunks f) = file_has_edit f"
  by (auto simp: drop_context_hunks_def Let_def list_ex_iff split: WorkspacePatchOperation.splits)

lemma parse_apply_patch_OkE:
  assumes "parse_apply_patch raw = Ok p"
  obtains first rest e fs where "skip_blank_patch_lines (str_lines (strip_bom raw)) = first # rest"
    "parse_files_loop e [] rest = Ok fs" "list_ex file_has_edit fs"
    "p = \<lparr>wp_files = filter file_has_edit (map drop_context_hunks fs)\<rparr>"
proof -
  obtain first rest where lines: "skip_blank_patch_lines (str_lines (strip_bom raw)) = first # rest"
    using assms by (cases "skip_blank_patch_lines (str_lines (strip_bom raw))") (auto simp: parse_apply_patch_def)
  then obtain e where e: "end_marker_of (patch_line first) = Some e"
    using assms by (cases "end_marker_of (patch_line first)") (auto simp: parse_apply_patch_def)
  with lines assms obtain fs where loop: "parse_files_loop e [] rest = Ok fs"
    by (auto simp: parse_apply_patch_def result_simps)
  have "list_ex file_has_edit fs"
    and "p = \<lparr>wp_files = filter file_has_edit (map drop_context_hunks fs)\<rparr>"
    using assms lines e loop by (auto simp: parse_apply_patch_def simp del: file_has_edit.simps split: if_splits)
  with lines loop show thesis by (rule that)
qed

text \<open>
  C35. Every patch the parser accepts is well-formed: it names at least one file, no file twice, every
  update consists of hunks that change something, every added file has a line, and no path or line
  contains a line feed.
\<close>

theorem parsed_patch_well_formed:
  assumes "parse_apply_patch raw = Ok p"
  shows "wf_patch p"
proof -
  obtain first rest e fs where lines: "skip_blank_patch_lines (str_lines (strip_bom raw)) = first # rest"
    and loop: "parse_files_loop e [] rest = Ok fs" and edit: "list_ex file_has_edit fs"
    and p: "p = \<lparr>wp_files = filter file_has_edit (map drop_context_hunks fs)\<rparr>"
    using assms by (rule parse_apply_patch_OkE)
  have "list_all one_line rest"
    using skip_blank_set [of "str_lines (strip_bom raw)"] lines str_lines_no_LF
    by (auto simp: list_all_iff one_line_def)
  then have wf: "wf_files fs" using parse_files_loop_wf [OF loop] by (simp add: wf_files_def)
  have "map pf_path (filter file_has_edit (map drop_context_hunks fs)) = map pf_path (filter file_has_edit fs)"
    by (induction fs) (simp_all add: drop_context_hunks_edit drop_context_hunks_path del: file_has_edit.simps)
  then show ?thesis
    using wf edit drop_context_hunks_wf
    by (auto simp: wf_patch_def p wf_files_def list_all_iff list_ex_iff drop_context_hunks_path
        drop_context_hunks_edit filter_empty_conv distinct_map_filter simp del: file_has_edit.simps)
qed

definition sample_patch_text :: string where
  "sample_patch_text = unlines [''*** Begin Patch'', ''*** Update File: a.txt'', ''@@'', '' a'', ''-b'', ''+c'',
     ''*** Add File: new.txt'', ''+x'', ''*** End Patch'']"

definition sample_patch :: WorkspacePatch where
  "sample_patch = \<lparr>wp_files =
     [\<lparr>pf_path = ''a.txt'', pf_operation = UpdateFile [\<lparr>hk_lines = [Context ''a'', Remove ''b'', Add ''c'']\<rparr>],
        pf_ignored_context_hunks = 0\<rparr>,
      \<lparr>pf_path = ''new.txt'', pf_operation = AddFile [''x''], pf_ignored_context_hunks = 0\<rparr>]\<rparr>"

theorem parsed_patch_well_formed_witness:
  "parse_apply_patch sample_patch_text = Ok sample_patch \<and> wf_patch sample_patch"
proof -
  have "parse_apply_patch sample_patch_text = Ok sample_patch" by code_simp
  with parsed_patch_well_formed [of sample_patch_text sample_patch] show ?thesis by simp
qed

section \<open>Printing\<close>

fun render_line :: "WorkspacePatchLine \<Rightarrow> string" where
  "render_line (Context t) = CHR '' '' # t"
| "render_line (Remove t) = CHR ''-'' # t"
| "render_line (Add t) = CHR ''+'' # t"

definition render_hunk :: "WorkspacePatchHunk \<Rightarrow> string list" where
  "render_hunk h = ''@@'' # map render_line (hk_lines h)"

fun section_of :: "WorkspacePatchOperation \<Rightarrow> SectionKind" where
  "section_of (AddFile _) = SectionAdd"
| "section_of (UpdateFile _) = SectionUpdate"
| "section_of DeleteFile = SectionDelete"

fun render_body :: "WorkspacePatchOperation \<Rightarrow> string list" where
  "render_body (AddFile ls) = map (\<lambda>l. CHR ''+'' # l) ls"
| "render_body (UpdateFile hs) = concat (map render_hunk hs)"
| "render_body DeleteFile = []"

definition render_file :: "WorkspacePatchFile \<Rightarrow> string list" where
  "render_file f = (marker (section_of (pf_operation f)) @ pf_path f) # render_body (pf_operation f)"

definition render_lines :: "WorkspacePatch \<Rightarrow> string list" where
  "render_lines p = BEGIN_STANDARD # concat (map render_file (wp_files p)) @ [END_STANDARD]"

definition render_patch :: "WorkspacePatch \<Rightarrow> string" where
  "render_patch p = unlines (render_lines p)"

text \<open>
  A patch can be printed when its lines survive a text file, its paths are trimmed, every hunk changes
  something and no hunk starts with a blank context line, which the parser skips.
\<close>

definition printable_hunk :: "WorkspacePatchHunk \<Rightarrow> bool" where
  "printable_hunk h \<longleftrightarrow> hunk_has_edit h \<and> list_all (\<lambda>l. plain_line (line_text l)) (hk_lines h)
     \<and> str_trim (render_line (hd (hk_lines h))) \<noteq> []"

fun printable_operation :: "WorkspacePatchOperation \<Rightarrow> bool" where
  "printable_operation (AddFile ls) \<longleftrightarrow> ls \<noteq> [] \<and> list_all plain_line ls"
| "printable_operation (UpdateFile hs) \<longleftrightarrow> hs \<noteq> [] \<and> list_all printable_hunk hs"
| "printable_operation DeleteFile \<longleftrightarrow> True"

definition printable_file :: "WorkspacePatchFile \<Rightarrow> bool" where
  "printable_file f \<longleftrightarrow> pf_path f \<noteq> [] \<and> str_trim (pf_path f) = pf_path f \<and> plain_line (pf_path f)
     \<and> pf_ignored_context_hunks f = 0 \<and> printable_operation (pf_operation f)"

definition printable_patch :: "WorkspacePatch \<Rightarrow> bool" where
  "printable_patch p \<longleftrightarrow> wp_files p \<noteq> [] \<and> distinct (map pf_path (wp_files p))
     \<and> list_all printable_file (wp_files p)"

lemmas grammar_defs = BEGIN_WORKSPACE_def BEGIN_STANDARD_def END_WORKSPACE_def END_STANDARD_def
  ADD_PREFIX_def UPDATE_PREFIX_def DELETE_PREFIX_def

lemma plain_line_Cons: "c \<noteq> LF \<Longrightarrow> c \<noteq> CR \<Longrightarrow> plain_line t \<Longrightarrow> plain_line (c # t)"
  by (auto simp: plain_line_def ends_with_char_def)

lemma patch_line_plain: "plain_line l \<Longrightarrow> patch_line l = l"
  by (simp add: patch_line_def strip_suffix_char_def plain_line_def)

lemma render_line_plain: "plain_line (line_text l) \<Longrightarrow> plain_line (render_line l)"
  by (cases l) (simp_all add: plain_line_Cons)

lemma section_ends_star: "section_ends END_STANDARD line \<Longrightarrow> \<exists>t. line = CHR ''*'' # t"
  by (cases line) (auto simp: section_ends_def from_header_def grammar_defs split: option.splits if_splits)

lemma render_line_not_end: "\<not> section_ends END_STANDARD (render_line l)"
  by (cases l) (auto dest: section_ends_star)

lemma visible_marks: "ascii_visible (CHR ''*'')" "ascii_visible (CHR ''@'')" "ascii_visible (CHR ''+'')"
    "ascii_visible (CHR ''-'')"
  by (simp_all add: ascii_visible_def is_whitespace_def)

lemma header_line:
  assumes "plain_line path" and "path \<noteq> []"
  shows "from_header (marker kind @ path) = Some (kind, path)"
    and "section_ends END_STANDARD (marker kind @ path)"
    and "patch_line (marker kind @ path) = marker kind @ path"
    and "plain_line (marker kind @ path)"
    and "str_trim (marker kind @ path) \<noteq> []"
    and "marker kind @ path \<notin> {END_STANDARD, BEGIN_WORKSPACE, BEGIN_STANDARD}"
proof -
  show f: "from_header (marker kind @ path) = Some (kind, path)"
    by (cases kind) (simp_all add: from_header_def grammar_defs)
  then show "section_ends END_STANDARD (marker kind @ path)" by (simp add: section_ends_def)
  show p: "plain_line (marker kind @ path)"
    using assms by (cases kind) (auto simp: plain_line_def ends_with_char_def grammar_defs)
  then show "patch_line (marker kind @ path) = marker kind @ path" by (rule patch_line_plain)
  show "str_trim (marker kind @ path) \<noteq> []"
    by (cases kind) (simp_all add: grammar_defs str_trim_visible visible_marks)
  show "marker kind @ path \<notin> {END_STANDARD, BEGIN_WORKSPACE, BEGIN_STANDARD}"
    by (cases kind) (simp_all add: grammar_defs)
qed

lemma end_line:
  "patch_line END_STANDARD = END_STANDARD" "section_ends END_STANDARD END_STANDARD"
  "str_trim END_STANDARD \<noteq> []" "plain_line END_STANDARD"
  by (simp_all add: patch_line_plain plain_line_def ends_with_char_def section_ends_def
      END_STANDARD_def str_trim_visible visible_marks)

text \<open>Reading back the lines of a hunk, of a section and of a file.\<close>

lemma hunk_lines_loop_lines:
  assumes "list_all (\<lambda>l. plain_line (line_text l)) ls"
    and "cur = [] \<Longrightarrow> ls \<noteq> [] \<Longrightarrow> str_trim (render_line (hd ls)) \<noteq> []"
  shows "hunk_lines_loop path END_STANDARD hs cur (map render_line ls @ rest) =
    hunk_lines_loop path END_STANDARD hs (cur @ ls) rest"
  using assms
proof (induction ls arbitrary: cur)
  case (Cons l ls)
  have pl: "patch_line (render_line l) = render_line l"
    using Cons.prems(1) by (simp add: patch_line_plain render_line_plain)
  have blank: "\<not> (str_trim (render_line l) = [] \<and> cur = [])" using Cons.prems(2) by auto
  have step: "hunk_lines_loop path END_STANDARD hs cur (render_line l # more) =
      hunk_lines_loop path END_STANDARD hs (cur @ [l]) more" for more
    using pl blank render_line_not_end [of l] by (cases l) (auto simp: starts_with_def Let_def)
  from step Cons.IH [of "cur @ [l]"] Cons.prems(1) show ?case by simp
qed simp

lemma hunk_lines_loop_hunks:
  assumes "list_all printable_hunk hks" and "section_ends END_STANDARD (patch_line stop)"
  shows "hunk_lines_loop path END_STANDARD hs cur (concat (map render_hunk hks) @ stop # rest) =
    Ok (push_apply_patch_hunk hs cur @ hks, stop # rest)"
  using assms(1)
proof (induction hks arbitrary: hs cur)
  case Nil
  then show ?case using assms(2) by (simp add: Let_def)
next
  case (Cons h hks)
  let ?more = "concat (map render_hunk hks) @ stop # rest"
  have at: "patch_line ''@@'' = ''@@''" by (simp add: patch_line_plain plain_line_def ends_with_char_def)
  have "\<not> section_ends END_STANDARD ''@@''" by (auto dest: section_ends_star)
  moreover have "str_trim ''@@'' \<noteq> []" by (simp add: str_trim_visible visible_marks)
  ultimately have "hunk_lines_loop path END_STANDARD hs cur (''@@'' # ls) =
      hunk_lines_loop path END_STANDARD (push_apply_patch_hunk hs cur) [] ls" for ls
    by (simp add: at starts_with_def Let_def)
  moreover have "hunk_lines_loop path END_STANDARD (push_apply_patch_hunk hs cur) [] (map render_line (hk_lines h) @ ?more) =
      hunk_lines_loop path END_STANDARD (push_apply_patch_hunk hs cur) (hk_lines h) ?more"
    using hunk_lines_loop_lines [of "hk_lines h" "[]"] Cons.prems by (simp add: printable_hunk_def)
  moreover have "push_apply_patch_hunk hs' (hk_lines h) = hs' @ [h]" for hs'
    using Cons.prems by (auto simp: push_apply_patch_hunk_def printable_hunk_def hunk_has_edit_def)
  moreover have "concat (map render_hunk (h # hks)) @ stop # rest = ''@@'' # map render_line (hk_lines h) @ ?more"
    by (simp add: render_hunk_def)
  ultimately show ?case
    using Cons.IH [of "push_apply_patch_hunk hs cur" "hk_lines h"] Cons.prems by simp
qed

lemma add_lines_loop_lines:
  assumes "list_all plain_line ls" and "section_ends END_STANDARD (patch_line stop)"
  shows "add_lines_loop path END_STANDARD cs (map (\<lambda>l. CHR ''+'' # l) ls @ stop # rest) = Ok (cs @ ls, stop # rest)"
  using assms(1)
proof (induction ls arbitrary: cs)
  case Nil
  then show ?case using assms(2) by (simp add: Let_def)
next
  case (Cons l ls)
  have "patch_line (CHR ''+'' # l) = CHR ''+'' # l" using Cons.prems by (simp add: patch_line_plain plain_line_Cons)
  moreover have "\<not> section_ends END_STANDARD (CHR ''+'' # l)" by (auto dest: section_ends_star)
  moreover have "str_trim (CHR ''+'' # l) \<noteq> []" by (simp add: str_trim_visible visible_marks)
  ultimately show ?case using Cons.IH [of "cs @ [l]"] Cons.prems by (simp add: Let_def)
qed

lemma parse_section_render:
  assumes "printable_operation operation" and "section_ends END_STANDARD (patch_line stop)"
  shows "parse_section (section_of operation) (render_body operation @ stop # rest) path END_STANDARD =
    Ok (operation, stop # rest)"
  using assms
  by (cases operation)
    (simp_all add: parse_section_def parse_apply_patch_add_lines_def parse_apply_patch_update_hunks_def
      add_lines_loop_lines hunk_lines_loop_hunks push_apply_patch_hunk_def Let_def)

lemma add_section_new:
  "path \<notin> pf_path ` set fs \<Longrightarrow>
     add_section path operation fs =
       Ok (fs @ [\<lparr>pf_path = path, pf_operation = operation, pf_ignored_context_hunks = 0\<rparr>])"
  by (induction fs) auto

lemma parse_files_loop_render:
  assumes "list_all printable_file fs" and "distinct (map pf_path (acc @ fs))"
  shows "parse_files_loop END_STANDARD acc (concat (map render_file fs) @ [END_STANDARD]) = Ok (acc @ fs)"
  using assms
proof (induction fs arbitrary: acc)
  case Nil
  then show ?case by (simp add: parse_files_loop.simps end_line Let_def)
next
  case (Cons f fs)
  let ?op = "pf_operation f"
  obtain stop rest where more: "concat (map render_file fs) @ [END_STANDARD] = stop # rest"
    and stop: "section_ends END_STANDARD (patch_line stop)"
  proof (cases fs)
    case Nil
    then show thesis using that [of END_STANDARD "[]"] end_line by simp
  next
    case (Cons g gs)
    with Cons.prems show thesis
      using header_line [of "pf_path g"] that by (simp add: render_file_def printable_file_def)
  qed
  have f: "plain_line (pf_path f)" "pf_path f \<noteq> []" "str_trim (pf_path f) = pf_path f" "printable_operation ?op"
    "f = \<lparr>pf_path = pf_path f, pf_operation = ?op, pf_ignored_context_hunks = 0\<rparr>"
    using Cons.prems by (simp_all add: printable_file_def)
  note h = header_line [OF f(1,2), of "section_of ?op"]
  have sec: "parse_section (section_of ?op) (render_body ?op @ stop # rest) (pf_path f) END_STANDARD = Ok (?op, stop # rest)"
    using parse_section_render [OF f(4) stop] .
  have add: "add_section (pf_path f) ?op acc = Ok (acc @ [f])"
    using add_section_new [of "pf_path f" acc ?op] Cons.prems(2) f(5) by auto
  have "parse_files_loop END_STANDARD acc (concat (map render_file (f # fs)) @ [END_STANDARD]) =
      parse_files_loop END_STANDARD (acc @ [f]) (stop # rest)"
    using h sec add f(2,3) more
    by (simp add: parse_files_loop.simps [of END_STANDARD acc] render_file_def Let_def)
  with Cons.IH [of "acc @ [f]"] Cons.prems more show ?case by simp
qed

lemma render_lines_plain:
  assumes "list_all printable_file fs"
  shows "list_all plain_line (concat (map render_file fs))"
proof -
  have "list_all plain_line (render_file f)" if "printable_file f" for f
    using that header_line(4) [of "pf_path f" "section_of (pf_operation f)"] render_line_plain
    by (cases "pf_operation f")
      (auto simp: render_file_def printable_file_def list_all_iff render_hunk_def printable_hunk_def
        intro: plain_line_Cons simp: plain_line_def [of "''@@''"] ends_with_char_def [of "''@@''"])
  with assms show ?thesis by (auto simp: list_all_iff)
qed

lemma printable_kept:
  assumes "printable_file f"
  shows "drop_context_hunks f = f" and "file_has_edit f"
proof -
  show "drop_context_hunks f = f"
  proof (cases "pf_operation f")
    case (UpdateFile hs)
    then have "filter hunk_has_edit hs = hs"
      using assms by (auto simp: printable_file_def printable_hunk_def list_all_iff intro: filter_True)
    with UpdateFile assms show ?thesis by (simp add: drop_context_hunks_def Let_def printable_file_def)
  qed (simp_all add: drop_context_hunks_def)
  show "file_has_edit f"
    using assms
    by (cases "pf_operation f") (auto simp: printable_file_def printable_hunk_def list_all_iff list_ex_iff neq_Nil_conv)
qed

text \<open>
  C33. The parser inverts the printer: a patch written out as an envelope, with one section per file, a
  hunk marker before every hunk and one prefixed line per patch line, parses back to exactly that patch.
\<close>

theorem parse_render_roundtrip:
  assumes "printable_patch p"
  shows "parse_apply_patch (render_patch p) = Ok p"
proof -
  let ?fs = "wp_files p" and ?body = "concat (map render_file (wp_files p)) @ [END_STANDARD]"
  have fs: "list_all printable_file ?fs" "?fs \<noteq> []" "distinct (map pf_path ?fs)"
    using assms by (simp_all add: printable_patch_def)
  have begin_plain: "plain_line BEGIN_STANDARD"
    by (simp add: plain_line_def ends_with_char_def BEGIN_STANDARD_def)
  have "strip_bom (render_patch p) = render_patch p"
    by (simp add: strip_bom_def render_patch_def render_lines_def BEGIN_STANDARD_def)
  moreover have "str_lines (render_patch p) = BEGIN_STANDARD # ?body"
    using render_lines_plain [OF fs(1)] begin_plain end_line(4)
    by (simp add: render_patch_def render_lines_def str_lines_unlines list_all_append del: unlines_simps unlines_append)
  moreover have "str_trim BEGIN_STANDARD \<noteq> []" by (simp add: BEGIN_STANDARD_def str_trim_visible visible_marks)
  ultimately have lines: "skip_blank_patch_lines (str_lines (strip_bom (render_patch p))) = BEGIN_STANDARD # ?body"
    using begin_plain by (simp add: patch_line_plain)
  have loop: "parse_files_loop END_STANDARD [] ?body = Ok ?fs"
    using parse_files_loop_render [OF fs(1), of "[]"] fs(3) by simp
  have kept: "map drop_context_hunks ?fs = ?fs" "filter file_has_edit ?fs = ?fs" "list_ex file_has_edit ?fs"
    using fs(1,2) printable_kept
    by (auto simp: list_all_iff list_ex_iff neq_Nil_conv intro!: map_idI filter_True simp del: file_has_edit.simps)
  have "end_marker_of BEGIN_STANDARD = Some END_STANDARD" by (simp add: end_marker_of_def grammar_defs)
  with lines loop kept fs(2) begin_plain show ?thesis
    by (simp add: parse_apply_patch_def patch_line_plain)
qed

theorem parse_render_roundtrip_witness:
  "render_patch sample_patch = sample_patch_text \<and> parse_apply_patch sample_patch_text = Ok sample_patch"
proof -
  have "printable_patch sample_patch" by code_simp
  moreover have "render_patch sample_patch = sample_patch_text" by code_simp
  ultimately show ?thesis using parse_render_roundtrip [of sample_patch] by simp
qed

end
