(* ===== verification/Tool_Scopes.thy ===== *)
theory Tool_Scopes
  imports Tool_Paths Plan_Validation
begin

text \<open>
  What the path rules of the workspace tools guarantee: the normal form of an accepted argument, that
  a reported path names the same file when it is sent again, and that the write boundary of the patch
  tool means the same as the scopes of the plan validator, for paths that stay below the root.
\<close>

section \<open>Text without control characters\<close>

definition clean :: "string \<Rightarrow> bool" where
  "clean s \<longleftrightarrow> is_utf8 s \<and> \<not> list_ex is_control (str_chars s)"

lemma clean_Nil [simp]: "clean []"
  by (simp add: clean_def)

lemma clean_append: "clean a \<Longrightarrow> clean (a @ b) \<longleftrightarrow> clean b"
  by (auto simp: clean_def is_utf8_append str_chars_append)

lemma clean_ascii: "byte_of c < 128 \<Longrightarrow> clean (c # cs) \<longleftrightarrow> \<not> is_control (byte_of c) \<and> clean cs"
  by (auto simp: clean_def is_utf8_ascii)

lemma clean_slash [simp]: "clean (CHR ''/'' # cs) \<longleftrightarrow> clean cs"
  by (simp add: clean_ascii is_control_def)

lemma clean_dots [simp]: "clean ''.''" "clean ''..''"
  by (simp_all add: clean_ascii is_control_def)

lemma clean_cut:
  assumes "clean (a @ CHR ''/'' # b)"
  shows "clean a \<and> clean b"
proof -
  have "is_utf8 a \<and> is_utf8 b" using assms is_utf8_cut [of a "CHR ''/''" b] by (simp add: clean_def)
  with assms show ?thesis by (auto simp: clean_def str_chars_append)
qed

lemma clean_split: "clean t \<Longrightarrow> list_all clean (split_on (CHR ''/'') t)"
proof (induction "split_on (CHR ''/'') t" arbitrary: t)
  case (Cons s ss)
  have t: "t = join_strings ''/'' (s # ss)" using Cons.hyps(2) join_split_on by metis
  show ?case
  proof (cases "ss = []")
    case True
    then have "split_on (CHR ''/'') t = [s]" and "t = s" using t Cons.hyps(2) by simp_all
    with Cons.prems show ?thesis by simp
  next
    case False
    let ?r = "join_strings ''/'' ss"
    have tr: "t = s @ CHR ''/'' # ?r" using t False by (simp add: join_strings_Cons)
    have "CHR ''/'' \<notin> set s" using split_on_no_sep [of s "CHR ''/''" t] Cons.hyps(2) by (metis list.set_intros(1))
    then have "ss = split_on (CHR ''/'') ?r"
      using Cons.hyps(2) split_on_append_sep [of "CHR ''/''" s ?r] tr by (metis list.inject)
    with clean_cut [of s ?r] Cons.hyps Cons.prems tr show ?thesis by (metis list.pred_inject(2))
  qed
qed simp

lemma clean_join: "list_all clean ss \<Longrightarrow> clean (join_strings ''/'' ss)"
  by (induction "''/''" ss rule: join_strings.induct) (simp_all add: clean_append)

lemma clean_components: "clean p \<Longrightarrow> c \<in> set (components p) \<Longrightarrow> clean (component_text c)"
proof -
  assume p: "clean p" and c: "c \<in> set (components p)"
  have "clean s" if "Normal s \<in> set (components p)" for s
    using components_NormalD [OF that] clean_split [OF p] by (simp add: list_all_iff)
  with c show ?thesis by (cases c rule: Component.exhaust) (auto simp: clean_ascii is_control_def)
qed

lemma normalize_clean:
  assumes "fold_res (normalize_step clamp) [] cs = Ok ps" and "\<forall>c\<in>set cs. clean (component_text c)"
  shows "list_all clean ps"
  using assms(1)
proof (rule fold_res_inv [where I = "list_all clean"])
  fix ps c qs
  assume "c \<in> set cs" and "list_all clean ps" and "normalize_step clamp ps c = Ok qs"
  moreover from this(1) assms(2) have "clean (component_text c)" by blast
  ultimately show "list_all clean qs"
    by (cases c rule: Component.exhaust) (auto simp: list_all_iff split: if_splits dest: in_set_butlastD)
qed simp

section \<open>The normal form of an argument\<close>

lemma components_relative: "\<not> path_is_absolute p \<Longrightarrow> RootDir \<notin> set (components p)"
  by (auto simp: components_def Let_def path_is_absolute_def map_filter_def split: if_splits)

lemma components_absolute:
  "path_is_absolute p \<Longrightarrow>
     \<exists>rest. components p = RootDir # rest \<and> RootDir \<notin> set rest \<and> CurDir \<notin> set rest"
  by (auto simp: components_def Let_def path_is_absolute_def map_filter_def split: if_splits)

lemma split_root_rest:
  "RootDir \<notin> set cs \<Longrightarrow> foldl split_root_step (a, r) cs = (a, snd (foldl split_root_step (a, r) cs))"
proof (induction cs arbitrary: a r)
  case (Cons c cs)
  then show ?case by (cases c) (simp_all del: split_root_step.simps add: split_root_step.simps)
qed simp

lemma split_root_invariant:
  "\<forall>s. Normal s \<in> set cs \<longrightarrow> P s \<Longrightarrow> list_all P r \<Longrightarrow> list_all P (snd (foldl split_root_step (a, r) cs))"
proof (induction cs arbitrary: a r)
  case (Cons c cs)
  have r: "list_all P (butlast r)" using Cons.prems(2) by (auto simp: list_all_iff dest: in_set_butlastD)
  show ?case
    using Cons.prems r by (cases c) (simp_all add: Cons.IH)
qed simp

lemma split_filesystem_root_Ok:
  assumes "split_filesystem_root p = Ok (anchor, tx)" and "path_is_absolute p"
  shows "\<exists>names. anchor = ''/'' \<and> names \<noteq> [] \<and> tx = join_strings ''/'' names
    \<and> list_all is_name names \<and> (clean p \<longrightarrow> list_all clean names)"
proof -
  obtain rest where c: "components p = RootDir # rest" and r: "RootDir \<notin> set rest"
    using components_absolute [OF assms(2)] by blast
  let ?names = "snd (foldl split_root_step (''/'', []) rest)"
  have f: "foldl split_root_step ([], []) (components p) = (''/'', ?names)"
    using split_root_rest [OF r, of "''/''" "[]"] by (simp add: c path_push_def path_is_absolute_def)
  have names: "list_all is_name ?names"
    using components_Normal [of _ p] c by (intro split_root_invariant) auto
  have cleaned: "list_all clean ?names" if "clean p"
    using clean_components [OF that, of "Normal _"] c by (intro split_root_invariant) auto
  from assms(1) f have "anchor = ''/''" "?names \<noteq> []" "tx = join_strings ''/'' ?names"
    by (auto simp: split_filesystem_root_def split: if_splits)
  with names cleaned show ?thesis by blast
qed

lemma names_normal: "list_all is_name names \<Longrightarrow> normal_parts names"
  unfolding normal_parts_def by (metis append_Nil replicate_0)

lemma names_segments: "list_all is_name names \<Longrightarrow> map segment_of names = map Normal names"
  by (auto simp: list_all_iff segment_of_def is_name_def)

lemma validated_cases:
  assumes "validate_workspace_path_argument raw root = Ok vp"
  obtains tx where "vp_anchored vp = None"
      "fold_res (normalize_step False) [] (components tx) = Ok (vp_components vp)"
      "vp_display vp = (if vp_components vp = [] then ''.'' else join_strings ''/'' (vp_components vp))"
      "clean raw \<longrightarrow> (\<forall>c\<in>set (components tx). clean (component_text c))"
  | names where "vp_anchored vp = Some ''/''" "vp_components vp = names" "names \<noteq> []"
      "list_all is_name names" "vp_display vp = ''/'' @ join_strings ''/'' names"
proof -
  obtain anchored tx clamp parts where a: "argument_anchor raw root = Ok (anchored, tx, clamp)"
    and f: "fold_res (normalize_step clamp) [] (components tx) = Ok parts"
    and vp: "vp = \<lparr>vp_anchored = anchored, vp_components = parts,
      vp_display = (if parts = [] \<and> anchored = None then ''.'' else reported anchored (join_strings ''/'' parts))\<rparr>"
    using assms by (auto simp: validate_workspace_path_argument_def result_simps split: if_splits)
  consider (rel) "\<not> path_is_absolute raw" "anchored = None" "tx = raw" "\<not> clamp"
    | (below) s where "strip_workspace_root raw root = Ok (Some s)" "anchored = None" "tx = s" "\<not> clamp"
    | (outside) anchor where "path_is_absolute raw" "split_filesystem_root raw = Ok (anchor, tx)"
        "anchored = Some anchor" "clamp"
    using a by (auto simp: argument_anchor_def result_simps split: if_splits option.splits)
  then show thesis
  proof cases
    case rel
    show thesis
      by (rule that(1) [of tx]) (use rel f vp in \<open>auto simp: reported_def intro: clean_components\<close>)
  next
    case below
    have "clean tx" if "clean raw"
    proof -
      have "tx = join_strings ''/'' (map component_text (drop (length (components root)) (components raw)))"
        using below by (auto simp: strip_workspace_root_def Let_def split: if_splits)
      moreover have "\<forall>c\<in>set (drop n (components raw)). clean (component_text c)" for n
        using clean_components [OF that] by (meson in_set_dropD)
      ultimately show ?thesis by (simp add: list_all_iff clean_join)
    qed
    then show thesis
      by (intro that(1) [of tx]) (use below f vp in \<open>auto simp: reported_def intro: clean_components\<close>)
  next
    case outside
    obtain names where n: "anchor = ''/''" "names \<noteq> []" "tx = join_strings ''/'' names" "list_all is_name names"
      using split_filesystem_root_Ok [OF outside(2,1)] by blast
    have "components tx = map segment_of names"
      unfolding n(3) using names_normal [OF n(4)] n(2) by (intro components_join normal_parts_plain)
    then have "parts = names" using f normalize_names [OF n(4), of clamp "[]"] by simp
    moreover have "path_push ''/'' tx = ''/'' @ tx"
      using join_starts [of names] n normal_parts_plain [OF names_normal]
      by (auto simp: path_push_def path_is_absolute_def ends_with_char_def)
    ultimately show thesis
      by (intro that(2) [of names]) (use n outside vp in \<open>auto simp: reported_def\<close>)
  qed
qed

text \<open>
  An accepted path argument is in normal form: leading parent steps and then plain names. An
  argument reported as absolute has no parent step left and names at least one entry below the root
  directory; the reported text is the normal form.
\<close>

lemma validated_path_normal_form:
  assumes "validate_workspace_path_argument raw root = Ok vp"
  shows "normal_parts (vp_components vp)
    \<and> (vp_anchored vp = None
       \<or> vp_anchored vp = Some ''/'' \<and> vp_components vp \<noteq> [] \<and> list_all is_name (vp_components vp))
    \<and> vp_display vp = (if vp_anchored vp \<noteq> None then ''/'' @ join_strings ''/'' (vp_components vp)
        else if vp_components vp = [] then ''.'' else join_strings ''/'' (vp_components vp))"
  using assms by (rule validated_cases) (auto intro: normalize_normal names_normal)

text \<open>
  The path a tool reports for a workspace-relative argument names the same file again: validating
  the reported text, under any workspace root, gives the same path.
\<close>

theorem validate_display_roundtrip:
  assumes "is_utf8 raw" and "validate_workspace_path_argument raw root = Ok vp" and "vp_anchored vp = None"
  shows "validate_workspace_path_argument (vp_display vp) root' = Ok vp"
  using assms(2)
proof (rule validated_cases)
  fix tx
  let ?ps = "vp_components vp"
  assume f: "fold_res (normalize_step False) [] (components tx) = Ok ?ps"
    and d: "vp_display vp = (if ?ps = [] then ''.'' else join_strings ''/'' ?ps)"
    and c: "clean raw \<longrightarrow> (\<forall>c\<in>set (components tx). clean (component_text c))"
  have "clean raw"
    using assms(1,2) by (auto simp: clean_def validate_workspace_path_argument_def split: if_splits)
  with c f have "list_all clean ?ps" by (blast intro: normalize_clean)
  then have clean: "clean (vp_display vp)" by (simp add: d clean_join)
  have norm: "normal_parts ?ps" using f by (rule normalize_normal)
  have vp: "vp = \<lparr>vp_anchored = None, vp_components = ?ps, vp_display = vp_display vp\<rparr>"
    using assms(3) by simp
  show ?thesis
  proof (cases "?ps = []")
    case True
    then have vp': "vp = \<lparr>vp_anchored = None, vp_components = [], vp_display = ''.''\<rparr>"
      using vp d by simp
    have "components ''.'' = [CurDir]" by code_simp
    then show ?thesis
      by (simp add: vp' validate_workspace_path_argument_def argument_anchor_def path_is_absolute_def
          is_control_def)
  next
    case False
    note plain = normal_parts_plain [OF norm]
    have "components (vp_display vp) = map segment_of ?ps"
      using components_join [OF plain False] False d by simp
    moreover have "vp_display vp \<noteq> [] \<and> \<not> path_is_absolute (vp_display vp)"
      using join_starts [OF plain False] False d by (simp add: path_is_absolute_def)
    ultimately show ?thesis
      using clean normalize_idem [OF norm] vp False d
      by (simp add: validate_workspace_path_argument_def argument_anchor_def clean_def reported_def)
  qed
qed (use assms(3) in simp)

theorem validate_display_roundtrip_witness:
  "validate_workspace_path_argument ''a/b'' ''/elsewhere'' =
     Ok \<lparr>vp_anchored = None, vp_components = [''a'', ''b''], vp_display = ''a/b''\<rparr>"
proof -
  have "validate_workspace_path_argument ''/ws/x/../a//b/.'' ''/ws'' =
      Ok \<lparr>vp_anchored = None, vp_components = [''a'', ''b''], vp_display = ''a/b''\<rparr>" (is "_ = Ok ?vp")
    by code_simp
  moreover have "is_utf8 ''/ws/x/../a//b/.''" by code_simp
  ultimately have "validate_workspace_path_argument (vp_display ?vp) ''/elsewhere'' = Ok ?vp"
    by (intro validate_display_roundtrip) simp_all
  then show ?thesis by simp
qed

section \<open>Scopes of the tool and scopes of the plan\<close>

lemma collect_normals:
  "fold_res (\<lambda>cs c. case c of Normal v \<Rightarrow> Ok (cs @ [v]) | _ \<Rightarrow> Err e) ps (map Normal ss) = Ok (ps @ ss)"
  by (induction ss arbitrary: ps) simp_all

lemma valid_scope_split:
  assumes "is_valid_workspace_scope p" and "p \<noteq> ''.''"
  shows "list_all is_name (split_on (CHR ''/'') p)"
  using assms split_on_no_sep [of _ "CHR ''/''" p]
  by (auto simp: is_valid_workspace_scope_def WORKSPACE_ROOT_SCOPE_def list_all_iff list_ex_iff is_name_def
      split: if_splits)

lemma normalize_scope_path_iff:
  "normalize_scope_path p = Ok q \<longleftrightarrow>
     is_utf8 p \<and> is_valid_workspace_scope p \<and> q = (if p = ''.'' then [] else p)"
proof (cases "is_valid_workspace_scope p \<and> p \<noteq> ''.''")
  case True
  then have c: "components p = map Normal (split_on (CHR ''/'') p)"
    by (simp add: valid_scope_components WORKSPACE_ROOT_SCOPE_def)
  from True show ?thesis
    by (auto simp: normalize_scope_path_def is_valid_workspace_scope_def WORKSPACE_ROOT_SCOPE_def c
        collect_normals join_split_on split: if_splits)
next
  case False
  show ?thesis
  proof (cases "p = ''.''")
    case True
    have "is_utf8 ''.''" by code_simp
    with True show ?thesis
      by (auto simp: normalize_scope_path_def is_valid_workspace_scope_def WORKSPACE_ROOT_SCOPE_def)
  next
    case dot: False
    have "\<not> list_ex (\<lambda>s. s \<in> {'''', ''.'', ''..''}) (split_on (CHR ''/'') p) \<Longrightarrow> p \<noteq> [] \<Longrightarrow>
        \<not> path_is_absolute p \<Longrightarrow> components p = map Normal (split_on (CHR ''/'') p)"
      unfolding components_def Let_def path_is_absolute_def
      by (subst map_filter_all_Normal) (auto simp: list_ex_iff)
    with False dot show ?thesis
      by (auto simp: normalize_scope_path_def is_valid_workspace_scope_def WORKSPACE_ROOT_SCOPE_def
          list_all_iff split: if_splits)
  qed
qed

lemma split_on_join_append:
  "\<forall>s\<in>set ss. c \<notin> set s \<Longrightarrow> ss \<noteq> [] \<Longrightarrow> split_on c (join_strings [c] ss @ c # t) = ss @ split_on c t"
  by (induction "[c]" ss rule: join_strings.induct) (simp_all add: split_on_append_sep)

lemma matches_join:
  assumes q: "list_all is_name qs" "qs \<noteq> []" and r: "list_all plain_segment rs" "rs \<noteq> []"
  shows "matches_scope_path (join_strings ''/'' rs) (join_strings ''/'' qs) \<longleftrightarrow> is_prefix qs rs"
proof -
  have nq: "\<forall>s\<in>set qs. CHR ''/'' \<notin> set s" and nr: "\<forall>s\<in>set rs. CHR ''/'' \<notin> set s"
    using q r by (auto simp: list_all_iff is_name_def dest: plain_segment_no_slash)
  have ne: "join_strings ''/'' qs \<noteq> []"
    using join_starts [OF normal_parts_plain [OF names_normal [OF q(1)]] q(2)] by blast
  have "is_prefix qs rs" if "join_strings ''/'' rs = join_strings ''/'' qs @ CHR ''/'' # t" for t
    using split_on_join [OF r(2) nr] split_on_join_append [OF nq q(2), of t] that
    by (auto simp: is_prefix_iff)
  moreover have "is_prefix qs rs" if "join_strings ''/'' rs = join_strings ''/'' qs"
    using split_on_join [OF r(2) nr] split_on_join [OF q(2) nq] that by (metis append_Nil2 is_prefix_iff)
  moreover have "join_strings ''/'' rs = join_strings ''/'' qs
      \<or> (\<exists>t. join_strings ''/'' rs = join_strings ''/'' qs @ CHR ''/'' # t)" if pre: "is_prefix qs rs"
  proof -
    obtain zs where "rs = qs @ zs" using pre by (auto simp: is_prefix_iff)
    then show ?thesis by (cases "zs = []") (auto simp: join_strings_append q(2))
  qed
  ultimately show ?thesis
    using ne by (auto simp: matches_scope_path_def strip_prefix_iff starts_with_iff split: option.splits)
qed

lemma below_root_components:
  assumes "validate_workspace_path_argument raw root = Ok vp" and "vp_anchored vp = None"
    and "''..'' \<notin> set (vp_components vp)"
  shows "list_all is_name (vp_components vp)"
    and "components (vp_display vp) =
      (if vp_components vp = [] then [CurDir] else map Normal (vp_components vp))"
proof -
  note nf = validated_path_normal_form [OF assms(1)]
  then have "list_all plain_segment (vp_components vp)" by (simp add: normal_parts_plain)
  with assms(3) show names: "list_all is_name (vp_components vp)"
    by (auto simp: list_all_iff plain_segment_def)
  have "components ''.'' = [CurDir]" by code_simp
  then show "components (vp_display vp) =
      (if vp_components vp = [] then [CurDir] else map Normal (vp_components vp))"
    using nf assms(2) components_join [OF normal_parts_plain [OF names_normal [OF names]]]
    by (simp add: names_segments [OF names])
qed

lemma is_prefix_refl: "is_prefix xs xs"
  by (simp add: is_prefix_iff)

lemma is_prefix_map_Normal: "is_prefix (map Normal qs) (map Normal rs) \<longleftrightarrow> is_prefix qs rs"
  by (induction qs rs rule: is_prefix.induct) auto

lemma scope_match_agrees:
  assumes "validate_workspace_path_argument raw root = Ok vp" and "vp_anchored vp = None"
    and "''..'' \<notin> set (vp_components vp)" and "normalize_scope_path s = Ok q"
  shows "matches_scope_path (vp_display vp) q \<longleftrightarrow> workspace_scope_contains s (vp_display vp)"
proof (cases "s = ''.''")
  case True
  with assms(4) show ?thesis
    by (simp add: normalize_scope_path_iff matches_scope_path_def workspace_scope_contains_def path_eq_def
        WORKSPACE_ROOT_SCOPE_def)
next
  case False
  let ?ps = "vp_components vp" and ?qs = "split_on (CHR ''/'') s"
  have q: "q = s" and valid: "is_valid_workspace_scope s"
    using assms(4) False by (simp_all add: normalize_scope_path_iff)
  note names = valid_scope_split [OF valid False]
  have cs: "components s = map Normal ?qs" "q = join_strings ''/'' ?qs"
    using valid False q by (simp_all add: valid_scope_components WORKSPACE_ROOT_SCOPE_def join_split_on)
  note cd = below_root_components [OF assms(1-3)]
  have d: "vp_display vp = (if ?ps = [] then ''.'' else join_strings ''/'' ?ps)"
    using validated_path_normal_form [OF assms(1)] assms(2) by simp
  have r: "components WORKSPACE_ROOT_SCOPE = [CurDir]" by (rule components_root)
  have eq: "workspace_scope_contains s (vp_display vp) \<longleftrightarrow> ?ps \<noteq> [] \<and> is_prefix ?qs ?ps"
    by (auto simp: workspace_scope_contains_def path_eq_def path_starts_with_def r cs(1) cd(2)
        is_prefix_map_Normal is_prefix_refl inj_map_eq_map inj_def)
  show ?thesis
  proof (cases "?ps = []")
    case True
    have "?qs \<noteq> [''.'']" using names by (auto simp: is_name_def)
    then have "q \<noteq> ''.''" "q \<noteq> []"
      using cs(2) join_starts [OF normal_parts_plain [OF names_normal [OF names]]] False q by auto
    moreover have "\<not> (\<exists>t. ''.'' = q @ CHR ''/'' # t)" by (auto simp: append_eq_Cons_conv Cons_eq_append_conv)
    ultimately show ?thesis
      using True d eq by (auto simp: matches_scope_path_def strip_prefix_iff starts_with_iff split: option.splits)
  next
    case ps: False
    then show ?thesis
      using matches_join [OF names _ normal_parts_plain [OF names_normal [OF cd(1)]] ps] d eq cs(2) by simp
  qed
qed

lemma normalize_scope_paths_Ok:
  assumes "normalize_scope_paths paths = Ok qs"
  shows "set qs = {q. \<exists>p\<in>set paths. normalize_scope_path p = Ok q}"
    and "\<forall>p\<in>set paths. \<exists>q. normalize_scope_path p = Ok q"
proof -
  have fold: "fold_res (\<lambda>ps p. and_then (normalize_scope_path p) (\<lambda>s. Ok (ps @ [s]))) acc paths = Ok rs \<Longrightarrow>
      (\<forall>p\<in>set paths. \<exists>q. normalize_scope_path p = Ok q)
      \<and> set rs = set acc \<union> {q. \<exists>p\<in>set paths. normalize_scope_path p = Ok q}" for acc rs
    by (induction paths arbitrary: acc) (fastforce simp: result_simps)+
  obtain rs where "fold_res (\<lambda>ps p. and_then (normalize_scope_path p) (\<lambda>s. Ok (ps @ [s]))) [] paths = Ok rs"
    and "qs = bs_collect rs"
    using assms by (auto simp: normalize_scope_paths_def result_simps)
  with fold [of "[]" rs] show "set qs = {q. \<exists>p\<in>set paths. normalize_scope_path p = Ok q}"
    and "\<forall>p\<in>set paths. \<exists>q. normalize_scope_path p = Ok q" by simp_all
qed

text \<open>
  C36. The patch tool enforces the scopes a plan was validated with. When the tool of a child runs with
  the child's write scope and forbidden paths, and the plan validator found that write scope within a
  parent's, every path below the workspace root that passes the write boundary lies in a scope of the
  parent and in none of the forbidden paths, \<^verbatim>\<open>.git\<close> included.
\<close>

theorem patch_boundary_within_plan_scope:
  assumes "validate_workspace_path_argument raw root = Ok vp" and "vp_anchored vp = None"
    and "''..'' \<notin> set (vp_components vp)"
    and "normalize_scope_paths child = Ok scope" and "normalize_scope_paths forbidden = Ok denied"
    and "ws_patch_write_scope state = Some scope" and "ws_forbidden_paths state = forbidden_with_git denied"
    and "scopes_are_within child parent"
    and "validate_patch_write_boundary state vp = Ok ()"
  shows "list_ex (\<lambda>s. workspace_scope_contains s (vp_display vp)) parent
    \<and> \<not> list_ex (\<lambda>s. workspace_scope_contains s (vp_display vp)) (''.git'' # forbidden)"
proof -
  note agree = scope_match_agrees [OF assms(1-3)]
  have inside: "matches_any_scope_path (vp_display vp) scope"
    and outside: "\<not> matches_any_scope_path (vp_display vp) (forbidden_with_git denied)"
    using assms(2,6,7,9)
    by (auto simp: validate_patch_write_boundary_def relative_spelling_def Let_def split: if_splits)
  obtain c where "c \<in> set child" and "workspace_scope_contains c (vp_display vp)"
    using inside agree normalize_scope_paths_Ok(1) [OF assms(4)]
    by (auto simp: matches_any_scope_path_def list_ex_iff)
  with assms(8) have "list_ex (\<lambda>s. workspace_scope_contains s (vp_display vp)) parent"
    by (auto simp: scopes_are_within_def list_all_iff list_ex_iff intro: scope_contains_trans)
  moreover have "\<not> workspace_scope_contains f (vp_display vp)" if "f \<in> set forbidden" for f
    using that outside agree normalize_scope_paths_Ok [OF assms(5)]
    by (fastforce simp: matches_any_scope_path_def forbidden_with_git_def list_ex_iff split: if_splits)
  moreover have "\<not> workspace_scope_contains ''.git'' (vp_display vp)"
  proof -
    have "normalize_scope_path ''.git'' = Ok ''.git''" by code_simp
    with agree outside show ?thesis
      by (auto simp: matches_any_scope_path_def forbidden_with_git_def list_ex_iff split: if_splits)
  qed
  ultimately show ?thesis by (auto simp: list_ex_iff)
qed

definition sample_limits :: WorkspaceToolLimits where
  "sample_limits = \<lparr>max_read_bytes = 64, max_read_lines = 8, max_write_bytes = 64, max_patch_bytes = 256\<rparr>"

definition child_state :: WorkspaceToolState where
  "child_state = \<lparr>ws_root = ''/ws'', ws_readonly_resource_roots = [], ws_limits = sample_limits,
     ws_patch_write_scope = Some [''src/core''], ws_forbidden_paths = [''src/core/keys'', ''.git'']\<rparr>"

theorem patch_boundary_within_plan_scope_witness:
  "workspace_scope_contains ''src'' ''src/core/a.rs'' \<and> \<not> workspace_scope_contains ''.git'' ''src/core/a.rs''"
proof -
  let ?vp = "\<lparr>vp_anchored = None, vp_components = [''src'', ''core'', ''a.rs''], vp_display = ''src/core/a.rs''\<rparr>"
  have 1: "validate_workspace_path_argument ''src/core/a.rs'' ''/ws'' = Ok ?vp" by code_simp
  have 2: "normalize_scope_paths [''src/core''] = Ok [''src/core'']" by code_simp
  have 3: "normalize_scope_paths [''src/core/keys''] = Ok [''src/core/keys'']" by code_simp
  have 4: "ws_patch_write_scope child_state = Some [''src/core'']" by (simp add: child_state_def)
  have 5: "ws_forbidden_paths child_state = forbidden_with_git [''src/core/keys'']"
    by (simp add: child_state_def forbidden_with_git_def)
  have 6: "scopes_are_within [''src/core''] [''src'']" by code_simp
  have 7: "validate_patch_write_boundary child_state ?vp = Ok ()" by code_simp
  show ?thesis
    using patch_boundary_within_plan_scope [OF 1 _ _ 2 3 4 5 6 7] by simp
qed

section \<open>Paths the boundary lets out\<close>

definition boundary_accepts :: "string list option \<Rightarrow> string \<Rightarrow> bool" where
  "boundary_accepts scope raw =
     (let state = \<lparr>ws_root = ''/ws'', ws_readonly_resource_roots = [], ws_limits = sample_limits,
        ws_patch_write_scope = scope, ws_forbidden_paths = forbidden_with_git []\<rparr> in
      case validate_workspace_path_argument raw (ws_root state) of
        Ok vp \<Rightarrow> is_ok (validate_patch_write_boundary state vp)
      | _ \<Rightarrow> False)"


end
