(* ===== verification/Patch_Guarantees.thy ===== *)
theory Patch_Guarantees
  imports Patch_Safety Patch_Edits Patch_Grammar Tool_Scopes
begin

text \<open>
  End-to-end properties of \<^verbatim>\<open>apply_patch\<close>, from the envelope text to the file system: what a successful
  call leaves behind, what approval binds, and the calls whose effect is not the one reported.
\<close>

section \<open>What a call can change\<close>

text \<open>
  C26. Whatever happens between planning and execution, and however execution ends, a patch changes or
  removes an existing entry only if that entry is a regular file whose bytes are, at that moment,
  exactly the preimage some update or deletion of the patch was planned against. Directories, links and
  files with other contents are never touched.
\<close>

theorem patch_touches_only_planned_preimages:
  assumes "apply_patch_blocking_checked os cancel state patch approved seen fs = (fs', r)"
    and "fs p = Some n" and "fs' p \<noteq> Some n"
  shows "\<exists>plan c. plan_apply_patch_blocking_checked os cancel seen state patch = Ok (Planned plan)
    \<and> c \<in> set (pl_changes plan) \<and> fp_mode c \<noteq> CreateNew \<and> n = FsFile (fp_content_before c)"
proof -
  have "fs' \<noteq> fs" using assms(2,3) by auto
  with assms(1) obtain plan where plan: "plan_apply_patch_blocking_checked os cancel seen state patch = Ok (Planned plan)"
    and "execute_apply_patch_plan os cancel plan fs = (fs', r)"
    by (auto simp: apply_patch_blocking_checked_def
        split: result.splits WorkspacePatchPlanOutcome.splits option.splits if_splits)
  with \<open>fs' \<noteq> fs\<close> have "execute_changes os cancel [] [] (pl_changes plan) fs = (fs', r)"
    by (auto simp: execute_apply_patch_plan_def split: if_splits)
  from execute_changes_preserves [OF this assms(2,3)] plan show ?thesis by blast
qed

text \<open>
  C30. A change the executor reports as done is exactly the planned change: the target name held the
  planned preimage (for a new file, nothing), holds the planned bytes afterwards (nothing after a
  deletion), and no other name differs, up to parent directories created for a new file.
\<close>

theorem executed_change_exact:
  assumes "execute_apply_patch_file_plan os cancel c fs = (fs', Ok content)"
  shows "content = (if fp_mode c = DeleteExisting then [] else fp_replacement c) \<and> change_done c fs fs'"
  using assms by (rule execute_file_exact)

section \<open>Fingerprints are accepted as evidence\<close>

lemma hex_digit_is_hex: "0 \<le> d \<Longrightarrow> d < 16 \<Longrightarrow> is_ascii_hexdigit (hex_digit d)"
proof -
  assume "0 \<le> d" and "d < 16"
  then have "d \<in> {0, 1, 2, 3, 4, 5, 6, 7, 8, 9, 10, 11, 12, 13, 14, 15}"
    unfolding insert_iff empty_iff by presburger
  then show ?thesis by (auto simp: hex_digit_def is_ascii_hexdigit_def)
qed

lemma show_hex16_digits: "length (show_hex16 w) = 16 \<and> list_all is_ascii_hexdigit (show_hex16 w)"
  by (simp add: show_hex16_def list_all_iff hex_digit_is_hex)

lemma fingerprint_valid:
  "validate_apply_patch_fingerprint field (stable_content_fingerprint b) = Ok (stable_content_fingerprint b)"
proof -
  obtain h where h: "stable_content_fingerprint b = ''fnv1a64:'' @ h" "length h = 16" "list_all is_ascii_hexdigit h"
    using show_hex16_digits by (auto simp: stable_content_fingerprint_def)
  have "str_trim (''fnv1a64:'' @ h) \<noteq> []"
    by (simp add: str_trim_visible ascii_visible_def is_whitespace_def)
  with h show ?thesis by (simp add: validate_apply_patch_fingerprint_def Let_def)
qed

lemma new_change_evidence_Ok_iff:
  "(\<exists>ev. new_change_evidence path pre new before after
       (stable_content_fingerprint b) (stable_content_fingerprint c) = Ok ev) \<longleftrightarrow>
     validate_apply_patch_path path = Ok path \<and> validate_apply_patch_counts pre new before after = Ok ()"
proof -
  have "validate_apply_patch_path path = Ok p \<Longrightarrow> p = path" for p
    by (auto simp: validate_apply_patch_path_def Let_def split: if_split_asm)
  then show ?thesis by (auto simp: new_change_evidence_def result_simps fingerprint_valid)
qed

section \<open>A successful call\<close>

lemma executed_evidence_planned:
  assumes "planned_ok state seen c" and "content = (if fp_mode c = DeleteExisting then [] else fp_replacement c)"
  shows "executed_evidence c content = change_evidence c"
proof -
  have "content = fp_replacement c" and "fp_bytes_after c = length (fp_replacement c)"
    using assms by (auto simp: planned_ok_def split: WorkspacePatchFileMode.splits)
  then show ?thesis by (simp add: executed_evidence_def change_evidence_def)
qed

text \<open>The value a successful run of the changes leaves at a name.\<close>

definition left_by :: "WorkspacePatchFilePlan \<Rightarrow> fs_node option \<Rightarrow> bool" where
  "left_by c n \<longleftrightarrow> n = (if fp_mode c = DeleteExisting then None else Some (FsFile (fp_replacement c)))"

lemma change_done_cases:
  assumes "change_done c fs fs'"
  shows "fs' p = fs p \<or> fs' p = Some FsDir \<or> left_by c (fs' p)"
proof (cases "fp_mode c")
  case CreateNew
  with assms obtain fs1 q where "adds_dirs fs fs1" and "fs' = fs1(q \<mapsto> FsFile (fp_replacement c))"
    by (auto simp: change_done_def)
  with CreateNew show ?thesis by (auto simp: adds_dirs_def left_by_def)
qed (use assms in \<open>auto simp: change_done_def left_by_def split: if_split_asm\<close>)

lemma execute_changes_succeeded:
  assumes "execute_changes os cancel written evidence cs fs = (fs', Ok (Succeeded w ev))"
    and "list_all (planned_ok state seen) cs"
  shows "(fs' p = fs p \<or> fs' p = Some FsDir \<or> (\<exists>c\<in>set cs. left_by c (fs' p)))
    \<and> fold_res (\<lambda>es c. and_then (change_evidence c) (\<lambda>e. Ok (es @ [e]))) evidence cs = Ok ev
    \<and> w = written @ map (\<lambda>c. success_change c (if fp_mode c = DeleteExisting then [] else fp_replacement c)) cs"
  using assms
proof (induction cs arbitrary: written evidence fs)
  case Nil
  then show ?case by (auto simp: from_changes_def map_err_def result_simps split: result.split_asm)
next
  case (Cons c cs)
  obtain fs1 r1 where e: "execute_apply_patch_file_plan os cancel c fs = (fs1, r1)" by fastforce
  have notc: "\<not> cancel (ExecFile (vp_display (fp_relative c)))" using Cons.prems(1) by (auto split: if_split_asm)
  obtain content where r1: "r1 = Ok content"
    using Cons.prems(1) e notc by (auto split: result.split_asm PatchFileWriteError.split_asm)
  then have exact: "content = (if fp_mode c = DeleteExisting then [] else fp_replacement c)" "change_done c fs fs1"
    using execute_file_exact e by blast+
  obtain x where x: "executed_evidence c content = Ok x"
    using Cons.prems(1) e notc r1 by (auto split: result.split_asm)
  then have ce: "change_evidence c = Ok x" using executed_evidence_planned exact(1) Cons.prems(2) by fastforce
  have "execute_changes os cancel (written @ [success_change c content]) (evidence @ [x]) cs fs1 = (fs', Ok (Succeeded w ev))"
    using Cons.prems(1) e notc r1 x by simp
  from Cons.IH [OF this] Cons.prems(2) change_done_cases [OF exact(2), of p] ce exact(1) show ?case by auto
qed

text \<open>
  C31. A call that reports success changed only what it reports, within the limits. Every name whose entry
  differs afterwards is a directory created on the way or the target of a planned change: removed, or a
  file with the planned bytes, which respect the write limit; the planned path passed the write
  boundary of the tool; and there is one reported change per planned change, in order.
\<close>

theorem successful_patch_within_limits:
  assumes "apply_patch_blocking_checked os cancel state patch approved seen fs = (fs', Ok (Succeeded w ev))"
  shows "\<exists>plan. plan_apply_patch_blocking_checked os cancel seen state patch = Ok (Planned plan)
    \<and> map sc_path w = map (\<lambda>c. vp_display (fp_relative c)) (pl_changes plan)
    \<and> (\<forall>p. fs' p = fs p \<or> fs' p = Some FsDir \<or>
        (\<exists>c\<in>set (pl_changes plan). left_by c (fs' p) \<and> length (fp_replacement c) \<le> max_write_bytes (ws_limits state)
           \<and> validate_patch_write_boundary state (fp_relative c) = Ok ()))"
proof -
  obtain plan where plan: "plan_apply_patch_blocking_checked os cancel seen state patch = Ok (Planned plan)"
    and x: "execute_apply_patch_plan os cancel plan fs = (fs', Ok (Succeeded w ev))"
    using assms
    by (auto simp: apply_patch_blocking_checked_def proposal_mismatch_outcome_def
        split: result.split_asm WorkspacePatchPlanOutcome.split_asm option.split_asm if_split_asm)
  have run: "execute_changes os cancel [] [] (pl_changes plan) fs = (fs', Ok (Succeeded w ev))"
    using x by (auto simp: execute_apply_patch_plan_def split: if_split_asm)
  note ok = planned_changes_ok [OF plan, THEN conjunct1]
  note facts = execute_changes_succeeded [OF run ok]
  have "map sc_path w = map (\<lambda>c. vp_display (fp_relative c)) (pl_changes plan)"
    using facts by (simp add: success_change_def comp_def)
  moreover have "planned_ok state seen c" if "c \<in> set (pl_changes plan)" for c
    using ok that by (simp add: list_all_iff)
  ultimately show ?thesis using plan facts by (fastforce simp: planned_ok_def)
qed

lemma approved_plan_runs:
  assumes "apply_patch_blocking_checked os cancel state patch (Some proposal) seen fs = (fs', r)"
    and "fs' \<noteq> fs \<or> r = Ok (Succeeded w ev)"
  shows "\<exists>plan. plan_apply_patch_blocking_checked os cancel seen state patch = Ok (Planned plan)
    \<and> collect_evidence (pl_changes plan) = Ok proposal \<and> (\<forall>w ev. r = Ok (Succeeded w ev) \<longrightarrow> ev = proposal)"
proof -
  obtain plan where plan: "plan_apply_patch_blocking_checked os cancel seen state patch = Ok (Planned plan)"
    and m: "match_approved_patch_proposal proposal plan"
    and x: "execute_apply_patch_plan os cancel plan fs = (fs', r)"
    using assms
    by (auto simp: apply_patch_blocking_checked_def proposal_mismatch_outcome_def
        split: result.split_asm WorkspacePatchPlanOutcome.split_asm if_split_asm)
  have c: "collect_evidence (pl_changes plan) = Ok proposal"
    using m by (auto simp: match_approved_patch_proposal_def split: result.split_asm)
  have "ev = proposal" if "r = Ok (Succeeded w ev)" for w ev
  proof -
    have "execute_changes os cancel [] [] (pl_changes plan) fs = (fs', Ok (Succeeded w ev))"
      using x that by (auto simp: execute_apply_patch_plan_def split: if_split_asm)
    from execute_changes_succeeded [OF this planned_changes_ok [OF plan, THEN conjunct1]] c show ?thesis
      by (simp add: collect_evidence_def)
  qed
  with plan c show ?thesis by blast
qed

text \<open>The paths of the evidence are the reported paths of the planned changes.\<close>

lemma collect_evidence_from:
  "fold_res (\<lambda>es change. and_then (change_evidence change) (\<lambda>e. Ok (es @ [e]))) es cs = Ok evs \<Longrightarrow>
     map ev_relative_path evs = map ev_relative_path es @ map (\<lambda>c. vp_display (fp_relative c)) cs"
proof (induction cs arbitrary: es)
  case (Cons c cs)
  then obtain e where e: "change_evidence c = Ok e"
    and "map ev_relative_path evs = map ev_relative_path (es @ [e]) @ map (\<lambda>c. vp_display (fp_relative c)) cs"
    by (auto simp: result_simps)
  moreover have "ev_relative_path e = vp_display (fp_relative c)"
    using e by (auto simp: change_evidence_def new_change_evidence_def result_simps validate_apply_patch_path_def Let_def
        split: if_split_asm)
  ultimately show ?case by simp
qed simp

lemma collect_evidence_paths:
  "collect_evidence cs = Ok evs \<Longrightarrow> map ev_relative_path evs = map (\<lambda>c. vp_display (fp_relative c)) cs"
  using collect_evidence_from [of "[]"] by (simp add: collect_evidence_def)

text \<open>
  C27. Approval binds execution. A call with an approved proposal touches the file system, or reports
  success, only if the evidence of the plan it computes (paths, sizes and fingerprints before and after
  of every file) is the approved one, and the evidence of a successful execution is again exactly the
  approved proposal.
\<close>

theorem approved_patch_is_what_runs:
  assumes "apply_patch_blocking_checked os cancel state patch (Some proposal) seen fs = (fs', r)"
    and "fs' \<noteq> fs \<or> r = Ok (Succeeded w ev)"
  shows "\<exists>plan. plan_apply_patch_blocking_checked os cancel seen state patch = Ok (Planned plan)
    \<and> collect_evidence (pl_changes plan) = Ok proposal \<and> (\<forall>w ev. r = Ok (Succeeded w ev) \<longrightarrow> ev = proposal)"
  using assms by (rule approved_plan_runs)

section \<open>Sample calls\<close>

definition quiet_os :: os_env where
  "quiet_os = \<lparr>os_fails = (\<lambda>_ _. False), os_written = (\<lambda>_. 0)\<rparr>"

definition never :: cancellation where
  "never = (\<lambda>_. False)"

definition sample_state :: WorkspaceToolState where
  "sample_state = \<lparr>ws_root = ''/ws'', ws_readonly_resource_roots = [], ws_limits = sample_limits,
     ws_patch_write_scope = None, ws_forbidden_paths = forbidden_with_git []\<rparr>"

definition sample_files :: file_system where
  "sample_files = [[''ws''] \<mapsto> FsDir, [''ws'', ''a.txt''] \<mapsto> FsFile (unlines [''a'', ''b'']),
     [''x''] \<mapsto> FsFile (unlines [''a''])]"

definition envelope_of :: "string list \<Rightarrow> string" where
  "envelope_of ls = unlines ([''*** Begin Patch''] @ ls @ [''*** End Patch''])"

definition workspace_path :: "string \<Rightarrow> ValidatedToolPath" where
  "workspace_path name = \<lparr>vp_anchored = None, vp_components = [name], vp_display = name\<rparr>"

text \<open>The change planned for replacing one line of \<^verbatim>\<open>a.txt\<close>.\<close>

definition line_change :: "string \<Rightarrow> nat \<Rightarrow> string \<Rightarrow> string \<Rightarrow> WorkspacePatchFilePlan" where
  "line_change after line_no old new =
     \<lparr>fp_relative = workspace_path ''a.txt'', fp_path = ''/ws/a.txt'', fp_content_before = unlines [''a'', ''b''],
      fp_replacement = after, fp_preimage_bytes = 2, fp_replacement_bytes = 2, fp_bytes_before = 4,
      fp_bytes_after = 4, fp_lines_before = 2, fp_lines_after = 2, fp_hunks = 1, fp_ignored_context_hunks = 0,
      fp_lines = success_lines_from line_no line_no [Remove old, Add new], fp_max_read_bytes = 64,
      fp_mode = UpdateExisting\<rparr>"

definition first_change :: WorkspacePatchFilePlan where
  "first_change = line_change (unlines [''a'', ''c'']) 2 ''b'' ''c''"

definition second_change :: WorkspacePatchFilePlan where
  "second_change = line_change (unlines [''d'', ''b'']) 1 ''a'' ''d''"

definition one_file_patch :: string where
  "one_file_patch = envelope_of [''*** Update File: a.txt'', ''@@'', ''-b'', ''+c'']"

definition two_spellings_patch :: string where
  "two_spellings_patch = envelope_of [''*** Update File: a.txt'', ''@@'', ''-b'', ''+c'',
     ''*** Update File: ./a.txt'', ''@@'', ''-a'', ''+d'']"

definition patched_files :: file_system where
  "patched_files = fst (execute_apply_patch_file_plan quiet_os never first_change sample_files)"

lemma one_file_planned:
  "plan_apply_patch_blocking_checked quiet_os never sample_files sample_state one_file_patch =
     Ok (Planned \<lparr>pl_changes = [first_change]\<rparr>)"
  by code_simp

lemma two_spellings_planned:
  "plan_apply_patch_blocking_checked quiet_os never sample_files sample_state two_spellings_patch =
     Ok (Planned \<lparr>pl_changes = [first_change, second_change]\<rparr>)"
  by code_simp

lemma first_change_executed:
  "execute_apply_patch_file_plan quiet_os never first_change sample_files =
     (patched_files, Ok (unlines [''a'', ''c'']))"
proof -
  have "snd (execute_apply_patch_file_plan quiet_os never first_change sample_files) = Ok (unlines [''a'', ''c''])"
    by code_simp
  then show ?thesis by (simp add: patched_files_def prod_eq_iff)
qed

lemma patched_files_values:
  "patched_files [''ws'', ''a.txt''] = Some (FsFile (unlines [''a'', ''c'']))"
  "sample_files [''ws'', ''a.txt''] = Some (FsFile (unlines [''a'', ''b'']))"
  by code_simp+

lemma first_change_evidence: "\<exists>ev. executed_evidence first_change (unlines [''a'', ''c'']) = Ok ev \<and> change_evidence first_change = Ok ev"
proof -
  have path: "validate_apply_patch_path ''a.txt'' = Ok ''a.txt''" by code_simp
  have counts: "validate_apply_patch_counts 2 2 4 4 = Ok ()" by code_simp
  have "change_evidence first_change = executed_evidence first_change (unlines [''a'', ''c''])"
    by (simp add: change_evidence_def executed_evidence_def first_change_def line_change_def numeral_eq_Suc)
  moreover have "\<exists>ev. change_evidence first_change = Ok ev"
    unfolding change_evidence_def new_change_evidence_Ok_iff
    using path counts by (simp add: first_change_def line_change_def workspace_path_def)
  ultimately show ?thesis by auto
qed

lemma one_file_succeeds:
  assumes "approved = None \<or> (\<exists>ev. approved = Some [ev] \<and> change_evidence first_change = Ok ev)"
  shows "\<exists>w ev. apply_patch_blocking_checked quiet_os never sample_state one_file_patch approved
      sample_files sample_files = (patched_files, Ok (Succeeded w [ev])) \<and> change_evidence first_change = Ok ev"
proof -
  obtain ev where ev: "executed_evidence first_change (unlines [''a'', ''c'']) = Ok ev" "change_evidence first_change = Ok ev"
    using first_change_evidence by blast
  have "execute_apply_patch_plan quiet_os never \<lparr>pl_changes = [first_change]\<rparr> sample_files =
      (patched_files, Ok (Succeeded [success_change first_change (unlines [''a'', ''c''])] [ev]))"
    by (simp add: execute_apply_patch_plan_def never_def first_change_executed [unfolded never_def] ev
        from_changes_def validate_apply_patch_changes_def map_err_def del: unlines_simps)
  moreover have "approved = Some p \<Longrightarrow> match_approved_patch_proposal p \<lparr>pl_changes = [first_change]\<rparr>" for p
    using assms by (auto simp: match_approved_patch_proposal_def collect_evidence_def)
  ultimately show ?thesis
    using ev by (cases approved) (auto simp: apply_patch_blocking_checked_def one_file_planned)
qed

theorem executed_change_exact_witness:
  "change_done first_change sample_files patched_files"
  using executed_change_exact [OF first_change_executed] by blast

theorem patch_touches_only_planned_preimages_witness:
  "sample_files [''ws'', ''a.txt''] = Some (FsFile (fp_content_before first_change))"
proof -
  obtain w ev where run: "apply_patch_blocking_checked quiet_os never sample_state one_file_patch None
      sample_files sample_files = (patched_files, Ok (Succeeded w [ev]))"
    using one_file_succeeds [of None] by blast
  have "patched_files [''ws'', ''a.txt''] \<noteq> Some (FsFile (unlines [''a'', ''b'']))"
    by (simp add: patched_files_values)
  from patch_touches_only_planned_preimages [OF run patched_files_values(2) this] one_file_planned
  show ?thesis by (auto simp: patched_files_values simp del: unlines_simps)
qed

theorem successful_patch_within_limits_witness:
  "\<exists>c. left_by c (patched_files [''ws'', ''a.txt'']) \<and> length (fp_replacement c) \<le> 64
     \<and> validate_patch_write_boundary sample_state (fp_relative c) = Ok ()"
proof -
  obtain w ev where "apply_patch_blocking_checked quiet_os never sample_state one_file_patch None
      sample_files sample_files = (patched_files, Ok (Succeeded w [ev]))"
    using one_file_succeeds [of None] by blast
  note facts = successful_patch_within_limits [OF this]
  have "patched_files [''ws'', ''a.txt''] \<noteq> sample_files [''ws'', ''a.txt'']"
    and "patched_files [''ws'', ''a.txt''] \<noteq> Some FsDir"
    by (simp_all add: patched_files_values)
  with facts obtain c where "left_by c (patched_files [''ws'', ''a.txt''])"
    and "length (fp_replacement c) \<le> max_write_bytes (ws_limits sample_state)"
    and "validate_patch_write_boundary sample_state (fp_relative c) = Ok ()"
    by blast
  then show ?thesis by (auto simp: sample_state_def sample_limits_def)
qed

theorem approved_patch_is_what_runs_witness:
  "\<exists>ev w. change_evidence first_change = Ok ev \<and> apply_patch_blocking_checked quiet_os never sample_state
     one_file_patch (Some [ev]) sample_files sample_files = (patched_files, Ok (Succeeded w [ev]))"
proof -
  obtain e where e: "change_evidence first_change = Ok e" using first_change_evidence by blast
  then obtain w ev where run: "apply_patch_blocking_checked quiet_os never sample_state one_file_patch (Some [e])
      sample_files sample_files = (patched_files, Ok (Succeeded w [ev]))"
    using one_file_succeeds [of "Some [e]"] by blast
  from approved_patch_is_what_runs [OF run, of w "[ev]"] have "[ev] = [e]" by auto
  with e run show ?thesis by auto
qed


text \<open>A run, reduced to what it left in the two files of the sample and to how it ended.\<close>

datatype run_end = EndSucceeded nat | EndFailed string | EndCancelled | EndInfrastructure string | EndPanic

fun end_of :: "(ToolExecutionOutcome, ToolExecutionError) result \<Rightarrow> run_end" where
  "end_of (Ok (Succeeded w ev)) = EndSucceeded (length w)"
| "end_of (Ok (Failed f)) = EndFailed (tf_code f)"
| "end_of (Err ExecutionCancelled) = EndCancelled"
| "end_of (Err (Infrastructure (InvalidWorkspacePatch field reason))) = EndInfrastructure field"
| "end_of _ = EndPanic"

definition sample_run :: "string list \<Rightarrow> fs_node option \<times> fs_node option \<times> run_end" where
  "sample_run ls =
     (let (fs, r) = apply_patch_blocking_checked quiet_os never sample_state (envelope_of ls) None
            sample_files sample_files in
      (fs [''ws'', ''a.txt''], fs [''x''], end_of r))"


end
