(* ===== verification/Process_Classify.thy ===== *)
theory Process_Classify
  imports Process_Intent
begin

text \<open>
  Classification of process intents: \<^verbatim>\<open>merry-runtime/src/process/classification.rs\<close>. Patterns on
  \<^verbatim>\<open>argv\<close> are tried in the order of the source.
\<close>

section \<open>Read-only commands\<close>

definition is_positive_decimal :: "string \<Rightarrow> bool" where
  "is_positive_decimal value \<longleftrightarrow> value \<noteq> [] \<and> list_all is_ascii_digit value \<and> value \<noteq> ''0''"

definition is_workspace_relative_file_argument :: "string \<Rightarrow> bool" where
  "is_workspace_relative_file_argument argument \<longleftrightarrow>
     \<not> starts_with argument ''-'' \<and> \<not> path_is_absolute argument
     \<and> \<not> list_ex (\<lambda>segment. segment = [] \<or> segment = ''.'' \<or> segment = ''..'' \<or> CHR 0x5C \<in> set segment)
           (split_on (CHR ''/'') argument)"

definition is_read_only_echo_args :: "string list \<Rightarrow> bool" where
  "is_read_only_echo_args args \<longleftrightarrow> \<not> list_ex (\<lambda>arg. starts_with arg ''-'') args"

definition is_read_only_wc_flag :: "string \<Rightarrow> bool" where
  "is_read_only_wc_flag flag \<longleftrightarrow> flag \<in> {''-l'', ''-w'', ''-c'', ''-m''}"

definition is_read_only_wc_args :: "string list \<Rightarrow> bool" where
  "is_read_only_wc_args args =
     (case args of
        [] \<Rightarrow> True
      | [flag_or_file] \<Rightarrow> is_read_only_wc_flag flag_or_file \<or> is_workspace_relative_file_argument flag_or_file
      | [flag, file] \<Rightarrow> is_read_only_wc_flag flag \<and> is_workspace_relative_file_argument file
      | _ \<Rightarrow> False)"

definition is_read_only_head_or_tail_args :: "string list \<Rightarrow> bool" where
  "is_read_only_head_or_tail_args args =
     (case args of
        [] \<Rightarrow> True
      | [file] \<Rightarrow> is_workspace_relative_file_argument file
      | [count_flag, count] \<Rightarrow> count_flag = ''-n'' \<and> is_positive_decimal count
      | [count_flag, count, file] \<Rightarrow>
          count_flag = ''-n'' \<and> is_positive_decimal count \<and> is_workspace_relative_file_argument file
      | _ \<Rightarrow> False)"

text \<open>The metacharacters are ASCII, so a character of the pattern is one of them exactly when a byte is.\<close>

definition is_rg_regex_metacharacter :: "char \<Rightarrow> bool" where
  "is_rg_regex_metacharacter c \<longleftrightarrow> c \<in> set (CHR 0x5C # ''.^$*+?()[]{}|'')"

definition is_simple_rg_literal_pattern :: "string \<Rightarrow> bool" where
  "is_simple_rg_literal_pattern pattern \<longleftrightarrow>
     \<not> starts_with pattern ''-'' \<and> \<not> list_ex is_rg_regex_metacharacter pattern"

definition is_read_only_rg_single_argument :: "string \<Rightarrow> bool" where
  "is_read_only_rg_single_argument argument \<longleftrightarrow>
     argument = ''--version'' \<or> argument = ''--files'' \<or> is_simple_rg_literal_pattern argument"

definition is_read_only_sed_print_range :: "string \<Rightarrow> bool" where
  "is_read_only_sed_print_range line_range \<longleftrightarrow>
     ends_with_char line_range (CHR ''p'') \<and> butlast line_range \<noteq> []
     \<and> (case split_on (CHR '','') (butlast line_range) of
          [start] \<Rightarrow> is_positive_decimal start
        | [start, end_line] \<Rightarrow> is_positive_decimal start \<and> is_positive_decimal end_line
        | _ \<Rightarrow> False)"

fun git_status_flags :: "bool \<Rightarrow> bool \<Rightarrow> string list \<Rightarrow> bool" where
  "git_status_flags short branch [] = True"
| "git_status_flags short branch (argument # args) =
     (if argument = ''--short'' \<and> \<not> short then git_status_flags True branch args
      else if argument = ''--branch'' \<and> \<not> branch then git_status_flags short True args
      else False)"

definition is_git_count_arg :: "string \<Rightarrow> bool" where
  "is_git_count_arg argument =
     (case strip_prefix ''-'' argument of Some count \<Rightarrow> is_positive_decimal count | None \<Rightarrow> False)"

definition is_read_only_git_diff_args :: "string list \<Rightarrow> bool" where
  "is_read_only_git_diff_args args =
     (case args of
        [] \<Rightarrow> True
      | [separator, path] \<Rightarrow> separator = ''--'' \<and> is_workspace_relative_file_argument path
      | _ \<Rightarrow> False)"

definition is_read_only_git_show_args :: "string list \<Rightarrow> bool" where
  "is_read_only_git_show_args args =
     (case args of
        [arg] \<Rightarrow> \<not> starts_with arg ''-'' \<and> CHR '':'' \<notin> set arg
      | [stat, rev_arg] \<Rightarrow> stat = ''--stat'' \<and> \<not> starts_with rev_arg ''-'' \<and> CHR '':'' \<notin> set rev_arg
      | _ \<Rightarrow> False)"

definition is_read_only_git_command :: "string \<Rightarrow> string list \<Rightarrow> bool" where
  "is_read_only_git_command subcommand args =
     (if subcommand = ''status'' then git_status_flags False False args
      else if subcommand = ''branch'' then args = [''--show-current'']
      else if subcommand = ''log'' then list_all (\<lambda>arg. arg = ''--oneline'' \<or> is_git_count_arg arg) args
      else if subcommand = ''diff'' then is_read_only_git_diff_args args
      else if subcommand = ''show'' then is_read_only_git_show_args args
      else False)"

fun cargo_fmt_flags :: "bool \<Rightarrow> bool \<Rightarrow> string list \<Rightarrow> bool" where
  "cargo_fmt_flags saw_fmt saw_check [] = (saw_fmt \<and> saw_check)"
| "cargo_fmt_flags saw_fmt saw_check (argument # args) =
     (if argument = ''fmt'' \<and> \<not> saw_fmt then cargo_fmt_flags True saw_check args
      else if argument \<in> {''--all'', ''--check''} \<and> (\<not> saw_check \<or> argument = ''--all'')
      then cargo_fmt_flags saw_fmt (saw_check \<or> argument = ''--check'') args
      else False)"

definition is_read_only_cargo_fmt_check_args :: "string list \<Rightarrow> bool" where
  "is_read_only_cargo_fmt_check_args args = cargo_fmt_flags False False args"

definition is_read_only_sed_args :: "string list \<Rightarrow> bool" where
  "is_read_only_sed_args args =
     (case args of
        [print_flag, line_range, file] \<Rightarrow>
          print_flag = ''-n'' \<and> is_read_only_sed_print_range line_range \<and> is_workspace_relative_file_argument file
      | _ \<Rightarrow> False)"

definition is_read_only_direct_process_argv :: "string list \<Rightarrow> bool" where
  "is_read_only_direct_process_argv argv =
     (case argv of
        [] \<Rightarrow> False
      | executable # args \<Rightarrow>
          if executable_token_is executable ''rustc'' \<and> args = [''--version''] then True
          else if executable_token_is executable ''rg'' \<and> length args = 1
          then is_read_only_rg_single_argument (hd args)
          else if executable_token_is executable ''sed'' \<and> is_read_only_sed_args args then True
          else if executable_token_is executable ''git'' \<and> args \<noteq> []
          then is_read_only_git_command (hd args) (tl args)
          else if executable_token_is executable ''git'' \<and> args = [''--version''] then True
          else if executable_token_is executable ''pwd'' \<and> args = [] then True
          else if executable_token_is executable ''true'' \<and> args = [] then True
          else if executable_token_is executable ''false'' \<and> args = [] then True
          else if executable_token_is executable ''echo'' then is_read_only_echo_args args
          else if executable_token_is executable ''wc'' then is_read_only_wc_args args
          else if executable_token_is executable ''head'' then is_read_only_head_or_tail_args args
          else if executable_token_is executable ''tail'' then is_read_only_head_or_tail_args args
          else if executable_token_is executable ''cargo'' then is_read_only_cargo_fmt_check_args args
          else if executable_token_is executable ''ls'' \<and> args = [] then True
          else if executable_token_is executable ''ls'' \<and> length args = 1
          then is_workspace_relative_file_argument (hd args)
          else if executable_token_is executable ''cat'' \<and> length args = 1
          then is_workspace_relative_file_argument (hd args)
          else False)"

definition is_read_only_plain_shell_process_argv :: "string list \<Rightarrow> bool" where
  "is_read_only_plain_shell_process_argv argv =
     (case shell_process_input_from_argv argv of
        None \<Rightarrow> False
      | Some shell_input \<Rightarrow>
          (case parse_plain_shell_command_sequence (si_script shell_input) of
             None \<Rightarrow> False
           | Some commands \<Rightarrow> commands \<noteq> [] \<and> list_all is_read_only_direct_process_argv commands))"

definition is_informational_process_argv :: "string list \<Rightarrow> bool" where
  "is_informational_process_argv argv \<longleftrightarrow>
     is_read_only_direct_process_argv argv \<or> is_read_only_plain_shell_process_argv argv"

section \<open>Forbidden and local commands\<close>

definition is_safe_cargo_package_token :: "string \<Rightarrow> bool" where
  "is_safe_cargo_package_token package \<longleftrightarrow>
     package \<noteq> [] \<and> \<not> starts_with package ''-''
     \<and> list_all (\<lambda>c. is_ascii_alphanumeric c \<or> c = CHR ''_'' \<or> c = CHR ''-'') package"

definition is_local_workspace_effect_process_argv :: "string list \<Rightarrow> bool" where
  "is_local_workspace_effect_process_argv argv =
     (case argv of
        [cargo, command, package_flag, package] \<Rightarrow>
          executable_token_is cargo ''cargo'' \<and> command \<in> {''test'', ''check''}
          \<and> (package_flag = ''-p'' \<or> package_flag = ''--package'') \<and> is_safe_cargo_package_token package
      | _ \<Rightarrow> False)"

definition FORBIDDEN_PROCESS_EXECUTABLES :: "string list" where
  "FORBIDDEN_PROCESS_EXECUTABLES =
     [''bash'', ''cmd'', ''powershell'', ''pwsh'', ''rm'', ''sh'', ''su'', ''sudo'', ''zsh'']"

definition FORBIDDEN_GIT_SUBCOMMANDS :: "string list" where
  "FORBIDDEN_GIT_SUBCOMMANDS =
     [''add'', ''apply'', ''cherry-pick'', ''clean'', ''commit'', ''merge'', ''mv'', ''pull'', ''push'', ''rebase'',
      ''reset'', ''restore'', ''rm'', ''stash'', ''switch'']"

definition is_forbidden_direct_process_argv :: "string list \<Rightarrow> bool" where
  "is_forbidden_direct_process_argv argv =
     (case argv of
        [] \<Rightarrow> False
      | argument # args \<Rightarrow>
          executable_name argument \<in> set FORBIDDEN_PROCESS_EXECUTABLES
          \<or> (executable_name argument = ''git''
             \<and> (case args of [] \<Rightarrow> False | subcommand # _ \<Rightarrow> subcommand \<in> set FORBIDDEN_GIT_SUBCOMMANDS)))"

fun obvious_forbidden_words :: "string list \<Rightarrow> bool" where
  "obvious_forbidden_words [] = False"
| "obvious_forbidden_words (word # words) \<longleftrightarrow>
     is_forbidden_direct_process_argv (word # words) \<or> obvious_forbidden_words words"

definition shell_script_contains_obvious_forbidden_text :: "string \<Rightarrow> bool" where
  "shell_script_contains_obvious_forbidden_text script = obvious_forbidden_words (rough_shell_words script)"

definition shell_script_contains_forbidden_process :: "string \<Rightarrow> bool" where
  "shell_script_contains_forbidden_process script =
     (case parse_plain_shell_command_sequence script of
        Some commands \<Rightarrow>
          list_ex (\<lambda>command.
            let command = shell_command_without_assignment_prefix command in
            command \<noteq> [] \<and> is_forbidden_direct_process_argv command) commands
      | None \<Rightarrow> shell_script_contains_obvious_forbidden_text script)"

definition is_forbidden_process_argv :: "string list \<Rightarrow> bool" where
  "is_forbidden_process_argv argv =
     (case shell_like_process_input_from_argv argv of
        Some shell_input \<Rightarrow> shell_script_contains_forbidden_process (si_script shell_input)
      | None \<Rightarrow> is_forbidden_direct_process_argv argv)"

section \<open>Classes and permission profiles\<close>

datatype ProcessIntentClass = Informational | LocalWorkspaceEffect | UnknownIntent | ForbiddenIntent

definition classify_process_argv :: "string list \<Rightarrow> ProcessIntentClass" where
  "classify_process_argv argv =
     (if is_forbidden_process_argv argv then ForbiddenIntent
      else if is_informational_process_argv argv then Informational
      else if is_local_workspace_effect_process_argv argv then LocalWorkspaceEffect
      else UnknownIntent)"

definition classify_process_intent :: "ProcessActionIntent \<Rightarrow> ProcessIntentClass" where
  "classify_process_intent intent = classify_process_argv (pi_argv intent)"

definition required_process_permission_profile_id ::
    "ProcessActionIntent \<Rightarrow> ProcessPermissionProfileId option" where
  "required_process_permission_profile_id intent =
     (if pi_env_policy intent \<noteq> EmptyEnv \<or> pi_stdin_text intent \<noteq> None then Some LOCAL_WORKSPACE
      else if is_read_only_plain_shell_process_argv (pi_argv intent) then Some SHELL_READ_ONLY
      else
        case classify_process_intent intent of
          Informational \<Rightarrow> Some READ_ONLY
        | LocalWorkspaceEffect \<Rightarrow> Some LOCAL_WORKSPACE
        | UnknownIntent \<Rightarrow> Some LOCAL_WORKSPACE
        | ForbiddenIntent \<Rightarrow> Some LOCAL_WORKSPACE)"

definition is_low_risk_process_action_intent :: "ProcessActionIntent \<Rightarrow> bool" where
  "is_low_risk_process_action_intent intent \<longleftrightarrow> required_process_permission_profile_id intent = Some READ_ONLY"

definition is_read_only_shell_process_action_intent :: "ProcessActionIntent \<Rightarrow> bool" where
  "is_read_only_shell_process_action_intent intent \<longleftrightarrow>
     required_process_permission_profile_id intent = Some SHELL_READ_ONLY"

definition requires_process_action_review :: "ProcessActionIntent \<Rightarrow> bool" where
  "requires_process_action_review intent \<longleftrightarrow> classify_process_intent intent = ForbiddenIntent"

definition admission_matches_intent ::
    "AcceptedLocalWorkspaceProcessAdmission \<Rightarrow> ProcessActionIntent \<Rightarrow> bool" where
  "admission_matches_intent admission intent =
     (let required = required_process_permission_profile_id intent in
      (ad_sandbox_profile admission = SandboxHost \<and> required \<noteq> None)
      \<or> required = Some (ad_permission_profile_id admission)
      \<or> (ad_permission_profile_id admission = LOCAL_WORKSPACE_HOST \<and> required = Some LOCAL_WORKSPACE))"

section \<open>Host paths\<close>

definition trim_quotes :: "string \<Rightarrow> string" where
  "trim_quotes s =
     (let q = (\<lambda>c. c = QUOTE \<or> c = CHR 0x22) in rev (dropWhile q (rev (dropWhile q s))))"

definition after_redirect :: "string \<Rightarrow> string" where
  "after_redirect s =
     (let redirect = (\<lambda>c. c = CHR ''>'' \<or> c = CHR ''<'') in
      if list_ex redirect s then tl (dropWhile (\<lambda>c. \<not> redirect c) s) else s)"

lemma trim_quotes_le: "length (trim_quotes s) \<le> length s"
  using length_dropWhile_le [of "\<lambda>c. c = QUOTE \<or> c = CHR 0x22" s]
    length_dropWhile_le [of "\<lambda>c. c = QUOTE \<or> c = CHR 0x22" "rev (dropWhile (\<lambda>c. c = QUOTE \<or> c = CHR 0x22) s)"]
  by (simp add: trim_quotes_def Let_def)

lemma after_redirect_le: "length (after_redirect s) \<le> length s"
  using length_dropWhile_le [of "\<lambda>c. \<not> (c = CHR ''>'' \<or> c = CHR ''<'')" s]
  by (auto simp: after_redirect_def Let_def)

lemma after_equals_less: "c \<in> set s \<Longrightarrow> length (tl (dropWhile (\<lambda>x. x \<noteq> c) s)) < length s"
proof -
  assume "c \<in> set s"
  then have "dropWhile (\<lambda>x. x \<noteq> c) s \<noteq> []" by (simp add: dropWhile_eq_Nil_conv)
  then show ?thesis
    using length_dropWhile_le [of "\<lambda>x. x \<noteq> c" s] by (cases "dropWhile (\<lambda>x. x \<noteq> c) s") auto
qed

function is_explicit_host_path_token :: "string \<Rightarrow> bool" where
  "is_explicit_host_path_token raw =
     (let argument = after_redirect (trim_quotes raw) in
      argument = ''..'' \<or> starts_with argument ''../'' \<or> str_contains argument ''/../''
      \<or> starts_with argument ''/'' \<or> argument = ''~'' \<or> starts_with argument ''~/''
      \<or> starts_with argument ''$HOME/'' \<or> starts_with argument ''${HOME}/''
      \<or> (if CHR ''='' \<in> set argument
         then is_explicit_host_path_token (tl (dropWhile (\<lambda>c. c \<noteq> CHR ''='') argument)) else False))"
  by pat_completeness auto
termination
proof (relation "measure length")
  fix raw x
  assume "x = after_redirect (trim_quotes raw)" and "CHR ''='' \<in> set x"
  then show "(tl (dropWhile (\<lambda>c. c \<noteq> CHR ''='') x), raw) \<in> measure length"
    using after_equals_less [of "CHR ''=''" x] after_redirect_le [of "trim_quotes raw"] trim_quotes_le [of raw] by simp
qed simp

declare is_explicit_host_path_token.simps [simp del]

text \<open>The character before an embedded slash is one of ASCII punctuation, so bytes can be compared.\<close>

fun embedded_absolute_from :: "char option \<Rightarrow> string \<Rightarrow> bool" where
  "embedded_absolute_from previous [] = False"
| "embedded_absolute_from previous (c # cs) \<longleftrightarrow>
     (c = CHR ''/'' \<and> (case previous of None \<Rightarrow> True | Some p \<Rightarrow> p \<in> set (CHR 0x22 # QUOTE # ''([{=:,'')))
     \<or> embedded_absolute_from (Some c) cs"

definition contains_embedded_absolute_path :: "string \<Rightarrow> bool" where
  "contains_embedded_absolute_path value = embedded_absolute_from None value"

definition shell_script_contains_host_path :: "string \<Rightarrow> bool" where
  "shell_script_contains_host_path script \<longleftrightarrow>
     str_contains script ''$('' \<or> CHR 0x60 \<in> set script
     \<or> list_ex is_explicit_host_path_token
         (filter (\<lambda>w. w \<noteq> []) (split_pieces space_piece [] (str_pieces script)))
     \<or> contains_embedded_absolute_path script"

definition is_git_metadata_write_argv :: "string list \<Rightarrow> bool" where
  "is_git_metadata_write_argv argv =
     (case argv of
        [] \<Rightarrow> False
      | executable # _ \<Rightarrow> executable_name executable = ''git'' \<and> \<not> is_read_only_direct_process_argv argv)"

definition shell_script_contains_git_metadata_write :: "string \<Rightarrow> bool" where
  "shell_script_contains_git_metadata_write script =
     (case parse_plain_shell_command_sequence script of
        Some commands \<Rightarrow>
          list_ex (\<lambda>command. is_git_metadata_write_argv (shell_command_without_assignment_prefix command)) commands
      | None \<Rightarrow> list_ex (\<lambda>word. executable_name word = ''git'') (rough_shell_words script))"

definition requires_host_process_path_review :: "ProcessActionIntent \<Rightarrow> bool" where
  "requires_host_process_path_review intent =
     (case shell_like_process_input_from_argv (pi_argv intent) of
        Some shell_input \<Rightarrow>
          shell_script_contains_git_metadata_write (si_script shell_input)
          \<or> shell_script_contains_host_path (si_script shell_input)
          \<or> (case pi_argv intent of [] \<Rightarrow> False | argument # _ \<Rightarrow> is_explicit_host_path_token argument)
      | None \<Rightarrow>
          is_git_metadata_write_argv (pi_argv intent) \<or> list_ex is_explicit_host_path_token (pi_argv intent))"

end
