(* ===== verification/Action_Policy.thy ===== *)
theory Action_Policy
  imports Process_Classify Patch_Plan
begin

text \<open>
  What may run: the policy of \<^verbatim>\<open>merry-runtime/src/action_policy.rs\<close>, the harness check of a plan node
  \<^verbatim>\<open>runtime/tool_execution/harness.rs\<close>, and the decisions \<^verbatim>\<open>runtime/tool_execution.rs\<close> takes between
  looking up a registered tool and running it. Waiting for a proposer, a reviewer or the session lock is
  not modelled; the answer of the proposer is an argument, a required review is part of the route.
\<close>

section \<open>Diagnostics\<close>

definition sanitize_diagnostic_message :: "string \<Rightarrow> string" where
  "sanitize_diagnostic_message message =
     (let sanitized = concat (map (\<lambda>p. if is_control (code_point p) then '' '' else p) (str_pieces message));
          source = (if str_trim sanitized = [] then ''provider returned an empty error message''
                    else str_trim sanitized);
          chars = str_pieces source in
      if int (length chars) \<le> 4096 then source else concat (take 4096 chars))"

definition diagnostic_from_text :: "string \<Rightarrow> string \<Rightarrow> (ErrorInfo, 'e) result" where
  "diagnostic_from_text code message = expect (new_error_info code (sanitize_diagnostic_message message))"

section \<open>Policy\<close>

datatype ActionRiskTier =
    TierReadOnly | TierRuntimeControl | EditLow | EditElevated | ProcessLow | ProcessLocalWorkspaceEffect
  | ProcessShellReadOnly | ProcessPermissioned | ProcessHigh | TierNetwork | TierTrustedExternal | TierForbidden

datatype ActionPolicyDisposition = Allow | Deny | NeedsApproval | NeedsReview

record ActionPolicyDecision =
  pd_action_kind :: ToolActionKind
  pd_risk_tier :: ActionRiskTier
  pd_disposition :: ActionPolicyDisposition
  pd_reason :: string

definition policy_decision ::
    "ToolActionKind \<Rightarrow> ActionRiskTier \<Rightarrow> ActionPolicyDisposition \<Rightarrow> string \<Rightarrow> ActionPolicyDecision" where
  "policy_decision kind tier disposition reason =
     \<lparr>pd_action_kind = kind, pd_risk_tier = tier, pd_disposition = disposition, pd_reason = reason\<rparr>"

definition is_allowed :: "ActionPolicyDecision \<Rightarrow> bool" where
  "is_allowed d \<longleftrightarrow> pd_disposition d = Allow"

definition FULLY_TRUSTED_REASON :: string where
  "FULLY_TRUSTED_REASON = ''registered tool action is allowed by explicit fully trusted mode''"

definition decision_is_fully_trusted :: "ActionPolicyDecision \<Rightarrow> bool" where
  "decision_is_fully_trusted d \<longleftrightarrow> pd_reason d = FULLY_TRUSTED_REASON"

definition with_risk_tier :: "ActionRiskTier \<Rightarrow> ActionPolicyDecision \<Rightarrow> ActionPolicyDecision" where
  "with_risk_tier tier d = d\<lparr>pd_risk_tier := tier\<rparr>"

definition allow_low_risk_apply_patch :: ActionPolicyDecision where
  "allow_low_risk_apply_patch = policy_decision WorkspaceWrite EditLow Allow
     ''low-risk workspace patch tool actions are allowed by explicit runtime opt-in''"

definition allow_low_risk_process_action :: ActionPolicyDecision where
  "allow_low_risk_process_action = policy_decision CommandExec ProcessLow Allow
     ''low-risk process actions are allowed by explicit runtime opt-in''"

definition allow_accepted_local_workspace_process_action :: ActionPolicyDecision where
  "allow_accepted_local_workspace_process_action = policy_decision CommandExec ProcessLocalWorkspaceEffect Allow
     ''local workspace effect process actions are allowed only by explicit runtime opt-in for accepted local workspace process risk''"

definition allow_configured_process_action :: ActionPolicyDecision where
  "allow_configured_process_action = policy_decision CommandExec ProcessHigh Allow
     ''validated process actions are allowed by the configured process runner boundary''"

definition allow_read_only_shell_process_action :: ActionPolicyDecision where
  "allow_read_only_shell_process_action = policy_decision CommandExec ProcessShellReadOnly Allow
     ''read-only shell process actions are allowed only by explicit runtime opt-in for a shell runner profile''"

definition classify_tool_action_risk :: "ToolActionKind \<Rightarrow> ActionProposal option \<Rightarrow> ActionRiskTier" where
  "classify_tool_action_risk kind proposal =
     (case kind of
        ReadOnly \<Rightarrow> TierReadOnly
      | RuntimeControl \<Rightarrow> TierRuntimeControl
      | WorkspaceWrite \<Rightarrow>
          (case map_option ap_evidence proposal of Some (WorkspacePatchEvidence _) \<Rightarrow> EditLow | _ \<Rightarrow> EditElevated)
      | CommandExec \<Rightarrow>
          (case map_option ap_evidence proposal of
             Some (ProcessAction intent) \<Rightarrow>
               if is_read_only_shell_process_action_intent intent then ProcessShellReadOnly
               else
                 (case classify_process_intent intent of
                    Informational \<Rightarrow> ProcessLow
                  | LocalWorkspaceEffect \<Rightarrow> ProcessLocalWorkspaceEffect
                  | UnknownIntent \<Rightarrow> ProcessLocalWorkspaceEffect
                  | ForbiddenIntent \<Rightarrow> ProcessHigh)
           | _ \<Rightarrow> ProcessHigh)
      | Network \<Rightarrow> TierForbidden
      | TrustedExternal \<Rightarrow> TierTrustedExternal)"

definition allow_fully_trusted_action :: "ToolActionKind \<Rightarrow> ActionPolicyDecision" where
  "allow_fully_trusted_action kind =
     policy_decision kind (if kind = Network then TierNetwork else classify_tool_action_risk kind None) Allow
       FULLY_TRUSTED_REASON"

definition is_low_risk_apply_patch_proposal :: "ToolActionKind \<Rightarrow> ActionProposal \<Rightarrow> bool" where
  "is_low_risk_apply_patch_proposal kind p \<longleftrightarrow>
     kind = WorkspaceWrite \<and> ap_action_kind p = WorkspaceWrite
     \<and> (case ap_evidence p of WorkspacePatchEvidence _ \<Rightarrow> True | _ \<Rightarrow> False)"

definition is_low_risk_process_action_proposal :: "ToolActionKind \<Rightarrow> ActionProposal \<Rightarrow> bool" where
  "is_low_risk_process_action_proposal kind p \<longleftrightarrow>
     kind = CommandExec \<and> ap_action_kind p = CommandExec
     \<and> (case ap_evidence p of ProcessAction intent \<Rightarrow> is_low_risk_process_action_intent intent | _ \<Rightarrow> False)"

definition is_read_only_shell_process_action_proposal :: "ToolActionKind \<Rightarrow> ActionProposal \<Rightarrow> bool" where
  "is_read_only_shell_process_action_proposal kind p \<longleftrightarrow>
     kind = CommandExec \<and> ap_action_kind p = CommandExec
     \<and> (case ap_evidence p of ProcessAction intent \<Rightarrow> is_read_only_shell_process_action_intent intent | _ \<Rightarrow> False)"

definition is_local_workspace_effect_process_action_proposal ::
    "ToolActionKind \<Rightarrow> ActionProposal \<Rightarrow> AcceptedLocalWorkspaceProcessAdmission \<Rightarrow> bool" where
  "is_local_workspace_effect_process_action_proposal kind p admission \<longleftrightarrow>
     kind = CommandExec \<and> ap_action_kind p = CommandExec
     \<and> (case ap_evidence p of
          ProcessAction intent \<Rightarrow>
            pi_env_policy intent = EmptyEnv \<and> pi_stdin_text intent = None
            \<and> classify_process_intent intent = LocalWorkspaceEffect
            \<and> required_process_permission_profile_id intent = Some LOCAL_WORKSPACE
            \<and> admission_matches_intent admission intent
        | _ \<Rightarrow> False)"

fun decide :: "ToolActionKind \<Rightarrow> ActionPolicyDecision" where
  "decide ReadOnly = policy_decision ReadOnly (classify_tool_action_risk ReadOnly None) Allow
     ''read-only tool actions are allowed by default policy''"
| "decide RuntimeControl = policy_decision RuntimeControl (classify_tool_action_risk RuntimeControl None) Allow
     ''runtime control tool actions are allowed by default policy''"
| "decide WorkspaceWrite = policy_decision WorkspaceWrite (classify_tool_action_risk WorkspaceWrite None) Deny
     ''workspace write tool actions are denied by default policy''"
| "decide CommandExec = policy_decision CommandExec (classify_tool_action_risk CommandExec None) Deny
     ''command execution tool actions are denied by default policy''"
| "decide Network = policy_decision Network (classify_tool_action_risk Network None) Deny
     ''network tool actions are denied by default policy''"
| "decide TrustedExternal = policy_decision TrustedExternal (classify_tool_action_risk TrustedExternal None) Allow
     ''trusted external tool actions are allowed by default policy''"

section \<open>The harness of a plan node\<close>

definition plan_harness_allows_path :: "PlanHarnessSnapshot \<Rightarrow> string list \<Rightarrow> string \<Rightarrow> bool" where
  "plan_harness_allows_path harness scopes path \<longleftrightarrow>
     list_ex (\<lambda>scope. workspace_scope_contains scope path) scopes
     \<and> \<not> list_ex (\<lambda>forbidden. workspace_scope_contains forbidden path \<or> workspace_scope_contains path forbidden)
           (ha_forbidden_paths harness)"

definition plan_harness_scope_diagnostic :: "string \<Rightarrow> (ErrorInfo, 'e) result" where
  "plan_harness_scope_diagnostic path =
     diagnostic_from_text ''plan_harness_scope_denied''
       (''workspace path '' @ path @ '' is outside the active plan node harness'')"

definition effective_path :: "PendingToolCall \<Rightarrow> string option" where
  "effective_path pending =
     (case map_of (tc_arguments pending) ''path'' of Some (JString path) \<Rightarrow> Some path | _ \<Rightarrow> None)"

text \<open>The paths an action is known to touch, each with the scopes that have to contain it.\<close>

definition evidence_paths :: "PlanHarnessSnapshot \<Rightarrow> ActionProposalEvidence \<Rightarrow> (string list \<times> string) list" where
  "evidence_paths harness evidence =
     (case evidence of
        WorkspacePatchEvidence changes \<Rightarrow> map (\<lambda>c. (ha_write_scope harness, ev_relative_path c)) changes
      | ProcessAction intent \<Rightarrow>
          [(case classify_process_intent intent of Informational \<Rightarrow> ha_read_scope harness | _ \<Rightarrow> ha_write_scope harness,
            case pi_cwd intent of Some cwd \<Rightarrow> cwd | None \<Rightarrow> ''.'')])"

fun first_scope_violation :: "PlanHarnessSnapshot \<Rightarrow> (string list \<times> string) list \<Rightarrow> (ErrorInfo option, 'e) result" where
  "first_scope_violation harness [] = Ok None"
| "first_scope_violation harness ((scopes, path) # checks) =
     (if \<not> plan_harness_allows_path harness scopes path
      then and_then (plan_harness_scope_diagnostic path) (\<lambda>d. Ok (Some d))
      else first_scope_violation harness checks)"

definition plan_harness_violation ::
    "PlanHarnessSnapshot option \<Rightarrow> PendingToolCall \<Rightarrow> ToolActionKind \<Rightarrow> ActionProposal option
     \<Rightarrow> (ErrorInfo option, 'e) result" where
  "plan_harness_violation active pending kind proposal =
     (case active of
        None \<Rightarrow> Ok None
      | Some harness \<Rightarrow>
          if \<not> list_ex (\<lambda>allowed. allowed = tc_name pending) (ha_allowed_tools harness)
          then and_then (diagnostic_from_text ''plan_harness_tool_denied''
                 (''tool '' @ tc_name pending @ '' is outside the active plan node harness'')) (\<lambda>d. Ok (Some d))
          else
            first_scope_violation harness
              ((case effective_path pending of
                  Some path \<Rightarrow>
                    [(if kind = WorkspaceWrite then ha_write_scope harness else ha_read_scope harness, path)]
                | None \<Rightarrow> [])
               @ (case proposal of Some p \<Rightarrow> evidence_paths harness (ap_evidence p) | None \<Rightarrow> [])))"

section \<open>Routing a tool call\<close>

definition APPLY_PATCH_TOOL_NAME :: string where "APPLY_PATCH_TOOL_NAME = ''apply_patch''"
definition REQUEST_PERMISSIONS_TOOL_NAME :: string where "REQUEST_PERMISSIONS_TOOL_NAME = ''request_permissions''"

definition is_request_permissions_tool :: "string \<Rightarrow> bool" where
  "is_request_permissions_tool name \<longleftrightarrow> name = REQUEST_PERMISSIONS_TOOL_NAME"

definition process_call_requests_permission :: "PendingToolCall \<Rightarrow> bool" where
  "process_call_requests_permission call \<longleftrightarrow>
     (case map_of (tc_arguments call) ''permissions'' of Some v \<Rightarrow> v \<noteq> JNull | None \<Rightarrow> False)
     \<or> (case map_of (tc_arguments call) ''reason'' of Some v \<Rightarrow> v \<noteq> JNull | None \<Rightarrow> False)"

datatype PermissionReviewMode =
    DefaultForTrust | ReviewRequired | HostDecisionOnly | ModelThenHostFallback | FullyTrusted | DenyAll

definition mode_is_fully_trusted :: "PermissionReviewMode \<Rightarrow> bool" where
  "mode_is_fully_trusted mode \<longleftrightarrow> mode = FullyTrusted"

text \<open>
  What routing reads of the runtime: the harness of the active attempt when the runtime works for a plan
  node, the review mode, and which process runners are configured.
\<close>

record RuntimeInner =
  ri_active_plan_harness :: "PlanHarnessSnapshot option"
  ri_permission_review_mode :: PermissionReviewMode
  ri_allow_low_risk_apply_patches :: bool
  ri_low_risk_process_runner :: bool
  ri_read_only_shell_process_runner :: bool
  ri_accepted_local_workspace_process_runner :: "AcceptedLocalWorkspaceProcessAdmission option"

record RegisteredTool =
  rg_action_kind :: ToolActionKind
  rg_proposals_enabled :: bool

datatype route_poll = BeforePropose | DuringPropose | AfterPropose | AfterProposal

datatype RuntimeError =
    ToolExecutionCancelled
  | ToolExecutionFailed string
  | ProposerInfrastructure ActionProposalError
  | MutatingActionCommitLifecycleRequired ToolActionKind

text \<open>
  Where a call goes: stopped by the harness, handed to the permission flow, run by a process runner
  under a profile (with the reason of the review that has to approve it first, if one is required),
  denied, or run by the executor of the tool with the proposal it is bound to.
\<close>

datatype tool_route =
    RouteHarnessDenied ErrorInfo
  | RoutePermissionTool
  | RoutePreflightOutcome tool_failure
  | RouteProcessPermission ProcessActionIntent
  | RouteProcess ActionPolicyDecision ProcessPermissionProfileId "string option"
  | RouteDenied ActionPolicyDecision "ActionProposal option"
  | RouteExecute ActionPolicyDecision "ActionProposal option"

definition admit_action_to_generic_executor ::
    "PendingToolCall \<Rightarrow> ToolActionKind \<Rightarrow> ActionPolicyDecision \<Rightarrow> ActionProposal option
     \<Rightarrow> (tool_route, RuntimeError) result" where
  "admit_action_to_generic_executor pending kind decision proposal =
     (if \<not> is_mutating kind then Ok (RouteExecute decision proposal)
      else if decision_is_fully_trusted decision then Ok (RouteExecute decision proposal)
      else if is_allowed decision \<and> pd_action_kind decision = WorkspaceWrite \<and> pd_risk_tier decision = EditLow
          \<and> tc_name pending = APPLY_PATCH_TOOL_NAME \<and> kind = WorkspaceWrite
          \<and> (case proposal of Some p \<Rightarrow> is_low_risk_apply_patch_proposal kind p | None \<Rightarrow> False)
      then Ok (RouteExecute decision proposal)
      else Err (MutatingActionCommitLifecycleRequired kind))"

definition host_process_path_review :: "RuntimeInner \<Rightarrow> ActionProposal \<Rightarrow> bool" where
  "host_process_path_review inner p =
     (case ri_accepted_local_workspace_process_runner inner of
        None \<Rightarrow> False
      | Some accepted \<Rightarrow>
          ad_sandbox_profile accepted = SandboxHost
          \<and> (case ap_evidence p of ProcessAction intent \<Rightarrow> requires_host_process_path_review intent | _ \<Rightarrow> False))"

definition review_reason ::
    "bool \<Rightarrow> AcceptedLocalWorkspaceProcessAdmission \<Rightarrow> ProcessActionIntent \<Rightarrow> string option" where
  "review_reason fully_trusted accepted intent =
     (let high_risk = requires_process_action_review intent;
          host_path = (ad_sandbox_profile accepted = SandboxHost \<and> requires_host_process_path_review intent) in
      if \<not> fully_trusted \<and> (high_risk \<or> host_path)
      then Some (if high_risk then ''high-risk process action requires an independent action review''
                 else ''host process action names an external filesystem path and requires action review'')
      else None)"

text \<open>
  The lanes of a process, tried in order: low-risk commands, read-only shell scripts, commands with
  accepted effects on the workspace, and everything the configured runner is admitted for.
\<close>

definition process_lane ::
    "RuntimeInner \<Rightarrow> ToolActionKind \<Rightarrow> ActionProposal
     \<Rightarrow> (ActionPolicyDecision \<times> ProcessPermissionProfileId \<times> string option) option" where
  "process_lane inner kind p =
     (let fully_trusted = mode_is_fully_trusted (ri_permission_review_mode inner);
          host_review = host_process_path_review inner p in
      if ri_low_risk_process_runner inner \<and> \<not> host_review \<and> is_low_risk_process_action_proposal kind p
      then Some (allow_low_risk_process_action, READ_ONLY, None)
      else if ri_read_only_shell_process_runner inner \<and> \<not> host_review
          \<and> is_read_only_shell_process_action_proposal kind p
      then Some (allow_read_only_shell_process_action, SHELL_READ_ONLY, None)
      else
        case ri_accepted_local_workspace_process_runner inner of
          None \<Rightarrow> None
        | Some accepted \<Rightarrow>
            if \<not> host_review \<and> is_local_workspace_effect_process_action_proposal kind p accepted
            then Some (allow_accepted_local_workspace_process_action, ad_permission_profile_id accepted, None)
            else
              case ap_evidence p of
                ProcessAction intent \<Rightarrow>
                  if kind = CommandExec \<and> ap_action_kind p = CommandExec \<and> admission_matches_intent accepted intent
                  then Some
                    (with_risk_tier (classify_tool_action_risk kind (Some p))
                       (if fully_trusted then allow_fully_trusted_action kind else allow_configured_process_action),
                     ad_permission_profile_id accepted, review_reason fully_trusted accepted intent)
                  else None
              | WorkspacePatchEvidence _ \<Rightarrow> None)"

definition route_within_harness ::
    "RuntimeInner \<Rightarrow> ToolActionKind \<Rightarrow> PendingToolCall \<Rightarrow> ActionPolicyDecision \<Rightarrow> ActionProposal
     \<Rightarrow> (tool_route, RuntimeError) result" where
  "route_within_harness inner kind pending decision p =
     (case (ap_evidence p, process_call_requests_permission pending) of
        (ProcessAction intent, True) \<Rightarrow> Ok (RouteProcessPermission intent)
      | _ \<Rightarrow>
          if ri_allow_low_risk_apply_patches inner \<and> tc_name pending = APPLY_PATCH_TOOL_NAME
              \<and> is_low_risk_apply_patch_proposal kind p
          then admit_action_to_generic_executor pending kind allow_low_risk_apply_patch (Some p)
          else
            case process_lane inner kind p of
              Some (lane, profile, review) \<Rightarrow> Ok (RouteProcess lane profile review)
            | None \<Rightarrow>
                let tier = classify_tool_action_risk kind (Some p) in
                if mode_is_fully_trusted (ri_permission_review_mode inner)
                then admit_action_to_generic_executor pending kind
                       (with_risk_tier tier (allow_fully_trusted_action kind)) (Some p)
                else Ok (RouteDenied (with_risk_tier tier decision) (Some p)))"

definition route_proposal ::
    "RuntimeInner \<Rightarrow> ToolActionKind \<Rightarrow> PendingToolCall \<Rightarrow> ActionPolicyDecision \<Rightarrow> ActionProposal
     \<Rightarrow> (tool_route, RuntimeError) result" where
  "route_proposal inner kind pending decision p =
     and_then (plan_harness_violation (ri_active_plan_harness inner) pending kind (Some p)) (\<lambda>violation.
     case violation of
       Some diagnostic \<Rightarrow> Ok (RouteHarnessDenied diagnostic)
     | None \<Rightarrow> route_within_harness inner kind pending decision p)"

text \<open>The proposal of a mutating tool that makes proposals, as its executor answers.\<close>

definition request_proposal ::
    "(route_poll \<Rightarrow> bool) \<Rightarrow> RegisteredTool \<Rightarrow> PendingToolCall \<Rightarrow> (ToolActionPreflight, ToolExecutionError) result
     \<Rightarrow> (ActionProposal option + tool_failure, RuntimeError) result" where
  "request_proposal cancel tool pending proposed =
     (if is_mutating (rg_action_kind tool) \<and> rg_proposals_enabled tool then
        if cancel BeforePropose \<or> cancel DuringPropose \<or> cancel AfterPropose then Err ToolExecutionCancelled
        else
          case proposed of
            Ok (Proposal proposal) \<Rightarrow>
              and_then (map_err ToolExecutionFailed (validate_for_call proposal pending (rg_action_kind tool)))
                (\<lambda>_. Ok (Inl (Some proposal)))
          | Ok NoProposal \<Rightarrow> Ok (Inl None)
          | Ok (Outcome outcome) \<Rightarrow> Ok (Inr outcome)
          | Err ExecutionCancelled \<Rightarrow> Err ToolExecutionCancelled
          | Err (Infrastructure e) \<Rightarrow> Err (ProposerInfrastructure e)
          | Panic \<Rightarrow> Panic
          | Diverge \<Rightarrow> Diverge
      else Ok (Inl None))"

definition route_after_harness ::
    "RuntimeInner \<Rightarrow> (route_poll \<Rightarrow> bool) \<Rightarrow> RegisteredTool \<Rightarrow> PendingToolCall
     \<Rightarrow> (ToolActionPreflight, ToolExecutionError) result \<Rightarrow> (tool_route, RuntimeError) result" where
  "route_after_harness inner cancel tool pending proposed =
     (let kind = rg_action_kind tool;
          fully_trusted = mode_is_fully_trusted (ri_permission_review_mode inner);
          decision = (if fully_trusted then allow_fully_trusted_action kind else decide kind) in
      if is_request_permissions_tool (tc_name pending) \<and> kind = RuntimeControl then Ok RoutePermissionTool
      else if \<not> is_allowed decision
          \<or> (fully_trusted \<and> is_mutating kind \<and> kind \<noteq> Network \<and> rg_proposals_enabled tool)
      then
        and_then (request_proposal cancel tool pending proposed) (\<lambda>answer.
        case answer of
          Inr outcome \<Rightarrow> Ok (RoutePreflightOutcome outcome)
        | Inl proposal \<Rightarrow>
            if cancel AfterProposal then Err ToolExecutionCancelled
            else
              case proposal of
                Some p \<Rightarrow> route_proposal inner kind pending decision p
              | None \<Rightarrow>
                  if fully_trusted then admit_action_to_generic_executor pending kind decision None
                  else Ok (RouteDenied (with_risk_tier (classify_tool_action_risk kind None) decision) None))
      else admit_action_to_generic_executor pending kind decision None)"

definition route_tool_action ::
    "RuntimeInner \<Rightarrow> (route_poll \<Rightarrow> bool) \<Rightarrow> RegisteredTool \<Rightarrow> PendingToolCall
     \<Rightarrow> (ToolActionPreflight, ToolExecutionError) result \<Rightarrow> (tool_route, RuntimeError) result" where
  "route_tool_action inner cancel tool pending proposed =
     and_then (plan_harness_violation (ri_active_plan_harness inner) pending (rg_action_kind tool) None)
       (\<lambda>violation.
     case violation of
       Some diagnostic \<Rightarrow> Ok (RouteHarnessDenied diagnostic)
     | None \<Rightarrow> route_after_harness inner cancel tool pending proposed)"

end
