(* ===== verification/Process_Safety.thy ===== *)
theory Process_Safety
  imports Process_Classify
begin

text \<open>
  What the process classifier guarantees: a script it reads as plain contains nothing a shell would
  expand or redirect, the parser inverts the quoting of arguments, and a command it takes for
  read-only is never one that policy forbids.
\<close>

section \<open>Plain scripts are lexically inert\<close>

text \<open>
  A scanner for shell quoting, independent of the parser: every character with the kind of quotes it
  stands in, the quotes themselves left out, and the state at the end.
\<close>

datatype quote_state = Bare | InSingle | InDouble

abbreviation DQUOTE :: char where "DQUOTE \<equiv> CHR 0x22"

fun quote_step :: "quote_state \<Rightarrow> string \<Rightarrow> quote_state" where
  "quote_step Bare c = (if c = [QUOTE] then InSingle else if c = [DQUOTE] then InDouble else Bare)"
| "quote_step InSingle c = (if c = [QUOTE] then Bare else InSingle)"
| "quote_step InDouble c = (if c = [DQUOTE] then Bare else InDouble)"

fun scan :: "quote_state \<Rightarrow> string list \<Rightarrow> (quote_state \<times> string) list" where
  "scan q [] = []"
| "scan q (c # cs) = (q, c) # scan (quote_step q c) cs"

definition scan_end :: "quote_state \<Rightarrow> string list \<Rightarrow> quote_state" where
  "scan_end q cs = foldl quote_step q cs"

text \<open>Characters a shell acts on outside quotes and inside double quotes.\<close>

definition acts_bare :: "string set" where
  "acts_bare = {''$'', [CHR 0x60], [CHR 0x5C], ''<'', ''>'', ''('', '')'', ''{'', ''}'', ''['', '']'', ''*'', ''?'', ''~'',
     ''#'', ''!''}"

definition acts_in_double :: "string set" where
  "acts_in_double = {''$'', [CHR 0x60], [CHR 0x5C], ''!''}"

fun inert_char :: "quote_state \<times> string \<Rightarrow> bool" where
  "inert_char (Bare, c) = (c \<notin> acts_bare)"
| "inert_char (InSingle, c) = True"
| "inert_char (InDouble, c) = (c \<notin> acts_in_double)"

definition inert_from :: "quote_state \<Rightarrow> string list \<Rightarrow> bool" where
  "inert_from q cs \<longleftrightarrow> list_all inert_char (scan q cs) \<and> scan_end q cs = Bare"

definition inert_script :: "string \<Rightarrow> bool" where
  "inert_script script = inert_from Bare (str_pieces script)"

lemma inert_Nil [simp]: "inert_from Bare []"
  by (simp add: inert_from_def scan_end_def)

lemma inert_Cons: "inert_from q (c # cs) \<longleftrightarrow> inert_char (q, c) \<and> inert_from (quote_step q c) cs"
  by (auto simp: inert_from_def scan_end_def)

lemma single_quoted_inert:
  "parse_plain_single_quoted_shell_fragment w chars = Some (w', rest) \<Longrightarrow>
     inert_from InSingle chars \<longleftrightarrow> inert_from Bare rest"
  by (induction w chars rule: parse_plain_single_quoted_shell_fragment.induct)
    (auto simp: inert_Cons split: if_splits)

lemma double_quoted_inert:
  "parse_plain_double_quoted_shell_fragment w chars = Some (w', rest) \<Longrightarrow>
     inert_from InDouble chars \<longleftrightarrow> inert_from Bare rest"
  by (induction w chars rule: parse_plain_double_quoted_shell_fragment.induct)
    (auto simp: inert_Cons acts_in_double_def split: if_splits)

lemma acts_bare_iff: "c \<in> acts_bare \<longleftrightarrow> shell_word_character_is_disallowed c"
  by (simp add: acts_bare_def shell_word_character_is_disallowed_def)

lemma operator_start_inert:
  "is_shell_sequence_operator_start c \<Longrightarrow> c \<notin> acts_bare \<and> c \<noteq> [QUOTE] \<and> c \<noteq> [DQUOTE]"
  by (auto simp: is_shell_sequence_operator_start_def acts_bare_def)

lemma word_loop_inert:
  "plain_shell_word_loop w chars = Some (w', rest) \<Longrightarrow> inert_from Bare chars \<longleftrightarrow> inert_from Bare rest"
proof (induction w chars rule: plain_shell_word_loop.induct)
  case (2 w c chars)
  show ?case
  proof (cases "space_piece c \<or> is_shell_sequence_operator_start c")
    case False
    consider "c = [QUOTE]" | "c = [DQUOTE]" | "c \<noteq> [QUOTE]" "c \<noteq> [DQUOTE]" by blast
    then show ?thesis
    proof cases
      case 1
      then obtain v r where "parse_plain_single_quoted_shell_fragment w chars = Some (v, r)"
        and "plain_shell_word_loop v r = Some (w', rest)"
        using "2.prems" False by (auto split: option.splits)
      with "2.IH"(1) [OF False 1] 1 single_quoted_inert show ?thesis
        by (auto simp: inert_Cons acts_bare_def)
    next
      case 2
      then obtain v r where "parse_plain_double_quoted_shell_fragment w chars = Some (v, r)"
        and "plain_shell_word_loop v r = Some (w', rest)"
        using "2.prems" False by (auto split: option.splits)
      with "2.IH"(2) [OF False _ 2] 2 double_quoted_inert show ?thesis
        by (auto simp: inert_Cons acts_bare_def)
    next
      case 3
      then show ?thesis
        using "2.prems" "2.IH"(3) [OF False 3] False by (auto simp: inert_Cons acts_bare_iff split: if_splits)
    qed
  qed (use "2.prems" in auto)
qed simp

lemma skip_inert: "inert_from Bare chars \<longleftrightarrow> inert_from Bare (skip_shell_whitespace chars)"
proof (induction chars)
  case (Cons c chars)
  have "space_piece c \<Longrightarrow> c \<notin> acts_bare \<and> c \<noteq> [QUOTE] \<and> c \<noteq> [DQUOTE]"
    by (auto simp: acts_bare_def code_point_def is_whitespace_def)
  with Cons show ?case by (auto simp: skip_shell_whitespace_def inert_Cons)
qed (simp add: skip_shell_whitespace_def)

lemma operator_inert:
  assumes "parse_shell_sequence_operator chars = Some rest"
  shows "inert_from Bare chars \<longleftrightarrow> inert_from Bare rest"
proof -
  have "c \<in> {'';'', ''|'', ''&''} \<Longrightarrow> inert_from Bare (c # cs) \<longleftrightarrow> inert_from Bare cs" for c cs
    by (auto simp: inert_Cons acts_bare_def)
  then show ?thesis
    using assms by (cases chars) (auto simp: Let_def split: if_splits list.splits)
qed

lemma sequence_loop_inert:
  "command_sequence_loop commands current last_op chars = Some result \<Longrightarrow> inert_from Bare chars"
proof (induction commands current last_op chars rule: command_sequence_loop.induct)
  case (1 commands current last_op chars)
  show ?case
  proof (cases "skip_shell_whitespace chars")
    case Nil
    with skip_inert [of chars] show ?thesis by simp
  next
    case (Cons c rest)
    show ?thesis
    proof (cases "is_shell_sequence_operator_start c")
      case True
      then obtain chars' where o: "parse_shell_sequence_operator (c # rest) = Some chars'" and "current \<noteq> []"
        and "command_sequence_loop (commands @ [current]) [] True chars' = Some result"
        using "1.prems" Cons
        by (subst (asm) command_sequence_loop.simps)
          (auto simp del: parse_shell_sequence_operator.simps split: option.splits if_splits)
      with "1.IH"(1) [OF Cons True] have "inert_from Bare chars'" by blast
      with operator_inert [OF o] skip_inert [of chars] Cons show ?thesis by simp
    next
      case False
      then obtain w chars' where o: "parse_plain_shell_word (c # rest) = Some (w, chars')" and "w \<noteq> []"
        and "command_sequence_loop commands (current @ [w]) False chars' = Some result"
        using "1.prems" Cons
        by (subst (asm) command_sequence_loop.simps) (auto split: option.splits if_splits)
      with "1.IH"(2) [OF Cons False _ refl] have "inert_from Bare chars'" by blast
      with word_loop_inert [of "[]"] o skip_inert [of chars] Cons show ?thesis
        by (simp add: parse_plain_shell_word_def)
    qed
  qed
qed

lemma plain_script_inert: "parse_plain_shell_command_sequence script = Some commands \<Longrightarrow> inert_script script"
  unfolding parse_plain_shell_command_sequence_def inert_script_def by (rule sequence_loop_inert)

section \<open>Read-only commands are not forbidden\<close>

definition READ_ONLY_EXECUTABLES :: "string list" where
  "READ_ONLY_EXECUTABLES = [''rustc'', ''rg'', ''sed'', ''git'', ''pwd'', ''true'', ''false'', ''echo'', ''wc'', ''head'',
     ''tail'', ''cargo'', ''ls'', ''cat'']"

lemma read_only_direct_cases:
  assumes "is_read_only_direct_process_argv argv"
  obtains executable args where "argv = executable # args" and "executable \<in> set READ_ONLY_EXECUTABLES"
    and "executable = ''git'' \<Longrightarrow> args \<noteq> [] \<and> is_read_only_git_command (hd args) (tl args)"
  using assms
  by (auto simp: is_read_only_direct_process_argv_def executable_token_is_def READ_ONLY_EXECUTABLES_def
      split: list.splits if_splits)

lemma read_only_executable_names:
  "list_all (\<lambda>e. executable_name e = e \<and> e \<notin> set FORBIDDEN_PROCESS_EXECUTABLES
     \<and> \<not> is_supported_shell_executable_name e \<and> \<not> is_plain_shell_assignment_word e) READ_ONLY_EXECUTABLES"
  by code_simp

lemma read_only_git_subcommand:
  "is_read_only_git_command subcommand args \<Longrightarrow> subcommand \<notin> set FORBIDDEN_GIT_SUBCOMMANDS"
  by (auto simp: is_read_only_git_command_def FORBIDDEN_GIT_SUBCOMMANDS_def split: if_splits)

lemma read_only_direct_not_forbidden:
  assumes "is_read_only_direct_process_argv argv"
  shows "\<not> is_forbidden_direct_process_argv argv \<and> shell_like_process_input_from_argv argv = None
    \<and> shell_command_without_assignment_prefix argv = argv \<and> argv \<noteq> [] \<and> hd argv \<in> set READ_ONLY_EXECUTABLES"
  using assms
proof (rule read_only_direct_cases)
  fix e args
  assume argv: "argv = e # args" and e: "e \<in> set READ_ONLY_EXECUTABLES"
    and git: "e = ''git'' \<Longrightarrow> args \<noteq> [] \<and> is_read_only_git_command (hd args) (tl args)"
  from e read_only_executable_names have "executable_name e = e" "e \<notin> set FORBIDDEN_PROCESS_EXECUTABLES"
    "\<not> is_supported_shell_executable_name e" "\<not> is_plain_shell_assignment_word e"
    by (auto simp: list_all_iff)
  moreover have "e = ''git'' \<Longrightarrow> hd args \<notin> set FORBIDDEN_GIT_SUBCOMMANDS \<and> args \<noteq> []"
    using git read_only_git_subcommand by blast
  ultimately show ?thesis
    using argv e
    by (auto simp: is_forbidden_direct_process_argv_def shell_like_process_input_from_argv_def
        shell_command_without_assignment_prefix_def split: list.splits)
qed

lemma plain_shell_token: "is_supported_plain_shell_token s \<Longrightarrow> is_supported_shell_executable_name s"
proof -
  have "list_all is_supported_shell_executable_name [''bash'', ''sh'', ''zsh'']" by code_simp
  then show "is_supported_plain_shell_token s \<Longrightarrow> is_supported_shell_executable_name s"
    by (auto simp: is_supported_plain_shell_token_def)
qed

lemma read_only_shell_cases:
  assumes "is_read_only_plain_shell_process_argv argv"
  obtains shell flag script commands where "argv = [shell, flag, script]" and "commands \<noteq> []"
    and "parse_plain_shell_command_sequence script = Some commands"
    and "list_all is_read_only_direct_process_argv commands"
    and "shell_like_process_input_from_argv argv = Some \<lparr>si_shell = shell, si_flag = flag, si_script = script\<rparr>"
  using assms plain_shell_token
  by (auto simp: is_read_only_plain_shell_process_argv_def shell_process_input_from_argv_def
      shell_like_process_input_from_argv_def split: list.splits option.splits if_splits)

lemma informational_not_forbidden:
  assumes "is_informational_process_argv argv"
  shows "\<not> is_forbidden_process_argv argv"
proof (cases "is_read_only_direct_process_argv argv")
  case True
  with read_only_direct_not_forbidden show ?thesis by (simp add: is_forbidden_process_argv_def)
next
  case False
  with assms have "is_read_only_plain_shell_process_argv argv" by (simp add: is_informational_process_argv_def)
  then show ?thesis
  proof (rule read_only_shell_cases)
    fix shell flag script commands
    assume "parse_plain_shell_command_sequence script = Some commands"
      and "list_all is_read_only_direct_process_argv commands"
      and "shell_like_process_input_from_argv argv = Some \<lparr>si_shell = shell, si_flag = flag, si_script = script\<rparr>"
    then show ?thesis
      using read_only_direct_not_forbidden
      by (auto simp: is_forbidden_process_argv_def shell_script_contains_forbidden_process_def list_all_iff
          list_ex_iff Let_def)
  qed
qed

lemma classify_informational_iff:
  "classify_process_argv argv = Informational \<longleftrightarrow> is_informational_process_argv argv"
  using informational_not_forbidden by (auto simp: classify_process_argv_def)

lemma low_risk_profile_class:
  assumes "required_process_permission_profile_id intent \<in> {Some READ_ONLY, Some SHELL_READ_ONLY}"
  shows "classify_process_intent intent = Informational \<and> pi_stdin_text intent = None"
  using assms
  by (auto simp: required_process_permission_profile_id_def classify_process_intent_def classify_informational_iff
      is_informational_process_argv_def split: if_splits ProcessIntentClass.splits)


definition sample_intent :: "string \<Rightarrow> ProcessActionIntent" where
  "sample_intent script =
     \<lparr>pi_summary = ''process argv[0]=bash; argc=3; cwd=.'', pi_argv = shell_command_argv script, pi_cwd = None,
      pi_env_policy = EmptyEnv, pi_stdin_text = None, pi_stdout_limit_bytes = 100, pi_stderr_limit_bytes = 100\<rparr>"


section \<open>Quoting and parsing\<close>

declare str_pieces.simps(2) [simp del]

text \<open>Arguments the quoting writes without an escape: not empty, without a single quote.\<close>

definition quotable :: "string \<Rightarrow> bool" where
  "quotable a \<longleftrightarrow> a \<noteq> [] \<and> is_utf8 a \<and> QUOTE \<notin> set a"

definition script_words :: "string list \<Rightarrow> string" where
  "script_words argv = join_strings '' '' (map shell_quote_argument argv)"

definition sequence_operators :: "string list" where
  "sequence_operators = ['';'', ''|'', ''||'', ''&&'']"

fun render_script :: "string list \<Rightarrow> (string \<times> string list) list \<Rightarrow> string" where
  "render_script argv [] = script_words argv"
| "render_script argv ((operator, argv') # rest) =
     script_words argv @ '' '' @ operator @ '' '' @ render_script argv' rest"

text \<open>What follows a word: the end of the script or a space.\<close>

definition word_end :: "string list \<Rightarrow> bool" where
  "word_end r \<longleftrightarrow> r = [] \<or> hd r = '' ''"

lemma space_is_space: "space_piece '' ''"
  by code_simp

lemma word_loop_end: "word_end r \<Longrightarrow> plain_shell_word_loop w r = Some (w, r)"
  using space_is_space by (cases r) (auto simp: word_end_def)

lemma safe_byte_plain:
  assumes "is_safe_shell_word_byte c"
  shows "byte_of c < 128 \<and> \<not> space_piece [c] \<and> \<not> is_shell_sequence_operator_start [c]
    \<and> [c] \<noteq> [QUOTE] \<and> [c] \<noteq> [DQUOTE] \<and> \<not> shell_word_character_is_disallowed [c]"
proof -
  have b: "byte_of c < 128 \<and> 32 < byte_of c"
    using assms
    by (auto simp: is_safe_shell_word_byte_def is_ascii_alphanumeric_def is_ascii_alphabetic_def is_ascii_digit_def)
  then have "\<not> space_piece [c]" by (simp add: code_point_ascii is_whitespace_def)
  moreover have "c \<notin> set ('';|&$<>(){}[]*?~#!'' @ [QUOTE, DQUOTE, CHR 0x60, CHR 0x5C])"
    using assms
    by (auto simp: is_safe_shell_word_byte_def is_ascii_alphanumeric_def is_ascii_alphabetic_def is_ascii_digit_def)
  ultimately show ?thesis
    using b by (auto simp: is_shell_sequence_operator_start_def shell_word_character_is_disallowed_def)
qed

lemma safe_word_loop:
  "list_all is_safe_shell_word_byte a \<Longrightarrow> word_end r \<Longrightarrow>
     plain_shell_word_loop w (map (\<lambda>c. [c]) a @ r) = Some (w @ a, r)"
proof (induction a arbitrary: w)
  case (Cons c a)
  then show ?case using safe_byte_plain [of c] by simp
qed (simp add: word_loop_end)

lemma safe_pieces: "list_all is_safe_shell_word_byte a \<Longrightarrow> str_pieces a = map (\<lambda>c. [c]) a"
  by (induction a) (use safe_byte_plain in \<open>auto simp: str_pieces_ascii\<close>)

lemma single_quoted_loop:
  "[QUOTE] \<notin> set ps \<Longrightarrow> parse_plain_single_quoted_shell_fragment w (ps @ [QUOTE] # r) = Some (w @ concat ps, r)"
  by (induction ps arbitrary: w) auto

lemma quote_in_pieces: "p \<in> set (str_pieces a) \<Longrightarrow> set p \<subseteq> set a"
  by (metis concat_str_pieces set_concat UN_upper)

lemma quoted_pieces:
  assumes "is_utf8 a"
  shows "str_pieces ([QUOTE] @ a @ [QUOTE]) = [QUOTE] # str_pieces a @ [[QUOTE]]"
proof -
  have "byte_of QUOTE < 128" by simp
  with assms show ?thesis by (simp add: str_pieces_ascii str_pieces_append)
qed

lemma no_quote_copy: "QUOTE \<notin> set a \<Longrightarrow>
    concat (map (\<lambda>c. if c = QUOTE then [QUOTE, CHR 0x5C, QUOTE, QUOTE] else [c]) a) = a"
  by (induction a) auto

text \<open>One written argument is read as one word, up to what follows it.\<close>

lemma quoted_word:
  assumes "quotable a"
  shows "\<exists>p ps. str_pieces (shell_quote_argument a) = p # ps \<and> is_utf8 (shell_quote_argument a)
    \<and> \<not> space_piece p \<and> \<not> is_shell_sequence_operator_start p
    \<and> (\<forall>r. word_end r \<longrightarrow> parse_plain_shell_word (p # ps @ r) = Some (a, r))"
proof (cases "list_all is_safe_shell_word_byte a")
  case True
  then obtain c b where a: "a = c # b" using assms by (cases a) (auto simp: quotable_def)
  have q: "shell_quote_argument a = a" using True a by (simp add: shell_quote_argument_def)
  have "parse_plain_shell_word (str_pieces a @ r) = Some (a, r)" if "word_end r" for r
    using safe_word_loop [OF True that, of "[]"] by (simp add: parse_plain_shell_word_def safe_pieces [OF True])
  moreover have "str_pieces a = [c] # str_pieces b" using True a safe_byte_plain [of c] by (simp add: str_pieces_ascii)
  moreover have "\<not> space_piece [c] \<and> \<not> is_shell_sequence_operator_start [c]" using True a safe_byte_plain [of c] by simp
  ultimately show ?thesis using q assms by (auto simp: quotable_def)
next
  case False
  have a: "is_utf8 a" "QUOTE \<notin> set a" "a \<noteq> []" using assms by (auto simp: quotable_def)
  have q: "shell_quote_argument a = [QUOTE] @ a @ [QUOTE]"
    using False a no_quote_copy by (simp add: shell_quote_argument_def)
  have "[QUOTE] \<notin> set (str_pieces a)" using a(2) quote_in_pieces by fastforce
  then have "parse_plain_shell_word ([QUOTE] # (str_pieces a @ [[QUOTE]]) @ r) = Some (a, r)" if "word_end r" for r
    using word_loop_end [OF that] single_quoted_loop [of "str_pieces a" "[]" r]
    by (simp add: parse_plain_shell_word_def code_point_ascii is_whitespace_def is_shell_sequence_operator_start_def)
  moreover have "is_utf8 ([QUOTE] @ a @ [QUOTE])" using a(1) by (simp add: is_utf8_ascii is_utf8_append)
  moreover have "\<not> space_piece [QUOTE] \<and> \<not> is_shell_sequence_operator_start [QUOTE]" by code_simp
  ultimately show ?thesis unfolding q quoted_pieces [OF a(1)] by blast
qed

text \<open>A rendered command is read word by word.\<close>

lemma sequence_word:
  assumes "quotable a" and "word_end r"
  shows "command_sequence_loop commands current last_op (str_pieces (shell_quote_argument a) @ r)
    = command_sequence_loop commands (current @ [a]) False r"
proof -
  from quoted_word [OF assms(1)] obtain p ps where p: "str_pieces (shell_quote_argument a) = p # ps"
    "\<not> space_piece p" "\<not> is_shell_sequence_operator_start p" "parse_plain_shell_word (p # ps @ r) = Some (a, r)"
    using assms(2) by blast
  have "a \<noteq> []" using assms(1) by (simp add: quotable_def)
  with p show ?thesis
    by (subst command_sequence_loop.simps) (simp add: skip_shell_whitespace_def)
qed

lemma sequence_space:
  "command_sequence_loop commands current last_op ('' '' # r) = command_sequence_loop commands current last_op r"
  using space_is_space
  by (subst (1 2) command_sequence_loop.simps) (simp add: skip_shell_whitespace_def)

lemma sequence_words:
  "list_all quotable argv \<Longrightarrow> argv \<noteq> [] \<Longrightarrow> word_end r \<Longrightarrow>
     is_utf8 (script_words argv) \<and>
     command_sequence_loop commands current last_op (str_pieces (script_words argv) @ r)
     = command_sequence_loop commands (current @ argv) False r"
proof (induction argv arbitrary: current last_op)
  case (Cons a argv)
  have a: "quotable a" "is_utf8 (shell_quote_argument a)" using Cons.prems quoted_word [of a] by auto
  show ?case
  proof (cases "argv = []")
    case True
    with a sequence_word [OF a(1) Cons.prems(3)] show ?thesis by (simp add: script_words_def)
  next
    case False
    have w: "script_words (a # argv) = shell_quote_argument a @ CHR '' '' # script_words argv"
      using False by (cases argv) (simp_all add: script_words_def)
    have "str_pieces (script_words (a # argv)) @ r
        = str_pieces (shell_quote_argument a) @ '' '' # (str_pieces (script_words argv) @ r)"
      unfolding w by (simp add: str_pieces_append [OF a(2)] str_pieces_ascii)
    moreover have "word_end ('' '' # (str_pieces (script_words argv) @ r))" by (simp add: word_end_def)
    moreover have "is_utf8 (script_words (a # argv))"
      unfolding w using a(2) Cons.IH Cons.prems False by (simp add: is_utf8_append is_utf8_ascii)
    ultimately show ?thesis
      using Cons.IH [OF _ False Cons.prems(3), of "current @ [a]" False] Cons.prems
      by (simp add: sequence_word [OF a(1)] sequence_space)
  qed
qed simp

lemma sequence_operator:
  assumes "operator \<in> set sequence_operators" and "current \<noteq> []"
  shows "command_sequence_loop commands current last_op (str_pieces (operator @ '' '' @ s))
    = command_sequence_loop (commands @ [current]) [] True (str_pieces s)"
proof -
  have pieces: "str_pieces (operator @ '' '' @ s) = map (\<lambda>c. [c]) operator @ '' '' # str_pieces s"
    using assms(1) by (auto simp: sequence_operators_def str_pieces_ascii)
  have "\<not> space_piece '';''" "\<not> space_piece ''|''" "\<not> space_piece ''&''" by code_simp+
  then have skip: "skip_shell_whitespace (str_pieces (operator @ '' '' @ s)) = str_pieces (operator @ '' '' @ s)"
    unfolding pieces skip_shell_whitespace_def using assms(1)
    by (fastforce simp: sequence_operators_def)
  have run: "parse_shell_sequence_operator (str_pieces (operator @ '' '' @ s)) = Some ('' '' # str_pieces s)"
    unfolding pieces using assms(1) by (auto simp: sequence_operators_def)
  obtain p ps where cs: "str_pieces (operator @ '' '' @ s) = p # ps" and "is_shell_sequence_operator_start p"
    unfolding pieces using assms(1) by (auto simp: sequence_operators_def is_shell_sequence_operator_start_def)
  with skip run assms(2) show ?thesis
    unfolding cs
    by (subst command_sequence_loop.simps) (simp add: sequence_space del: parse_shell_sequence_operator.simps)
qed

lemma sequence_script:
  assumes "list_all (\<lambda>argv. argv \<noteq> [] \<and> list_all quotable argv) (argv # map snd rest)"
    and "list_all (\<lambda>c. fst c \<in> set sequence_operators) rest"
  shows "command_sequence_loop commands [] last_op (str_pieces (render_script argv rest))
    = Some (commands @ argv # map snd rest)"
  using assms
proof (induction argv rest arbitrary: commands last_op rule: render_script.induct)
  case (1 argv)
  have "command_sequence_loop commands argv False [] = Some (commands @ [argv])"
    using 1 by (subst command_sequence_loop.simps) (simp add: skip_shell_whitespace_def)
  with 1 sequence_words [of argv "[]" commands "[]" last_op] show ?case by (simp add: word_end_def)
next
  case (2 argv operator argv' rest)
  let ?r = "operator @ '' '' @ render_script argv' rest"
  have w: "is_utf8 (script_words argv)" using 2 sequence_words [of argv "[]"] by (simp add: word_end_def)
  have "str_pieces (render_script argv ((operator, argv') # rest)) = str_pieces (script_words argv) @ '' '' # str_pieces ?r"
    by (simp add: str_pieces_append [OF w] str_pieces_ascii)
  moreover have "word_end ('' '' # str_pieces ?r)" by (simp add: word_end_def)
  moreover have "command_sequence_loop commands argv False (str_pieces ?r) = Some (commands @ argv # argv' # map snd rest)"
    using 2 by (subst sequence_operator) auto
  ultimately show ?case
    using 2 sequence_words [of argv "'' '' # str_pieces ?r" commands "[]" last_op] by (simp add: sequence_space)
qed



section \<open>Line breaks\<close>


end
