(* ===== verification/Action_Safety.thy ===== *)
theory Action_Safety
  imports Action_Policy Process_Safety
begin

text \<open>
  What routing guarantees: a process runs without a review only when it is not a forbidden command and,
  on an unconfined host, names no outside path; an action of a plan node stays within the harness of
  the node; and the default policy lets no mutating action through.
\<close>

section \<open>Routes\<close>

abbreviation harness_check :: "RuntimeInner \<Rightarrow> ToolActionKind \<Rightarrow> PendingToolCall \<Rightarrow> ActionProposal option
    \<Rightarrow> (ErrorInfo option, RuntimeError) result" where
  "harness_check inner kind pending proposal \<equiv>
     plan_harness_violation (ri_active_plan_harness inner) pending kind proposal"

lemma admit_generic_route:
  "admit_action_to_generic_executor pending kind decision proposal = Ok route \<Longrightarrow> route = RouteExecute decision proposal"
  by (auto simp: admit_action_to_generic_executor_def split: if_splits)

lemma route_proposal_cases:
  assumes "route_proposal inner kind pending decision p = Ok route"
  obtains d where "route = RouteHarnessDenied d"
  | "harness_check inner kind pending (Some p) = Ok None"
    and "route_within_harness inner kind pending decision p = Ok route"
  using assms by (cases "harness_check inner kind pending (Some p)") (auto simp: route_proposal_def split: option.splits)

text \<open>The lanes of a process, with what each of them rests on.\<close>

lemma process_lane_cases:
  assumes "process_lane inner kind p = Some (d, profile, review)"
  obtains intent where "ap_evidence p = ProcessAction intent" and "review = None"
      and "\<not> host_process_path_review inner p"
      and "required_process_permission_profile_id intent \<in> {Some READ_ONLY, Some SHELL_READ_ONLY}"
  | intent where "ap_evidence p = ProcessAction intent" and "review = None"
      and "\<not> host_process_path_review inner p" and "classify_process_intent intent = LocalWorkspaceEffect"
      and "pd_risk_tier d = ProcessLocalWorkspaceEffect"
  | intent accepted where "ap_evidence p = ProcessAction intent" and "kind = CommandExec"
      and "ri_accepted_local_workspace_process_runner inner = Some accepted"
      and "review = review_reason (mode_is_fully_trusted (ri_permission_review_mode inner)) accepted intent"
      and "pd_risk_tier d = classify_tool_action_risk kind (Some p)"
proof (cases "ap_evidence p")
  case (ProcessAction intent)
  with assms that show thesis
    by (auto simp: process_lane_def Let_def with_risk_tier_def is_low_risk_process_action_proposal_def
        is_read_only_shell_process_action_proposal_def is_local_workspace_effect_process_action_proposal_def
        is_low_risk_process_action_intent_def is_read_only_shell_process_action_intent_def
        allow_accepted_local_workspace_process_action_def policy_decision_def
        split: option.split_asm if_split_asm)
next
  case (WorkspacePatchEvidence changes)
  with assms show thesis
    by (auto simp: process_lane_def Let_def is_low_risk_process_action_proposal_def
        is_read_only_shell_process_action_proposal_def is_local_workspace_effect_process_action_proposal_def
        split: option.split_asm if_split_asm)
qed

lemma within_harness_process:
  "route_within_harness inner kind pending decision p = Ok (RouteProcess d profile review) \<Longrightarrow>
     process_lane inner kind p = Some (d, profile, review)"
  by (auto simp: route_within_harness_def Let_def dest!: admit_generic_route
      split: ActionProposalEvidence.split_asm bool.split_asm if_split_asm option.split_asm prod.split_asm)

lemma request_proposal_some:
  assumes "request_proposal cancel tool pending proposed = Ok (Inl (Some p))"
  shows "proposed = Ok (Proposal p) \<and> validate_for_call p pending (rg_action_kind tool) = Ok ()"
  using assms
  by (auto simp: request_proposal_def map_err_def result_simps
      split: if_split_asm result.split_asm ToolActionPreflight.split_asm ToolExecutionError.split_asm)

text \<open>A route without a proposal runs the executor of the tool, denies, or hands the call over.\<close>

fun without_proposal :: "tool_route \<Rightarrow> bool" where
  "without_proposal (RouteExecute d None) = True"
| "without_proposal (RouteDenied d None) = True"
| "without_proposal RoutePermissionTool = True"
| "without_proposal (RoutePreflightOutcome f) = True"
| "without_proposal _ = False"

lemma route_after_harness_cases:
  assumes "route_after_harness inner cancel tool pending proposed = Ok route"
  obtains "without_proposal route"
  | p decision where "proposed = Ok (Proposal p)" and "validate_for_call p pending (rg_action_kind tool) = Ok ()"
      and "route_proposal inner (rg_action_kind tool) pending decision p = Ok route"
proof (cases "request_proposal cancel tool pending proposed")
  case (Ok answer)
  show thesis
  proof (cases "\<exists>p. answer = Inl (Some p)")
    case True
    then obtain p where p: "answer = Inl (Some p)" by blast
    with Ok have "proposed = Ok (Proposal p)" "validate_for_call p pending (rg_action_kind tool) = Ok ()"
      using request_proposal_some by blast+
    then show thesis
      using assms Ok p that
      by (auto simp: route_after_harness_def Let_def dest!: admit_generic_route split: if_split_asm)
  next
    case False
    then have "without_proposal route"
      using assms Ok
      by (cases answer) (auto simp: route_after_harness_def Let_def dest!: admit_generic_route
          split: if_split_asm option.split_asm)
    with that show thesis by blast
  qed
qed (use assms that in \<open>auto simp: route_after_harness_def Let_def dest!: admit_generic_route split: if_split_asm\<close>)

lemma route_tool_action_cases:
  assumes "route_tool_action inner cancel tool pending proposed = Ok route"
  obtains d where "route = RouteHarnessDenied d"
  | "harness_check inner (rg_action_kind tool) pending None = Ok None" and "without_proposal route"
  | p decision where "proposed = Ok (Proposal p)" and "validate_for_call p pending (rg_action_kind tool) = Ok ()"
      and "harness_check inner (rg_action_kind tool) pending (Some p) = Ok None"
      and "route_within_harness inner (rg_action_kind tool) pending decision p = Ok route"
proof (cases "harness_check inner (rg_action_kind tool) pending None")
  case (Ok violation)
  show thesis
  proof (cases violation)
    case None
    with assms Ok have "route_after_harness inner cancel tool pending proposed = Ok route"
      by (simp add: route_tool_action_def)
    then show thesis
      using that Ok None by (elim route_after_harness_cases route_proposal_cases) blast+
  qed (use assms Ok that in \<open>auto simp: route_tool_action_def\<close>)
qed (use assms in \<open>simp_all add: route_tool_action_def\<close>)

lemma within_harness_execute:
  "route_within_harness inner kind pending decision p = Ok (RouteExecute d q) \<Longrightarrow> q = Some p"
  by (auto simp: route_within_harness_def Let_def dest!: admit_generic_route
      split: ActionProposalEvidence.split_asm bool.split_asm if_split_asm option.split_asm prod.split_asm)

section \<open>Reviews\<close>

lemma review_reason_None:
  assumes "review_reason False accepted intent = None"
  shows "classify_process_intent intent \<noteq> ForbiddenIntent
    \<and> (ad_sandbox_profile accepted = SandboxHost \<longrightarrow> \<not> requires_host_process_path_review intent)"
  using assms by (auto simp: review_reason_def requires_process_action_review_def Let_def split: if_splits)

lemma low_tier_informational:
  assumes "classify_tool_action_risk CommandExec (Some p) \<in> {ProcessLow, ProcessShellReadOnly}"
    and "ap_evidence p = ProcessAction intent"
  shows "classify_process_intent intent = Informational"
  using assms low_risk_profile_class [of intent]
  by (auto simp: classify_tool_action_risk_def is_read_only_shell_process_action_intent_def
      split: if_splits ProcessIntentClass.splits)


definition sample_call :: PendingToolCall where
  "sample_call = \<lparr>tc_id = ''call-1'', tc_name = ''run_process'', tc_arguments = []\<rparr>"

definition sample_proposal :: "string \<Rightarrow> ActionProposal" where
  "sample_proposal script = \<lparr>ap_tool_call_id = ''call-1'', ap_tool_name = ''run_process'', ap_action_kind = CommandExec,
     ap_label = ''process'', ap_subject = ''bash'', ap_summary = ''run'', ap_evidence = ProcessAction (sample_intent script)\<rparr>"

definition host_runtime :: RuntimeInner where
  "host_runtime = \<lparr>ri_active_plan_harness = None, ri_permission_review_mode = ReviewRequired,
     ri_allow_low_risk_apply_patches = False, ri_low_risk_process_runner = False,
     ri_read_only_shell_process_runner = False, ri_accepted_local_workspace_process_runner = Some accept_host\<rparr>"

definition process_tool :: RegisteredTool where
  "process_tool = \<lparr>rg_action_kind = CommandExec, rg_proposals_enabled = True\<rparr>"


section \<open>The harness of a plan node\<close>

lemma first_scope_violation_None:
  "first_scope_violation h checks = Ok None \<longleftrightarrow> list_all (\<lambda>(scopes, path). plan_harness_allows_path h scopes path) checks"
  by (induction h checks rule: first_scope_violation.induct) (auto simp: result_simps)

lemma harness_check_None:
  assumes "harness_check inner kind pending proposal = Ok None" and "ri_active_plan_harness inner = Some h"
  shows "tc_name pending \<in> set (ha_allowed_tools h)
    \<and> (\<forall>p. proposal = Some p \<longrightarrow>
         list_all (\<lambda>(scopes, path). plan_harness_allows_path h scopes path) (evidence_paths h (ap_evidence p)))"
  using assms
  by (auto simp: plan_harness_violation_def first_scope_violation_None list_ex_iff result_simps
      split: if_split_asm option.split_asm)

text \<open>An action of a plan node that is run on a proposal was proposed for the call and is within the harness.\<close>

lemma executed_within_harness:
  assumes "route_tool_action inner cancel tool pending proposed = Ok (RouteExecute d (Some p))"
    and "ri_active_plan_harness inner = Some h"
  shows "proposed = Ok (Proposal p) \<and> tc_name pending \<in> set (ha_allowed_tools h)
    \<and> list_all (\<lambda>(scopes, path). plan_harness_allows_path h scopes path) (evidence_paths h (ap_evidence p))"
  using assms(1)
proof (cases rule: route_tool_action_cases)
  case (3 q decision)
  with within_harness_execute have "q = p" by blast
  with 3 harness_check_None [OF _ assms(2)] show ?thesis by blast
qed simp_all

lemma patch_path_in_scope:
  assumes "list_all (\<lambda>(scopes, path). plan_harness_allows_path h scopes path)
      (evidence_paths h (WorkspacePatchEvidence changes))"
    and "c \<in> set changes"
  shows "scope.covers (ha_write_scope h) (ev_relative_path c)
    \<and> (\<forall>f\<in>set (ha_forbidden_paths h). \<not> workspace_scope_contains f (ev_relative_path c))"
  using assms
  by (auto simp: evidence_paths_def plan_harness_allows_path_def list_all_iff list_ex_iff scope.covers_def)

section \<open>The default policy\<close>

text \<open>Outside fully trusted mode only an approved patch reaches the executor of a mutating tool.\<close>

lemma generic_executor_gate:
  assumes "admit_action_to_generic_executor pending kind decision proposal = Ok route" and "is_mutating kind"
    and "\<not> decision_is_fully_trusted decision"
  shows "tc_name pending = APPLY_PATCH_TOOL_NAME \<and> (\<exists>p changes. proposal = Some p \<and> ap_evidence p = WorkspacePatchEvidence changes)"
  using assms
  by (auto simp: admit_action_to_generic_executor_def is_low_risk_apply_patch_proposal_def
      split: if_splits option.splits ActionProposalEvidence.splits)

end
