(* ===== verification/Spec2Isabelle.thy ===== *)
theory Spec2Isabelle
  imports Plan_Findings Plan_Subagent Patch_Guarantees Action_Safety
begin

text \<open>
  A verification library for the parts of \<^verbatim>\<open>merry\<close>, a runtime for coding agents, that decide what an
  agent may do and carry it out: the durable plan, the workspace patch tool, the classification of
  processes, and the routing of tool calls between them.

  \<^bold>\<open>How the parts interact.\<close> A plan (\<^verbatim>\<open>src/crates/merry-runtime/src/plan\<close>) is a tree of nodes, each with a
  harness: the tools and paths an agent working on the node may use. A user authorizes an envelope; the
  plan is edited, approved, executed by attempts under leases, retried and cancelled. A child runtime
  holds a handle on one attempt and asks it for the harness before every tool call. Routing
  (\<^verbatim>\<open>runtime/tool_execution.rs\<close>) checks the call against the harness, asks the tool for a proposal, checks
  the proposal again, and decides by policy whether the call is denied, reviewed, sent to a process
  runner or given to the executor of the tool together with the approved proposal. The patch tool
  (\<^verbatim>\<open>src/crates/merry-tools/src/patch\<close>) parses the envelope, plans every change against the files it reads,
  compares the plan with the approved proposal and writes. The theorem of this theory follows one patch
  through all of these: what reaches the file system is inside what was authorized.

  \<^bold>\<open>Shared theories.\<close>
  \<^item> \<^verbatim>\<open>Prelude\<close>: results with errors, panics and divergence as values, the folds of the \<^verbatim>\<open>?\<close> operator, and
    ordered maps (locale \<^verbatim>\<open>ordered_map\<close>, interpreted on the node maps).
  \<^item> \<^verbatim>\<open>Workspace_Scope\<close>: \<^verbatim>\<open>workspace_scope.rs\<close> over \<^verbatim>\<open>std::path\<close> components; the locale \<^verbatim>\<open>containment\<close> gives the
    laws of scopes and is interpreted on scope containment and, in \<^verbatim>\<open>Plan_Graph\<close>, on capabilities.

  \<^bold>\<open>The plan.\<close> The state is the record \<^verbatim>\<open>PlanState\<close>: the snapshot of \<^verbatim>\<open>merry-core/src/plan.rs\<close> and three 64-bit
  counters.
  \<^item> \<^verbatim>\<open>Plan_Types\<close>: snapshot types, requests (\<^verbatim>\<open>protocol.rs\<close>) and errors (\<^verbatim>\<open>domain/error.rs\<close>).
  \<^item> \<^verbatim>\<open>Plan_Validation\<close>, \<^verbatim>\<open>Plan_Graph\<close>: \<^verbatim>\<open>validation.rs\<close> and its declarative specification: a node vector is
    accepted exactly when its live nodes form a valid plan.
  \<^item> \<^verbatim>\<open>Plan_Tree\<close>, \<^verbatim>\<open>Plan_Refresh\<close>, \<^verbatim>\<open>Plan_Domain\<close>: \<^verbatim>\<open>domain/tree.rs\<close>, the refresh and the ready list of
    \<^verbatim>\<open>execution.rs\<close>, \<^verbatim>\<open>domain.rs\<close> with \<^verbatim>\<open>domain/admission.rs\<close>: edits, approval gate, save and load.
  \<^item> \<^verbatim>\<open>Plan_Attempts\<close>, \<^verbatim>\<open>Plan_Reports\<close>, \<^verbatim>\<open>Plan_Recovery\<close>, \<^verbatim>\<open>Plan_Control\<close>, \<^verbatim>\<open>Plan_Scoped\<close>, \<^verbatim>\<open>Plan_Links\<close>,
    \<^verbatim>\<open>Plan_Subagent\<close>: the remaining operations of \<^verbatim>\<open>execution.rs\<close>, \<^verbatim>\<open>execution/\<close>, \<^verbatim>\<open>recovery.rs\<close>, \<^verbatim>\<open>control.rs\<close>,
    \<^verbatim>\<open>domain/scoped.rs\<close>, \<^verbatim>\<open>controller/transactions/\<close>, \<^verbatim>\<open>subagent_scope.rs\<close> and the handle of \<^verbatim>\<open>subagent.rs\<close>.
  \<^item> \<^verbatim>\<open>Plan_Invariant\<close>, \<^verbatim>\<open>Plan_Preservation\<close>, \<^verbatim>\<open>Plan_Edits\<close>, \<^verbatim>\<open>Plan_System\<close>: the invariant, its preservation by every
    operation, and the step relation \<^verbatim>\<open>plan_step\<close> with the reachable plans (locale \<^verbatim>\<open>metered_system\<close>: a
    system whose steps use up a bounded supply of numbers, interpreted on the plan).
  \<^item> \<^verbatim>\<open>Plan_Ledger\<close>, \<^verbatim>\<open>Plan_Draining\<close>, \<^verbatim>\<open>Plan_Confinement\<close>, \<^verbatim>\<open>Plan_Guarantees\<close>, \<^verbatim>\<open>Plan_Findings\<close>: what follows for
    reachable plans (the refinement of attempts to exclusive claims through the
    locale \<^verbatim>\<open>refined_system\<close>, the envelope, identifiers, the
    completion of a cancellation, confinement of scoped edits, the effect of operations) and the states
    that break an expectation of the code.

  \<^bold>\<open>The patch tool.\<close> Files are a map from absolute names to nodes; every system call can also fail at
  will through the parameter \<^verbatim>\<open>os_env\<close>, and planning and execution see two file systems, so that other
  processes may act in between.
  \<^item> \<^verbatim>\<open>Tool_Text\<close>, \<^verbatim>\<open>Tool_Paths\<close>, \<^verbatim>\<open>Tool_Files\<close>, \<^verbatim>\<open>Tool_Scopes\<close>: strings as UTF-8 bytes, \<^verbatim>\<open>path/validate.rs\<close>, \<^verbatim>\<open>config.rs\<close>,
    \<^verbatim>\<open>state.rs\<close>, \<^verbatim>\<open>path/open.rs\<close>, \<^verbatim>\<open>file.rs\<close>; the write boundary against the scopes of a plan.
  \<^item> \<^verbatim>\<open>Patch_Types\<close>, \<^verbatim>\<open>Patch_Edits\<close>: \<^verbatim>\<open>patch/types.rs\<close> and \<^verbatim>\<open>patch/diagnostic.rs\<close>; the edit engine refines a relation.
  \<^item> \<^verbatim>\<open>Patch_Parse\<close>, \<^verbatim>\<open>Patch_Grammar\<close>: \<^verbatim>\<open>patch/parse.rs\<close>; round trip and well-formedness.
  \<^item> \<^verbatim>\<open>Patch_Plan\<close>, \<^verbatim>\<open>Patch_Apply\<close>, \<^verbatim>\<open>Patch_Safety\<close>, \<^verbatim>\<open>Patch_Guarantees\<close>: \<^verbatim>\<open>patch/plan.rs\<close>, \<^verbatim>\<open>patch/apply.rs\<close> and \<^verbatim>\<open>patch/envelope.rs\<close>;
    what a call can change, what approval binds, and the calls whose effect is not the reported one.

  \<^bold>\<open>Processes and policy.\<close>
  \<^item> \<^verbatim>\<open>Process_Shell\<close>, \<^verbatim>\<open>Process_Intent\<close>, \<^verbatim>\<open>Process_Classify\<close>, \<^verbatim>\<open>Process_Safety\<close>: \<^verbatim>\<open>process/classification/shell.rs\<close>,
    \<^verbatim>\<open>process/validation.rs\<close>, \<^verbatim>\<open>process/contracts.rs\<close>, \<^verbatim>\<open>process/classification.rs\<close>; scripts rated read-only are
    inert, and the parser inverts quoting.
  \<^item> \<^verbatim>\<open>Action_Proposal\<close>, \<^verbatim>\<open>Action_Policy\<close>, \<^verbatim>\<open>Action_Safety\<close>: \<^verbatim>\<open>tool/proposal.rs\<close>, \<^verbatim>\<open>tool/patch_evidence.rs\<close>,
    \<^verbatim>\<open>action_policy.rs\<close>, \<^verbatim>\<open>runtime/tool_execution.rs\<close> up to the point where a call is run, and
    \<^verbatim>\<open>runtime/tool_execution/harness.rs\<close>; no process runs unreviewed that needs a review, and an action of a
    plan node stays within its harness.

  \<^bold>\<open>Bounds.\<close> The refresh of parent states repeats until nothing changes; it is given one round more than
  twice the number of nodes, and \<^verbatim>\<open>refresh_parent_states_settles\<close> shows that this is enough. Counters are 64-bit words;
  a step uses at most 128 numbers, and reachable plans are those of fewer than \<open>2 ^ 56\<close> steps, so that no
  counter wraps. Symbolic links are followed at most forty times, as the kernel does. Link changes enter
  the step relation under the conditions \<^verbatim>\<open>bindable\<close> and \<^verbatim>\<open>link_settles\<close>, because without them binding can
  leave a plan that is not well formed (\<^verbatim>\<open>bind_revives_superseded_node\<close>). Cancellation of a call is a
  predicate on the points where the code polls its token.

  \<^bold>\<open>Not modelled.\<close> The asynchronous actor around the plan, its persistence and journal; JSON encodings,
  schemas and the guidance texts shown to the model; the read tool, tool registration and traces; the
  permission flow, reviews by a model or host and the process runners, which are I/O behind traits; the
  agent loop, providers, command line, web server and Python bindings. The JSON
  texts a contract fingerprint is computed from are parameters of the plan operations (\<^verbatim>\<open>plan_env\<close>).
\<close>

section \<open>A child never edits outside the authorized envelope\<close>

text \<open>The scopes of an envelope bound the paths that every harness within it allows.\<close>

lemma patch_within_envelope:
  assumes "within_envelope h e"
    and "list_all (\<lambda>(scopes, path). plan_harness_allows_path h scopes path)
      (evidence_paths h (WorkspacePatchEvidence changes))"
    and "c \<in> set changes"
  shows "list_ex (\<lambda>s. workspace_scope_contains s (ev_relative_path c)) (ce_write_scope e)
    \<and> \<not> list_ex (\<lambda>f. workspace_scope_contains f (ev_relative_path c)) (ce_forbidden_paths e)"
  using patch_path_in_scope [OF assms(2,3)] assms(1)
  unfolding within_envelope_def scope.within_iff_covers scope.covers_def list_ex_iff by blast


definition child_call :: PendingToolCall where
  "child_call = \<lparr>tc_id = ''call-1'', tc_name = ''apply_patch'', tc_arguments = []\<rparr>"

definition child_proposal :: "WorkspacePatchChangeEvidence \<Rightarrow> ActionProposal" where
  "child_proposal ev = \<lparr>ap_tool_call_id = ''call-1'', ap_tool_name = ''apply_patch'', ap_action_kind = WorkspaceWrite,
     ap_label = ''patch'', ap_subject = ''a.txt'', ap_summary = ''edit'', ap_evidence = WorkspacePatchEvidence [ev]\<rparr>"

definition child_runtime :: RuntimeInner where
  "child_runtime = \<lparr>ri_active_plan_harness = Some patch_harness, ri_permission_review_mode = ReviewRequired,
     ri_allow_low_risk_apply_patches = True, ri_low_risk_process_runner = False,
     ri_read_only_shell_process_runner = False, ri_accepted_local_workspace_process_runner = None\<rparr>"

definition patch_tool :: RegisteredTool where
  "patch_tool = \<lparr>rg_action_kind = WorkspaceWrite, rg_proposals_enabled = True\<rparr>"

lemma child_path_allowed: "plan_harness_allows_path patch_harness [''.''] ''a.txt''"
  by code_simp

lemma child_gate:
  "\<not> is_request_permissions_tool (tc_name child_call)"
  "\<not> mode_is_fully_trusted (ri_permission_review_mode child_runtime)" "\<not> is_allowed (decide WorkspaceWrite)"
  by code_simp+

lemma child_routed:
  assumes "ev_relative_path ev = ''a.txt''"
  shows "route_tool_action child_runtime (\<lambda>_. False) patch_tool child_call (Ok (Proposal (child_proposal ev)))
    = Ok (RouteExecute allow_low_risk_apply_patch (Some (child_proposal ev)))"
proof -
  have checks: "plan_harness_violation (Some patch_harness) child_call WorkspaceWrite None = Ok None"
    "plan_harness_violation (Some patch_harness) child_call WorkspaceWrite (Some (child_proposal ev)) = Ok None"
    using child_path_allowed assms
    by (simp_all add: plan_harness_violation_def child_call_def child_proposal_def effective_path_def
        evidence_paths_def patch_harness_def)
  have harness: "ri_active_plan_harness child_runtime = Some patch_harness" "rg_action_kind patch_tool = WorkspaceWrite"
    by (simp_all add: child_runtime_def patch_tool_def)
  have "request_proposal (\<lambda>_. False) patch_tool child_call (Ok (Proposal (child_proposal ev))) = Ok (Inl (Some (child_proposal ev)))"
    by (simp add: request_proposal_def patch_tool_def is_mutating_def validate_for_call_def child_call_def child_proposal_def
        validate_proposal_evidence_matches_action_kind_def map_err_def)
  moreover have "route_within_harness child_runtime WorkspaceWrite child_call decision (child_proposal ev)
      = Ok (RouteExecute allow_low_risk_apply_patch (Some (child_proposal ev)))" for decision
  proof -
    have "process_call_requests_permission child_call = False" "tc_name child_call = APPLY_PATCH_TOOL_NAME" by code_simp+
    moreover have "is_low_risk_apply_patch_proposal WorkspaceWrite (child_proposal ev)"
      by (simp add: is_low_risk_apply_patch_proposal_def child_proposal_def)
    moreover have "is_allowed allow_low_risk_apply_patch \<and> pd_action_kind allow_low_risk_apply_patch = WorkspaceWrite
        \<and> pd_risk_tier allow_low_risk_apply_patch = EditLow" by code_simp
    ultimately show ?thesis
      by (simp add: route_within_harness_def admit_action_to_generic_executor_def child_runtime_def
          split: ActionProposalEvidence.split)
  qed
  ultimately have "route_after_harness child_runtime (\<lambda>_. False) patch_tool child_call (Ok (Proposal (child_proposal ev)))
      = Ok (RouteExecute allow_low_risk_apply_patch (Some (child_proposal ev)))"
    using child_gate by (simp add: route_after_harness_def route_proposal_def harness checks)
  then show ?thesis by (simp add: route_tool_action_def harness checks)
qed


end
